(* ===== verification/NB_Bytes.thy ===== *)
theory NB_Bytes
  imports NB_Prelude
begin

text \<open>
  Byte streams and fixed-width integers on the wire: \<open>to_be_bytes\<close>/\<open>from_be_bytes\<close> of the
  unsigned types, \<open>read_exact\<close> on a stream given by its remaining bytes, and the locale
  \<open>frame_codec\<close> that states what every framed protocol of the repository promises: a frame
  that was written reads back as the message, with the rest of the stream untouched.
\<close>

section \<open>I/O errors\<close>

datatype IoError =
  NotFound | UnexpectedEof | AlreadyExists | NotADirectory | IsADirectory | InvalidInput | InvalidData | IoOther string

section \<open>Big-endian integers\<close>

fun nat_to_be :: "nat \<Rightarrow> nat \<Rightarrow> bytes" where
  "nat_to_be 0 v = []"
| "nat_to_be (Suc n) v = of_nat (v div 256 ^ n) # nat_to_be n v"

definition be_to_nat :: "bytes \<Rightarrow> nat" where
  "be_to_nat bs = foldl (\<lambda>acc b. acc * 256 + unat b) 0 bs"

definition u16_to_be :: "u16 \<Rightarrow> bytes" where "u16_to_be w = nat_to_be 2 (unat w)"
definition u32_to_be :: "u32 \<Rightarrow> bytes" where "u32_to_be w = nat_to_be 4 (unat w)"
definition u64_to_be :: "u64 \<Rightarrow> bytes" where "u64_to_be w = nat_to_be 8 (unat w)"

definition u16_from_be :: "bytes \<Rightarrow> u16" where "u16_from_be bs = of_nat (be_to_nat bs)"
definition u32_from_be :: "bytes \<Rightarrow> u32" where "u32_from_be bs = of_nat (be_to_nat bs)"
definition u64_from_be :: "bytes \<Rightarrow> u64" where "u64_from_be bs = of_nat (be_to_nat bs)"

lemma unat_lt_u8: "unat (b :: u8) < 256"
  using unsigned_less [of b] by simp

lemma unat_lt_u16: "unat (w :: u16) < 65536"
  using unsigned_less [of w] by simp

lemma unat_lt_u32: "unat (w :: u32) < 4294967296"
  using unsigned_less [of w] by simp

lemma length_nat_to_be [simp, be_simps]: "length (nat_to_be n v) = n"
  by (induction n) auto

lemma foldl_be_shift:
  "foldl (\<lambda>acc (b::u8). acc * 256 + unat b) a bs
    = a * 256 ^ length bs + foldl (\<lambda>acc b. acc * 256 + unat b) 0 bs"
proof (induction bs arbitrary: a)
  case Nil
  then show ?case by simp
next
  case (Cons b bs)
  have "foldl (\<lambda>acc (b::u8). acc * 256 + unat b) (a * 256 + unat b) bs
      = (a * 256 + unat b) * 256 ^ length bs + foldl (\<lambda>acc b. acc * 256 + unat b) 0 bs"
    by (rule Cons)
  moreover have "foldl (\<lambda>acc (b::u8). acc * 256 + unat b) (unat b) bs
      = unat b * 256 ^ length bs + foldl (\<lambda>acc b. acc * 256 + unat b) 0 bs"
    by (rule Cons)
  ultimately show ?case by (simp add: add_mult_distrib)
qed

lemma be_to_nat_Cons: "be_to_nat (b # bs) = unat b * 256 ^ length bs + be_to_nat bs"
  using foldl_be_shift [of "unat b" bs] by (simp add: be_to_nat_def)

lemma be_to_nat_lt: "be_to_nat bs < 256 ^ length bs"
proof (induction bs)
  case Nil
  then show ?case by (simp add: be_to_nat_def)
next
  case (Cons b bs)
  have "unat b \<le> 255" using unat_lt_u8 [of b] by simp
  then have "unat b * 256 ^ length bs \<le> 255 * 256 ^ length bs" by (rule mult_le_mono1)
  then have "be_to_nat (b # bs) < 256 * 256 ^ length bs"
    unfolding be_to_nat_Cons using Cons by linarith
  then show ?case by simp
qed

lemma be_to_nat_nat_to_be [be_simps]: "be_to_nat (nat_to_be n v) = v mod 256 ^ n"
proof (induction n)
  case 0
  then show ?case by (simp add: be_to_nat_def)
next
  case (Suc n)
  have "v mod 256 ^ Suc n = 256 ^ n * (v div 256 ^ n mod 256) + v mod 256 ^ n"
    by (metis mod_mult2_eq mult.commute power_Suc)
  then show ?case
    by (simp add: be_to_nat_Cons Suc unat_of_nat)
qed

lemma u16_be_inverse [simp, be_simps]: "u16_from_be (u16_to_be w) = w"
  using unat_lt_u16 [of w]
  by (simp add: u16_from_be_def u16_to_be_def be_to_nat_nat_to_be)

lemma u32_be_inverse [simp, be_simps]: "u32_from_be (u32_to_be w) = w"
  using unat_lt_u32 [of w]
  by (simp add: u32_from_be_def u32_to_be_def be_to_nat_nat_to_be)

lemma u64_be_inverse [simp, be_simps]: "u64_from_be (u64_to_be w) = w"
  using unat_lt_u64 [of w]
  by (simp add: u64_from_be_def u64_to_be_def be_to_nat_nat_to_be)

lemma length_be [simp, be_simps]:
  "length (u16_to_be a) = 2" "length (u32_to_be b) = 4" "length (u64_to_be c) = 8"
  by (simp_all add: u16_to_be_def u32_to_be_def u64_to_be_def)

lemma nat_to_be_mod: "nat_to_be n (v mod 256 ^ n) = nat_to_be n v"
proof -
  have "nat_to_be k (v mod 256 ^ n) = nat_to_be k v" if "k \<le> n" for k
    using that
  proof (induction k)
    case (Suc k)
    have "(v mod 256 ^ n) div 256 ^ k mod 256 = v div 256 ^ k mod 256"
    proof -
      obtain d where n: "n = k + Suc d" using Suc.prems less_iff_Suc_add by (metis Suc_le_lessD add_Suc_right)
      have "v mod 256 ^ n = v mod (256 ^ k * 256 ^ Suc d)" by (simp only: n power_add)
      then have "(v mod 256 ^ n) div 256 ^ k = v div 256 ^ k mod 256 ^ Suc d"
        by (simp add: mod_mult2_eq)
      then show ?thesis by (simp add: mod_mult2_eq mod_mod_cancel)
    qed
    then have "(of_nat ((v mod 256 ^ n) div 256 ^ k) :: u8) = of_nat (v div 256 ^ k)"
      by (simp add: word_of_nat_eq_iff take_bit_eq_mod)
    with Suc show ?case by simp
  qed simp
  then show ?thesis by simp
qed

lemma nat_to_be_be_to_nat: "nat_to_be (length bs) (be_to_nat bs) = bs"
proof (induction bs)
  case (Cons b bs)
  have "(unat b * 256 ^ length bs + be_to_nat bs) div 256 ^ length bs = unat b"
    using be_to_nat_lt [of bs] by simp
  moreover have "nat_to_be (length bs) (unat b * 256 ^ length bs + be_to_nat bs) = bs"
    using nat_to_be_mod [of "length bs" "unat b * 256 ^ length bs + be_to_nat bs"]
      nat_to_be_mod [of "length bs" "be_to_nat bs"] Cons by simp
  ultimately show ?case by (simp add: be_to_nat_Cons)
qed simp

lemma u16_to_from_be: "length bs = 2 \<Longrightarrow> u16_to_be (u16_from_be bs) = bs"
  using nat_to_be_be_to_nat [of bs] be_to_nat_lt [of bs]
  by (simp add: u16_from_be_def u16_to_be_def unat_of_nat)

lemma u32_to_from_be: "length bs = 4 \<Longrightarrow> u32_to_be (u32_from_be bs) = bs"
  using nat_to_be_be_to_nat [of bs] be_to_nat_lt [of bs]
  by (simp add: u32_from_be_def u32_to_be_def unat_of_nat)

lemma u64_to_from_be: "length bs = 8 \<Longrightarrow> u64_to_be (u64_from_be bs) = bs"
  using nat_to_be_be_to_nat [of bs] be_to_nat_lt [of bs]
  by (simp add: u64_from_be_def u64_to_be_def unat_of_nat)

lemma unat_of_nat_u16: "n < 2 ^ 16 \<Longrightarrow> unat (of_nat n :: u16) = n"
  by (simp add: unat_of_nat)

lemma unat_of_nat_u32: "n < 2 ^ 32 \<Longrightarrow> unat (of_nat n :: u32) = n"
  by (simp add: unat_of_nat)

lemma unat_of_nat_u64: "n < 2 ^ 64 \<Longrightarrow> unat (of_nat n :: u64) = n"
  by (simp add: unat_of_nat)

section \<open>Reading from a stream\<close>

definition read_exact :: "(IoError \<Rightarrow> 'e) \<Rightarrow> nat \<Rightarrow> bytes \<Rightarrow> 'e + bytes \<times> bytes" where
  "read_exact io n s = (if length s < n then Inl (io UnexpectedEof) else Inr (take n s, drop n s))"

lemma read_exact_append [simp, be_simps]:
  "length xs = n \<Longrightarrow> read_exact io n (xs @ ys) = Inr (xs, ys)"
  by (simp add: read_exact_def)

lemma read_exact_Inr_iff:
  "read_exact io n s = Inr (xs, ys) \<longleftrightarrow> s = xs @ ys \<and> length xs = n"
  by (auto simp: read_exact_def not_less)

lemma read_exact_short [simp]: "length s < n \<Longrightarrow> read_exact io n s = Inl (io UnexpectedEof)"
  by (simp add: read_exact_def)

section \<open>Framed codecs\<close>

text \<open>
  \<open>enc\<close> writes one message (or refuses it), \<open>dec\<close> reads one message from the front of a
  stream and returns what is left. \<open>good\<close> is the set of messages the reader is bound to accept.
  The client of a codec sends a sequence of messages back to back; \<open>write_all_msgs\<close> and
  \<open>read_n_msgs\<close> are the loops it runs.
\<close>

fun write_all_msgs :: "('a \<Rightarrow> 'e + bytes) \<Rightarrow> 'a list \<Rightarrow> 'e + bytes" where
  "write_all_msgs enc [] = Inr []"
| "write_all_msgs enc (m # ms) =
     res_bind (enc m) (\<lambda>bs. res_map (\<lambda>rest. bs @ rest) (write_all_msgs enc ms))"

fun read_n_msgs :: "(bytes \<Rightarrow> 'e + 'a \<times> bytes) \<Rightarrow> nat \<Rightarrow> bytes \<Rightarrow> 'e + 'a list \<times> bytes" where
  "read_n_msgs dec 0 s = Inr ([], s)"
| "read_n_msgs dec (Suc n) s =
     res_bind (dec s) (\<lambda>(m, s'). res_map (\<lambda>(ms, r). (m # ms, r)) (read_n_msgs dec n s'))"

locale frame_codec =
  fixes enc :: "'a \<Rightarrow> 'e + bytes"
    and dec :: "bytes \<Rightarrow> 'e + 'a \<times> bytes"
    and good :: "'a \<Rightarrow> bool"
  assumes dec_enc: "good m \<Longrightarrow> enc m = Inr bs \<Longrightarrow> dec (bs @ rest) = Inr (m, rest)"
    and enc_nonempty: "enc m = Inr bs \<Longrightarrow> bs \<noteq> []"
begin

lemma read_write_all:
  "\<forall>m \<in> set ms. good m \<Longrightarrow> write_all_msgs enc ms = Inr bs
    \<Longrightarrow> read_n_msgs dec (length ms) (bs @ rest) = Inr (ms, rest)"
proof (induction ms arbitrary: bs)
  case Nil
  then show ?case by simp
next
  case (Cons m ms)
  from Cons.prems obtain b bs' where b: "enc m = Inr b" and bs': "write_all_msgs enc ms = Inr bs'"
    and bs: "bs = b @ bs'"
    by (auto simp: res_iffs)
  have "dec (b @ bs' @ rest) = Inr (m, bs' @ rest)"
    using Cons.prems b by (intro dec_enc) auto
  moreover have "read_n_msgs dec (length ms) (bs' @ rest) = Inr (ms, rest)"
    using Cons bs' by simp
  ultimately show ?case by (simp add: bs)
qed

lemma enc_inject: "good m \<Longrightarrow> good m' \<Longrightarrow> enc m = Inr bs \<Longrightarrow> enc m' = Inr bs \<Longrightarrow> m = m'"
  using dec_enc [of m bs "[]"] dec_enc [of m' bs "[]"] by simp

lemma enc_prefix_free:
  assumes "good m" "good m'" "enc m = Inr bs" "enc m' = Inr (bs @ zs)"
  shows "m = m' \<and> zs = []"
proof -
  have "dec (bs @ zs) = Inr (m, zs)" using assms(1,3) by (rule dec_enc)
  moreover have "dec ((bs @ zs) @ []) = Inr (m', [])" using assms(2,4) by (rule dec_enc)
  ultimately show ?thesis by simp
qed

end

end
