(* ===== verification/Native_Error.thy ===== *)
theory Native_Error
  imports NB_Bytes
begin

text \<open>
  The error type of the native protocol crate, \<open>error.rs\<close>. I/O and JSON errors carry their kind
  or message; the others carry the message the source formats.
\<close>

datatype NativeError =
    Io IoError
  | Json string
  | Crypto string
  | Protocol string
  | Transport string
  | NoDirectPath "string list" string "string option"
  | Manifest string

type_synonym 'a native_result = "NativeError + 'a"

end
