(* ===== verification/NB_Ranges.thy ===== *)
theory NB_Ranges
  imports NB_Prelude
begin

text \<open>
  Byte ranges as intervals of natural numbers. The native protocol keeps the verified part of a
  file as a list of ranges and merges it with the same loop in \<open>chunk.rs\<close> and in
  \<open>manifest.rs\<close>. This theory holds the reference version of that loop on half-open intervals,
  the canonical form it computes, and the locale \<open>byte_ranges\<close> through which both modules get
  their correctness: what a merged list covers, when a range lies inside it, and when it is the
  whole file.
\<close>

section \<open>Intervals and what they cover\<close>

type_synonym interval = "nat \<times> nat"

abbreviation iv_set :: "interval \<Rightarrow> nat set" where
  "iv_set p \<equiv> {fst p..<snd p}"

definition covered :: "interval list \<Rightarrow> nat set" where
  "covered xs = (\<Union>p \<in> set xs. iv_set p)"

definition canonical :: "interval list \<Rightarrow> bool" where
  "canonical xs \<longleftrightarrow> (\<forall>p \<in> set xs. fst p < snd p) \<and> sorted_wrt (\<lambda>p q. snd p < fst q) xs"

text \<open>The merge loop; \<open>acc\<close> is the output vector with its last element first.\<close>

fun amerge :: "interval list \<Rightarrow> interval list \<Rightarrow> interval list" where
  "amerge acc [] = rev acc"
| "amerge [] (r # rs) = amerge [r] rs"
| "amerge (l # acc) (r # rs) =
     (if fst r \<le> snd l then amerge ((fst l, max (snd r) (snd l)) # acc) rs
      else amerge (r # l # acc) rs)"

text \<open>The planning loop: consecutive intervals of length \<open>c\<close> from \<open>k\<close>, the last one cut at \<open>n\<close>.\<close>

function aplan :: "nat \<Rightarrow> nat \<Rightarrow> nat \<Rightarrow> interval list" where
  "aplan n c k = (if c = 0 \<or> n \<le> k then [] else (k, k + min c (n - k)) # aplan n c (k + min c (n - k)))"
  by pat_completeness auto
termination by (relation "measure (\<lambda>(n, c, k). n - k)") auto

declare aplan.simps [simp del]

lemma covered_simps [simp]:
  "covered [] = {}"
  "covered (p # xs) = iv_set p \<union> covered xs"
  "covered (xs @ ys) = covered xs \<union> covered ys"
  "covered (rev xs) = covered xs"
  by (auto simp: covered_def)

lemma covered_cong_set: "set xs = set ys \<Longrightarrow> covered xs = covered ys"
  by (simp add: covered_def)

lemma covered_iff: "x \<in> covered xs \<longleftrightarrow> (\<exists>p \<in> set xs. fst p \<le> x \<and> x < snd p)"
  by (auto simp: covered_def)

lemma covered_map_iff: "x \<in> covered (map f xs) \<longleftrightarrow> (\<exists>r \<in> set xs. x \<in> iv_set (f r))"
  by (simp add: covered_def)

lemma covered_mono: "set xs \<subseteq> set ys \<Longrightarrow> covered xs \<subseteq> covered ys"
  by (auto simp: covered_def)

lemma canonical_Nil [simp]: "canonical []"
  by (simp add: canonical_def)

section \<open>The merge loop computes the canonical form\<close>

lemma amerge_covered:
  "\<lbrakk>sorted (map fst rs); \<forall>r \<in> set rs. acc \<noteq> [] \<longrightarrow> fst (hd acc) \<le> fst r\<rbrakk>
    \<Longrightarrow> covered (amerge acc rs) = covered acc \<union> covered rs"
proof (induction acc rs rule: amerge.induct)
  case (3 l acc r rs)
  show ?case
  proof (cases "fst r \<le> snd l")
    case True
    have "iv_set (fst l, max (snd r) (snd l)) = iv_set l \<union> iv_set r"
      using True 3(4) by (auto simp: max_def)
    then show ?thesis using 3(1) [OF True] 3(3,4) True by auto
  next
    case False
    then show ?thesis using 3(2) [OF False] 3(3,4) by auto
  qed
qed auto

lemma amerge_canonical:
  "\<lbrakk>canonical (rev acc); sorted (map fst rs); \<forall>r \<in> set rs. fst r < snd r;
    \<forall>r \<in> set rs. acc \<noteq> [] \<longrightarrow> fst (hd acc) \<le> fst r\<rbrakk> \<Longrightarrow> canonical (amerge acc rs)"
proof (induction acc rs rule: amerge.induct)
  case (2 r rs)
  then show ?case by (auto simp: canonical_def)
next
  case (3 l acc r rs)
  show ?case
  proof (cases "fst r \<le> snd l")
    case True
    have "canonical (rev ((fst l, max (snd r) (snd l)) # acc))"
      using 3(3) by (auto simp: canonical_def sorted_wrt_append)
    then show ?thesis using 3(1) [OF True] 3(4-6) True by auto
  next
    case False
    have "canonical (rev (r # l # acc))"
      using 3(3,5) False by (force simp: canonical_def sorted_wrt_append)
    then show ?thesis using 3(2) [OF False] 3(4-6) False by auto
  qed
qed auto

definition amerged :: "interval list \<Rightarrow> interval list" where
  "amerged xs = amerge [] (sort_key fst xs)"

lemma amerged_covered [simp]: "covered (amerged xs) = covered xs"
  unfolding amerged_def by (subst amerge_covered) (simp_all add: covered_def)

lemma amerged_canonical: "\<forall>r \<in> set xs. fst r < snd r \<Longrightarrow> canonical (amerged xs)"
  unfolding amerged_def by (rule amerge_canonical) auto

section \<open>Canonical lists\<close>

lemma canonical_sep:
  assumes "canonical xs" "p \<in> set xs" "q \<in> set xs" "p \<noteq> q"
  shows "snd p < fst q \<or> snd q < fst p"
proof -
  obtain i j where ij: "i < length xs" "j < length xs" "xs ! i = p" "xs ! j = q"
    using assms by (metis in_set_conv_nth)
  with assms(4) have "i < j \<or> j < i" by (metis nat_neq_iff)
  then show ?thesis
    using assms(1) ij by (auto simp: canonical_def sorted_wrt_iff_nth_less)
qed

lemma canonical_inside:
  assumes "canonical xs" "c < d"
  shows "{c..<d} \<subseteq> covered xs \<longleftrightarrow> (\<exists>p \<in> set xs. fst p \<le> c \<and> d \<le> snd p)"
proof
  assume sub: "{c..<d} \<subseteq> covered xs"
  then obtain p where p: "p \<in> set xs" "fst p \<le> c" "c < snd p"
    using assms(2) by (meson atLeastLessThan_iff covered_iff order_refl subsetD)
  have "d \<le> snd p"
  proof (rule ccontr)
    assume "\<not> d \<le> snd p"
    then have "snd p \<in> covered xs" using sub p by auto
    then obtain q where q: "q \<in> set xs" "fst q \<le> snd p" "snd p < snd q"
      by (auto simp: covered_iff)
    then have "p \<noteq> q" by auto
    then show False using canonical_sep [OF assms(1) p(1) q(1)] p q by auto
  qed
  with p show "\<exists>p \<in> set xs. fst p \<le> c \<and> d \<le> snd p" by blast
next
  assume "\<exists>p \<in> set xs. fst p \<le> c \<and> d \<le> snd p"
  then show "{c..<d} \<subseteq> covered xs" by (force simp: covered_iff)
qed

lemma canonical_set_subset:
  assumes "canonical xs" "canonical ys" "covered xs = covered ys"
  shows "set xs \<subseteq> set ys"
proof
  fix p assume p: "p \<in> set xs"
  then have ne: "fst p < snd p" using assms(1) by (auto simp: canonical_def)
  have "iv_set p \<subseteq> covered ys" using p unfolding assms(3) [symmetric] by (auto simp: covered_iff)
  then obtain q where q: "q \<in> set ys" "fst q \<le> fst p" "snd p \<le> snd q"
    using canonical_inside [OF assms(2) ne] by auto
  then have "iv_set q \<subseteq> covered xs" unfolding assms(3) by (auto simp: covered_iff)
  then obtain r where r: "r \<in> set xs" "fst r \<le> fst q" "snd q \<le> snd r"
    using canonical_inside [OF assms(1), of "fst q" "snd q"] ne q by auto
  then have "r = p" using canonical_sep [OF assms(1) r(1) p] ne q by (cases "r = p") auto
  then have "q = p" using q r by (simp add: prod_eq_iff)
  then show "p \<in> set ys" using q by simp
qed

lemma canonical_strict: "canonical xs \<Longrightarrow> sorted (map fst xs) \<and> distinct (map fst xs)"
proof (induction xs)
  case (Cons p xs)
  then show ?case by (force simp: canonical_def)
qed simp

theorem canonical_unique:
  assumes "canonical xs" "canonical ys" "covered xs = covered ys"
  shows "xs = ys"
proof -
  have st: "set xs = set ys"
    using canonical_set_subset assms by (metis subset_antisym)
  have "map fst xs = map fst ys"
    using canonical_strict [OF assms(1)] canonical_strict [OF assms(2)] st
    by (intro sorted_distinct_set_unique) auto
  moreover have "inj_on fst (set xs \<union> set ys)"
    using canonical_strict [OF assms(1)] st by (simp add: distinct_map)
  ultimately show ?thesis by (simp add: inj_on_map_eq_map)
qed

lemma canonical_whole:
  assumes "canonical xs" "0 < n"
  shows "xs = [(0, n)] \<longleftrightarrow> covered xs = {0..<n}"
proof
  assume "covered xs = {0..<n}"
  moreover have "canonical [(0, n)]" using assms(2) by (simp add: canonical_def)
  ultimately show "xs = [(0, n)]" using assms(1) by (intro canonical_unique) auto
qed simp

section \<open>The planning loop\<close>

lemma aplan_covered: "0 < c \<Longrightarrow> covered (aplan n c k) = {k..<n}"
proof (induction n c k rule: aplan.induct)
  case (1 n c k)
  then show ?case by (cases "n \<le> k") (auto simp: aplan.simps [of n c k])
qed

lemma aplan_mem:
  "p \<in> set (aplan n c k) \<Longrightarrow> k \<le> fst p \<and> fst p < snd p \<and> snd p \<le> n \<and> snd p \<le> fst p + c
     \<and> (\<exists>i. fst p = k + i * c)"
proof (induction n c k rule: aplan.induct)
  case (1 n c k)
  show ?case
  proof (cases "c = 0 \<or> n \<le> k \<or> p = (k, k + min c (n - k))")
    case True
    with 1(2) show ?thesis
      by (auto simp: aplan.simps [of n c k] intro: exI [of _ 0] split: if_splits)
  next
    case False
    with 1 have IH: "k + min c (n - k) \<le> fst p" "fst p < snd p" "snd p \<le> n" "snd p \<le> fst p + c"
      "\<exists>i. fst p = k + min c (n - k) + i * c"
      by (auto simp: aplan.simps [of n c k])
    then have "min c (n - k) = c" by auto
    with IH obtain i where "fst p = k + Suc i * c" by auto
    then have "\<exists>i. fst p = k + i * c" by blast
    moreover have "k \<le> fst p" using IH(1) by simp
    ultimately show ?thesis using IH(2-4) by simp
  qed
qed

lemma aplan_consecutive: "sorted_wrt (\<lambda>p q. snd p \<le> fst q) (aplan n c k)"
proof (induction n c k rule: aplan.induct)
  case (1 n c k)
  then show ?case by (subst aplan.simps) (auto dest: aplan_mem)
qed

lemma aplan_length: "0 < c \<Longrightarrow> length (aplan n c k) = (n - k + (c - 1)) div c"
proof (induction n c k rule: aplan.induct)
  case (1 n c k)
  show ?case
  proof (cases "n \<le> k")
    case True
    then show ?thesis using 1(2) by (simp add: aplan.simps [of n c k])
  next
    case False
    show ?thesis
    proof (cases "c \<le> n - k")
      case True
      then have "n - k + (c - 1) = c + (n - (k + c) + (c - 1))" by auto
      then have "(n - k + (c - 1)) div c = (c + (n - (k + c) + (c - 1))) div c" by (rule arg_cong)
      also have "\<dots> = Suc ((n - (k + c) + (c - 1)) div c)"
        using 1(2) by (subst div_add_self1) auto
      finally have "(n - k + (c - 1)) div c = Suc ((n - (k + c) + (c - 1)) div c)" .
      then show ?thesis using 1 False True by (simp add: aplan.simps [of n c k] min_absorb1)
    next
      case c: False
      then have eq: "n - k + (c - 1) = c + (n - k - 1)" using False by auto
      have "(n - k - 1) div c = 0" using c by simp
      then have "(n - k + (c - 1)) div c = 1" unfolding eq using 1(2) by (subst div_add_self1) auto
      then show ?thesis using c False 1(2) by (simp add: aplan.simps [of n c k] aplan.simps [of n c n] min_def)
    qed
  qed
qed

section \<open>Stable sorting by offset\<close>

lemma sort_key_map: "sort_key f (map g xs) = map g (sort_key (f \<circ> g) xs)"
proof (induction xs)
  case (Cons x xs)
  have "insort_key f (g x) (map g ys) = map g (insort_key (f \<circ> g) x ys)" for ys
    by (induction ys) auto
  with Cons show ?case by (simp add: comp_def)
qed simp

lemma insort_key_cong_word:
  "insort_key (\<lambda>r. unat (f r)) x ys = insort_key f x ys" for f :: "'a \<Rightarrow> u64"
  by (induction ys) (auto simp: word_le_nat_alt)

lemma sort_key_unat: "sort_key (\<lambda>r. unat (f r)) xs = sort_key f xs" for f :: "'a \<Rightarrow> u64"
  by (induction xs) (auto simp: insort_key_cong_word)

section \<open>The interface of the range modules\<close>

text \<open>
  A module of byte ranges gives the interval of a range, its loop \<open>merge\<close> and its containment
  test \<open>inside\<close>. It promises that on well-formed ranges the merge is the reference merge on
  intervals and that the test looks for one interval that contains the range.
\<close>

locale byte_ranges =
  fixes iv :: "'r \<Rightarrow> interval"
    and wf :: "'r \<Rightarrow> bool"
    and merge :: "'r list \<Rightarrow> 'e + 'r list"
    and inside :: "'r \<Rightarrow> 'r list \<Rightarrow> bool"
  assumes iv_inj: "wf r \<Longrightarrow> wf q \<Longrightarrow> iv r = iv q \<Longrightarrow> r = q"
    and iv_nonempty: "wf r \<Longrightarrow> fst (iv r) < snd (iv r)"
    and merge_refines: "\<forall>r \<in> set rs. wf r \<Longrightarrow>
          \<exists>ms. merge rs = Inr ms \<and> (\<forall>m \<in> set ms. wf m) \<and> map iv ms = amerged (map iv rs)"
    and inside_refines: "wf r \<Longrightarrow> \<forall>m \<in> set ms. wf m \<Longrightarrow>
          inside r ms \<longleftrightarrow> (\<exists>m \<in> set ms. fst (iv m) \<le> fst (iv r) \<and> snd (iv r) \<le> snd (iv m))"
begin

lemma merge_ok:
  assumes "\<forall>r \<in> set rs. wf r"
  obtains ms where "merge rs = Inr ms" "\<forall>m \<in> set ms. wf m" "canonical (map iv ms)"
    "covered (map iv ms) = covered (map iv rs)"
proof -
  obtain ms where "merge rs = Inr ms" "\<forall>m \<in> set ms. wf m" "map iv ms = amerged (map iv rs)"
    using merge_refines [OF assms] by blast
  moreover have "canonical (amerged (map iv rs))"
    using assms iv_nonempty by (intro amerged_canonical) auto
  ultimately show ?thesis using that by auto
qed

lemma merge_unique:
  assumes "\<forall>r \<in> set rs. wf r" "\<forall>r \<in> set qs. wf r" "covered (map iv rs) = covered (map iv qs)"
  shows "merge rs = merge qs"
proof -
  obtain ms where ms: "merge rs = Inr ms" "\<forall>m \<in> set ms. wf m" "canonical (map iv ms)"
    "covered (map iv ms) = covered (map iv rs)" using merge_ok [OF assms(1)] .
  obtain ns where ns: "merge qs = Inr ns" "\<forall>m \<in> set ns. wf m" "canonical (map iv ns)"
    "covered (map iv ns) = covered (map iv qs)" using merge_ok [OF assms(2)] .
  have "map iv ms = map iv ns" using ms ns assms(3) by (intro canonical_unique) auto
  moreover have "inj_on iv (set ms \<union> set ns)"
    using ms(2) ns(2) by (intro inj_onI) (auto intro: iv_inj)
  ultimately show ?thesis using ms(1) ns(1) by (simp add: inj_on_map_eq_map)
qed

lemma merge_idem:
  "\<forall>r \<in> set rs. wf r \<Longrightarrow> merge rs = Inr ms \<Longrightarrow> merge ms = Inr ms"
  by (metis merge_ok merge_unique sum.inject(2))

lemma inside_merge_iff:
  assumes "\<forall>r \<in> set rs. wf r" "wf q" "merge rs = Inr ms"
  shows "inside q ms \<longleftrightarrow> iv_set (iv q) \<subseteq> covered (map iv rs)"
proof -
  obtain ns where ms: "merge rs = Inr ns" "\<forall>m \<in> set ns. wf m" "canonical (map iv ns)"
    "covered (map iv ns) = covered (map iv rs)" using merge_ok [OF assms(1)] .
  with assms(3) have [simp]: "ns = ms" by simp
  have "inside q ms \<longleftrightarrow> (\<exists>m \<in> set ms. fst (iv m) \<le> fst (iv q) \<and> snd (iv q) \<le> snd (iv m))"
    using inside_refines assms(2) ms(2) by auto
  also have "\<dots> \<longleftrightarrow> iv_set (iv q) \<subseteq> covered (map iv rs)"
    using canonical_inside [OF ms(3) iv_nonempty [OF assms(2)]] ms(4) by auto
  finally show ?thesis .
qed

lemma merge_whole_iff:
  assumes "\<forall>r \<in> set rs. wf r" "wf w" "iv w = (0, n)"
  shows "merge rs = Inr [w] \<longleftrightarrow> covered (map iv rs) = {0..<n}"
proof -
  obtain ms where ms: "merge rs = Inr ms" "\<forall>m \<in> set ms. wf m" "canonical (map iv ms)"
    "covered (map iv ms) = covered (map iv rs)" using merge_ok [OF assms(1)] .
  have n: "0 < n" using iv_nonempty [OF assms(2)] assms(3) by simp
  have "ms = [w] \<longleftrightarrow> map iv ms = [(0, n)]"
    using assms(2,3) ms(2) by (auto simp: Cons_eq_map_conv map_eq_Cons_conv intro: iv_inj)
  then show ?thesis using ms canonical_whole [OF ms(3) n] by simp
qed

end

end
