(* ===== verification/Chunk.thy ===== *)
theory Chunk
  imports Native_Error NB_Ranges "HOL-Library.While_Combinator"
begin

text \<open>
  Chunk planning and resume arithmetic, \<open>protocol-native-v1/src/chunk.rs\<close>. Offsets and lengths
  are 64-bit words; additions the source checks are checked, the subtractions and the offset
  increment it leaves unchecked wrap. The module is an instance of the interface \<open>byte_ranges\<close>:
  its merge loop refines the reference merge on intervals, so that planning the missing chunks
  and the completeness test are characterised by the set of verified byte positions.
\<close>

section \<open>Definitions\<close>

definition DEFAULT_CHUNK_SIZE :: u64 where
  "DEFAULT_CHUNK_SIZE = 1024 * 1024"

record ChunkRange =
  cr_offset :: u64
  cr_length :: u64

abbreviation mk_chunk :: "u64 \<Rightarrow> u64 \<Rightarrow> ChunkRange" where
  "mk_chunk off len \<equiv> \<lparr>cr_offset = off, cr_length = len\<rparr>"

definition chunk_end :: "ChunkRange \<Rightarrow> u64 native_result" where
  "chunk_end r = ok_or (Protocol ''chunk range overflows u64'') (checked_add (cr_offset r) (cr_length r))"

definition validate_chunk_size :: "u64 \<Rightarrow> unit native_result" where
  "validate_chunk_size chunk_size =
     (if chunk_size = 0 then Inl (Protocol ''chunk size must be greater than zero'') else Inr ())"

text \<open>
  The planning loop. In the source it runs \<open>while offset < file_size\<close>, and the chunk size is
  checked to be nonzero before; \<open>plan_chunks_while\<close> below is that loop literally, and
  \<open>plan_chunks_while_returns\<close> shows that it ends with the list of \<open>plan_chunks_loop\<close>.
\<close>

function plan_chunks_loop :: "u64 \<Rightarrow> u64 \<Rightarrow> u64 \<Rightarrow> ChunkRange list" where
  "plan_chunks_loop file_size chunk_size off =
     (if chunk_size = 0 \<or> \<not> off < file_size then []
      else let len = min chunk_size (file_size - off)
           in mk_chunk off len # plan_chunks_loop file_size chunk_size (off + len))"
  by pat_completeness auto

lemma plan_step_unat:
  fixes off n c :: u64
  assumes "off < n"
  shows "unat (off + min c (n - off)) = unat off + min (unat c) (unat n - unat off)"
    and "unat (min c (n - off)) = min (unat c) (unat n - unat off)"
proof -
  have lt: "unat off < unat n" using assms by (simp add: word_less_nat_alt)
  then show *: "unat (min c (n - off)) = min (unat c) (unat n - unat off)" for c :: u64
    by (simp add: unat_min unat_sub_no_wrap)
  have "unat off + unat (min c (n - off)) < 2 ^ LENGTH(64)"
    using lt unat_lt_u64 [of n] unfolding * by (auto simp: min_def)
  then show "unat (off + min c (n - off)) = unat off + min (unat c) (unat n - unat off)"
    by (simp add: unat_add_no_wrap *)
qed

termination plan_chunks_loop
proof (relation "measure (\<lambda>(n, c, off). unat n - unat off)", goal_cases)
  case (2 n c off len)
  then have "unat off < unat n" "0 < unat c" by (auto simp: word_less_nat_alt unat_gt_0)
  then have "0 < min (unat c) (unat n - unat off)" by simp
  with 2 show ?case
    using plan_step_unat(1) [of off n c] \<open>unat off < unat n\<close> by (simp del: min_less_iff_conj)
qed simp

declare plan_chunks_loop.simps [simp del]

definition plan_chunks_while :: "u64 \<Rightarrow> u64 \<Rightarrow> (u64 \<times> ChunkRange list) option" where
  "plan_chunks_while file_size chunk_size =
     while_option (\<lambda>(off, chunks). off < file_size)
       (\<lambda>(off, chunks). let len = min chunk_size (file_size - off)
          in (off + len, chunks @ [mk_chunk off len]))
       (0, [])"

definition plan_chunks :: "u64 \<Rightarrow> u64 \<Rightarrow> ChunkRange list native_result" where
  "plan_chunks file_size chunk_size =
     res_bind (validate_chunk_size chunk_size) (\<lambda>_. Inr (plan_chunks_loop file_size chunk_size 0))"

fun validate_verified_ranges :: "u64 \<Rightarrow> ChunkRange list \<Rightarrow> unit native_result" where
  "validate_verified_ranges file_size [] = Inr ()"
| "validate_verified_ranges file_size (r # rs) =
     (if cr_length r = 0 then Inl (Protocol ''verified range length must be greater than zero'')
      else res_bind (chunk_end r) (\<lambda>e.
        if e > file_size then Inl (Protocol ''verified range extends past file size'')
        else validate_verified_ranges file_size rs))"

text \<open>\<open>merged\<close> is the output vector in reverse, so that \<open>last_mut\<close> is its head.\<close>

fun chunk_merge_loop :: "ChunkRange list \<Rightarrow> ChunkRange list \<Rightarrow> ChunkRange list native_result" where
  "chunk_merge_loop merged [] = Inr (rev merged)"
| "chunk_merge_loop [] (r # rs) = chunk_merge_loop [r] rs"
| "chunk_merge_loop (l # merged) (r # rs) =
     res_bind (chunk_end l) (\<lambda>last_end.
     res_bind (chunk_end r) (\<lambda>range_end.
       if cr_offset r \<le> last_end
       then chunk_merge_loop (l\<lparr>cr_length := max range_end last_end - cr_offset l\<rparr> # merged) rs
       else chunk_merge_loop (r # l # merged) rs))"

definition chunk_merge_ranges :: "ChunkRange list \<Rightarrow> ChunkRange list native_result" where
  "chunk_merge_ranges ranges = chunk_merge_loop [] (sort_key cr_offset ranges)"

definition chunk_fully_covered :: "ChunkRange \<Rightarrow> ChunkRange list \<Rightarrow> bool" where
  "chunk_fully_covered r verified =
     (case chunk_end r of
        Inl _ \<Rightarrow> False
      | Inr range_end \<Rightarrow>
          list_ex (\<lambda>v. cr_offset v \<le> cr_offset r \<and>
            (case chunk_end v of Inl _ \<Rightarrow> False | Inr v_end \<Rightarrow> v_end \<ge> range_end)) verified)"

definition plan_missing_chunks :: "u64 \<Rightarrow> u64 \<Rightarrow> ChunkRange list \<Rightarrow> ChunkRange list native_result" where
  "plan_missing_chunks file_size chunk_size verified =
     res_bind (validate_verified_ranges file_size verified) (\<lambda>_.
     res_bind (chunk_merge_ranges verified) (\<lambda>verified.
     res_map (filter (\<lambda>chunk. \<not> chunk_fully_covered chunk verified))
       (plan_chunks file_size chunk_size)))"

definition ranges_cover_file :: "u64 \<Rightarrow> ChunkRange list \<Rightarrow> bool native_result" where
  "ranges_cover_file file_size verified =
     res_bind (validate_verified_ranges file_size verified) (\<lambda>_.
       if file_size = 0 then Inr True
       else res_map (\<lambda>m. m = [mk_chunk 0 file_size]) (chunk_merge_ranges verified))"

section \<open>Ranges as intervals\<close>

definition chunk_iv :: "ChunkRange \<Rightarrow> interval" where
  "chunk_iv r = (unat (cr_offset r), unat (cr_offset r) + unat (cr_length r))"

definition chunk_wf :: "ChunkRange \<Rightarrow> bool" where
  "chunk_wf r \<longleftrightarrow> cr_length r \<noteq> 0 \<and> unat (cr_offset r) + unat (cr_length r) < 2 ^ 64"

lemma chunk_end_wf: "chunk_wf r \<Longrightarrow> chunk_end r = Inr (cr_offset r + cr_length r)
    \<and> unat (cr_offset r + cr_length r) = snd (chunk_iv r)"
  by (simp add: chunk_wf_def chunk_end_def checked_add_def chunk_iv_def unat_add_no_wrap)

lemma chunk_end_Inr_iff:
  "chunk_end r = Inr e \<longleftrightarrow> unat (cr_offset r) + unat (cr_length r) < 2 ^ 64 \<and> e = cr_offset r + cr_length r"
  by (auto simp: chunk_end_def ok_or_Inr_iff checked_add_Some_iff)

lemma fst_chunk_iv [simp]: "fst (chunk_iv r) = unat (cr_offset r)"
  by (simp add: chunk_iv_def)

lemma chunk_iv_inj: "chunk_iv r = chunk_iv q \<Longrightarrow> r = q"
  by (cases r; cases q) (auto simp: chunk_iv_def word_unat_eq_iff)

lemma chunk_wf_nonempty: "chunk_wf r \<Longrightarrow> fst (chunk_iv r) < snd (chunk_iv r)"
  by (simp add: chunk_wf_def chunk_iv_def unat_gt_0)

lemma chunk_extend:
  assumes "chunk_wf l" "chunk_wf r" "cr_offset l \<le> cr_offset r"
  defines "m \<equiv> l\<lparr>cr_length := max (cr_offset r + cr_length r) (cr_offset l + cr_length l) - cr_offset l\<rparr>"
  shows "chunk_wf m" and "chunk_iv m = (fst (chunk_iv l), max (snd (chunk_iv r)) (snd (chunk_iv l)))"
proof -
  let ?e = "max (cr_offset r + cr_length r) (cr_offset l + cr_length l)"
  have e: "unat ?e = max (snd (chunk_iv r)) (snd (chunk_iv l))"
    using chunk_end_wf [OF assms(1)] chunk_end_wf [OF assms(2)] by (simp add: unat_max)
  have lt: "unat (cr_offset l) < unat ?e"
    using chunk_wf_nonempty [OF assms(1)] unfolding e by auto
  have "unat (?e - cr_offset l) = unat ?e - unat (cr_offset l)"
    using lt by (simp add: unat_sub_no_wrap)
  then have len: "unat (cr_length m) = unat ?e - unat (cr_offset l)" by (simp add: m_def)
  have sum: "unat (cr_offset m) + unat (cr_length m) = unat ?e"
    using lt len by (simp add: m_def)
  show "chunk_wf m"
    using len lt unat_lt_u64 [of ?e] sum by (auto simp: chunk_wf_def)
  show "chunk_iv m = (fst (chunk_iv l), max (snd (chunk_iv r)) (snd (chunk_iv l)))"
    using sum e by (simp add: chunk_iv_def m_def)
qed

lemma chunk_merge_loop_refines:
  "\<lbrakk>\<forall>r \<in> set merged. chunk_wf r; \<forall>r \<in> set rs. chunk_wf r; sorted (map cr_offset rs);
    \<forall>r \<in> set rs. merged \<noteq> [] \<longrightarrow> cr_offset (hd merged) \<le> cr_offset r\<rbrakk>
   \<Longrightarrow> \<exists>ms. chunk_merge_loop merged rs = Inr ms \<and> (\<forall>m \<in> set ms. chunk_wf m) \<and>
        map chunk_iv ms = amerge (map chunk_iv merged) (map chunk_iv rs)"
proof (induction merged rs rule: chunk_merge_loop.induct)
  case (1 merged)
  then show ?case by (simp add: rev_map)
next
  case (2 r rs)
  then show ?case by auto
next
  case (3 l merged r rs)
  let ?m = "l\<lparr>cr_length := max (cr_offset r + cr_length r) (cr_offset l + cr_length l) - cr_offset l\<rparr>"
  have wf: "chunk_wf l" "chunk_wf r" and le: "cr_offset l \<le> cr_offset r" using 3 by auto
  note ends = chunk_end_wf [OF wf(1)] chunk_end_wf [OF wf(2)]
  have cmp: "cr_offset r \<le> cr_offset l + cr_length l \<longleftrightarrow> fst (chunk_iv r) \<le> snd (chunk_iv l)"
    using ends by (simp add: word_le_nat_alt)
  show ?case
  proof (cases "cr_offset r \<le> cr_offset l + cr_length l")
    case True
    have "\<exists>ms. chunk_merge_loop (?m # merged) rs = Inr ms \<and> (\<forall>m \<in> set ms. chunk_wf m) \<and>
        map chunk_iv ms = amerge (map chunk_iv (?m # merged)) (map chunk_iv rs)"
      using 3(3-6) ends True chunk_extend(1) [OF wf le] by (intro 3(1)) auto
    then show ?thesis
      using ends True cmp chunk_extend(2) [OF wf le] by simp
  next
    case False
    have "\<exists>ms. chunk_merge_loop (r # l # merged) rs = Inr ms \<and> (\<forall>m \<in> set ms. chunk_wf m) \<and>
        map chunk_iv ms = amerge (map chunk_iv (r # l # merged)) (map chunk_iv rs)"
      using 3(3-6) ends False by (intro 3(2)) auto
    then show ?thesis using ends False cmp by simp
  qed
qed

lemma chunk_merge_refines:
  assumes "\<forall>r \<in> set rs. chunk_wf r"
  shows "\<exists>ms. chunk_merge_ranges rs = Inr ms \<and> (\<forall>m \<in> set ms. chunk_wf m) \<and>
        map chunk_iv ms = amerged (map chunk_iv rs)"
  using chunk_merge_loop_refines [of "[]" "sort_key cr_offset rs"] assms
  by (simp add: chunk_merge_ranges_def amerged_def sort_key_map comp_def sort_key_unat)

lemma chunk_inside_refines:
  assumes "chunk_wf r" "\<forall>m \<in> set ms. chunk_wf m"
  shows "chunk_fully_covered r ms \<longleftrightarrow>
    (\<exists>m \<in> set ms. fst (chunk_iv m) \<le> fst (chunk_iv r) \<and> snd (chunk_iv r) \<le> snd (chunk_iv m))"
  using assms(2) chunk_end_wf [OF assms(1)]
  by (auto simp: chunk_fully_covered_def list_ex_iff chunk_end_wf word_le_nat_alt)

interpretation chunk: byte_ranges chunk_iv chunk_wf chunk_merge_ranges chunk_fully_covered
proof
  show "\<And>rs. \<forall>r \<in> set rs. chunk_wf r \<Longrightarrow> \<exists>ms. chunk_merge_ranges rs = Inr ms \<and>
      (\<forall>m \<in> set ms. chunk_wf m) \<and> map chunk_iv ms = amerged (map chunk_iv rs)"
    by (rule chunk_merge_refines)
qed (auto intro: chunk_iv_inj chunk_wf_nonempty [unfolded fst_chunk_iv] simp: chunk_inside_refines)

section \<open>Validation\<close>

definition in_file :: "u64 \<Rightarrow> ChunkRange \<Rightarrow> bool" where
  "in_file file_size r \<longleftrightarrow> chunk_wf r \<and> snd (chunk_iv r) \<le> unat file_size"

lemma validate_verified_ranges_ok_iff:
  "validate_verified_ranges n rs = Inr () \<longleftrightarrow> (\<forall>r \<in> set rs. in_file n r)"
proof (induction rs)
  case (Cons r rs)
  have "in_file n r \<longleftrightarrow> cr_length r \<noteq> 0 \<and> (\<exists>e. chunk_end r = Inr e \<and> \<not> e > n)"
    by (auto simp: in_file_def chunk_end_Inr_iff chunk_wf_def chunk_iv_def word_less_nat_alt unat_add_no_wrap)
  then show ?case using Cons by (auto simp: res_iffs)
qed simp

lemma in_file_wf: "\<forall>r \<in> set rs. in_file n r \<Longrightarrow> \<forall>r \<in> set rs. chunk_wf r"
  by (simp add: in_file_def)

lemma in_file_covered: "\<forall>r \<in> set rs. in_file n r \<Longrightarrow> covered (map chunk_iv rs) \<subseteq> {0..<unat n}"
  by (fastforce simp: in_file_def covered_def)

section \<open>Planning\<close>

lemma plan_chunks_loop_iv:
  "map chunk_iv (plan_chunks_loop n c off) = aplan (unat n) (unat c) (unat off)"
proof (induction n c off rule: plan_chunks_loop.induct)
  case (1 n c off)
  show ?case
  proof (cases "c = 0 \<or> \<not> off < n")
    case True
    then show ?thesis
      by (auto simp: plan_chunks_loop.simps [of n c off] aplan.simps [of "unat n"]
        word_less_nat_alt unat_eq_0)
  next
    case False
    then have "\<not> (unat c = 0 \<or> unat n \<le> unat off)" by (auto simp: word_less_nat_alt unat_eq_0)
    then show ?thesis
      using 1 False plan_step_unat [of off n c]
      by (simp add: plan_chunks_loop.simps [of n c off] aplan.simps [of "unat n"] chunk_iv_def Let_def)
  qed
qed

lemma plan_chunks_loop_wf: "r \<in> set (plan_chunks_loop n c off) \<Longrightarrow> in_file n r"
proof -
  assume "r \<in> set (plan_chunks_loop n c off)"
  then have "chunk_iv r \<in> set (aplan (unat n) (unat c) (unat off))"
    unfolding plan_chunks_loop_iv [symmetric] by simp
  then have "fst (chunk_iv r) < snd (chunk_iv r)" "snd (chunk_iv r) \<le> unat n"
    by (auto dest: aplan_mem)
  then show ?thesis
    using unat_lt_u64 [of n] by (auto simp: in_file_def chunk_wf_def chunk_iv_def)
qed

lemma plan_chunks_while_gen:
  assumes "chunk_size \<noteq> 0" "off \<le> n"
  shows "while_option (\<lambda>(off, chunks). off < n)
       (\<lambda>(off, chunks). let len = min chunk_size (n - off) in (off + len, chunks @ [mk_chunk off len]))
       (off, cs) = Some (n, cs @ plan_chunks_loop n chunk_size off)"
  using assms
proof (induction n chunk_size off arbitrary: cs rule: plan_chunks_loop.induct)
  case (1 n c off)
  show ?case
  proof (cases "off < n")
    case True
    have "off + min c (n - off) \<le> n"
      using plan_step_unat [OF True, of c] True by (auto simp: word_le_nat_alt word_less_nat_alt)
    then show ?thesis
      using True 1 by (subst while_option_unfold)
        (simp add: plan_chunks_loop.simps [of n c off] Let_def)
  next
    case False
    then have "off = n" using 1(3) by simp
    then show ?thesis
      by (subst while_option_unfold) (simp add: plan_chunks_loop.simps [of n c n])
  qed
qed

lemma plan_chunks_Inr: "chunk_size \<noteq> 0 \<Longrightarrow> plan_chunks n chunk_size = Inr (plan_chunks_loop n chunk_size 0)"
  by (simp add: plan_chunks_def validate_chunk_size_def)

lemma plan_missing_chunks_ok:
  assumes "\<forall>r \<in> set vs. in_file n r" "chunk_size \<noteq> 0"
  shows "plan_missing_chunks n chunk_size vs =
    Inr (filter (\<lambda>r. \<not> iv_set (chunk_iv r) \<subseteq> covered (map chunk_iv vs)) (plan_chunks_loop n chunk_size 0))"
proof -
  obtain ms where ms: "chunk_merge_ranges vs = Inr ms"
    using chunk.merge_ok [OF in_file_wf [OF assms(1)]] .
  have "validate_verified_ranges n vs = Inr ()"
    using assms(1) by (simp add: validate_verified_ranges_ok_iff)
  then have "plan_missing_chunks n chunk_size vs =
      Inr (filter (\<lambda>r. \<not> chunk_fully_covered r ms) (plan_chunks_loop n chunk_size 0))"
    using ms assms(2) by (simp add: plan_missing_chunks_def plan_chunks_Inr)
  also have "\<dots> = Inr (filter (\<lambda>r. \<not> iv_set (chunk_iv r) \<subseteq> covered (map chunk_iv vs)) (plan_chunks_loop n chunk_size 0))"
    using chunk.inside_merge_iff [OF in_file_wf [OF assms(1)] _ ms] plan_chunks_loop_wf
    by (intro arg_cong [of _ _ Inr] filter_cong) (auto simp: in_file_def)
  finally show ?thesis .
qed

lemma ranges_cover_file_ok:
  assumes "\<forall>r \<in> set vs. in_file n r"
  shows "ranges_cover_file n vs = Inr (covered (map chunk_iv vs) = {0..<unat n})"
proof (cases "n = 0")
  case True
  have "vs = []" using assms True
    by (cases vs) (auto simp: in_file_def chunk_wf_def chunk_iv_def unat_eq_0)
  then show ?thesis using True by (simp add: ranges_cover_file_def)
next
  case False
  obtain ms where ms: "chunk_merge_ranges vs = Inr ms"
    using chunk.merge_ok [OF in_file_wf [OF assms]] .
  have "chunk_wf (mk_chunk 0 n)" "chunk_iv (mk_chunk 0 n) = (0, unat n)"
    using False unat_lt_u64 [of n] by (simp_all add: chunk_wf_def chunk_iv_def)
  then have "ms = [mk_chunk 0 n] \<longleftrightarrow> covered (map chunk_iv vs) = {0..<unat n}"
    using chunk.merge_whole_iff [OF in_file_wf [OF assms]] ms by simp
  moreover have "validate_verified_ranges n vs = Inr ()"
    using assms by (simp add: validate_verified_ranges_ok_iff)
  ultimately show ?thesis using ms False by (simp add: ranges_cover_file_def)
qed

section \<open>Properties\<close>

text \<open>
  C28. The planning loop of \<open>plan_chunks\<close> terminates for every nonzero chunk size, and its result is
  the list that \<open>plan_chunks\<close> returns: consecutive, pairwise disjoint chunks, each starting at a
  multiple of the chunk size and no longer than it, which together cover exactly the bytes of the
  file; their number is the quotient rounded up.
\<close>
theorem plan_chunks_correct:
  assumes "chunk_size \<noteq> 0"
  shows "\<exists>cs. plan_chunks n chunk_size = Inr cs \<and>
    plan_chunks_while n chunk_size = Some (n, cs) \<and>
    covered (map chunk_iv cs) = {0..<unat n} \<and>
    sorted_wrt (\<lambda>p q. snd (chunk_iv p) \<le> fst (chunk_iv q)) cs \<and>
    (\<forall>r \<in> set cs. unat (cr_length r) \<le> unat chunk_size \<and> unat chunk_size dvd unat (cr_offset r)) \<and>
    length cs = (unat n + (unat chunk_size - 1)) div unat chunk_size"
proof -
  let ?cs = "plan_chunks_loop n chunk_size 0"
  have pos: "0 < unat chunk_size" using assms by (simp add: unat_gt_0)
  have iv: "map chunk_iv ?cs = aplan (unat n) (unat chunk_size) 0"
    using plan_chunks_loop_iv [of n chunk_size 0] by simp
  have "plan_chunks_while n chunk_size = Some (n, ?cs)"
    using plan_chunks_while_gen [OF assms, of 0 n "[]"] by (simp add: plan_chunks_while_def)
  moreover have "sorted_wrt (\<lambda>p q. snd (chunk_iv p) \<le> fst (chunk_iv q)) ?cs"
    using aplan_consecutive [of "unat n" "unat chunk_size" 0] unfolding iv [symmetric] sorted_wrt_map .
  moreover have "\<forall>r \<in> set ?cs. unat (cr_length r) \<le> unat chunk_size \<and> unat chunk_size dvd unat (cr_offset r)"
  proof
    fix r assume "r \<in> set ?cs"
    then have "chunk_iv r \<in> set (aplan (unat n) (unat chunk_size) 0)" unfolding iv [symmetric] by simp
    from aplan_mem [OF this] show "unat (cr_length r) \<le> unat chunk_size \<and> unat chunk_size dvd unat (cr_offset r)"
      by (auto simp: chunk_iv_def)
  qed
  moreover have "length ?cs = (unat n + (unat chunk_size - 1)) div unat chunk_size"
    using aplan_length [OF pos, of "unat n" 0] unfolding iv [symmetric] by simp
  ultimately show ?thesis
    using plan_chunks_Inr [OF assms] aplan_covered [OF pos] iv by metis
qed

theorem plan_chunks_correct_witness:
  "\<exists>cs. plan_chunks 5 2 = Inr cs \<and>
    plan_chunks_while 5 2 = Some (5, cs) \<and>
    covered (map chunk_iv cs) = {0..<unat (5 :: u64)} \<and>
    sorted_wrt (\<lambda>p q. snd (chunk_iv p) \<le> fst (chunk_iv q)) cs \<and>
    (\<forall>r \<in> set cs. unat (cr_length r) \<le> unat (2 :: u64) \<and> unat (2 :: u64) dvd unat (cr_offset r)) \<and>
    length cs = (unat (5 :: u64) + (unat (2 :: u64) - 1)) div unat (2 :: u64)"
  by (rule plan_chunks_correct) simp

text \<open>
  For verified ranges that lie inside the file, \<open>plan_missing_chunks\<close> returns exactly the planned
  chunks that contain an unverified byte; sending them completes the file: the verified ranges
  followed by the missing chunks pass \<open>ranges_cover_file\<close>, and nothing is missing only if the
  verified ranges already did.
\<close>
theorem plan_missing_chunks_completes:
  assumes "\<forall>r \<in> set vs. in_file n r" "chunk_size \<noteq> 0"
  shows "\<exists>ms cs. plan_missing_chunks n chunk_size vs = Inr ms \<and> plan_chunks n chunk_size = Inr cs \<and>
    ms = filter (\<lambda>r. \<not> iv_set (chunk_iv r) \<subseteq> covered (map chunk_iv vs)) cs \<and>
    ranges_cover_file n (vs @ ms) = Inr True \<and>
    (ms = [] \<longleftrightarrow> ranges_cover_file n vs = Inr True)"
proof -
  let ?V = "covered (map chunk_iv vs)" and ?cs = "plan_chunks_loop n chunk_size 0"
  let ?ms = "filter (\<lambda>r. \<not> iv_set (chunk_iv r) \<subseteq> ?V) ?cs"
  have cs: "covered (map chunk_iv ?cs) = {0..<unat n}"
    using aplan_covered [of "unat chunk_size" "unat n" 0] assms(2)
    by (simp add: plan_chunks_loop_iv unat_gt_0)
  have ms: "\<forall>r \<in> set (vs @ ?ms). in_file n r" using assms(1) plan_chunks_loop_wf by auto
  have V: "?V \<subseteq> {0..<unat n}" using in_file_covered [OF assms(1)] .
  have le: "covered (map chunk_iv ?ms) \<subseteq> covered (map chunk_iv ?cs)" by (rule covered_mono) auto
  have ge: "covered (map chunk_iv ?cs) \<subseteq> ?V \<union> covered (map chunk_iv ?ms)"
    unfolding subset_iff Un_iff covered_map_iff set_filter by blast
  have "covered (map chunk_iv (vs @ ?ms)) = {0..<unat n}"
    using cs V le ge unfolding map_append covered_simps(3) by blast
  then have "ranges_cover_file n (vs @ ?ms) = Inr True"
    using ranges_cover_file_ok [OF ms] by simp
  moreover have "?ms = [] \<longleftrightarrow> ?V = {0..<unat n}"
  proof
    assume "?ms = []"
    then show "?V = {0..<unat n}" using V ge cs by (simp add: subset_antisym)
  next
    assume "?V = {0..<unat n}"
    then show "?ms = []"
      using plan_chunks_loop_wf [of _ n chunk_size 0]
      unfolding filter_empty_conv by (auto simp: in_file_def)
  qed
  ultimately show ?thesis
    using plan_missing_chunks_ok [OF assms] plan_chunks_Inr [OF assms(2)] ranges_cover_file_ok [OF assms(1)]
    by simp
qed

theorem plan_missing_chunks_completes_witness:
  "\<exists>ms cs. plan_missing_chunks 5 2 [mk_chunk 0 3] = Inr ms \<and> plan_chunks 5 2 = Inr cs \<and>
    ms = filter (\<lambda>r. \<not> iv_set (chunk_iv r) \<subseteq> covered (map chunk_iv [mk_chunk 0 3])) cs \<and>
    ranges_cover_file 5 ([mk_chunk 0 3] @ ms) = Inr True \<and>
    (ms = [] \<longleftrightarrow> ranges_cover_file 5 [mk_chunk 0 3] = Inr True)"
  by (rule plan_missing_chunks_completes) (simp_all add: in_file_def chunk_wf_def chunk_iv_def)

text \<open>
  \<open>plan_missing_chunks\<close> and \<open>ranges_cover_file\<close> fail exactly on a zero chunk size (the former)
  or on a verified range that is empty, overflows 64 bits or reaches past the end of the file.
\<close>
theorem chunk_planning_errors:
  "(is_ok (plan_missing_chunks n chunk_size vs) \<longleftrightarrow> chunk_size \<noteq> 0 \<and> (\<forall>r \<in> set vs. in_file n r)) \<and>
   (is_ok (ranges_cover_file n vs) \<longleftrightarrow> (\<forall>r \<in> set vs. in_file n r))"
proof (cases "\<forall>r \<in> set vs. in_file n r")
  case True
  have "\<not> is_ok (plan_missing_chunks n 0 vs)"
    by (cases "validate_verified_ranges n vs"; cases "chunk_merge_ranges vs")
      (auto simp: plan_missing_chunks_def plan_chunks_def validate_chunk_size_def)
  then show ?thesis
    using True plan_missing_chunks_ok [OF True, of chunk_size] ranges_cover_file_ok [OF True]
    by (cases "chunk_size = 0") simp_all
next
  case False
  then obtain e where "validate_verified_ranges n vs = Inl e"
    using validate_verified_ranges_ok_iff [of n vs] by (cases "validate_verified_ranges n vs") auto
  then show ?thesis using False by (simp add: plan_missing_chunks_def ranges_cover_file_def)
qed

theorem chunk_planning_errors_witness:
  "(is_ok (plan_missing_chunks 5 2 [mk_chunk 4 2]) \<longleftrightarrow> (2 :: u64) \<noteq> 0 \<and> (\<forall>r \<in> set [mk_chunk 4 2]. in_file 5 r)) \<and>
   (is_ok (ranges_cover_file 5 [mk_chunk 4 2]) \<longleftrightarrow> (\<forall>r \<in> set [mk_chunk 4 2]. in_file 5 r)) \<and>
   \<not> is_ok (ranges_cover_file 5 [mk_chunk 4 2])"
  using chunk_planning_errors [of 5 2 "[mk_chunk 4 2]"] by (simp add: in_file_def chunk_wf_def chunk_iv_def)

end
