(* ===== verification/Manifest_Ranges.thy ===== *)
theory Manifest_Ranges
  imports Chunk
begin

text \<open>
  The range arithmetic of the manifest store, the private functions at the end of
  \<open>protocol-native-v1/src/manifest.rs\<close>. They repeat the algorithms of \<open>chunk.rs\<close> on
  \<open>ResumeRange\<close> with unchecked additions and skip empty ranges. On ranges that do not overflow
  they compute the same results, which makes the module a second instance of \<open>byte_ranges\<close>.
\<close>

section \<open>Definitions\<close>

record ResumeRange =
  rr_offset :: u64
  rr_length :: u64

abbreviation mk_resume :: "u64 \<Rightarrow> u64 \<Rightarrow> ResumeRange" where
  "mk_resume off len \<equiv> \<lparr>rr_offset = off, rr_length = len\<rparr>"

fun resume_merge_loop :: "ResumeRange list \<Rightarrow> ResumeRange list \<Rightarrow> ResumeRange list" where
  "resume_merge_loop merged [] = rev merged"
| "resume_merge_loop merged (r # rs) =
     (if rr_length r = 0 then resume_merge_loop merged rs
      else case merged of
        [] \<Rightarrow> resume_merge_loop [r] rs
      | l # merged' \<Rightarrow>
          let last_end = rr_offset l + rr_length l; range_end = rr_offset r + rr_length r in
          if rr_offset r \<le> last_end
          then resume_merge_loop (l\<lparr>rr_length := max range_end last_end - rr_offset l\<rparr> # merged') rs
          else resume_merge_loop (r # merged) rs)"

definition resume_merge_ranges :: "ResumeRange list \<Rightarrow> ResumeRange list" where
  "resume_merge_ranges ranges = resume_merge_loop [] (sort_key rr_offset ranges)"

definition resume_fully_covered :: "ResumeRange \<Rightarrow> ResumeRange list \<Rightarrow> bool" where
  "resume_fully_covered r verified =
     (let range_end = rr_offset r + rr_length r in
      list_ex (\<lambda>v. rr_offset v \<le> rr_offset r \<and> rr_offset v + rr_length v \<ge> range_end) verified)"

definition ranges_cover :: "u64 \<Rightarrow> ResumeRange list \<Rightarrow> bool" where
  "ranges_cover n ranges \<longleftrightarrow> n = 0 \<or> resume_merge_ranges ranges = [mk_resume 0 n]"

text \<open>
  The loop over chunk boundaries. Its only caller has rejected a zero chunk size, for which the
  loop of the source would not advance.
\<close>

function missing_loop :: "u64 \<Rightarrow> u64 \<Rightarrow> ResumeRange list \<Rightarrow> u64 \<Rightarrow> ResumeRange list" where
  "missing_loop file_size chunk_size verified off =
     (if chunk_size = 0 \<or> \<not> off < file_size then []
      else let len = min chunk_size (file_size - off); chunk = mk_resume off len in
           (if \<not> resume_fully_covered chunk verified then [chunk] else [])
           @ missing_loop file_size chunk_size verified (off + len))"
  by pat_completeness auto
termination missing_loop
proof (relation "measure (\<lambda>(n, c, vs, off). unat n - unat off)", goal_cases)
  case (2 n c vs off len chunk)
  then have "unat off < unat n" "0 < unat c" by (auto simp: word_less_nat_alt unat_gt_0)
  then have "0 < min (unat c) (unat n - unat off)" by simp
  with 2 show ?case
    using plan_step_unat(1) [of off n c] \<open>unat off < unat n\<close> by (simp del: min_less_iff_conj)
qed simp

declare missing_loop.simps [simp del]

definition missing_ranges_for :: "u64 \<Rightarrow> u64 \<Rightarrow> ResumeRange list \<Rightarrow> ResumeRange list" where
  "missing_ranges_for file_size chunk_size verified =
     missing_loop file_size chunk_size (resume_merge_ranges verified) 0"

section \<open>Agreement with chunk.rs\<close>

definition to_chunk :: "ResumeRange \<Rightarrow> ChunkRange" where
  "to_chunk r = mk_chunk (rr_offset r) (rr_length r)"

definition of_chunk :: "ChunkRange \<Rightarrow> ResumeRange" where
  "of_chunk r = mk_resume (cr_offset r) (cr_length r)"

definition resume_iv :: "ResumeRange \<Rightarrow> interval" where
  "resume_iv r = (unat (rr_offset r), unat (rr_offset r) + unat (rr_length r))"

definition resume_wf :: "ResumeRange \<Rightarrow> bool" where
  "resume_wf r \<longleftrightarrow> rr_length r \<noteq> 0 \<and> unat (rr_offset r) + unat (rr_length r) < 2 ^ 64"

lemma to_chunk_sel [simp]: "cr_offset (to_chunk r) = rr_offset r" "cr_length (to_chunk r) = rr_length r"
  by (simp_all add: to_chunk_def)

lemma fst_resume_iv [simp]: "fst (resume_iv r) = unat (rr_offset r)"
  by (simp add: resume_iv_def)

lemma of_chunk_mk [simp]: "of_chunk (mk_chunk off len) = mk_resume off len"
  by (simp add: of_chunk_def)

lemma of_chunk_sel [simp]: "rr_offset (of_chunk r) = cr_offset r" "rr_length (of_chunk r) = cr_length r"
  by (simp_all add: of_chunk_def)

lemma of_chunk_iv [simp]: "resume_iv (of_chunk r) = chunk_iv r"
  by (simp add: resume_iv_def of_chunk_def chunk_iv_def)

lemma to_chunk_iv [simp]: "chunk_iv (to_chunk r) = resume_iv r"
  by (simp add: chunk_iv_def resume_iv_def)

lemma to_chunk_wf [simp]: "chunk_wf (to_chunk r) = resume_wf r"
  by (simp add: chunk_wf_def resume_wf_def)

lemma to_chunk_inject [simp]: "to_chunk r = to_chunk q \<longleftrightarrow> r = q"
  by (cases r; cases q) (simp add: to_chunk_def)

lemma to_of_chunk [simp]: "to_chunk (of_chunk r) = r" "of_chunk (to_chunk q) = q"
  by (simp_all add: to_chunk_def of_chunk_def)

lemma to_chunk_update: "to_chunk (l\<lparr>rr_length := n\<rparr>) = (to_chunk l)\<lparr>cr_length := n\<rparr>"
  by (simp add: to_chunk_def)

lemma to_chunk_mk [simp]: "to_chunk (mk_resume off len) = mk_chunk off len"
  by (simp add: to_chunk_def)

lemma to_chunk_end: "resume_wf r \<Longrightarrow> chunk_end (to_chunk r) = Inr (rr_offset r + rr_length r)"
  using chunk_end_wf [of "to_chunk r"] by simp

lemma resume_extend_wf:
  "resume_wf l \<Longrightarrow> resume_wf r \<Longrightarrow> rr_offset l \<le> rr_offset r \<Longrightarrow>
    resume_wf (l\<lparr>rr_length := max (rr_offset r + rr_length r) (rr_offset l + rr_length l) - rr_offset l\<rparr>)"
  using chunk_extend(1) [of "to_chunk l" "to_chunk r"]
  by (simp add: to_chunk_update [symmetric])

lemma merge_loops_agree:
  "\<lbrakk>\<forall>r \<in> set merged. resume_wf r; \<forall>r \<in> set rs. resume_wf r; sorted (map rr_offset rs);
    \<forall>r \<in> set rs. merged \<noteq> [] \<longrightarrow> rr_offset (hd merged) \<le> rr_offset r\<rbrakk>
   \<Longrightarrow> chunk_merge_loop (map to_chunk merged) (map to_chunk rs)
        = Inr (map to_chunk (resume_merge_loop merged rs))"
proof (induction merged rs rule: resume_merge_loop.induct)
  case (1 merged)
  then show ?case by (simp add: rev_map)
next
  case (2 merged r rs)
  have nz: "rr_length r \<noteq> 0" using 2(6) by (simp add: resume_wf_def)
  show ?case
  proof (cases merged)
    case Nil
    then show ?thesis using 2(2) [OF nz Nil] 2(6,7) nz by simp
  next
    case (Cons l merged')
    have wf: "resume_wf l" "resume_wf r" "rr_offset l \<le> rr_offset r" using 2(5,6,8) Cons by auto
    note ends = to_chunk_end [OF wf(1)] to_chunk_end [OF wf(2)]
    show ?thesis
    proof (cases "rr_offset r \<le> rr_offset l + rr_length l")
      case True
      show ?thesis
        using 2(3) [OF nz Cons refl refl True] 2(5-8) Cons True ends nz resume_extend_wf [OF wf]
        by (simp add: Let_def to_chunk_update)
    next
      case False
      show ?thesis
        using 2(4) [OF nz Cons refl refl False] 2(5-8) Cons False ends nz
        by (simp add: Let_def)
    qed
  qed
qed

lemma merge_ranges_agree:
  assumes "\<forall>r \<in> set rs. resume_wf r"
  shows "chunk_merge_ranges (map to_chunk rs) = Inr (map to_chunk (resume_merge_ranges rs))"
  using merge_loops_agree [of "[]" "sort_key rr_offset rs"] assms
  by (simp add: chunk_merge_ranges_def resume_merge_ranges_def sort_key_map comp_def)

lemma fully_covered_agree:
  assumes "resume_wf r" "\<forall>m \<in> set ms. resume_wf m"
  shows "resume_fully_covered r ms = chunk_fully_covered (to_chunk r) (map to_chunk ms)"
  using assms by (auto simp: resume_fully_covered_def chunk_fully_covered_def to_chunk_end list_ex_iff)

lemma resume_merge_wf: "\<forall>r \<in> set rs. resume_wf r \<Longrightarrow> \<forall>m \<in> set (resume_merge_ranges rs). resume_wf m"
  using chunk_merge_refines [of "map to_chunk rs"] merge_ranges_agree [of rs] by auto

interpretation resume: byte_ranges resume_iv resume_wf "\<lambda>rs. Inr (resume_merge_ranges rs)" resume_fully_covered
proof
  show "\<And>r q. resume_wf r \<Longrightarrow> resume_wf q \<Longrightarrow> resume_iv r = resume_iv q \<Longrightarrow> r = q"
    by (metis chunk_iv_inj to_chunk_inject to_chunk_iv)
  show "\<And>r. resume_wf r \<Longrightarrow> fst (resume_iv r) < snd (resume_iv r)"
    by (metis chunk_wf_nonempty to_chunk_iv to_chunk_wf)
  show "\<exists>ms. Inr (resume_merge_ranges rs) = Inr ms \<and> (\<forall>m \<in> set ms. resume_wf m) \<and>
      map resume_iv ms = amerged (map resume_iv rs)" if "\<forall>r \<in> set rs. resume_wf r" for rs
    using chunk_merge_refines [of "map to_chunk rs"] merge_ranges_agree [OF that] that
    by (auto simp: comp_def)
  show "resume_fully_covered r ms \<longleftrightarrow>
      (\<exists>m \<in> set ms. fst (resume_iv m) \<le> fst (resume_iv r) \<and> snd (resume_iv r) \<le> snd (resume_iv m))"
    if "resume_wf r" "\<forall>m \<in> set ms. resume_wf m" for r ms
    using chunk_inside_refines [of "to_chunk r" "map to_chunk ms"] fully_covered_agree [OF that] that
    by simp
qed

section \<open>Missing ranges and completeness\<close>

definition resume_in_file :: "u64 \<Rightarrow> ResumeRange \<Rightarrow> bool" where
  "resume_in_file n r \<longleftrightarrow> resume_wf r \<and> snd (resume_iv r) \<le> unat n"

lemma resume_in_file_to_chunk [simp]: "in_file n (to_chunk r) = resume_in_file n r"
  by (simp add: in_file_def resume_in_file_def)

lemma missing_loop_filter:
  "missing_loop n c vs off =
     filter (\<lambda>r. \<not> resume_fully_covered r vs) (map of_chunk (plan_chunks_loop n c off))"
proof (induction n c off rule: plan_chunks_loop.induct)
  case (1 n c off)
  then show ?case
    by (subst missing_loop.simps, subst plan_chunks_loop.simps) (auto simp: Let_def)
qed

lemma plan_of_chunk_in_file: "r \<in> set (map of_chunk (plan_chunks_loop n c off)) \<Longrightarrow> resume_in_file n r"
  by (auto dest!: plan_chunks_loop_wf simp flip: resume_in_file_to_chunk)

lemma resume_in_file_wf: "\<forall>r \<in> set rs. resume_in_file n r \<Longrightarrow> \<forall>r \<in> set rs. resume_wf r"
  by (simp add: resume_in_file_def)

lemma missing_ranges_for_eq:
  assumes "\<forall>r \<in> set vs. resume_wf r"
  shows "missing_ranges_for n c vs =
    filter (\<lambda>r. \<not> iv_set (resume_iv r) \<subseteq> covered (map resume_iv vs))
      (map of_chunk (plan_chunks_loop n c 0))"
  unfolding missing_ranges_for_def missing_loop_filter
proof (rule filter_cong [OF refl])
  fix r assume "r \<in> set (map of_chunk (plan_chunks_loop n c 0))"
  then have "resume_wf r" using plan_of_chunk_in_file unfolding resume_in_file_def by blast
  then show "(\<not> resume_fully_covered r (resume_merge_ranges vs))
      = (\<not> iv_set (resume_iv r) \<subseteq> covered (map resume_iv vs))"
    using resume.inside_merge_iff [OF assms _ refl] by simp
qed

lemma covered_plan: "c \<noteq> 0 \<Longrightarrow> covered (map resume_iv (map of_chunk (plan_chunks_loop n c 0))) = {0..<unat n}"
proof -
  assume "c \<noteq> 0"
  have "map resume_iv (map of_chunk xs) = map chunk_iv xs" for xs
    by simp
  then show ?thesis
    using aplan_covered [of "unat c" "unat n" 0] \<open>c \<noteq> 0\<close>
    by (simp only: plan_chunks_loop_iv) (simp add: unat_gt_0)
qed

lemma missing_covers:
  assumes "\<forall>r \<in> set vs. resume_in_file n r" "c \<noteq> 0"
  shows "covered (map resume_iv vs) \<union> covered (map resume_iv (missing_ranges_for n c vs)) = {0..<unat n}"
    (is "?V \<union> ?M = _")
proof -
  let ?P = "map of_chunk (plan_chunks_loop n c 0)"
  have M: "missing_ranges_for n c vs = filter (\<lambda>r. \<not> iv_set (resume_iv r) \<subseteq> ?V) ?P"
    using missing_ranges_for_eq resume_in_file_wf [OF assms(1)] .
  have "covered (map resume_iv ?P) \<subseteq> ?V \<union> ?M"
  proof
    fix x assume "x \<in> covered (map resume_iv ?P)"
    then obtain r where r: "r \<in> set ?P" "x \<in> iv_set (resume_iv r)"
      unfolding covered_map_iff by blast
    then have "r \<in> set (missing_ranges_for n c vs) \<or> x \<in> ?V" unfolding M by auto
    with r(2) show "x \<in> ?V \<union> ?M" unfolding Un_iff covered_map_iff by blast
  qed
  moreover have "?M \<subseteq> covered (map resume_iv ?P)"
    unfolding M by (intro covered_mono) auto
  moreover have "?V \<subseteq> {0..<unat n}"
    using assms(1) by (fastforce simp: covered_def resume_in_file_def)
  ultimately show ?thesis using covered_plan [OF assms(2), of n] by auto
qed

lemma missing_disjoint_iff:
  assumes "\<forall>r \<in> set vs. resume_in_file n r" "c \<noteq> 0"
  shows "missing_ranges_for n c vs = [] \<longleftrightarrow> covered (map resume_iv vs) = {0..<unat n}"
proof
  assume "missing_ranges_for n c vs = []"
  then show "covered (map resume_iv vs) = {0..<unat n}" using missing_covers [OF assms] by simp
next
  assume cov: "covered (map resume_iv vs) = {0..<unat n}"
  show "missing_ranges_for n c vs = []"
    unfolding missing_ranges_for_eq [OF resume_in_file_wf [OF assms(1)]] filter_empty_conv cov
    by (fastforce dest!: plan_of_chunk_in_file simp: resume_in_file_def)
qed

lemma ranges_cover_iff:
  assumes "\<forall>r \<in> set vs. resume_in_file n r"
  shows "ranges_cover n vs \<longleftrightarrow> covered (map resume_iv vs) = {0..<unat n}"
proof (cases "n = 0")
  case True
  have "vs = []" using assms True
    by (cases vs) (auto simp: resume_in_file_def resume_wf_def resume_iv_def unat_eq_0)
  then show ?thesis using True by (simp add: ranges_cover_def)
next
  case False
  then have "resume_wf (mk_resume 0 n)" "resume_iv (mk_resume 0 n) = (0, unat n)"
    using unat_lt_u64 [of n] by (simp_all add: resume_wf_def resume_iv_def)
  then show ?thesis
    using resume.merge_whole_iff [OF resume_in_file_wf [OF assms]] False by (simp add: ranges_cover_def)
qed

end
