(* ===== verification/NB_Text.thy ===== *)
theory NB_Text
  imports NB_Bytes
begin

text \<open>
  Rust strings and the functions of \<open>core::str\<close> the sources call. A \<open>String\<close> is its UTF-8
  encoding, one \<open>char\<close> of HOL per byte, so that \<open>len()\<close> is the length of the list and the
  byte order is the list order. \<open>trim\<close> and the character tests work on the segmentation into
  encoded scalar values; the Unicode white space table is written out.
\<close>

section \<open>Bytes and strings\<close>

definition str_bytes :: "string \<Rightarrow> bytes" where
  "str_bytes s = map (\<lambda>c. of_nat (of_char c)) s"

definition bytes_str :: "bytes \<Rightarrow> string" where
  "bytes_str bs = map (\<lambda>b. char_of (unat b)) bs"

lemma bytes_str_str_bytes [simp]: "bytes_str (str_bytes s) = s"
  by (simp add: bytes_str_def str_bytes_def comp_def unat_of_nat map_idI)

lemma str_bytes_bytes_str [simp]: "str_bytes (bytes_str bs) = bs"
proof -
  have "(of_nat (of_char (char_of (unat b) :: char)) :: u8) = b" for b
    using unat_lt_u8 [of b] by (simp add: of_char_of)
  then show ?thesis by (simp add: bytes_str_def str_bytes_def comp_def map_idI)
qed

lemma length_str_bytes [simp]: "length (str_bytes s) = length s" "length (bytes_str bs) = length bs"
  by (simp_all add: str_bytes_def bytes_str_def)

text \<open>\<open>String::from_utf8\<close>: the well-formed sequences of the Unicode standard.\<close>

abbreviation cont_byte :: "nat \<Rightarrow> bool" where
  "cont_byte b \<equiv> 128 \<le> b \<and> b \<le> 191"

fun utf8_valid_codes :: "nat list \<Rightarrow> bool" where
  "utf8_valid_codes [] = True"
| "utf8_valid_codes (a # r) =
     (if a \<le> 127 then utf8_valid_codes r
      else if 194 \<le> a \<and> a \<le> 223 then
        (case r of b # r \<Rightarrow> cont_byte b \<and> utf8_valid_codes r | _ \<Rightarrow> False)
      else if 224 \<le> a \<and> a \<le> 239 then
        (case r of b # c # r \<Rightarrow>
            (if a = 224 then 160 \<le> b \<and> b \<le> 191
             else if a = 237 then 128 \<le> b \<and> b \<le> 159 else cont_byte b)
            \<and> cont_byte c \<and> utf8_valid_codes r
          | _ \<Rightarrow> False)
      else if 240 \<le> a \<and> a \<le> 244 then
        (case r of b # c # d # r \<Rightarrow>
            (if a = 240 then 144 \<le> b \<and> b \<le> 191
             else if a = 244 then 128 \<le> b \<and> b \<le> 143 else cont_byte b)
            \<and> cont_byte c \<and> cont_byte d \<and> utf8_valid_codes r
          | _ \<Rightarrow> False)
      else False)"

definition utf8_valid :: "string \<Rightarrow> bool" where
  "utf8_valid s = utf8_valid_codes (map of_char s)"

definition string_from_utf8 :: "bytes \<Rightarrow> string option" where
  "string_from_utf8 bs = (let s = bytes_str bs in if utf8_valid s then Some s else None)"

lemma string_from_utf8_str_bytes [simp]:
  "utf8_valid s \<Longrightarrow> string_from_utf8 (str_bytes s) = Some s"
  by (simp add: string_from_utf8_def)

lemma string_from_utf8_Some_iff:
  "string_from_utf8 bs = Some s \<longleftrightarrow> utf8_valid s \<and> bs = str_bytes s"
  by (auto simp: string_from_utf8_def Let_def)

section \<open>Characters\<close>

definition is_cont :: "char \<Rightarrow> bool" where
  "is_cont c \<longleftrightarrow> cont_byte (of_char c)"

function utf8_chars :: "string \<Rightarrow> string list" where
  "utf8_chars [] = []"
| "utf8_chars (c # cs) = (c # takeWhile is_cont cs) # utf8_chars (dropWhile is_cont cs)"
  by pat_completeness auto
termination
  by (relation "measure length") (auto simp: length_dropWhile_le le_imp_less_Suc)

fun ws_codes :: "nat list \<Rightarrow> bool" where
  "ws_codes [a] \<longleftrightarrow> 9 \<le> a \<and> a \<le> 13 \<or> a = 32"
| "ws_codes [a, b] \<longleftrightarrow> a = 194 \<and> (b = 133 \<or> b = 160)"
| "ws_codes [a, b, c] \<longleftrightarrow>
     a = 225 \<and> b = 154 \<and> c = 128 \<or>
     a = 226 \<and> b = 128 \<and> (128 \<le> c \<and> c \<le> 138 \<or> c = 168 \<or> c = 169 \<or> c = 175) \<or>
     a = 226 \<and> b = 129 \<and> c = 159 \<or>
     a = 227 \<and> b = 128 \<and> c = 128"
| "ws_codes _ \<longleftrightarrow> False"

definition is_whitespace :: "string \<Rightarrow> bool" where
  "is_whitespace seg = ws_codes (map of_char seg)"

definition trim_ends :: "('a \<Rightarrow> bool) \<Rightarrow> 'a list \<Rightarrow> 'a list" where
  "trim_ends P xs = rev (dropWhile P (rev (dropWhile P xs)))"

definition rs_trim :: "string \<Rightarrow> string" where
  "rs_trim s = concat (trim_ends is_whitespace (utf8_chars s))"

definition blank :: "string \<Rightarrow> bool" where
  "blank s \<longleftrightarrow> rs_trim s = []"

lemma concat_utf8_chars [simp]: "concat (utf8_chars s) = s"
  by (induction s rule: utf8_chars.induct) auto

lemma utf8_chars_nonempty: "[] \<notin> set (utf8_chars s)"
  by (induction s rule: utf8_chars.induct) auto

lemma trim_ends_Nil_iff: "trim_ends P xs = [] \<longleftrightarrow> (\<forall>x \<in> set xs. P x)"
proof (cases "dropWhile P xs")
  case Nil
  then have "\<forall>x \<in> set xs. P x" by simp
  then show ?thesis unfolding trim_ends_def Nil by simp
next
  case (Cons y ys)
  then have "\<not> P y" "y \<in> set xs"
    using hd_dropWhile [of P xs] set_dropWhileD [of y P xs] by auto
  then show ?thesis using Cons by (auto simp: trim_ends_def)
qed

lemma set_trim_ends: "set (trim_ends P xs) \<subseteq> set xs"
  by (auto simp: trim_ends_def dest!: set_dropWhileD)

lemma blank_iff: "blank s \<longleftrightarrow> (\<forall>seg \<in> set (utf8_chars s). is_whitespace seg)"
proof -
  have "blank s \<longleftrightarrow> (\<forall>x \<in> set (trim_ends is_whitespace (utf8_chars s)). x = [])"
    by (simp add: blank_def rs_trim_def concat_eq_Nil_conv)
  also have "\<dots> \<longleftrightarrow> trim_ends is_whitespace (utf8_chars s) = []"
    using set_trim_ends [of is_whitespace "utf8_chars s"] utf8_chars_nonempty [of s]
    by (cases "trim_ends is_whitespace (utf8_chars s)") auto
  finally show ?thesis by (simp add: trim_ends_Nil_iff)
qed

lemma blank_Nil [simp]: "blank []"
  by (simp add: blank_iff)

lemma set_rs_trim: "set (rs_trim s) \<subseteq> set s"
proof -
  have "set (rs_trim s) \<subseteq> set (concat (utf8_chars s))"
    using set_trim_ends [of is_whitespace "utf8_chars s"]
    unfolding rs_trim_def set_concat by (intro Union_mono image_mono)
  then show ?thesis by simp
qed

definition is_ascii_digit :: "char \<Rightarrow> bool" where
  "is_ascii_digit c \<longleftrightarrow> CHR ''0'' \<le> c \<and> c \<le> CHR ''9''"

definition is_ascii_alphanumeric :: "char \<Rightarrow> bool" where
  "is_ascii_alphanumeric c \<longleftrightarrow>
     is_ascii_digit c \<or> (CHR ''a'' \<le> c \<and> c \<le> CHR ''z'') \<or> (CHR ''A'' \<le> c \<and> c \<le> CHR ''Z'')"

definition is_ascii_hexdigit :: "char \<Rightarrow> bool" where
  "is_ascii_hexdigit c \<longleftrightarrow>
     is_ascii_digit c \<or> (CHR ''a'' \<le> c \<and> c \<le> CHR ''f'') \<or> (CHR ''A'' \<le> c \<and> c \<le> CHR ''F'')"

definition ascii_lower :: "char \<Rightarrow> char" where
  "ascii_lower c = (if CHR ''A'' \<le> c \<and> c \<le> CHR ''Z'' then char_of (of_char c + 32 :: nat) else c)"

definition to_ascii_lowercase :: "string \<Rightarrow> string" where
  "to_ascii_lowercase s = map ascii_lower s"

definition eq_ignore_ascii_case :: "string \<Rightarrow> string \<Rightarrow> bool" where
  "eq_ignore_ascii_case s t \<longleftrightarrow> to_ascii_lowercase s = to_ascii_lowercase t"

definition is_ascii :: "char \<Rightarrow> bool" where
  "is_ascii c \<longleftrightarrow> of_char c < (128 :: nat)"

lemma utf8_valid_ascii: "list_all is_ascii s \<Longrightarrow> utf8_valid s"
  unfolding utf8_valid_def by (induction s) (auto simp: is_ascii_def)

lemma hexdigit_ascii: "is_ascii_hexdigit c \<Longrightarrow> is_ascii c"
  by (auto simp: is_ascii_hexdigit_def is_ascii_digit_def is_ascii_def less_eq_char_def)

section \<open>Numbers\<close>

definition digit_char :: "nat \<Rightarrow> char" where
  "digit_char d = char_of (48 + d)"

fun show_nat :: "nat \<Rightarrow> string" where
  "show_nat n = (if n < 10 then [digit_char n] else show_nat (n div 10) @ [digit_char (n mod 10)])"

declare show_nat.simps [simp del]

definition parse_digits :: "string \<Rightarrow> nat" where
  "parse_digits s = foldl (\<lambda>acc c. acc * 10 + (of_char c - 48)) 0 s"

text \<open>\<open>FromStr\<close> of an unsigned type of \<open>w\<close> bits: an optional plus sign, then decimal digits.\<close>

definition parse_unsigned :: "nat \<Rightarrow> string \<Rightarrow> nat option" where
  "parse_unsigned w s =
     (let ds = (case s of c # cs \<Rightarrow> if c = CHR ''+'' then cs else s | [] \<Rightarrow> [])
      in if ds \<noteq> [] \<and> list_all is_ascii_digit ds \<and> parse_digits ds < 2 ^ w
         then Some (parse_digits ds) else None)"

lemma of_char_digit_char: "d < 10 \<Longrightarrow> of_char (digit_char d) = 48 + d" for d :: nat
  by (simp add: digit_char_def)

lemma parse_show_nat [simp]: "parse_digits (show_nat n) = n"
proof (induction n rule: show_nat.induct)
  case (1 n)
  then show ?case
    by (subst show_nat.simps) (auto simp: parse_digits_def of_char_digit_char)
qed

lemma is_digit_digit_char: "d < 10 \<Longrightarrow> is_ascii_digit (digit_char d)"
  by (auto simp: is_ascii_digit_def less_eq_char_def of_char_digit_char)

lemma show_nat_digits: "list_all is_ascii_digit (show_nat n)"
proof (induction n rule: show_nat.induct)
  case (1 n)
  then show ?case by (subst show_nat.simps) (auto simp: is_digit_digit_char)
qed

lemma show_nat_nonempty [simp]: "show_nat n \<noteq> []"
  by (subst show_nat.simps) simp

lemma show_nat_inject [simp]: "show_nat m = show_nat n \<longleftrightarrow> m = n"
  by (metis parse_show_nat)

lemma parse_unsigned_show: "n < 2 ^ w \<Longrightarrow> parse_unsigned w (show_nat n) = Some n"
proof -
  assume "n < 2 ^ w"
  obtain c cs where s: "show_nat n = c # cs" by (meson list.exhaust show_nat_nonempty)
  then have "is_ascii_digit c" using show_nat_digits [of n] by simp
  then have "c \<noteq> CHR ''+''" by (auto simp: is_ascii_digit_def less_eq_char_def)
  then show ?thesis
    using \<open>n < 2 ^ w\<close> s show_nat_digits [of n] parse_show_nat [of n]
    by (simp add: parse_unsigned_def)
qed

section \<open>Splitting\<close>

fun split_on :: "char \<Rightarrow> string \<Rightarrow> string list" where
  "split_on d [] = [[]]"
| "split_on d (c # cs) =
     (if c = d then [] # split_on d cs
      else (case split_on d cs of p # ps \<Rightarrow> (c # p) # ps | [] \<Rightarrow> [[c]]))"

definition strip_prefix :: "string \<Rightarrow> string \<Rightarrow> string option" where
  "strip_prefix p s = (if take (length p) s = p then Some (drop (length p) s) else None)"

fun split_once :: "char \<Rightarrow> string \<Rightarrow> (string \<times> string) option" where
  "split_once d [] = None"
| "split_once d (c # cs) =
     (if c = d then Some ([], cs) else map_option (\<lambda>(a, b). (c # a, b)) (split_once d cs))"

fun join_with :: "string \<Rightarrow> string list \<Rightarrow> string" where
  "join_with d [] = []"
| "join_with d [s] = s"
| "join_with d (s # t # r) = s @ d @ join_with d (t # r)"

lemma strip_prefix_append [simp]: "strip_prefix p (p @ s) = Some s"
  by (simp add: strip_prefix_def)

lemma strip_prefix_Some_iff: "strip_prefix p s = Some r \<longleftrightarrow> s = p @ r"
  by (auto simp: strip_prefix_def) (metis append_take_drop_id)

lemma split_on_nonempty [simp]: "split_on d s \<noteq> []"
  by (cases s) (auto split: list.splits)

lemma split_on_free: "d \<notin> set s \<Longrightarrow> split_on d s = [s]"
  by (induction s) auto

lemma split_on_append: "d \<notin> set s \<Longrightarrow> split_on d (s @ d # t) = s # split_on d t"
  by (induction s) auto

lemma split_join:
  "\<forall>s \<in> set ss. d \<notin> set s \<Longrightarrow> ss \<noteq> [] \<Longrightarrow> split_on d (join_with [d] ss) = ss"
  by (induction "[d]" ss rule: join_with.induct) (auto simp: split_on_free split_on_append)

end
