(* ===== verification/Dto.thy ===== *)
theory Dto
  imports Native_Error NB_Text "HOL-Library.Sublist"
begin

text \<open>
  The messages of the native protocol, \<open>protocol-native-v1/src/dto.rs\<close>: one record per struct,
  extension negotiation, and the validation of a transfer request.
\<close>

section \<open>Definitions\<close>

definition PROTOCOL_VERSION :: u16 where "PROTOCOL_VERSION = 1"

definition EXT_RESUME_V1 :: string where "EXT_RESUME_V1 = ''resume@1''"
definition EXT_BLAKE3_V1 :: string where "EXT_BLAKE3_V1 = ''blake3@1''"
definition EXT_ZSTD_V1 :: string where "EXT_ZSTD_V1 = ''zstd@1''"

record NativePeerInfo =
  np_alias :: string
  np_fingerprint :: string
  np_pubkey :: bytes
  np_quic_port :: u16
  np_native_certificate_fingerprint :: "string option"
  np_extensions :: "string list"

record Hello =
  h_protocol_version :: u16
  h_alias :: string
  h_pubkey :: bytes
  h_nonce :: bytes
  h_extensions :: "string list"
  h_identity_proof :: bytes

record HelloAck =
  ha_protocol_version :: u16
  ha_alias :: string
  ha_pubkey :: bytes
  ha_nonce :: bytes
  ha_accepted_extensions :: "string list"

record FileOffer =
  fo_file_id :: string
  fo_file_name :: string
  fo_size :: u64
  fo_blake3 :: "string option"

record RequestTransfer =
  rt_transfer_id :: string
  rt_files :: "FileOffer list"

record AcceptTransfer =
  at_transfer_id :: string
  at_chunk_size :: u64

record ChunkAck =
  ca_transfer_id :: string
  ca_file_id :: string
  ca_offset :: u64
  ca_length :: u64
  ca_blake3 :: string

record CancelTransfer =
  ct_transfer_id :: string
  ct_reason :: string

record DoneTransfer =
  dt_transfer_id :: string

record ResumeRequest =
  rq_transfer_id :: string

definition default_extensions :: "string list" where
  "default_extensions = [EXT_RESUME_V1, EXT_BLAKE3_V1]"

definition is_known_extension :: "string \<Rightarrow> bool" where
  "is_known_extension e \<longleftrightarrow> e = EXT_RESUME_V1 \<or> e = EXT_BLAKE3_V1 \<or> e = EXT_ZSTD_V1"

definition negotiate_extensions :: "string list \<Rightarrow> string list \<Rightarrow> string list" where
  "negotiate_extensions local remote =
     (let remote = set remote in filter (\<lambda>e. is_known_extension e \<and> e \<in> remote) local)"

fun validate_offers :: "string set \<Rightarrow> FileOffer list \<Rightarrow> unit native_result" where
  "validate_offers file_ids [] = Inr ()"
| "validate_offers file_ids (f # fs) =
     (if blank (fo_file_id f) then Inl (Protocol ''file id is required'')
      else if fo_file_id f \<in> file_ids then Inl (Protocol ''duplicate file id'')
      else if blank (fo_file_name f) then Inl (Protocol ''file name is required'')
      else validate_offers (insert (fo_file_id f) file_ids) fs)"

definition validate_transfer_request :: "RequestTransfer \<Rightarrow> unit native_result" where
  "validate_transfer_request request =
     (if blank (rt_transfer_id request) then Inl (Protocol ''transfer id is required'')
      else if rt_files request = [] then Inl (Protocol ''at least one file is required'')
      else validate_offers {} (rt_files request))"

section \<open>Negotiation\<close>

lemma negotiate_set:
  "set (negotiate_extensions local remote) = {e \<in> set local \<inter> set remote. is_known_extension e}"
  by (auto simp: negotiate_extensions_def)

lemma negotiate_subseq: "subseq (negotiate_extensions local remote) local"
  by (simp add: negotiate_extensions_def)

lemma negotiate_agree: "set (negotiate_extensions a b) = set (negotiate_extensions b a)"
  by (auto simp: negotiate_set)

lemma negotiate_default:
  "negotiate_extensions default_extensions default_extensions = default_extensions"
  by (simp add: negotiate_extensions_def default_extensions_def is_known_extension_def)

section \<open>Validation of a transfer request\<close>

definition valid_offer :: "FileOffer \<Rightarrow> bool" where
  "valid_offer f \<longleftrightarrow> \<not> blank (fo_file_id f) \<and> \<not> blank (fo_file_name f)"

lemma validate_offers_ok_iff:
  "validate_offers ids fs = Inr () \<longleftrightarrow>
     (\<forall>f \<in> set fs. valid_offer f \<and> fo_file_id f \<notin> ids) \<and> distinct (map fo_file_id fs)"
proof (induction ids fs rule: validate_offers.induct)
  case (2 ids f fs)
  have "fo_file_id f \<notin> fo_file_id ` set fs \<longleftrightarrow> (\<forall>g \<in> set fs. fo_file_id g \<noteq> fo_file_id f)"
    by (metis (no_types) imageE image_eqI)
  with 2 show ?case by (simp add: valid_offer_def) blast
qed simp

lemma validate_transfer_request_ok_iff:
  "validate_transfer_request rq = Inr () \<longleftrightarrow>
     \<not> blank (rt_transfer_id rq) \<and> rt_files rq \<noteq> [] \<and>
     (\<forall>f \<in> set (rt_files rq). valid_offer f) \<and> distinct (map fo_file_id (rt_files rq))"
  by (simp add: validate_transfer_request_def validate_offers_ok_iff)

lemma validate_transfer_request_error:
  "validate_transfer_request rq = Inl e \<Longrightarrow> \<exists>m. e = Protocol m"
proof -
  have "validate_offers ids fs = Inl e \<Longrightarrow> \<exists>m. e = Protocol m" for ids fs
    by (induction ids fs rule: validate_offers.induct) (auto split: if_splits)
  then show "validate_transfer_request rq = Inl e \<Longrightarrow> \<exists>m. e = Protocol m"
    by (auto simp: validate_transfer_request_def split: if_splits)
qed

end
