(* ===== verification/Manifest.thy ===== *)
theory Manifest
  imports Manifest_Ranges Dto
begin

text \<open>
  The transfer manifest, \<open>protocol-native-v1/src/manifest.rs\<close> with \<open>manifest_schema.sql\<close>. The
  three tables are association lists in row order, keyed by their primary keys; sizes, offsets
  and lengths are stored as signed 64-bit integers the way the source casts them, and the state
  of a transfer as the text the schema checks. \<open>now\<close> is the clock reading of a call. A failing
  statement rolls the transaction back, so an operation returns the new store or an error.
  Failures of the SQLite file itself (I/O, corruption, locking) are not modelled.
\<close>

section \<open>Definitions\<close>

datatype TransferDirection = Send | Receive

datatype TransferState = Pending | Active | Interrupted | Completed | Cancelled | Failed

fun direction_as_str :: "TransferDirection \<Rightarrow> string" where
  "direction_as_str Send = ''send''"
| "direction_as_str Receive = ''receive''"

fun state_as_str :: "TransferState \<Rightarrow> string" where
  "state_as_str Pending = ''pending''"
| "state_as_str Active = ''active''"
| "state_as_str Interrupted = ''interrupted''"
| "state_as_str Completed = ''completed''"
| "state_as_str Cancelled = ''cancelled''"
| "state_as_str Failed = ''failed''"

definition state_from_str :: "string \<Rightarrow> TransferState native_result" where
  "state_from_str s =
     (if s = ''pending'' then Inr Pending
      else if s = ''active'' then Inr Active
      else if s = ''interrupted'' then Inr Interrupted
      else if s = ''completed'' then Inr Completed
      else if s = ''cancelled'' then Inr Cancelled
      else if s = ''failed'' then Inr Failed
      else Inl (Manifest (''unknown transfer state \"'' @ s @ ''\"'')))"

record ManifestFile =
  mf_file_id :: string
  mf_file_name :: string
  mf_size :: u64
  mf_blake3 :: "string option"

record TransferRow =
  tw_peer_fingerprint :: string
  tw_direction :: string
  tw_state :: string
  tw_created_at :: int
  tw_updated_at :: int

record FileRow =
  fw_file_name :: string
  fw_size :: int
  fw_blake3 :: "string option"

record ChunkRow =
  kw_length :: int
  kw_blake3 :: string

record ManifestStore =
  ms_transfers :: "(string \<times> TransferRow) list"
  ms_files :: "((string \<times> string) \<times> FileRow) list"
  ms_chunks :: "((string \<times> string \<times> int) \<times> ChunkRow) list"

definition open_in_memory :: ManifestStore where
  "open_in_memory = \<lparr>ms_transfers = [], ms_files = [], ms_chunks = []\<rparr>"

fun insert_files :: "string \<Rightarrow> FileOffer list \<Rightarrow> ((string \<times> string) \<times> FileRow) list
    \<Rightarrow> ((string \<times> string) \<times> FileRow) list native_result" where
  "insert_files tid [] table = Inr table"
| "insert_files tid (f # fs) table =
     (if map_of table (tid, fo_file_id f) \<noteq> None
      then Inl (Manifest ''UNIQUE constraint failed: transfer_files.transfer_id, transfer_files.file_id'')
      else insert_files tid fs (table @ [((tid, fo_file_id f),
        \<lparr>fw_file_name = fo_file_name f, fw_size = as_i64 (fo_size f), fw_blake3 = fo_blake3 f\<rparr>)]))"

definition create_transfer :: "int \<Rightarrow> string \<Rightarrow> string \<Rightarrow> TransferDirection \<Rightarrow> FileOffer list
    \<Rightarrow> ManifestStore \<Rightarrow> ManifestStore native_result" where
  "create_transfer now tid peer direction files st =
     (if blank tid then Inl (Manifest ''transfer id is required'')
      else if blank peer then Inl (Manifest ''peer fingerprint is required'')
      else if files = [] then Inl (Manifest ''at least one file is required'')
      else if map_of (ms_transfers st) tid \<noteq> None
        then Inl (Manifest ''UNIQUE constraint failed: transfers.transfer_id'')
      else res_map (\<lambda>table. st\<lparr>ms_transfers := ms_transfers st @ [(tid,
             \<lparr>tw_peer_fingerprint = peer, tw_direction = direction_as_str direction,
              tw_state = state_as_str Pending, tw_created_at = now, tw_updated_at = now\<rparr>)],
             ms_files := table\<rparr>)
           (insert_files tid files (ms_files st)))"

definition file_size_locked :: "ManifestStore \<Rightarrow> string \<Rightarrow> string \<Rightarrow> u64 native_result" where
  "file_size_locked st tid fid =
     res_map (\<lambda>row. i64_as_u64 (fw_size row))
       (ok_or (Manifest ''unknown transfer file'') (map_of (ms_files st) (tid, fid)))"

fun row_range :: "(string \<times> string \<times> int) \<times> ChunkRow \<Rightarrow> ResumeRange" where
  "row_range ((tid, fid, off), row) = mk_resume (i64_as_u64 off) (i64_as_u64 (kw_length row))"

definition chunk_rows :: "ManifestStore \<Rightarrow> string \<Rightarrow> string
    \<Rightarrow> ((string \<times> string \<times> int) \<times> ChunkRow) list" where
  "chunk_rows st tid fid = filter (\<lambda>((t, f, off), row). t = tid \<and> f = fid) (ms_chunks st)"

definition verified_ranges_locked :: "ManifestStore \<Rightarrow> string \<Rightarrow> string \<Rightarrow> ResumeRange list" where
  "verified_ranges_locked st tid fid =
     resume_merge_ranges (map row_range (sort_key (\<lambda>((t, f, off), row). off) (chunk_rows st tid fid)))"

definition touch_transfer :: "int \<Rightarrow> string \<Rightarrow> ManifestStore \<Rightarrow> ManifestStore" where
  "touch_transfer now tid st = st\<lparr>ms_transfers :=
     map (\<lambda>(t, row). (t, if t = tid then row\<lparr>tw_updated_at := now\<rparr> else row)) (ms_transfers st)\<rparr>"

definition record_verified_chunk :: "int \<Rightarrow> string \<Rightarrow> string \<Rightarrow> u64 \<Rightarrow> u64 \<Rightarrow> string
    \<Rightarrow> ManifestStore \<Rightarrow> ManifestStore native_result" where
  "record_verified_chunk now tid fid off len blake3 st =
     (if len = 0 then Inl (Manifest ''chunk length must be greater than zero'')
      else res_bind (file_size_locked st tid fid) (\<lambda>file_size.
           res_bind (ok_or (Manifest ''chunk overflow'') (checked_add off len)) (\<lambda>e.
           if e > file_size then Inl (Manifest ''chunk extends past file size'')
           else if map_of (ms_files st) (tid, fid) = None
             then Inl (Manifest ''FOREIGN KEY constraint failed'')
           else Inr (touch_transfer now tid (st\<lparr>ms_chunks :=
               filter (\<lambda>(k, row). k \<noteq> (tid, fid, as_i64 off)) (ms_chunks st)
               @ [((tid, fid, as_i64 off), \<lparr>kw_length = as_i64 len, kw_blake3 = blake3\<rparr>)]\<rparr>)))))"

definition missing_ranges :: "ManifestStore \<Rightarrow> string \<Rightarrow> string \<Rightarrow> u64 \<Rightarrow> ResumeRange list native_result" where
  "missing_ranges st tid fid chunk_size =
     (if chunk_size = 0 then Inl (Manifest ''chunk size must be greater than zero'')
      else res_map (\<lambda>file_size. missing_ranges_for file_size chunk_size (verified_ranges_locked st tid fid))
             (file_size_locked st tid fid))"

definition file_rows :: "ManifestStore \<Rightarrow> string \<Rightarrow> ((string \<times> string) \<times> FileRow) list" where
  "file_rows st tid = filter (\<lambda>((t, f), row). t = tid) (ms_files st)"

fun all_covered :: "ManifestStore \<Rightarrow> ((string \<times> string) \<times> FileRow) list \<Rightarrow> bool" where
  "all_covered st [] = True"
| "all_covered st (((tid, fid), row) # rows) =
     (if \<not> ranges_cover (i64_as_u64 (fw_size row)) (verified_ranges_locked st tid fid) then False
      else all_covered st rows)"

definition transfer_complete :: "ManifestStore \<Rightarrow> string \<Rightarrow> bool" where
  "transfer_complete st tid \<longleftrightarrow> all_covered st (file_rows st tid) \<and> file_rows st tid \<noteq> []"

definition set_state :: "int \<Rightarrow> string \<Rightarrow> TransferState \<Rightarrow> ManifestStore \<Rightarrow> ManifestStore native_result" where
  "set_state now tid state st =
     (if state = Completed \<and> \<not> transfer_complete st tid
      then Inl (Manifest ''cannot complete transfer with missing bytes'')
      else if map_of (ms_transfers st) tid = None then Inl (Manifest ''unknown transfer'')
      else Inr (st\<lparr>ms_transfers :=
        map (\<lambda>(t, row). (t, if t = tid then row\<lparr>tw_state := state_as_str state, tw_updated_at := now\<rparr> else row))
          (ms_transfers st)\<rparr>))"

definition get_state :: "ManifestStore \<Rightarrow> string \<Rightarrow> TransferState option native_result" where
  "get_state st tid =
     (case map_of (ms_transfers st) tid of
        None \<Rightarrow> Inr None
      | Some row \<Rightarrow> res_map Some (state_from_str (tw_state row)))"

definition manifest_files :: "ManifestStore \<Rightarrow> string \<Rightarrow> ManifestFile list" where
  "manifest_files st tid =
     map (\<lambda>((t, fid), row). \<lparr>mf_file_id = fid, mf_file_name = fw_file_name row,
            mf_size = i64_as_u64 (fw_size row), mf_blake3 = fw_blake3 row\<rparr>)
       (sort_key (\<lambda>((t, fid), row). fid) (file_rows st tid))"

section \<open>The invariant\<close>

definition verified_bytes :: "ManifestStore \<Rightarrow> string \<Rightarrow> string \<Rightarrow> nat set" where
  "verified_bytes st tid fid = covered (map resume_iv (map row_range (chunk_rows st tid fid)))"

definition manifest_inv :: "ManifestStore \<Rightarrow> bool" where
  "manifest_inv st \<longleftrightarrow>
     distinct (map fst (ms_transfers st)) \<and> distinct (map fst (ms_files st)) \<and>
     distinct (map fst (ms_chunks st)) \<and>
     (\<forall>t f row. ((t, f), row) \<in> set (ms_files st) \<longrightarrow> map_of (ms_transfers st) t \<noteq> None) \<and>
     (\<forall>t row. (t, row) \<in> set (ms_transfers st) \<longrightarrow> (\<exists>s. tw_state row = state_as_str s)) \<and>
     (\<forall>t f off row. ((t, f, off), row) \<in> set (ms_chunks st) \<longrightarrow>
        (\<exists>fr. map_of (ms_files st) (t, f) = Some fr \<and>
          resume_in_file (i64_as_u64 (fw_size fr)) (row_range ((t, f, off), row))))"

inductive manifest_step :: "ManifestStore \<Rightarrow> ManifestStore \<Rightarrow> bool" where
  step_create: "create_transfer now tid peer dir files st = Inr st' \<Longrightarrow> manifest_step st st'"
| step_record: "record_verified_chunk now tid fid off len h st = Inr st' \<Longrightarrow> manifest_step st st'"
| step_set_state: "set_state now tid s st = Inr st' \<Longrightarrow> manifest_step st st'"

inductive_cases manifest_stepE: "manifest_step st st'"

inductive manifest_reachable :: "ManifestStore \<Rightarrow> bool" where
  reach_init: "manifest_reachable open_in_memory"
| reach_step: "manifest_reachable st \<Longrightarrow> manifest_step st st' \<Longrightarrow> manifest_reachable st'"

lemma state_round_trip [simp]: "state_from_str (state_as_str s) = Inr s"
  by (cases s) (simp_all add: state_from_str_def)

lemma state_as_str_inject [simp]: "state_as_str s = state_as_str t \<longleftrightarrow> s = t"
  by (metis state_round_trip sum.inject(2))

lemma map_fst_map_rows [simp]:
  "map fst (map (\<lambda>(t, row). (t, f t row)) xs) = map fst xs"
  by (induction xs) auto

lemma map_of_map_rows:
  "map_of (map (\<lambda>(t, row). (t, f t row)) xs) k = map_option (f k) (map_of xs k)"
  by (induction xs) auto

section \<open>Operations preserve the invariant\<close>

definition offer_row :: "FileOffer \<Rightarrow> FileRow" where
  "offer_row f = \<lparr>fw_file_name = fo_file_name f, fw_size = as_i64 (fo_size f), fw_blake3 = fo_blake3 f\<rparr>"

lemma insert_files_Inr_iff:
  "insert_files tid fs table = Inr table' \<longleftrightarrow>
     distinct (map fo_file_id fs) \<and> (\<forall>f \<in> set fs. map_of table (tid, fo_file_id f) = None) \<and>
     table' = table @ map (\<lambda>f. ((tid, fo_file_id f), offer_row f)) fs"
proof (induction tid fs table rule: insert_files.induct)
  case (2 tid f fs table)
  let ?t = "table @ [((tid, fo_file_id f), offer_row f)]"
  have new: "map_of ?t (tid, fo_file_id g) = None \<longleftrightarrow>
      map_of table (tid, fo_file_id g) = None \<and> fo_file_id g \<noteq> fo_file_id f" for g
    by (auto simp: map_add_def split: option.splits)
  show ?case
  proof (cases "map_of table (tid, fo_file_id f) = None")
    case True
    have "insert_files tid (f # fs) table = insert_files tid fs ?t"
      using True by (simp add: offer_row_def)
    also have "\<dots> = Inr table' \<longleftrightarrow> distinct (map fo_file_id fs) \<and>
        (\<forall>g \<in> set fs. map_of table (tid, fo_file_id g) = None \<and> fo_file_id g \<noteq> fo_file_id f) \<and>
        table' = ?t @ map (\<lambda>f. ((tid, fo_file_id f), offer_row f)) fs"
      using 2 True unfolding new [symmetric] by (simp add: offer_row_def)
    finally show ?thesis using True by (auto simp: image_iff)
  next
    case False
    then show ?thesis by auto
  qed
qed auto

lemma create_transfer_Inr_iff:
  "create_transfer now tid peer dir files st = Inr st' \<longleftrightarrow>
     \<not> blank tid \<and> \<not> blank peer \<and> files \<noteq> [] \<and> map_of (ms_transfers st) tid = None \<and>
     distinct (map fo_file_id files) \<and> (\<forall>f \<in> set files. map_of (ms_files st) (tid, fo_file_id f) = None) \<and>
     st' = st\<lparr>ms_transfers := ms_transfers st @ [(tid,
             \<lparr>tw_peer_fingerprint = peer, tw_direction = direction_as_str dir,
              tw_state = state_as_str Pending, tw_created_at = now, tw_updated_at = now\<rparr>)],
             ms_files := ms_files st @ map (\<lambda>f. ((tid, fo_file_id f), offer_row f)) files\<rparr>"
  by (auto simp: create_transfer_def res_map_Inr_iff insert_files_Inr_iff)

lemma record_Inr_iff:
  "record_verified_chunk now tid fid off len h st = Inr st' \<longleftrightarrow>
     (\<exists>fr. map_of (ms_files st) (tid, fid) = Some fr \<and>
       resume_in_file (i64_as_u64 (fw_size fr)) (mk_resume off len)) \<and>
     st' = touch_transfer now tid (st\<lparr>ms_chunks :=
               filter (\<lambda>(k, row). k \<noteq> (tid, fid, as_i64 off)) (ms_chunks st)
               @ [((tid, fid, as_i64 off), \<lparr>kw_length = as_i64 len, kw_blake3 = h\<rparr>)]\<rparr>)"
proof (cases "map_of (ms_files st) (tid, fid)")
  case None
  then show ?thesis by (auto simp: record_verified_chunk_def file_size_locked_def res_iffs)
next
  case (Some fr)
  have "len \<noteq> 0 \<and> (\<exists>e. checked_add off len = Some e \<and> \<not> e > i64_as_u64 (fw_size fr)) \<longleftrightarrow>
      resume_in_file (i64_as_u64 (fw_size fr)) (mk_resume off len)"
    by (auto simp: resume_in_file_def resume_wf_def resume_iv_def checked_add_Some_iff
      word_less_nat_alt unat_add_no_wrap)
  then show ?thesis
    using Some by (cases "checked_add off len")
      (auto simp: record_verified_chunk_def file_size_locked_def)
qed

lemma create_transfer_inv:
  assumes inv: "manifest_inv st" and c: "create_transfer now tid peer dir files st = Inr st'"
  shows "manifest_inv st'"
proof -
  let ?new = "map (\<lambda>f. ((tid, fo_file_id f), offer_row f)) files"
  have "distinct (map fo_file_id files)" "\<forall>f \<in> set files. map_of (ms_files st) (tid, fo_file_id f) = None"
    and fresh: "map_of (ms_transfers st) tid = None"
    using c unfolding create_transfer_Inr_iff by blast+
  then have d: "distinct (map fst ?new)" "set (map fst ?new) \<inter> set (map fst (ms_files st)) = {}"
    by (auto simp: distinct_map inj_on_def map_of_eq_None_iff)
  have keep: "map_of (ms_files st) k = Some fr \<Longrightarrow> map_of (ms_files st @ ?new) k = Some fr" for k fr
    using d(2) by (auto simp: map_add_def map_of_eq_None_iff dest!: map_of_SomeD split: option.splits)
  have c1: "\<exists>fr. map_of (ms_files st @ ?new) (t, f) = Some fr \<and>
        resume_in_file (i64_as_u64 (fw_size fr)) (row_range ((t, f, off), row))"
    if "((t, f, off), row) \<in> set (ms_chunks st)" for t f off row
    using inv that keep unfolding manifest_inv_def by blast
  have c2: "map_of (ms_transfers st @ [(tid, x)]) t \<noteq> None"
    if "((t, f), row) \<in> set (ms_files st @ ?new)" for t f row x
    using inv that by (auto simp: manifest_inv_def map_of_eq_None_iff)
  have c3: "distinct (map fst (ms_files st @ ?new))"
    using d inv by (simp add: manifest_inv_def Int_commute del: map_map)
  have c4: "distinct (map fst (ms_transfers st @ [(tid, x)]))" for x
    using fresh inv by (simp add: manifest_inv_def map_of_eq_None_iff)
  have c5: "\<exists>s. tw_state row = state_as_str s"
    if "tw_state x = state_as_str Pending" "(t, row) \<in> set (ms_transfers st @ [(tid, x)])" for x t row
    using inv that unfolding manifest_inv_def set_append by (auto simp del: state_as_str.simps)
  define x where "x = \<lparr>tw_peer_fingerprint = peer, tw_direction = direction_as_str dir,
    tw_state = state_as_str Pending, tw_created_at = now, tw_updated_at = now\<rparr>"
  have st': "ms_transfers st' = ms_transfers st @ [(tid, x)]" "ms_files st' = ms_files st @ ?new"
      "ms_chunks st' = ms_chunks st" and x: "tw_state x = state_as_str Pending"
    using c unfolding create_transfer_Inr_iff x_def by simp_all
  show ?thesis
    using c1 c2 c3 c4 c5 [OF x] inv unfolding manifest_inv_def st' by blast
qed

lemma row_ranges_touch [simp]:
  "ms_files (touch_transfer now tid st) = ms_files st"
  "ms_chunks (touch_transfer now tid st) = ms_chunks st"
  by (simp_all add: touch_transfer_def)

lemma transfers_update_inv:
  assumes "manifest_inv st"
    and "\<And>t row. \<exists>s. tw_state row = state_as_str s \<Longrightarrow> \<exists>s. tw_state (f t row) = state_as_str s"
  shows "manifest_inv (st\<lparr>ms_transfers := map (\<lambda>(t, row). (t, f t row)) (ms_transfers st)\<rparr>)"
proof -
  have "\<exists>s. tw_state row = state_as_str s"
    if "(t, row) \<in> set (map (\<lambda>(t, row). (t, f t row)) (ms_transfers st))" for t row
    using assms that by (auto simp: manifest_inv_def)
  moreover have "map_of (map (\<lambda>(t, row). (t, f t row)) (ms_transfers st)) t \<noteq> None \<longleftrightarrow>
      map_of (ms_transfers st) t \<noteq> None" for t
    by (simp add: map_of_map_rows)
  ultimately show ?thesis
    using assms(1) unfolding manifest_inv_def by (simp del: map_map set_map map_of_eq_Some_iff not_None_eq)
qed

lemma set_state_inv: "manifest_inv st \<Longrightarrow> set_state now tid s st = Inr st' \<Longrightarrow> manifest_inv st'"
  by (auto simp: set_state_def split: if_splits intro!: transfers_update_inv)

lemma record_inv:
  assumes inv: "manifest_inv st" and r: "record_verified_chunk now tid fid off len h st = Inr st'"
  shows "manifest_inv st'"
proof -
  let ?row = "((tid, fid, as_i64 off), \<lparr>kw_length = as_i64 len, kw_blake3 = h\<rparr>)"
  let ?old = "filter (\<lambda>(k, row). k \<noteq> (tid, fid, as_i64 off)) (ms_chunks st)"
  let ?st = "st\<lparr>ms_chunks := ?old @ [?row]\<rparr>"
  have sel: "ms_transfers ?st = ms_transfers st" "ms_files ?st = ms_files st"
    "ms_chunks ?st = ?old @ [?row]" by simp_all
  have st': "st' = touch_transfer now tid ?st" using r by (simp add: record_Inr_iff)
  have "distinct (map fst (?old @ [?row]))"
    using inv by (auto simp: manifest_inv_def distinct_map_filter)
  moreover have "\<exists>fr. map_of (ms_files st) (tid, fid) = Some fr \<and>
        resume_in_file (i64_as_u64 (fw_size fr)) (row_range ?row)"
    using r by (auto simp: record_Inr_iff)
  moreover have "x \<in> set (ms_chunks st) \<or> x = ?row" if "x \<in> set (?old @ [?row])" for x
    using that by auto
  ultimately have "manifest_inv ?st"
    using inv unfolding manifest_inv_def sel by blast
  then show ?thesis unfolding st' touch_transfer_def by (rule transfers_update_inv) auto
qed

lemma manifest_step_inv: "manifest_step st st' \<Longrightarrow> manifest_inv st \<Longrightarrow> manifest_inv st'"
  by (induction rule: manifest_step.induct) (auto intro: create_transfer_inv record_inv set_state_inv)

lemma manifest_reachable_inv: "manifest_reachable st \<Longrightarrow> manifest_inv st"
proof (induction rule: manifest_reachable.induct)
  case reach_init
  then show ?case by (simp add: manifest_inv_def open_in_memory_def)
qed (auto intro: manifest_step_inv)

section \<open>What the queries compute\<close>

lemma chunk_rows_in_file:
  assumes "manifest_inv st" "map_of (ms_files st) (tid, fid) = Some fr"
  shows "\<forall>r \<in> set (map row_range (chunk_rows st tid fid)). resume_in_file (i64_as_u64 (fw_size fr)) r"
proof
  fix r assume "r \<in> set (map row_range (chunk_rows st tid fid))"
  then obtain off row where row: "((tid, fid, off), row) \<in> set (ms_chunks st)"
    and r: "r = row_range ((tid, fid, off), row)"
    by (auto simp: chunk_rows_def)
  then have "\<exists>fr. map_of (ms_files st) (tid, fid) = Some fr \<and> resume_in_file (i64_as_u64 (fw_size fr)) r"
    using assms(1) unfolding manifest_inv_def r by blast
  then show "resume_in_file (i64_as_u64 (fw_size fr)) r" using assms(2) by auto
qed

lemma verified_ranges_locked_props:
  assumes "\<forall>r \<in> set (map row_range (chunk_rows st tid fid)). resume_in_file n r"
  shows "\<forall>r \<in> set (verified_ranges_locked st tid fid). resume_in_file n r"
    and "covered (map resume_iv (verified_ranges_locked st tid fid)) = verified_bytes st tid fid"
proof -
  let ?rs = "map row_range (sort_key (\<lambda>((t, f, off), row). off) (chunk_rows st tid fid))"
  have rs: "\<forall>r \<in> set ?rs. resume_in_file n r" using assms by simp
  obtain ms where ms: "Inr (resume_merge_ranges ?rs) = (Inr ms :: unit + ResumeRange list)"
    "\<forall>m \<in> set ms. resume_wf m" "canonical (map resume_iv ms)"
    "covered (map resume_iv ms) = covered (map resume_iv ?rs)"
    by (rule resume.merge_ok [OF resume_in_file_wf [OF rs]])
  have eq: "covered (map resume_iv ?rs) = verified_bytes st tid fid"
    unfolding verified_bytes_def by (rule covered_cong_set) simp
  have "covered (map resume_iv ms) \<subseteq> {0..<unat n}"
    unfolding ms(4) using rs by (fastforce simp: covered_map_iff resume_in_file_def)
  then have "\<forall>m \<in> set ms. snd (resume_iv m) \<le> unat n"
  proof (intro ballI)
    fix m assume "m \<in> set ms"
    moreover from this have "fst (resume_iv m) < snd (resume_iv m)"
      using ms(2) resume.iv_nonempty by blast
    ultimately have "snd (resume_iv m) - 1 \<in> covered (map resume_iv ms)"
      unfolding covered_map_iff by (intro bexI [of _ m]) auto
    with \<open>covered (map resume_iv ms) \<subseteq> _\<close> show "snd (resume_iv m) \<le> unat n" by auto
  qed
  with ms eq show "\<forall>r \<in> set (verified_ranges_locked st tid fid). resume_in_file n r"
    "covered (map resume_iv (verified_ranges_locked st tid fid)) = verified_bytes st tid fid"
    by (auto simp: verified_ranges_locked_def resume_in_file_def)
qed

lemma missing_ranges_eq:
  assumes "manifest_inv st" "map_of (ms_files st) (tid, fid) = Some fr" "chunk_size \<noteq> 0"
  shows "missing_ranges st tid fid chunk_size =
    Inr (filter (\<lambda>r. \<not> iv_set (resume_iv r) \<subseteq> verified_bytes st tid fid)
      (map of_chunk (plan_chunks_loop (i64_as_u64 (fw_size fr)) chunk_size 0)))"
proof -
  note v = verified_ranges_locked_props [OF chunk_rows_in_file [OF assms(1,2)]]
  show ?thesis
    using missing_ranges_for_eq [OF resume_in_file_wf [OF v(1)]] v(2) assms(2,3)
    by (simp add: missing_ranges_def file_size_locked_def)
qed

lemma all_covered_iff:
  "all_covered st rows \<longleftrightarrow> (\<forall>((t, f), row) \<in> set rows.
     ranges_cover (i64_as_u64 (fw_size row)) (verified_ranges_locked st t f))"
  by (induction st rows rule: all_covered.induct) auto

lemma transfer_complete_iff:
  assumes "manifest_inv st"
  shows "transfer_complete st tid \<longleftrightarrow>
    (\<exists>f row. ((tid, f), row) \<in> set (ms_files st)) \<and>
    (\<forall>f row. ((tid, f), row) \<in> set (ms_files st) \<longrightarrow>
       verified_bytes st tid f = {0..<unat (i64_as_u64 (fw_size row))})"
proof -
  have cov: "ranges_cover (i64_as_u64 (fw_size row)) (verified_ranges_locked st tid f) \<longleftrightarrow>
      verified_bytes st tid f = {0..<unat (i64_as_u64 (fw_size row))}"
    if "((tid, f), row) \<in> set (ms_files st)" for f row
  proof -
    have "map_of (ms_files st) (tid, f) = Some row"
      using assms that by (simp add: manifest_inv_def)
    note v = verified_ranges_locked_props [OF chunk_rows_in_file [OF assms this]]
    show ?thesis using ranges_cover_iff [OF v(1)] v(2) by simp
  qed
  show ?thesis
    unfolding transfer_complete_def all_covered_iff file_rows_def
    using cov by (auto simp: filter_empty_conv)
qed

lemma verified_bytes_record:
  assumes "record_verified_chunk now tid fid off len h st = Inr st'"
  shows "verified_bytes st' t f =
    (if (t, f) = (tid, fid)
     then covered (map resume_iv (map row_range
            (filter (\<lambda>(k, row). k \<noteq> (tid, fid, as_i64 off)) (chunk_rows st tid fid))))
          \<union> {unat off..<unat off + unat len}
     else verified_bytes st t f)"
proof -
  let ?row = "((tid, fid, as_i64 off), \<lparr>kw_length = as_i64 len, kw_blake3 = h\<rparr>)"
  have "chunk_rows st' t f = filter (\<lambda>(k, row). k \<noteq> (tid, fid, as_i64 off)) (chunk_rows st t f)
      @ (if (t, f) = (tid, fid) then [?row] else [])"
    using assms by (auto simp: record_Inr_iff chunk_rows_def intro!: filter_cong)
  moreover have "filter (\<lambda>(k, row). k \<noteq> (tid, fid, as_i64 off)) (chunk_rows st t f) = chunk_rows st t f"
    if "(t, f) \<noteq> (tid, fid)"
    using that unfolding filter_id_conv by (auto simp: chunk_rows_def)
  ultimately show ?thesis
    by (auto simp: verified_bytes_def resume_iv_def)
qed

lemma verified_bytes_record_mono:
  assumes "record_verified_chunk now tid fid off len h st = Inr st'"
    and "\<forall>row. ((tid, fid, as_i64 off), row) \<in> set (ms_chunks st) \<longrightarrow> i64_as_u64 (kw_length row) \<le> len"
  shows "verified_bytes st' tid fid = verified_bytes st tid fid \<union> {unat off..<unat off + unat len}"
proof -
  let ?P = "\<lambda>(k :: string \<times> string \<times> int, row :: ChunkRow). k \<noteq> (tid, fid, as_i64 off)"
  have "x \<in> {unat off..<unat off + unat len}"
    if in_rows: "r \<in> set (chunk_rows st tid fid)" and same: "\<not> ?P r" and x: "x \<in> iv_set (resume_iv (row_range r))" for r x
  proof -
    obtain row where r: "r = ((tid, fid, as_i64 off), row)" using same by (cases r) auto
    then have "unat (i64_as_u64 (kw_length row)) \<le> unat len"
      using in_rows assms(2) by (auto simp: chunk_rows_def word_le_nat_alt)
    then show ?thesis using x by (simp add: r resume_iv_def)
  qed
  then have "verified_bytes st tid fid \<subseteq> covered (map resume_iv (map row_range (filter ?P (chunk_rows st tid fid))))
      \<union> {unat off..<unat off + unat len}"
    unfolding verified_bytes_def map_map subset_iff Un_iff covered_map_iff comp_apply set_filter
    by blast
  moreover have "covered (map resume_iv (map row_range (filter ?P (chunk_rows st tid fid)))) \<subseteq> verified_bytes st tid fid"
    unfolding verified_bytes_def by (rule covered_mono) auto
  ultimately show ?thesis using verified_bytes_record [OF assms(1), of tid fid] by auto
qed

end
