(* ===== verification/Chunk_Frame.thy ===== *)
theory Chunk_Frame
  imports Native_Error NB_Text
begin

text \<open>
  Binary chunk frames, \<open>write_chunk_frame\<close> and \<open>read_chunk_frame\<close> of
  \<open>protocol-native-v1/src/transfer.rs\<close>. The BLAKE3 digest is a parameter \<open>H\<close> that gives the
  hex text of the digest; nothing is assumed about collisions.
\<close>

section \<open>Definitions\<close>

definition MAX_CHUNK_FRAME_BYTES :: nat where "MAX_CHUNK_FRAME_BYTES = 8 * 1024 * 1024"

record TransferChunk =
  tc_file_id :: string
  tc_offset :: u64
  tc_blake3 :: string
  tc_bytes :: bytes

definition write_chunk_frame :: "(bytes \<Rightarrow> string) \<Rightarrow> TransferChunk \<Rightarrow> bytes native_result" where
  "write_chunk_frame H chunk =
     (if blank (tc_file_id chunk) then Inl (Protocol ''file id is required'')
      else if length (tc_blake3 chunk) \<noteq> 64 \<or> \<not> list_all is_ascii_hexdigit (tc_blake3 chunk)
        then Inl (Protocol ''chunk blake3 must be 64 hex characters'')
      else if tc_bytes chunk = [] then Inl (Protocol ''chunk bytes must not be empty'')
      else if H (tc_bytes chunk) \<noteq> tc_blake3 chunk then Inl (Protocol ''chunk hash mismatch'')
      else if 2 ^ 16 \<le> length (tc_file_id chunk) then Inl (Protocol ''file id is too long'')
      else if 2 ^ 32 \<le> length (tc_bytes chunk) then Inl (Protocol ''chunk is too large'')
      else
        let file_id_len = of_nat (length (tc_file_id chunk)) :: u16;
            bytes_len = of_nat (length (tc_bytes chunk)) :: u32 in
        res_bind (ok_or (Protocol ''chunk frame is too large'')
          (Option.bind (checked_add 2 (ucast file_id_len :: u32)) (\<lambda>len.
           Option.bind (checked_add len 8) (\<lambda>len.
           Option.bind (checked_add len 64) (\<lambda>len.
           Option.bind (checked_add len 4) (\<lambda>len. checked_add len bytes_len))))))
        (\<lambda>frame_len. Inr (u32_to_be frame_len @ u16_to_be file_id_len @ str_bytes (tc_file_id chunk)
           @ u64_to_be (tc_offset chunk) @ str_bytes (tc_blake3 chunk) @ u32_to_be bytes_len
           @ tc_bytes chunk)))"

definition read_chunk_frame :: "(bytes \<Rightarrow> string) \<Rightarrow> bytes \<Rightarrow> (TransferChunk \<times> bytes) native_result" where
  "read_chunk_frame H s =
     res_bind (read_exact Io 4 s) (\<lambda>(b, s).
     let frame_len = unat (u32_from_be b) in
     if frame_len < 2 + 8 + 64 + 4 then Inl (Protocol ''chunk frame is too small'')
     else if frame_len > MAX_CHUNK_FRAME_BYTES then Inl (Protocol ''chunk frame exceeds maximum size'')
     else
     res_bind (read_exact Io 2 s) (\<lambda>(b, s).
     let file_id_len = unat (u16_from_be b) in
     if file_id_len = 0 \<or> file_id_len > frame_len then Inl (Protocol ''invalid file id length'')
     else
     res_bind (read_exact Io file_id_len s) (\<lambda>(b, s).
     res_bind (ok_or (Protocol ''file id must be valid UTF-8'') (string_from_utf8 b)) (\<lambda>file_id.
     res_bind (read_exact Io 8 s) (\<lambda>(b, s).
     let off = u64_from_be b in
     res_bind (read_exact Io 64 s) (\<lambda>(b, s).
     res_bind (ok_or (Protocol ''chunk blake3 must be valid UTF-8'') (string_from_utf8 b)) (\<lambda>blake3.
     res_bind (read_exact Io 4 s) (\<lambda>(b, s).
     let bytes_len = unat (u32_from_be b);
         expected_len = 2 + file_id_len + 8 + 64 + 4 + bytes_len in
     if expected_len \<noteq> frame_len then Inl (Protocol ''chunk frame length mismatch'')
     else
     res_bind (read_exact Io bytes_len s) (\<lambda>(bs, s).
     if H bs \<noteq> blake3 then Inl (Protocol ''chunk hash mismatch'')
     else Inr (\<lparr>tc_file_id = file_id, tc_offset = off, tc_blake3 = blake3, tc_bytes = bs\<rparr>, s))))))))))"

section \<open>Round trip\<close>

definition chunk_frame_len :: "TransferChunk \<Rightarrow> nat" where
  "chunk_frame_len c = 78 + length (tc_file_id c) + length (tc_bytes c)"

definition chunk_frame_ok :: "(bytes \<Rightarrow> string) \<Rightarrow> TransferChunk \<Rightarrow> bool" where
  "chunk_frame_ok H c \<longleftrightarrow>
     \<not> blank (tc_file_id c) \<and> length (tc_blake3 c) = 64 \<and> list_all is_ascii_hexdigit (tc_blake3 c) \<and>
     tc_bytes c \<noteq> [] \<and> H (tc_bytes c) = tc_blake3 c \<and>
     length (tc_file_id c) < 2 ^ 16 \<and> chunk_frame_len c < 2 ^ 32"

definition chunk_frame_bytes :: "TransferChunk \<Rightarrow> bytes" where
  "chunk_frame_bytes c = u32_to_be (of_nat (chunk_frame_len c)) @ u16_to_be (of_nat (length (tc_file_id c)))
     @ str_bytes (tc_file_id c) @ u64_to_be (tc_offset c) @ str_bytes (tc_blake3 c)
     @ u32_to_be (of_nat (length (tc_bytes c))) @ tc_bytes c"

definition chunk_frame_good :: "TransferChunk \<Rightarrow> bool" where
  "chunk_frame_good c \<longleftrightarrow> utf8_valid (tc_file_id c) \<and> chunk_frame_len c \<le> MAX_CHUNK_FRAME_BYTES"

lemma checked_add_nat:
  "m < 2 ^ 32 \<Longrightarrow> n < 2 ^ 32 \<Longrightarrow> checked_add (of_nat m :: u32) (of_nat n) =
    (if m + n < 2 ^ 32 then Some (of_nat (m + n)) else None)"
  by (simp add: checked_add_def unat_of_nat)

lemma frame_len_checked:
  assumes "m < 2 ^ 16" "n < 2 ^ 32"
  shows "Option.bind (checked_add 2 (ucast (of_nat m :: u16) :: u32)) (\<lambda>len.
           Option.bind (checked_add len 8) (\<lambda>len.
           Option.bind (checked_add len 64) (\<lambda>len.
           Option.bind (checked_add len 4) (\<lambda>len. checked_add len (of_nat n)))))
         = (if 78 + m + n < 2 ^ 32 then Some (of_nat (78 + m + n)) else None)"
proof -
  have m: "(ucast (of_nat m :: u16) :: u32) = of_nat m"
    using assms(1) by (simp add: unsigned_of_nat take_bit_nat_eq_self)
  have a: "checked_add (2 :: u32) (of_nat m) = Some (of_nat (2 + m))"
    using checked_add_nat [of 2 m] assms by simp
  have b: "checked_add (of_nat (2 + m) :: u32) 8 = Some (of_nat (10 + m))"
    using checked_add_nat [of "2 + m" 8] assms by (simp add: algebra_simps)
  have c: "checked_add (of_nat (10 + m) :: u32) 64 = Some (of_nat (74 + m))"
    using checked_add_nat [of "10 + m" 64] assms by (simp add: algebra_simps)
  have d: "checked_add (of_nat (74 + m) :: u32) 4 = Some (of_nat (78 + m))"
    using checked_add_nat [of "74 + m" 4] assms by (simp add: algebra_simps)
  show ?thesis
    unfolding m a Option.bind.simps b c d
    using checked_add_nat [of "78 + m" n] assms by simp
qed

lemma write_chunk_frame_Inr_iff:
  "write_chunk_frame H c = Inr bs \<longleftrightarrow> chunk_frame_ok H c \<and> bs = chunk_frame_bytes c"
proof (cases "length (tc_file_id c) < 2 ^ 16 \<and> length (tc_bytes c) < 2 ^ 32")
  case True
  then show ?thesis
    using frame_len_checked [of "length (tc_file_id c)" "length (tc_bytes c)"]
    unfolding write_chunk_frame_def chunk_frame_ok_def chunk_frame_bytes_def chunk_frame_len_def Let_def
    by (auto simp del: of_nat_add)
next
  case False
  then show ?thesis
    by (auto simp: write_chunk_frame_def chunk_frame_ok_def chunk_frame_len_def)
qed

lemma read_write_chunk_frame:
  assumes "chunk_frame_good c" "write_chunk_frame H c = Inr bs"
  shows "read_chunk_frame H (bs @ rest) = Inr (c, rest)"
proof -
  have ok: "chunk_frame_ok H c" and bs: "bs = chunk_frame_bytes c"
    using assms(2) by (auto simp: write_chunk_frame_Inr_iff)
  have hex: "utf8_valid (tc_blake3 c)"
    using ok hexdigit_ascii by (auto simp: chunk_frame_ok_def list_all_iff intro!: utf8_valid_ascii)
  have id: "0 < length (tc_file_id c)" using ok by (auto simp: chunk_frame_ok_def)
  have len: "unat (of_nat (chunk_frame_len c) :: u32) = chunk_frame_len c"
    "unat (of_nat (length (tc_file_id c)) :: u16) = length (tc_file_id c)"
    "unat (of_nat (length (tc_bytes c)) :: u32) = length (tc_bytes c)"
    using ok by (auto simp: chunk_frame_ok_def chunk_frame_len_def
      intro!: unat_of_nat_u16 unat_of_nat_u32 simp del: of_nat_add)
  have cmp: "\<not> chunk_frame_len c < 78" "\<not> MAX_CHUNK_FRAME_BYTES < chunk_frame_len c"
    "tc_file_id c \<noteq> []" "\<not> chunk_frame_len c < length (tc_file_id c)"
    "78 + length (tc_file_id c) + length (tc_bytes c) = chunk_frame_len c"
    using assms(1) id by (auto simp: chunk_frame_good_def chunk_frame_len_def)
  have v: "utf8_valid (tc_file_id c)" "H (tc_bytes c) = tc_blake3 c" "length (tc_blake3 c) = 64"
    using assms(1) ok by (auto simp: chunk_frame_good_def chunk_frame_ok_def)
  show ?thesis
    unfolding bs chunk_frame_bytes_def read_chunk_frame_def append_assoc
    by (simp add: Let_def len cmp v hex del: of_nat_add One_nat_def add_2_eq_Suc add_2_eq_Suc')
qed

interpretation chunk_frame: frame_codec "write_chunk_frame H" "read_chunk_frame H" chunk_frame_good for H
proof
  show "\<And>m bs rest. chunk_frame_good m \<Longrightarrow> write_chunk_frame H m = Inr bs \<Longrightarrow>
      read_chunk_frame H (bs @ rest) = Inr (m, rest)"
    by (rule read_write_chunk_frame)
  show "\<And>m bs. write_chunk_frame H m = Inr bs \<Longrightarrow> bs \<noteq> []"
    by (auto simp: write_chunk_frame_Inr_iff chunk_frame_ok_def chunk_frame_bytes_def)
qed

section \<open>What an accepted frame satisfies\<close>

lemma read_chunk_frame_Inr:
  assumes "read_chunk_frame H s = Inr (c, rest)"
  shows "chunk_frame_len c \<le> MAX_CHUNK_FRAME_BYTES \<and> s = chunk_frame_bytes c @ rest \<and>
    utf8_valid (tc_file_id c) \<and> tc_file_id c \<noteq> [] \<and> length (tc_blake3 c) = 64 \<and>
    H (tc_bytes c) = tc_blake3 c"
proof -
  obtain l s1 i s2 b0 s3 ob s4 h s5 n s6 where
    r: "s = l @ s1" "length l = 4" "s1 = i @ s2" "length i = 2" "s2 = b0 @ s3"
      "length b0 = unat (u16_from_be i)" "b0 = str_bytes (tc_file_id c)" "utf8_valid (tc_file_id c)"
      "s3 = ob @ s4" "length ob = 8" "tc_offset c = u64_from_be ob" "s4 = h @ s5" "length h = 64"
      "h = str_bytes (tc_blake3 c)" "s5 = n @ s6" "length n = 4" "s6 = tc_bytes c @ rest"
      "length (tc_bytes c) = unat (u32_from_be n)" "H (tc_bytes c) = tc_blake3 c"
      "unat (u16_from_be i) \<noteq> 0" "unat (u32_from_be l) \<le> MAX_CHUNK_FRAME_BYTES"
      "2 + unat (u16_from_be i) + 8 + 64 + 4 + unat (u32_from_be n) = unat (u32_from_be l)"
    using assms unfolding read_chunk_frame_def Let_def
    by (auto simp: res_iffs read_exact_Inr_iff string_from_utf8_Some_iff split: if_splits)
  have id: "length (tc_file_id c) = unat (u16_from_be i)" and hl: "length (tc_blake3 c) = 64"
    using r by (metis length_str_bytes(1))+
  have "chunk_frame_len c = unat (u32_from_be l)" using r id by (simp add: chunk_frame_len_def)
  moreover from this have "chunk_frame_bytes c = l @ i @ b0 @ ob @ h @ n @ tc_bytes c"
    using r id by (simp add: chunk_frame_bytes_def u16_to_from_be u32_to_from_be u64_to_from_be)
  ultimately show ?thesis using r id hl by auto
qed

end
