(* ===== verification/NB_Fs.thy ===== *)
theory NB_Fs
  imports NB_Text "HOL-Library.Sublist"
begin

text \<open>
  The part of the operating system the data path uses, and the state-and-error monad of its
  functions. A path is the list of its components below the root; the file system maps paths to
  regular files and directories, and every operation first walks the path the way the kernel
  does. Relative paths stand for what they resolve to against the working directory. Symbolic
  links, permissions, a full disk and limits on the length of names are not modelled.
\<close>

section \<open>State and errors\<close>

type_synonym ('s, 'e, 'a) sr = "'s \<Rightarrow> ('e + 'a) \<times> 's"

definition sr_return :: "'a \<Rightarrow> ('s, 'e, 'a) sr" where
  "sr_return x = (\<lambda>s. (Inr x, s))"

definition sr_fail :: "'e \<Rightarrow> ('s, 'e, 'a) sr" where
  "sr_fail e = (\<lambda>s. (Inl e, s))"

definition sr_bind :: "('s, 'e, 'a) sr \<Rightarrow> ('a \<Rightarrow> ('s, 'e, 'b) sr) \<Rightarrow> ('s, 'e, 'b) sr" where
  "sr_bind m f = (\<lambda>s. case m s of (Inl e, s') \<Rightarrow> (Inl e, s') | (Inr x, s') \<Rightarrow> f x s')"

definition sr_gets :: "('s \<Rightarrow> 'e + 'a) \<Rightarrow> ('s, 'e, 'a) sr" where
  "sr_gets f = (\<lambda>s. (f s, s))"

definition sr_modify :: "('s \<Rightarrow> 'e + 's) \<Rightarrow> ('s, 'e, unit) sr" where
  "sr_modify f = (\<lambda>s. case f s of Inl e \<Rightarrow> (Inl e, s) | Inr s' \<Rightarrow> (Inr (), s'))"

lemma sr_return_apply [simp]: "sr_return x s = (Inr x, s)"
  by (simp add: sr_return_def)

lemma sr_fail_apply [simp]: "sr_fail e s = (Inl e, s)"
  by (simp add: sr_fail_def)

lemma sr_gets_apply [simp]: "sr_gets f s = (f s, s)"
  by (simp add: sr_gets_def)

lemma sr_modify_Inr [simp]: "f s = Inr s' \<Longrightarrow> sr_modify f s = (Inr (), s')"
  by (simp add: sr_modify_def)

lemma sr_modify_Inr_iff: "sr_modify f s = (Inr u, s') \<longleftrightarrow> f s = Inr s'"
  by (auto simp: sr_modify_def split: sum.splits)

lemma sr_bind_Inr [simp]: "m s = (Inr x, s') \<Longrightarrow> sr_bind m f s = f x s'"
  by (simp add: sr_bind_def)

lemma sr_bind_Inl [simp]: "m s = (Inl e, s') \<Longrightarrow> sr_bind m f s = (Inl e, s')"
  by (simp add: sr_bind_def)

lemma sr_bind_Inr_iff:
  "sr_bind m f s = (Inr y, s'') \<longleftrightarrow> (\<exists>x s'. m s = (Inr x, s') \<and> f x s' = (Inr y, s''))"
  by (auto simp: sr_bind_def split: prod.splits sum.splits)

lemma sr_gets_Inr_iff: "sr_gets f s = (Inr x, s') \<longleftrightarrow> f s = Inr x \<and> s' = s"
  by (auto simp: sr_gets_def)

lemmas sr_iffs = sr_bind_Inr_iff sr_gets_Inr_iff sr_modify_Inr_iff

text \<open>A loop over a list that stops at the first error.\<close>

fun sr_iter :: "('a \<Rightarrow> ('s, 'e, unit) sr) \<Rightarrow> 'a list \<Rightarrow> ('s, 'e, unit) sr" where
  "sr_iter act [] = sr_return ()"
| "sr_iter act (x # xs) = sr_bind (act x) (\<lambda>_. sr_iter act xs)"

text \<open>A relation that every state change satisfies, also on the failing paths.\<close>

definition sr_keeps :: "('s \<Rightarrow> 's \<Rightarrow> bool) \<Rightarrow> ('s, 'e, 'a) sr \<Rightarrow> bool" where
  "sr_keeps R m \<longleftrightarrow> (\<forall>s. R s (snd (m s)))"

lemma sr_bind_at:
  assumes "\<And>a b c. R a b \<Longrightarrow> R b c \<Longrightarrow> R a c" "R s (snd (m s))"
    "\<And>x s'. m s = (Inr x, s') \<Longrightarrow> R s' (snd (f x s'))"
  shows "R s (snd (sr_bind m f s))"
proof -
  obtain r s' where m: "m s = (r, s')" by fastforce
  then show ?thesis using assms by (cases r) auto
qed

lemma sr_keeps_bind:
  assumes "\<And>a b c. R a b \<Longrightarrow> R b c \<Longrightarrow> R a c" "sr_keeps R m" "\<And>x. sr_keeps R (f x)"
  shows "sr_keeps R (sr_bind m f)"
  using assms unfolding sr_keeps_def by (intro allI sr_bind_at [of R]) blast+

lemma sr_keeps_simps:
  assumes "\<And>a. R a a"
  shows "sr_keeps R (sr_return x)" "sr_keeps R (sr_fail e)" "sr_keeps R (sr_gets g)"
  using assms by (simp_all add: sr_keeps_def)

lemma sr_keeps_modify:
  assumes "\<And>a. R a a" "\<And>s s'. f s = Inr s' \<Longrightarrow> R s s'"
  shows "sr_keeps R (sr_modify f)"
  using assms by (auto simp: sr_keeps_def sr_modify_def split: sum.splits)

section \<open>Files and directories\<close>

type_synonym path = "string list"

datatype node = File bytes | Dir

type_synonym fs = "path \<Rightarrow> node option"

definition has_nul :: "string \<Rightarrow> bool" where
  "has_nul c \<longleftrightarrow> CHR 0x00 \<in> set c"

fun walk :: "fs \<Rightarrow> path \<Rightarrow> path \<Rightarrow> IoError + path" where
  "walk fs cur [] = Inr cur"
| "walk fs cur (c # cs) =
     (if has_nul c then Inl InvalidInput
      else case fs cur of
        None \<Rightarrow> Inl NotFound
      | Some (File _) \<Rightarrow> Inl NotADirectory
      | Some Dir \<Rightarrow>
          if c = [] \<or> c = ''.'' then walk fs cur cs
          else if c = ''..'' then walk fs (butlast cur) cs
          else walk fs (cur @ [c]) cs)"

definition fs_metadata :: "path \<Rightarrow> fs \<Rightarrow> IoError + node" where
  "fs_metadata p fs = res_bind (walk fs [] p) (\<lambda>q. ok_or NotFound (fs q))"

definition fs_read :: "path \<Rightarrow> fs \<Rightarrow> IoError + bytes" where
  "fs_read p fs = res_bind (walk fs [] p) (\<lambda>q.
     case fs q of None \<Rightarrow> Inl NotFound | Some Dir \<Rightarrow> Inl IsADirectory | Some (File b) \<Rightarrow> Inr b)"

fun mkdirs :: "path \<Rightarrow> path \<Rightarrow> fs \<Rightarrow> IoError + fs" where
  "mkdirs cur [] fs = Inr fs"
| "mkdirs cur (c # cs) fs =
     (if has_nul c then Inl InvalidInput
      else if c = [] \<or> c = ''.'' then mkdirs cur cs fs
      else if c = ''..'' then mkdirs (butlast cur) cs fs
      else case fs (cur @ [c]) of
        None \<Rightarrow> mkdirs (cur @ [c]) cs (fs(cur @ [c] \<mapsto> Dir))
      | Some Dir \<Rightarrow> mkdirs (cur @ [c]) cs fs
      | Some (File _) \<Rightarrow> Inl (if cs = [] then AlreadyExists else NotADirectory))"

definition create_dir_all :: "path \<Rightarrow> fs \<Rightarrow> IoError + fs" where
  "create_dir_all p fs = mkdirs [] p fs"

text \<open>Writing at an offset: a gap behind the old end reads as zeros; writing nothing changes nothing.\<close>

definition write_at :: "bytes \<Rightarrow> nat \<Rightarrow> bytes \<Rightarrow> bytes" where
  "write_at old off bs = (if bs = [] then old else take off (old @ replicate (off - length old) 0) @ bs @ drop (off + length bs) old)"

definition fs_open_write :: "path \<Rightarrow> fs \<Rightarrow> IoError + path \<times> fs" where
  "fs_open_write p fs = res_bind (walk fs [] p) (\<lambda>q.
     case fs q of None \<Rightarrow> Inr (q, fs(q \<mapsto> File [])) | Some Dir \<Rightarrow> Inl IsADirectory | Some (File b) \<Rightarrow> Inr (q, fs))"

definition fs_write_at :: "path \<Rightarrow> u64 \<Rightarrow> bytes \<Rightarrow> fs \<Rightarrow> IoError + fs" where
  "fs_write_at q off bs fs =
     (if 2 ^ 63 \<le> unat off then Inl InvalidInput
      else case fs q of Some (File old) \<Rightarrow> Inr (fs(q \<mapsto> File (write_at old (unat off) bs))) | _ \<Rightarrow> Inl NotFound)"

definition fs_rename :: "path \<Rightarrow> path \<Rightarrow> fs \<Rightarrow> IoError + fs" where
  "fs_rename from to fs =
     res_bind (walk fs [] from) (\<lambda>p. res_bind (walk fs [] to) (\<lambda>q.
       case fs p of
         None \<Rightarrow> Inl NotFound
       | Some Dir \<Rightarrow> Inl InvalidInput
       | Some (File b) \<Rightarrow>
           if fs q = Some Dir then Inl IsADirectory else Inr ((fs(p := None))(q \<mapsto> File b))))"

text \<open>
  Reading through an open handle, and the parts of a file name. \<open>file_stem\<close> and \<open>extension\<close> are
  those of \<open>std::path\<close> on a path of one component.
\<close>

definition fs_open_read :: "path \<Rightarrow> fs \<Rightarrow> IoError + path" where
  "fs_open_read p fs = res_bind (walk fs [] p) (\<lambda>q. if fs q = None then Inl NotFound else Inr q)"

definition fs_read_at :: "path \<Rightarrow> u64 \<Rightarrow> u64 \<Rightarrow> fs \<Rightarrow> IoError + bytes" where
  "fs_read_at q off len fs =
     (if 2 ^ 63 \<le> unat off then Inl InvalidInput
      else case fs q of
        None \<Rightarrow> Inl NotFound
      | Some Dir \<Rightarrow> Inl IsADirectory
      | Some (File b) \<Rightarrow>
          if unat off + unat len \<le> length b then Inr (take (unat len) (drop (unat off) b))
          else Inl UnexpectedEof)"

definition path_file_name :: "path \<Rightarrow> string option" where
  "path_file_name p = (if p = [] \<or> last p = ''..'' \<or> last p = ''.'' \<or> last p = [] then None else Some (last p))"

text \<open>\<open>Path::display\<close>; a path is absolute here.\<close>

definition path_display :: "path \<Rightarrow> string" where
  "path_display p = concat (map (\<lambda>c. CHR ''/'' # c) p)"

definition rsplit_dot :: "string \<Rightarrow> (string \<times> string) option" where
  "rsplit_dot s = (let t = takeWhile (\<lambda>c. c \<noteq> CHR ''.'') (rev s) in
     if length t = length s then None else Some (rev (drop (Suc (length t)) (rev s)), rev t))"

definition file_stem :: "string \<Rightarrow> string option" where
  "file_stem name = map_option (\<lambda>f. case rsplit_dot f of None \<Rightarrow> f | Some (before, after) \<Rightarrow>
     if before = [] then f else before) (path_file_name [name])"

definition path_extension :: "string \<Rightarrow> string option" where
  "path_extension name = Option.bind (path_file_name [name]) (\<lambda>f.
     Option.bind (rsplit_dot f) (\<lambda>(before, after). if before = [] then None else Some after))"

definition normal_name :: "string \<Rightarrow> bool" where
  "normal_name c \<longleftrightarrow> c \<noteq> [] \<and> c \<noteq> ''.'' \<and> c \<noteq> ''..'' \<and> \<not> has_nul c"

definition fs_wf :: "fs \<Rightarrow> bool" where
  "fs_wf fs \<longleftrightarrow> fs [] = Some Dir \<and> (\<forall>p c. fs (p @ [c]) \<noteq> None \<longrightarrow> fs p = Some Dir)"

section \<open>Walking well-formed trees\<close>

lemma fs_wf_prefix: "fs_wf fs \<Longrightarrow> fs (p @ q) \<noteq> None \<Longrightarrow> q \<noteq> [] \<Longrightarrow> fs p = Some Dir"
proof (induction q rule: rev_induct)
  case (snoc c q)
  have "fs (p @ q) = Some Dir" using snoc.prems unfolding fs_wf_def by (metis append_assoc)
  then show ?case using snoc.IH snoc.prems by (cases "q = []") auto
qed simp

lemma walk_normal:
  "list_all normal_name cs \<Longrightarrow> (\<forall>p q. cs = p @ q \<and> q \<noteq> [] \<longrightarrow> fs (cur @ p) = Some Dir)
    \<Longrightarrow> walk fs cur cs = Inr (cur @ cs)"
proof (induction cs arbitrary: cur)
  case (Cons c cs)
  have "fs cur = Some Dir" using Cons.prems(2) by (metis append_Nil append_Nil2 list.distinct(1))
  have "fs ((cur @ [c]) @ p) = Some Dir" if "cs = p @ q" "q \<noteq> []" for p q
    using Cons.prems(2) [rule_format, of "c # p" q] that by simp
  then have "walk fs (cur @ [c]) cs = Inr ((cur @ [c]) @ cs)"
    using Cons.prems(1) by (intro Cons.IH) auto
  then show ?case using \<open>fs cur = Some Dir\<close> Cons.prems(1) by (simp add: normal_name_def)
qed simp

lemma walk_wf:
  assumes "fs_wf fs" "list_all normal_name p" "normal_name c" "fs p = Some Dir"
  shows "walk fs [] (p @ [c]) = Inr (p @ [c])"
proof -
  have "fs q = Some Dir" if r: "p @ [c] = q @ r" "r \<noteq> []" for q r
  proof (cases r rule: rev_cases)
    case (snoc r' d)
    then have "p = q @ r'" using r by simp
    then show ?thesis using fs_wf_prefix [OF assms(1), of q r'] assms(4) by (cases "r' = []") auto
  qed (use r in simp)
  then show ?thesis using walk_normal [of "p @ [c]" fs "[]"] assms(2,3) by simp
qed

lemma walk_dir:
  assumes "fs_wf fs" "list_all normal_name p" "fs p = Some Dir"
  shows "walk fs [] p = Inr p"
proof (cases p rule: rev_cases)
  case (snoc q c)
  have "fs q = Some Dir" using assms(1,3) snoc unfolding fs_wf_def by (metis option.distinct(1))
  then show ?thesis using walk_wf [of fs q c] assms snoc by simp
qed simp

lemma fs_read_wf:
  "fs_wf fs \<Longrightarrow> list_all normal_name p \<Longrightarrow> normal_name c \<Longrightarrow> fs p = Some Dir \<Longrightarrow>
    fs_read (p @ [c]) fs = (case fs (p @ [c]) of None \<Rightarrow> Inl NotFound | Some Dir \<Rightarrow> Inl IsADirectory | Some (File b) \<Rightarrow> Inr b)"
  by (simp add: fs_read_def walk_wf)

lemma fs_metadata_wf:
  "fs_wf fs \<Longrightarrow> list_all normal_name p \<Longrightarrow> normal_name c \<Longrightarrow> fs p = Some Dir \<Longrightarrow>
    fs_metadata (p @ [c]) fs = ok_or NotFound (fs (p @ [c]))"
  by (simp add: fs_metadata_def walk_wf)

section \<open>Creating directories\<close>

lemma mkdirs_Inr:
  "\<lbrakk>mkdirs cur cs fs = Inr fs'; list_all normal_name cs; fs cur = Some Dir\<rbrakk>
   \<Longrightarrow> fs' = (\<lambda>q. if prefix cur q \<and> prefix q (cur @ cs) then Some Dir else fs q)"
proof (induction cur cs fs rule: mkdirs.induct)
  case (1 cur fs)
  then show ?case by (auto simp: fun_eq_iff dest: prefix_order.antisym)
next
  case (2 cur c cs fs)
  have "normal_name c" and cs: "list_all normal_name cs" using 2(6) by simp_all
  then have c: "\<not> has_nul c" "\<not> (c = [] \<or> c = ''.'')" "c \<noteq> ''..''" by (simp_all add: normal_name_def)
  have split: "prefix cur q \<and> prefix q (cur @ c # cs) \<longleftrightarrow>
      q = cur \<or> prefix (cur @ [c]) q \<and> prefix q ((cur @ [c]) @ cs)" for q
  proof (cases "prefix cur q")
    case True
    then obtain r where "q = cur @ r" by (auto simp: prefix_def)
    then show ?thesis by (cases r) auto
  qed (auto dest: append_prefixD)
  show ?case
  proof (cases "fs (cur @ [c])")
    case None
    have m: "mkdirs (cur @ [c]) cs (fs(cur @ [c] \<mapsto> Dir)) = Inr fs'" using 2(5) c None by simp
    have "fs' = (\<lambda>q. if prefix (cur @ [c]) q \<and> prefix q ((cur @ [c]) @ cs) then Some Dir
        else (fs(cur @ [c] \<mapsto> Dir)) q)"
      by (rule 2(3) [OF c None m cs]) simp
    then show ?thesis using 2(7) unfolding split by (auto simp: fun_eq_iff)
  next
    case (Some n)
    then have n: "n = Dir" using 2(5) c by (cases n) auto
    have "fs' = (\<lambda>q. if prefix (cur @ [c]) q \<and> prefix q ((cur @ [c]) @ cs) then Some Dir else fs q)"
      using 2(4) [OF c Some n] 2(5) c cs Some n by simp
    then show ?thesis using 2(7) unfolding split by (auto simp: fun_eq_iff)
  qed
qed

lemma mkdirs_ok:
  "\<lbrakk>list_all normal_name cs; \<forall>p b. prefix p (cur @ cs) \<longrightarrow> fs p \<noteq> Some (File b)\<rbrakk>
   \<Longrightarrow> \<exists>fs'. mkdirs cur cs fs = Inr fs'"
proof (induction cur cs fs rule: mkdirs.induct)
  case (2 cur c cs fs)
  have "normal_name c" and cs: "list_all normal_name cs" using 2(5) by simp_all
  then have c: "\<not> has_nul c" "\<not> (c = [] \<or> c = ''.'')" "c \<noteq> ''..''" by (simp_all add: normal_name_def)
  have pf: "\<forall>p b. prefix p ((cur @ [c]) @ cs) \<longrightarrow> fs p \<noteq> Some (File b)" using 2(6) by simp
  show ?case
  proof (cases "fs (cur @ [c])")
    case None
    have "\<exists>fs'. mkdirs (cur @ [c]) cs (fs(cur @ [c] \<mapsto> Dir)) = Inr fs'"
      by (rule 2(3) [OF c None cs]) (use pf in auto)
    then show ?thesis using c None by simp
  next
    case (Some n)
    then have n: "n = Dir" using 2(6) by (cases n) auto
    show ?thesis using 2(4) [OF c Some n cs] pf c Some n by auto
  qed
qed simp

lemma create_dir_all_Inr:
  "create_dir_all p fs = Inr fs' \<Longrightarrow> list_all normal_name p \<Longrightarrow> fs [] = Some Dir
    \<Longrightarrow> fs' = (\<lambda>q. if prefix q p then Some Dir else fs q)"
  unfolding create_dir_all_def by (drule mkdirs_Inr) auto

lemma create_dir_all_wf:
  assumes "create_dir_all p fs = Inr fs'" "list_all normal_name p" "fs_wf fs"
  shows "fs_wf fs'"
proof -
  have fs': "fs' = (\<lambda>q. if prefix q p then Some Dir else fs q)"
    using assms create_dir_all_Inr by (auto simp: fs_wf_def)
  show ?thesis
    using assms(3) unfolding fs_wf_def fs' by (auto dest: append_prefixD)
qed

lemma create_dir_all_id:
  assumes "fs_wf fs" "list_all normal_name p" "fs p = Some Dir"
  shows "create_dir_all p fs = Inr fs"
proof -
  have dir: "fs q = Some Dir" if "prefix q p" for q
  proof -
    obtain r where "p = q @ r" using \<open>prefix q p\<close> by (auto simp: prefix_def)
    then show ?thesis using fs_wf_prefix [OF assms(1), of q r] assms(3) by (cases "r = []") auto
  qed
  then obtain fs' where fs': "create_dir_all p fs = Inr fs'"
    using mkdirs_ok [OF assms(2), of "[]" fs] by (auto simp: create_dir_all_def)
  have "fs' = fs"
    using create_dir_all_Inr [OF fs' assms(2)] assms(1) dir by (auto simp: fs_wf_def fun_eq_iff)
  with fs' show ?thesis by simp
qed

lemma mkdirs_no_file:
  "\<lbrakk>mkdirs cur cs fs = Inr fs'; list_all normal_name cs; fs cur = Some Dir; prefix cur q; prefix q (cur @ cs)\<rbrakk>
   \<Longrightarrow> fs q \<noteq> Some (File b)"
proof (induction cur cs fs rule: mkdirs.induct)
  case (1 cur fs)
  then have "q = cur" by (auto intro: prefix_order.antisym)
  with 1 show ?case by simp
next
  case (2 cur c cs fs)
  have "normal_name c" and cs: "list_all normal_name cs" using 2(6) by simp_all
  then have c: "\<not> has_nul c" "\<not> (c = [] \<or> c = ''.'')" "c \<noteq> ''..''" by (simp_all add: normal_name_def)
  obtain r where r: "q = cur @ r" using 2(8) by (auto simp: prefix_def)
  show ?case
  proof (cases "q = cur")
    case True
    then show ?thesis using 2(7) by simp
  next
    case False
    then have q: "prefix (cur @ [c]) q" "prefix q ((cur @ [c]) @ cs)" using 2(9) r by (cases r; simp)+
    show ?thesis
    proof (cases "fs (cur @ [c])")
      case None
      have m: "mkdirs (cur @ [c]) cs (fs(cur @ [c] \<mapsto> Dir)) = Inr fs'" using 2(5) c None by simp
      have "(fs(cur @ [c] \<mapsto> Dir)) q \<noteq> Some (File b)" by (rule 2(3) [OF c None m cs _ q]) simp
      then show ?thesis using None by (auto simp: fun_upd_apply split: if_splits)
    next
      case (Some n)
      then have n: "n = Dir" using 2(5) c by (cases n) auto
      have m: "mkdirs (cur @ [c]) cs fs = Inr fs'" using 2(5) c Some n by simp
      show ?thesis by (rule 2(4) [OF c Some n m cs _ q]) (simp add: Some n)
    qed
  qed
qed

lemma create_dir_all_no_file:
  "create_dir_all p fs = Inr fs' \<Longrightarrow> list_all normal_name p \<Longrightarrow> fs [] = Some Dir \<Longrightarrow> prefix q p
    \<Longrightarrow> fs q \<noteq> Some (File b)"
  unfolding create_dir_all_def by (rule mkdirs_no_file) auto

lemma walk_append: "walk fs cur (xs @ ys) = res_bind (walk fs cur xs) (\<lambda>q. walk fs q ys)"
  by (induction fs cur xs rule: walk.induct) (auto split: option.splits node.splits)

lemma walk_normal_Inr: "list_all normal_name xs \<Longrightarrow> walk fs cur xs = Inr r \<Longrightarrow> r = cur @ xs"
  by (induction fs cur xs rule: walk.induct)
    (auto simp: normal_name_def split: option.splits node.splits if_splits)

lemma target_fresh:
  assumes "fs_wf fs" "list_all normal_name d" "\<not> is_ok (fs_metadata (d @ [n]) fs)"
    "walk fs [] (d @ [n]) = Inr q"
  shows "q = d @ [n] \<and> fs q = None \<and> fs d = Some Dir \<and> normal_name n"
proof -
  obtain r where r: "walk fs [] d = Inr r" "walk fs r [n] = Inr q"
    using assms(4) by (auto simp: walk_append res_iffs)
  have rd: "r = d" using walk_normal_Inr [OF assms(2) r(1)] by simp
  have none: "fs q = None" using assms(3,4) by (cases "fs q") (auto simp: fs_metadata_def)
  have dir: "fs d = Some Dir" "\<not> has_nul n"
    using r(2) rd by (auto split: option.splits node.splits if_splits)
  have up: "fs (butlast d) = Some Dir"
  proof (cases d rule: rev_cases)
    case (snoc e c)
    then show ?thesis using assms(1) dir unfolding fs_wf_def by auto
  qed (use dir in simp)
  show ?thesis
    using r(2) rd none dir up by (auto simp: normal_name_def split: if_splits)
qed

section \<open>Files\<close>

lemma fs_wf_put_file:
  assumes "fs_wf fs" "fs p = Some Dir" "fs (p @ [c]) \<noteq> Some Dir"
  shows "fs_wf (fs(p @ [c] \<mapsto> File b))"
proof -
  have "fs ((p @ [c]) @ [d]) = None" for d using assms(1,3) unfolding fs_wf_def by metis
  then show ?thesis using assms unfolding fs_wf_def by (auto simp: fun_upd_apply)
qed

lemma fs_wf_remove_file:
  assumes "fs_wf fs" "fs p = Some (File b)"
  shows "fs_wf (fs(p := None))"
proof -
  have "fs (p @ [c]) = None" for c using assms unfolding fs_wf_def by (metis node.distinct(1) option.inject)
  then show ?thesis using assms unfolding fs_wf_def by (auto simp: fun_upd_apply)
qed

lemma length_write_at: "bs \<noteq> [] \<Longrightarrow> length (write_at old off bs) = max (length old) (off + length bs)"
  by (auto simp: write_at_def min_def max_def)

lemma nth_write_at:
  assumes "i < max (length old) (off + length bs)" "bs \<noteq> []"
  shows "write_at old off bs ! i =
    (if off \<le> i \<and> i < off + length bs then bs ! (i - off) else if i < length old then old ! i else 0)"
proof -
  have len: "length (take off (old @ replicate (off - length old) 0)) = off" by simp
  have written: "write_at old off bs = take off (old @ replicate (off - length old) 0) @ bs @ drop (off + length bs) old"
    using assms(2) by (simp add: write_at_def)
  consider "i < off" | "off \<le> i" "i < off + length bs" | "off + length bs \<le> i" by linarith
  then show ?thesis
  proof cases
    case 1
    then show ?thesis
      unfolding written by (subst nth_append) (simp only: len, simp add: nth_append)
  next
    case 2
    then have "i - off < length bs" by linarith
    with 2 show ?thesis
      unfolding written by (subst nth_append) (simp only: len, simp add: nth_append)
  next
    case 3
    then have "i < length old" "\<not> i - off < length bs" using assms by auto
    with 3 show ?thesis
      unfolding written by (subst nth_append) (simp only: len, simp add: nth_append)
  qed
qed

end
