(* ===== verification/Native_Transfer.thy ===== *)
theory Native_Transfer
  imports Manifest Chunk_Frame NB_Fs
begin

text \<open>
  The native data path, the sender and the receiver of \<open>protocol-native-v1/src/transfer.rs\<close>.
  \<open>World\<close> has the manifest store, the file system and the number of UUIDs drawn so far; the
  operations are in the state-and-error monad, so that what they did before failing stays.
  Parameters are the BLAKE3 hex digest \<open>H\<close>, the UUID supply \<open>U\<close> and the clock reading \<open>now\<close> of
  a call.
\<close>

section \<open>State\<close>

record World =
  w_manifest :: ManifestStore
  w_fs :: fs
  w_uuid :: nat

type_synonym 'a io = "(World, NativeError, 'a) sr"

record NativeTransferReceiver =
  rv_inbox_dir :: path
  rv_trusted_peer_fingerprint :: "string option"
  rv_blocked :: bool
  rv_chunk_size :: u64

record ResumePlan =
  rp_transfer_id :: string
  rp_missing :: "(string \<times> ResumeRange list) list"

definition receiver_trusted :: "path \<Rightarrow> string \<Rightarrow> NativeTransferReceiver" where
  "receiver_trusted inbox fp = \<lparr>rv_inbox_dir = inbox, rv_trusted_peer_fingerprint = Some fp,
     rv_blocked = False, rv_chunk_size = DEFAULT_CHUNK_SIZE\<rparr>"

definition receiver_blocked :: "path \<Rightarrow> NativeTransferReceiver" where
  "receiver_blocked inbox = \<lparr>rv_inbox_dir = inbox, rv_trusted_peer_fingerprint = None,
     rv_blocked = True, rv_chunk_size = DEFAULT_CHUNK_SIZE\<rparr>"

definition on_fs :: "(fs \<Rightarrow> IoError + fs) \<Rightarrow> unit io" where
  "on_fs f = sr_modify (\<lambda>w. case f (w_fs w) of Inl e \<Rightarrow> Inl (Io e) | Inr fs \<Rightarrow> Inr (w\<lparr>w_fs := fs\<rparr>))"

definition of_fs :: "(fs \<Rightarrow> IoError + 'a) \<Rightarrow> 'a io" where
  "of_fs f = sr_gets (\<lambda>w. case f (w_fs w) of Inl e \<Rightarrow> Inl (Io e) | Inr x \<Rightarrow> Inr x)"

definition open_write :: "path \<Rightarrow> path io" where
  "open_write p = (\<lambda>w. case fs_open_write p (w_fs w) of
     Inl e \<Rightarrow> (Inl (Io e), w) | Inr (q, fs) \<Rightarrow> (Inr q, w\<lparr>w_fs := fs\<rparr>))"

definition on_manifest :: "(ManifestStore \<Rightarrow> ManifestStore native_result) \<Rightarrow> unit io" where
  "on_manifest f = sr_modify (\<lambda>w. res_map (\<lambda>m. w\<lparr>w_manifest := m\<rparr>) (f (w_manifest w)))"

definition of_manifest :: "(ManifestStore \<Rightarrow> 'a native_result) \<Rightarrow> 'a io" where
  "of_manifest f = sr_gets (\<lambda>w. f (w_manifest w))"

definition new_v4 :: "(nat \<Rightarrow> string) \<Rightarrow> string io" where
  "new_v4 U = (\<lambda>w. (Inr (U (w_uuid w)), w\<lparr>w_uuid := Suc (w_uuid w)\<rparr>))"

lemma on_fs_simps [simp]:
  "f (w_fs w) = Inr fs \<Longrightarrow> on_fs f w = (Inr (), w\<lparr>w_fs := fs\<rparr>)"
  "f (w_fs w) = Inl e \<Longrightarrow> on_fs f w = (Inl (Io e), w)"
  by (simp_all add: on_fs_def sr_modify_def)

lemma of_fs_simps [simp]:
  "g (w_fs w) = Inr x \<Longrightarrow> of_fs g w = (Inr x, w)"
  "g (w_fs w) = Inl e \<Longrightarrow> of_fs g w = (Inl (Io e), w)"
  by (simp_all add: of_fs_def)

lemma on_manifest_simps [simp]:
  "h (w_manifest w) = Inr m \<Longrightarrow> on_manifest h w = (Inr (), w\<lparr>w_manifest := m\<rparr>)"
  "h (w_manifest w) = Inl err \<Longrightarrow> on_manifest h w = (Inl err, w)"
  by (simp_all add: on_manifest_def sr_modify_def)

lemma of_manifest_apply [simp]: "of_manifest k w = (k (w_manifest w), w)"
  by (simp add: of_manifest_def)

lemma on_fs_Inr_iff: "on_fs f w = (Inr u, w') \<longleftrightarrow> (\<exists>fs. f (w_fs w) = Inr fs \<and> w' = w\<lparr>w_fs := fs\<rparr>)"
  by (cases "f (w_fs w)") auto

lemma of_fs_Inr_iff: "of_fs g w = (Inr x, w') \<longleftrightarrow> g (w_fs w) = Inr x \<and> w' = w"
  by (cases "g (w_fs w)") auto

lemma on_manifest_Inr_iff:
  "on_manifest h w = (Inr u, w') \<longleftrightarrow> (\<exists>m. h (w_manifest w) = Inr m \<and> w' = w\<lparr>w_manifest := m\<rparr>)"
  by (cases "h (w_manifest w)") auto

lemmas io_iffs = on_fs_Inr_iff of_fs_Inr_iff on_manifest_Inr_iff sr_bind_Inr_iff sr_gets_Inr_iff

section \<open>Names\<close>

definition safe_component :: "(nat \<Rightarrow> string) \<Rightarrow> string \<Rightarrow> string io" where
  "safe_component U value =
     (let cleaned = filter (\<lambda>c. is_ascii_alphanumeric c \<or> c = CHR ''-'' \<or> c = CHR ''_'') value in
      if cleaned = [] then new_v4 U else sr_return cleaned)"

definition safe_file_name :: "string \<Rightarrow> string native_result" where
  "safe_file_name name =
     (if CHR ''/'' \<in> set name \<or> CHR 0x5C \<in> set name \<or> name = ''.'' \<or> name = ''..''
      then Inl (Protocol ''unsafe file name'')
      else let trimmed = rs_trim name in
        if trimmed = [] then Inl (Protocol ''file name is required'') else Inr trimmed)"

definition candidate_name :: "string \<Rightarrow> nat \<Rightarrow> string" where
  "candidate_name safe_name index =
     (let stem = (case file_stem safe_name of Some s \<Rightarrow> s | None \<Rightarrow> ''file'') in
      case path_extension safe_name of
        Some ext \<Rightarrow> stem @ '' ('' @ show_nat index @ '').'' @ ext
      | None \<Rightarrow> stem @ '' ('' @ show_nat index @ '')'')"

function search_target :: "fs \<Rightarrow> path \<Rightarrow> string \<Rightarrow> nat \<Rightarrow> path option" where
  "search_target fs inbox safe_name index =
     (if index > 9999 then None
      else let candidate = inbox @ [candidate_name safe_name index] in
        if \<not> is_ok (fs_metadata candidate fs) then Some candidate
        else search_target fs inbox safe_name (Suc index))"
  by pat_completeness auto
termination by (relation "measure (\<lambda>(fs, inbox, n, i). 10000 - i)") auto

declare search_target.simps [simp del]

definition available_target_path :: "path \<Rightarrow> string \<Rightarrow> fs \<Rightarrow> path native_result" where
  "available_target_path inbox name fs =
     res_bind (safe_file_name name) (\<lambda>safe_name.
       let candidate = inbox @ [safe_name] in
       if \<not> is_ok (fs_metadata candidate fs) then Inr candidate
       else ok_or (Protocol ''could not allocate unique target filename'')
              (search_target fs inbox safe_name 1))"

definition path_name :: "path \<Rightarrow> string native_result" where
  "path_name p =
     (case path_file_name p of
        Some n \<Rightarrow> if utf8_valid n then Inr n else Inl (Protocol ''path does not have a valid file name'')
      | None \<Rightarrow> Inl (Protocol ''path does not have a valid file name''))"

definition incoming_dir :: "(nat \<Rightarrow> string) \<Rightarrow> NativeTransferReceiver \<Rightarrow> string \<Rightarrow> path io" where
  "incoming_dir U rcv tid =
     sr_bind (safe_component U tid) (\<lambda>c. sr_return (rv_inbox_dir rcv @ [''.incoming'', ''native'', c]))"

definition incoming_file_path :: "(nat \<Rightarrow> string) \<Rightarrow> NativeTransferReceiver \<Rightarrow> string \<Rightarrow> string \<Rightarrow> path io" where
  "incoming_file_path U rcv tid fid =
     sr_bind (incoming_dir U rcv tid) (\<lambda>dir.
     sr_bind (safe_component U fid) (\<lambda>c. sr_return (dir @ [c @ ''.part''])))"

section \<open>The receiver\<close>

definition accept_transfer :: "(nat \<Rightarrow> string) \<Rightarrow> int \<Rightarrow> NativeTransferReceiver \<Rightarrow> NativePeerInfo
    \<Rightarrow> RequestTransfer \<Rightarrow> AcceptTransfer io" where
  "accept_transfer U now rcv peer request =
     (if rv_blocked rcv then sr_fail (Protocol ''peer is blocked'')
      else if rv_trusted_peer_fingerprint rcv \<noteq> Some (np_fingerprint peer)
        then sr_fail (Protocol ''peer is not trusted'')
      else
        sr_bind (sr_gets (\<lambda>_. validate_transfer_request request)) (\<lambda>_.
        sr_bind (incoming_dir U rcv (rt_transfer_id request)) (\<lambda>dir.
        sr_bind (on_fs (create_dir_all dir)) (\<lambda>_.
        sr_bind (of_manifest (\<lambda>m. get_state m (rt_transfer_id request))) (\<lambda>state.
        sr_bind (if state = None
                 then on_manifest (create_transfer now (rt_transfer_id request) (np_fingerprint peer)
                        Receive (rt_files request))
                 else sr_return ()) (\<lambda>_.
        sr_bind (on_manifest (set_state now (rt_transfer_id request) Active)) (\<lambda>_.
        sr_return \<lparr>at_transfer_id = rt_transfer_id request, at_chunk_size = rv_chunk_size rcv\<rparr>)))))))"

definition receive_chunk_with_hash :: "(bytes \<Rightarrow> string) \<Rightarrow> (nat \<Rightarrow> string) \<Rightarrow> int \<Rightarrow> NativeTransferReceiver
    \<Rightarrow> string \<Rightarrow> string \<Rightarrow> u64 \<Rightarrow> bytes \<Rightarrow> string \<Rightarrow> unit io" where
  "receive_chunk_with_hash H U now rcv tid fid off bs expected_blake3 =
     (if bs = [] then sr_fail (Protocol ''chunk bytes must not be empty'')
      else if H bs \<noteq> expected_blake3 then sr_fail (Protocol ''chunk hash mismatch'')
      else
        sr_bind (incoming_file_path U rcv tid fid) (\<lambda>path.
        sr_bind (on_fs (create_dir_all (butlast path))) (\<lambda>_.
        sr_bind (open_write path) (\<lambda>file.
        sr_bind (on_fs (fs_write_at file off bs)) (\<lambda>_.
        on_manifest (record_verified_chunk now tid fid off (of_nat (length bs)) (H bs)))))))"

definition receive_chunk :: "(bytes \<Rightarrow> string) \<Rightarrow> (nat \<Rightarrow> string) \<Rightarrow> int \<Rightarrow> NativeTransferReceiver
    \<Rightarrow> string \<Rightarrow> string \<Rightarrow> u64 \<Rightarrow> bytes \<Rightarrow> unit io" where
  "receive_chunk H U now rcv tid fid off bs =
     receive_chunk_with_hash H U now rcv tid fid off bs (H bs)"

definition rv_missing_ranges :: "string \<Rightarrow> string \<Rightarrow> u64 \<Rightarrow> ResumeRange list io" where
  "rv_missing_ranges tid fid chunk_size = of_manifest (\<lambda>m. missing_ranges m tid fid chunk_size)"

definition resume_plan :: "string \<Rightarrow> u64 \<Rightarrow> ManifestStore \<Rightarrow> ResumePlan native_result" where
  "resume_plan tid chunk_size m =
     res_map (\<lambda>missing. \<lparr>rp_transfer_id = tid, rp_missing = missing\<rparr>)
       (res_mapM (\<lambda>f. res_map (\<lambda>rs. (mf_file_id f, rs)) (missing_ranges m tid (mf_file_id f) chunk_size))
         (manifest_files m tid))"

fun verify_files :: "(bytes \<Rightarrow> string) \<Rightarrow> (nat \<Rightarrow> string) \<Rightarrow> int \<Rightarrow> NativeTransferReceiver \<Rightarrow> string
    \<Rightarrow> ManifestFile list \<Rightarrow> unit io" where
  "verify_files H U now rcv tid [] = sr_return ()"
| "verify_files H U now rcv tid (f # fs) =
     sr_bind (incoming_file_path U rcv tid (mf_file_id f)) (\<lambda>incoming.
     sr_bind (of_fs (fs_read incoming)) (\<lambda>bs.
       if of_nat (length bs) \<noteq> mf_size f
       then sr_bind (on_manifest (set_state now tid Failed)) (\<lambda>_. sr_fail (Protocol ''file size mismatch''))
       else case mf_blake3 f of
         Some expected \<Rightarrow>
           if H bs \<noteq> expected
           then sr_bind (on_manifest (set_state now tid Failed)) (\<lambda>_. sr_fail (Protocol ''file hash mismatch''))
           else verify_files H U now rcv tid fs
       | None \<Rightarrow> verify_files H U now rcv tid fs))"

fun publish_files :: "(nat \<Rightarrow> string) \<Rightarrow> NativeTransferReceiver \<Rightarrow> string \<Rightarrow> ManifestFile list \<Rightarrow> unit io" where
  "publish_files U rcv tid [] = sr_return ()"
| "publish_files U rcv tid (f # fs) =
     sr_bind (incoming_file_path U rcv tid (mf_file_id f)) (\<lambda>incoming.
     sr_bind (sr_gets (\<lambda>w. available_target_path (rv_inbox_dir rcv) (mf_file_name f) (w_fs w))) (\<lambda>target.
     sr_bind (on_fs (fs_rename incoming target)) (\<lambda>_. publish_files U rcv tid fs)))"

definition finish_transfer :: "(bytes \<Rightarrow> string) \<Rightarrow> (nat \<Rightarrow> string) \<Rightarrow> int \<Rightarrow> NativeTransferReceiver \<Rightarrow> string \<Rightarrow> unit io" where
  "finish_transfer H U now rcv tid =
     sr_bind (of_manifest (\<lambda>m. Inr (transfer_complete m tid))) (\<lambda>complete.
     if \<not> complete
     then sr_bind (on_manifest (set_state now tid Interrupted)) (\<lambda>_. sr_fail (Protocol ''transfer has missing bytes''))
     else
       sr_bind (of_manifest (\<lambda>m. Inr (manifest_files m tid))) (\<lambda>files.
       sr_bind (verify_files H U now rcv tid files) (\<lambda>_.
       sr_bind (on_fs (create_dir_all (rv_inbox_dir rcv))) (\<lambda>_.
       sr_bind (publish_files U rcv tid files) (\<lambda>_.
       on_manifest (set_state now tid Completed))))))"

section \<open>The sender\<close>

fun prepare_offers :: "(bytes \<Rightarrow> string) \<Rightarrow> nat \<Rightarrow> path list \<Rightarrow> FileOffer list io" where
  "prepare_offers H index [] = sr_return []"
| "prepare_offers H index (p # ps) =
     sr_bind (of_fs (fs_read p)) (\<lambda>bs.
     sr_bind (sr_gets (\<lambda>_. path_name p)) (\<lambda>name.
     sr_bind (prepare_offers H (Suc index) ps) (\<lambda>files.
     sr_return (\<lparr>fo_file_id = ''file-'' @ show_nat index, fo_file_name = name,
                 fo_size = of_nat (length bs), fo_blake3 = Some (H bs)\<rparr> # files))))"

definition prepare_request :: "(bytes \<Rightarrow> string) \<Rightarrow> (nat \<Rightarrow> string) \<Rightarrow> path list \<Rightarrow> RequestTransfer io" where
  "prepare_request H U paths =
     sr_bind (prepare_offers H 0 paths) (\<lambda>files.
     sr_bind (new_v4 U) (\<lambda>tid. sr_return \<lparr>rt_transfer_id = tid, rt_files = files\<rparr>))"

fun send_file_ranges :: "(bytes \<Rightarrow> string) \<Rightarrow> (nat \<Rightarrow> string) \<Rightarrow> int \<Rightarrow> NativeTransferReceiver \<Rightarrow> string
    \<Rightarrow> string \<Rightarrow> path \<Rightarrow> ResumeRange list \<Rightarrow> unit io" where
  "send_file_ranges H U now rcv tid fid input [] = sr_return ()"
| "send_file_ranges H U now rcv tid fid input (r # rs) =
     sr_bind (of_fs (fs_read_at input (rr_offset r) (rr_length r))) (\<lambda>bs.
     sr_bind (receive_chunk_with_hash H U now rcv tid fid (rr_offset r) bs (H bs)) (\<lambda>_.
     send_file_ranges H U now rcv tid fid input rs))"

fun send_ranges :: "(bytes \<Rightarrow> string) \<Rightarrow> (nat \<Rightarrow> string) \<Rightarrow> int \<Rightarrow> NativeTransferReceiver \<Rightarrow> string
    \<Rightarrow> u64 \<Rightarrow> (string \<times> ResumeRange list) list option \<Rightarrow> (FileOffer \<times> path) list \<Rightarrow> unit io" where
  "send_ranges H U now rcv tid chunk_size plan [] = sr_return ()"
| "send_ranges H U now rcv tid chunk_size plan ((file, p) # rest) =
     sr_bind (case Option.bind plan (\<lambda>pl. map_of pl (fo_file_id file)) of
                Some ranges \<Rightarrow> sr_return ranges
              | None \<Rightarrow> rv_missing_ranges tid (fo_file_id file) chunk_size) (\<lambda>ranges.
     sr_bind (of_fs (fs_open_read p)) (\<lambda>input.
     sr_bind (send_file_ranges H U now rcv tid (fo_file_id file) input ranges) (\<lambda>_.
     send_ranges H U now rcv tid chunk_size plan rest)))"

definition send_files_to_receiver :: "(bytes \<Rightarrow> string) \<Rightarrow> (nat \<Rightarrow> string) \<Rightarrow> int \<Rightarrow> u64
    \<Rightarrow> NativeTransferReceiver \<Rightarrow> NativePeerInfo \<Rightarrow> path list \<Rightarrow> string io" where
  "send_files_to_receiver H U now chunk_size rcv peer paths =
     (if chunk_size = 0 then sr_fail (Protocol ''chunk size must be greater than zero'')
      else if paths = [] then sr_fail (Protocol ''at least one path is required'')
      else
        sr_bind (prepare_request H U paths) (\<lambda>request.
        sr_bind (accept_transfer U now rcv peer request) (\<lambda>accepted.
        sr_bind (send_ranges H U now rcv (rt_transfer_id request) (at_chunk_size accepted) None
                   (zip (rt_files request) paths)) (\<lambda>_.
        sr_bind (finish_transfer H U now rcv (rt_transfer_id request)) (\<lambda>_.
        sr_return (rt_transfer_id request))))))"

definition resume_files_to_receiver :: "(bytes \<Rightarrow> string) \<Rightarrow> (nat \<Rightarrow> string) \<Rightarrow> int \<Rightarrow> u64
    \<Rightarrow> NativeTransferReceiver \<Rightarrow> RequestTransfer \<Rightarrow> path list \<Rightarrow> unit io" where
  "resume_files_to_receiver H U now chunk_size rcv request paths =
     (if length paths \<noteq> length (rt_files request)
      then sr_fail (Protocol ''resume paths must match request files'')
      else
        sr_bind (of_manifest (resume_plan (rt_transfer_id request) chunk_size)) (\<lambda>plan.
        sr_bind (send_ranges H U now rcv (rt_transfer_id request) chunk_size (Some (rp_missing plan))
                   (zip (rt_files request) paths)) (\<lambda>_.
        finish_transfer H U now rcv (rt_transfer_id request))))"

end
