(* ===== verification/Transfer_Safety.thy ===== *)
theory Transfer_Safety
  imports Native_Transfer
begin

text \<open>
  What the receiver can do to the file system, whatever a peer sends: every change lies in the
  inbox directory (or creates a missing directory above it), and no regular file outside the
  staging area \<open>.incoming\<close> is ever changed or removed. The relation \<open>confined\<close> holds between the
  states before and after each operation, also when the operation fails.
\<close>

section \<open>Names that reach the file system\<close>

definition safe_char :: "char \<Rightarrow> bool" where
  "safe_char c \<longleftrightarrow> is_ascii_alphanumeric c \<or> c = CHR ''-'' \<or> c = CHR ''_''"

definition safe_name :: "string \<Rightarrow> bool" where
  "safe_name s \<longleftrightarrow> s \<noteq> [] \<and> list_all safe_char s"

text \<open>The documented shape of \<open>Uuid::to_string\<close>: a nonempty text of hex digits and hyphens.\<close>

definition uuid_supply :: "(nat \<Rightarrow> string) \<Rightarrow> bool" where
  "uuid_supply U \<longleftrightarrow> (\<forall>n. safe_name (U n))"

definition inbox_ok :: "path \<Rightarrow> bool" where
  "inbox_ok d \<longleftrightarrow> list_all normal_name d"

definition staging :: "path \<Rightarrow> path" where
  "staging inbox = inbox @ [''.incoming'']"

definition is_part :: "path \<Rightarrow> path \<Rightarrow> bool" where
  "is_part inbox p \<longleftrightarrow> (\<exists>c d. safe_name c \<and> safe_name d \<and>
     p = inbox @ [''.incoming'', ''native'', c, d @ ''.part''])"

lemma safe_char_ascii: "safe_char c \<Longrightarrow> c \<noteq> CHR 0x00 \<and> c \<noteq> CHR ''.''"
  by (auto simp: safe_char_def is_ascii_alphanumeric_def is_ascii_digit_def less_eq_char_def)

lemma safe_name_normal: "safe_name s \<Longrightarrow> normal_name s"
proof -
  assume s: "safe_name s"
  then have "CHR 0x00 \<notin> set s" "CHR ''.'' \<notin> set s"
    using safe_char_ascii unfolding safe_name_def list_all_iff by blast+
  with s show ?thesis by (auto simp: safe_name_def normal_name_def has_nul_def)
qed

lemma safe_name_part_normal: "safe_name s \<Longrightarrow> normal_name (s @ ''.part'')"
proof -
  assume s: "safe_name s"
  then have "CHR 0x00 \<notin> set s" using safe_char_ascii unfolding safe_name_def list_all_iff by blast
  then show ?thesis by (auto simp: normal_name_def has_nul_def append_eq_Cons_conv)
qed

lemma safe_name_filter:
  "filter (\<lambda>c. is_ascii_alphanumeric c \<or> c = CHR ''-'' \<or> c = CHR ''_'') v = s \<Longrightarrow> s \<noteq> [] \<Longrightarrow> safe_name s"
  by (auto simp: safe_name_def safe_char_def list_all_iff)

lemma safe_component_result:
  assumes "uuid_supply U"
  obtains c n where "safe_component U v w = (Inr c, w\<lparr>w_uuid := n\<rparr>)" "safe_name c"
proof (cases "filter (\<lambda>c. is_ascii_alphanumeric c \<or> c = CHR ''-'' \<or> c = CHR ''_'') v = []")
  case True
  then show ?thesis
    using that [of "U (w_uuid w)" "Suc (w_uuid w)"] assms by (simp add: safe_component_def new_v4_def uuid_supply_def)
next
  case False
  then show ?thesis
    using that [of _ "w_uuid w"] safe_name_filter [OF refl False] by (simp add: safe_component_def)
qed

lemma incoming_dir_result:
  assumes "uuid_supply U"
  obtains c n where "incoming_dir U rcv tid w = (Inr (rv_inbox_dir rcv @ [''.incoming'', ''native'', c]), w\<lparr>w_uuid := n\<rparr>)"
    "safe_name c"
proof -
  obtain c n where "safe_component U tid w = (Inr c, w\<lparr>w_uuid := n\<rparr>)" "safe_name c"
    using safe_component_result [OF assms] .
  then show ?thesis using that by (simp add: incoming_dir_def)
qed

lemma incoming_file_path_result:
  assumes "uuid_supply U"
  obtains p n where "incoming_file_path U rcv tid fid w = (Inr p, w\<lparr>w_uuid := n\<rparr>)" "is_part (rv_inbox_dir rcv) p"
proof -
  obtain c n where c: "incoming_dir U rcv tid w = (Inr (rv_inbox_dir rcv @ [''.incoming'', ''native'', c]), w\<lparr>w_uuid := n\<rparr>)"
    "safe_name c" using incoming_dir_result [OF assms] .
  obtain d m where d: "safe_component U fid (w\<lparr>w_uuid := n\<rparr>) = (Inr d, w\<lparr>w_uuid := n\<rparr>\<lparr>w_uuid := m\<rparr>)" "safe_name d"
    using safe_component_result [OF assms] .
  show ?thesis
    using that [of "rv_inbox_dir rcv @ [''.incoming'', ''native'', c, d @ ''.part'']" m] c d
    by (auto simp: incoming_file_path_def is_part_def)
qed

lemma is_part_split:
  assumes "is_part inbox p" "inbox_ok inbox"
  obtains d c where "p = d @ [c]" "list_all normal_name d" "normal_name c" "prefix (staging inbox) d"
proof -
  obtain c e where p: "safe_name c" "safe_name e" "p = inbox @ [''.incoming'', ''native'', c, e @ ''.part'']"
    using assms(1) by (auto simp: is_part_def)
  have "normal_name ''.incoming''" "normal_name ''native''"
    by (simp_all add: normal_name_def has_nul_def)
  then show ?thesis
    using that [of "inbox @ [''.incoming'', ''native'', c]" "e @ ''.part''"] p assms(2)
    by (simp add: safe_name_normal safe_name_part_normal inbox_ok_def staging_def)
qed

section \<open>The relation between states\<close>

definition confined :: "path \<Rightarrow> World \<Rightarrow> World \<Rightarrow> bool" where
  "confined inbox w w' \<longleftrightarrow> (fs_wf (w_fs w) \<longrightarrow>
     fs_wf (w_fs w') \<and>
     (\<forall>q. w_fs w' q \<noteq> w_fs w q \<longrightarrow> prefix inbox q \<or> prefix q inbox) \<and>
     (\<forall>q b. w_fs w q = Some (File b) \<and> \<not> prefix (staging inbox) q \<longrightarrow> w_fs w' q = Some (File b)))"

lemma confined_refl [simp]: "confined inbox w w"
  by (simp add: confined_def)

lemma confined_trans: "confined inbox a b \<Longrightarrow> confined inbox b c \<Longrightarrow> confined inbox a c"
  unfolding confined_def by metis

lemma confined_same_fs: "w_fs w' = w_fs w \<Longrightarrow> confined inbox w w'"
  by (simp add: confined_def)

lemma confined_uuid: "confined inbox (w\<lparr>w_uuid := n\<rparr>) w' = confined inbox w w'"
  by (simp add: confined_def)

lemma keeps_bind:
  "sr_keeps (confined inbox) m \<Longrightarrow> (\<And>x. sr_keeps (confined inbox) (f x)) \<Longrightarrow> sr_keeps (confined inbox) (sr_bind m f)"
  by (rule sr_keeps_bind [of "confined inbox"]) (rule confined_trans)

lemma bind_at:
  "confined inbox w (snd (m w)) \<Longrightarrow> (\<And>x w'. m w = (Inr x, w') \<Longrightarrow> confined inbox w' (snd (f x w')))
    \<Longrightarrow> confined inbox w (snd (sr_bind m f w))"
  by (rule sr_bind_at [of "confined inbox"]) (rule confined_trans)

lemmas keeps_basic = sr_keeps_simps [of "confined inbox" for inbox, OF confined_refl]

lemma keeps_on_manifest: "sr_keeps (confined inbox) (on_manifest f)"
  unfolding on_manifest_def by (rule sr_keeps_modify) (auto simp: res_map_Inr_iff intro: confined_same_fs)

lemma keeps_of_manifest: "sr_keeps (confined inbox) (of_manifest f)"
  unfolding of_manifest_def by (rule keeps_basic)

lemma keeps_of_fs: "sr_keeps (confined inbox) (of_fs f)"
  unfolding of_fs_def by (rule keeps_basic)

lemma keeps_on_fs:
  assumes "\<And>w fs. f (w_fs w) = Inr fs \<Longrightarrow> confined inbox w (w\<lparr>w_fs := fs\<rparr>)"
  shows "sr_keeps (confined inbox) (on_fs f)"
  unfolding on_fs_def using assms by (intro sr_keeps_modify) (auto split: sum.splits)

lemma keeps_create_dir_all:
  assumes "list_all normal_name p" "prefix inbox p"
  shows "sr_keeps (confined inbox) (on_fs (create_dir_all p))"
proof (rule keeps_on_fs)
  fix w :: World and fs assume c: "create_dir_all p (w_fs w) = Inr fs"
  show "confined inbox w (w\<lparr>w_fs := fs\<rparr>)"
    unfolding confined_def
  proof (intro impI conjI)
    assume wf: "fs_wf (w_fs w)"
    then have root: "w_fs w [] = Some Dir" by (simp add: fs_wf_def)
    have fs: "fs = (\<lambda>q. if prefix q p then Some Dir else w_fs w q)"
      using create_dir_all_Inr [OF c assms(1) root] .
    show "fs_wf (w_fs (w\<lparr>w_fs := fs\<rparr>))" using create_dir_all_wf [OF c assms(1) wf] by simp
    show "\<forall>q. w_fs (w\<lparr>w_fs := fs\<rparr>) q \<noteq> w_fs w q \<longrightarrow> prefix inbox q \<or> prefix q inbox"
      using prefix_same_cases [OF assms(2)] by (auto simp: fs)
    show "\<forall>q b. w_fs w q = Some (File b) \<and> \<not> prefix (staging inbox) q \<longrightarrow> w_fs (w\<lparr>w_fs := fs\<rparr>) q = Some (File b)"
      using create_dir_all_no_file [OF c assms(1) root] by (auto simp: fs)
  qed
qed

lemma staging_prefix: "prefix (staging inbox) p \<Longrightarrow> prefix inbox p"
  unfolding staging_def by (rule append_prefixD)

lemma staging_snoc: "prefix (staging inbox) d \<Longrightarrow> prefix (staging inbox) (d @ [c])"
  by simp

text \<open>Operations on one part file.\<close>

lemma confined_put_part:
  fixes w :: World
  assumes "prefix (staging inbox) p" "fs_wf (w_fs w) \<Longrightarrow> fs_wf ((w_fs w)(p := x))"
  shows "confined inbox w (w\<lparr>w_fs := (w_fs w)(p := x)\<rparr>)"
  using assms staging_prefix [OF assms(1)] by (auto simp: confined_def fun_upd_apply)

lemma is_part_walk:
  assumes "is_part inbox p" "inbox_ok inbox" "walk fs [] p = Inr q"
  shows "q = p"
proof -
  obtain d c where "p = d @ [c]" "list_all normal_name d" "normal_name c"
    using is_part_split [OF assms(1,2)] by metis
  then show ?thesis using walk_normal_Inr [of p fs "[]" q] assms(3) by simp
qed

lemma fs_wf_walk_parent:
  assumes "walk fs [] (d @ [c]) = Inr (d @ [c])" "list_all normal_name d" "normal_name c"
  shows "fs d = Some Dir"
proof -
  obtain r where r: "walk fs [] d = Inr r" "walk fs r [c] = Inr (d @ [c])"
    using assms(1) by (auto simp: walk_append res_iffs)
  have "r = d" using walk_normal_Inr [OF assms(2) r(1)] by simp
  then show ?thesis using r(2) by (auto split: option.splits node.splits if_splits)
qed

lemma fs_open_write_Inr:
  assumes "fs_open_write p fs = Inr (q, fs')"
  shows "walk fs [] p = Inr q \<and> (fs' = fs \<and> (\<exists>b. fs q = Some (File b)) \<or> fs q = None \<and> fs' = fs(q \<mapsto> File []))"
proof -
  obtain r where r: "walk fs [] p = Inr r" using assms by (auto simp: fs_open_write_def res_iffs)
  show ?thesis
  proof (cases "fs r")
    case None
    then show ?thesis using assms r by (auto simp: fs_open_write_def)
  next
    case (Some n)
    then show ?thesis using assms r by (cases n) (auto simp: fs_open_write_def)
  qed
qed

lemma open_write_confined:
  assumes "is_part inbox p" "inbox_ok inbox"
  shows "confined inbox w (snd (open_write p w))"
    and "open_write p w = (Inr q, w') \<Longrightarrow> q = p"
proof -
  obtain d c where p: "p = d @ [c]" "list_all normal_name d" "normal_name c" "prefix (staging inbox) d"
    using is_part_split [OF assms] .
  show "q = p" if "open_write p w = (Inr q, w')"
    using that fs_open_write_Inr [of p "w_fs w" q] is_part_walk [OF assms, of "w_fs w" q]
    by (auto simp: open_write_def split: sum.splits)
  show "confined inbox w (snd (open_write p w))"
  proof (cases "fs_open_write p (w_fs w)")
    case (Inl e)
    then show ?thesis by (simp add: open_write_def)
  next
    case (Inr r)
    then obtain q fs where r: "r = (q, fs)" by (cases r)
    have w: "walk (w_fs w) [] p = Inr p" and fs: "fs = w_fs w \<or> w_fs w p = None \<and> fs = (w_fs w)(p \<mapsto> File [])"
      using fs_open_write_Inr [of p "w_fs w" q fs] Inr r is_part_walk [OF assms, of "w_fs w" q] by auto
    have dir: "w_fs w d = Some Dir" using fs_wf_walk_parent w p by blast
    have "confined inbox w (w\<lparr>w_fs := fs\<rparr>)"
      using fs
    proof
      assume "w_fs w p = None \<and> fs = (w_fs w)(p \<mapsto> File [])"
      then show ?thesis
        using confined_put_part [of inbox p w "Some (File [])"] fs_wf_put_file [of "w_fs w" d c "[]"] dir p
        by auto
    qed (simp add: confined_same_fs)
    then show ?thesis using Inr r by (simp add: open_write_def)
  qed
qed

lemma write_at_confined:
  assumes "is_part inbox p" "inbox_ok inbox"
  shows "sr_keeps (confined inbox) (on_fs (fs_write_at p off bs))"
proof (rule keeps_on_fs)
  fix w :: World and fs assume "fs_write_at p off bs (w_fs w) = Inr fs"
  then obtain old where old: "w_fs w p = Some (File old)" "fs = (w_fs w)(p \<mapsto> File (write_at old (unat off) bs))"
    by (auto simp: fs_write_at_def split: if_splits option.splits node.splits)
  obtain d c where p: "p = d @ [c]" "list_all normal_name d" "normal_name c" "prefix (staging inbox) d"
    using is_part_split [OF assms] .
  have "w_fs w d = Some Dir" if "fs_wf (w_fs w)" using that old p(1) unfolding fs_wf_def by auto
  then show "confined inbox w (w\<lparr>w_fs := fs\<rparr>)"
    using confined_put_part [of inbox p w] fs_wf_put_file [of "w_fs w" d c] old p by auto
qed

lemma rename_confined:
  fixes w :: World
  assumes part: "is_part inbox p" and ok: "inbox_ok inbox" and wf: "fs_wf (w_fs w)"
    and fresh: "\<not> is_ok (fs_metadata (inbox @ [n]) (w_fs w))"
    and r: "fs_rename p (inbox @ [n]) (w_fs w) = Inr fs"
  shows "confined inbox w (w\<lparr>w_fs := fs\<rparr>) \<and> w_fs w (inbox @ [n]) = None \<and> normal_name n \<and>
    (\<exists>b. w_fs w p = Some (File b) \<and> fs = (w_fs w)(p := None, inbox @ [n] \<mapsto> File b))"
proof -
  obtain q where wk: "walk (w_fs w) [] (inbox @ [n]) = Inr q" "walk (w_fs w) [] p = Inr p"
    using r is_part_walk [OF part ok] by (auto simp: fs_rename_def res_iffs)
  have q: "q = inbox @ [n]" "w_fs w q = None" "w_fs w inbox = Some Dir" "normal_name n"
    using target_fresh [OF wf _ fresh wk(1)] ok by (auto simp: inbox_ok_def)
  obtain b where b: "w_fs w p = Some (File b)" "fs = (w_fs w)(p := None, q \<mapsto> File b)"
    using r wk by (auto simp: fs_rename_def split: option.splits node.splits if_splits)
  obtain d c where p: "p = d @ [c]" "prefix (staging inbox) d" using is_part_split [OF part ok] by metis
  have ne: "p \<noteq> inbox" "p \<noteq> q" using b q by auto
  have "fs_wf fs"
    unfolding b(2) q(1) using fs_wf_remove_file [OF wf b(1)] q ne
    by (intro fs_wf_put_file) auto
  moreover have "prefix inbox p" "prefix (staging inbox) p" using p staging_prefix staging_snoc by blast+
  ultimately have "confined inbox w (w\<lparr>w_fs := fs\<rparr>)"
    using b q ne by (auto simp: confined_def fun_upd_apply)
  then show ?thesis using b q by auto
qed

section \<open>The operations\<close>

lemma keeps_at: "sr_keeps (confined inbox) m \<Longrightarrow> confined inbox w (snd (m w))"
  by (simp add: sr_keeps_def)

lemma accept_transfer_confined:
  assumes "uuid_supply U" "inbox_ok (rv_inbox_dir rcv)"
  shows "confined (rv_inbox_dir rcv) w (snd (accept_transfer U now rcv peer request w))"
proof -
  let ?R = "confined (rv_inbox_dir rcv)" and ?tid = "rt_transfer_id request"
  let ?tail = "\<lambda>_::unit. sr_bind (of_manifest (\<lambda>m. get_state m ?tid)) (\<lambda>state.
        sr_bind (if state = None
                 then on_manifest (create_transfer now ?tid (np_fingerprint peer) Receive (rt_files request))
                 else sr_return ()) (\<lambda>_.
        sr_bind (on_manifest (set_state now ?tid Active)) (\<lambda>_.
        sr_return \<lparr>at_transfer_id = ?tid, at_chunk_size = rv_chunk_size rcv\<rparr>)))"
  have tail: "sr_keeps ?R (?tail u)" for u
    by (intro keeps_bind keeps_of_manifest keeps_on_manifest) (auto intro: keeps_on_manifest keeps_basic)
  obtain c n where d: "incoming_dir U rcv ?tid w = (Inr (rv_inbox_dir rcv @ [''.incoming'', ''native'', c]), w\<lparr>w_uuid := n\<rparr>)"
    "safe_name c" using incoming_dir_result [OF assms(1)] .
  have "list_all normal_name (rv_inbox_dir rcv @ [''.incoming'', ''native'', c])"
    using assms(2) safe_name_normal [OF d(2)] by (simp add: inbox_ok_def normal_name_def has_nul_def)
  then have mk: "sr_keeps ?R (on_fs (create_dir_all (rv_inbox_dir rcv @ [''.incoming'', ''native'', c])))"
    by (rule keeps_create_dir_all) simp
  have "?R w (snd (sr_bind (incoming_dir U rcv ?tid) (\<lambda>dir. sr_bind (on_fs (create_dir_all dir)) ?tail) w))"
    using keeps_at [OF keeps_bind [OF mk tail], of "w\<lparr>w_uuid := n\<rparr>"] d(1) by (simp add: confined_uuid)
  then show ?thesis
    unfolding accept_transfer_def by (auto intro: bind_at)
qed

lemma receive_chunk_confined:
  assumes "uuid_supply U" "inbox_ok (rv_inbox_dir rcv)"
  shows "confined (rv_inbox_dir rcv) w (snd (receive_chunk_with_hash H U now rcv tid fid off bs h w))"
proof -
  let ?R = "confined (rv_inbox_dir rcv)"
  obtain p n where p: "incoming_file_path U rcv tid fid w = (Inr p, w\<lparr>w_uuid := n\<rparr>)" "is_part (rv_inbox_dir rcv) p"
    using incoming_file_path_result [OF assms(1)] .
  obtain d c where dc: "p = d @ [c]" "list_all normal_name d" "normal_name c" "prefix (staging (rv_inbox_dir rcv)) d"
    using is_part_split [OF p(2) assms(2)] .
  have wr: "?R u (snd (sr_bind (open_write p) (\<lambda>file. sr_bind (on_fs (fs_write_at file off bs)) (\<lambda>_.
        on_manifest (record_verified_chunk now tid fid off (of_nat (length bs)) hh))) u))" for u hh
    using open_write_confined [OF p(2) assms(2)]
    by (intro bind_at) (auto intro!: keeps_at keeps_bind keeps_on_manifest write_at_confined [OF p(2) assms(2)])
  have mk: "sr_keeps ?R (on_fs (create_dir_all (butlast p)))"
    using dc staging_prefix by (intro keeps_create_dir_all) auto
  have "?R u (snd (sr_bind (on_fs (create_dir_all (butlast p))) (\<lambda>_. sr_bind (open_write p) (\<lambda>file.
        sr_bind (on_fs (fs_write_at file off bs)) (\<lambda>_.
        on_manifest (record_verified_chunk now tid fid off (of_nat (length bs)) hh)))) u))" for u hh
    by (rule bind_at [OF keeps_at [OF mk]]) (rule wr)
  from this [of "w\<lparr>w_uuid := n\<rparr>"] show ?thesis
    using p(1) by (simp add: receive_chunk_with_hash_def confined_uuid)
qed

lemma fail_after_manifest [simp]: "w_fs (snd (sr_bind (on_manifest g) (\<lambda>_. sr_fail e) u)) = w_fs u"
  by (cases "g (w_manifest u)") simp_all

lemma verify_files_confined:
  assumes "uuid_supply U"
  shows "w_fs (snd (verify_files H U now rcv tid files w)) = w_fs w"
proof (induction files arbitrary: w)
  case (Cons f files)
  obtain p n where p: "incoming_file_path U rcv tid (mf_file_id f) w = (Inr p, w\<lparr>w_uuid := n\<rparr>)"
    using incoming_file_path_result [OF assms] by metis
  show ?case
    using Cons p by (cases "fs_read p (w_fs w)") (auto split: option.splits)
qed simp

lemma available_target_fresh:
  assumes "available_target_path inbox name fs = Inr target"
  shows "\<exists>n. target = inbox @ [n] \<and> \<not> is_ok (fs_metadata target fs)"
proof -
  have search: "search_target fs inbox s i = Some t \<Longrightarrow> \<exists>n. t = inbox @ [n] \<and> \<not> is_ok (fs_metadata t fs)" for s i t
  proof (induction fs inbox s i rule: search_target.induct)
    case (1 fs inbox s i)
    show ?case using 1(2) 1(1) by (subst (asm) search_target.simps) (auto simp: Let_def split: if_splits)
  qed
  show ?thesis
    using assms search by (auto simp: available_target_path_def res_iffs Let_def split: if_splits)
qed

lemma publish_files_confined:
  assumes "uuid_supply U" "inbox_ok (rv_inbox_dir rcv)"
  shows "confined (rv_inbox_dir rcv) w (snd (publish_files U rcv tid files w))"
proof (induction files arbitrary: w)
  case (Cons f files)
  let ?R = "confined (rv_inbox_dir rcv)"
  obtain p n where p: "incoming_file_path U rcv tid (mf_file_id f) w = (Inr p, w\<lparr>w_uuid := n\<rparr>)" "is_part (rv_inbox_dir rcv) p"
    using incoming_file_path_result [OF assms(1)] .
  let ?w = "w\<lparr>w_uuid := n\<rparr>"
  have ren: "?R ?w (snd (on_fs (fs_rename p target) ?w))"
    if av: "available_target_path (rv_inbox_dir rcv) (mf_file_name f) (w_fs ?w) = Inr target" for target
  proof (cases "fs_wf (w_fs w) \<and> (\<exists>fs. fs_rename p target (w_fs w) = Inr fs)")
    case True
    obtain m where "target = rv_inbox_dir rcv @ [m]" "\<not> is_ok (fs_metadata target (w_fs ?w))"
      using available_target_fresh [OF av] by blast
    with True show ?thesis
      using rename_confined [OF p(2) assms(2), of ?w m] by auto
  next
    case False
    then show ?thesis
      by (cases "fs_rename p target (w_fs w)") (auto simp: confined_def)
  qed
  have step: "?R ?w (snd (sr_bind (on_fs (fs_rename p target)) (\<lambda>_. publish_files U rcv tid files) ?w))"
    if av: "available_target_path (rv_inbox_dir rcv) (mf_file_name f) (w_fs w) = Inr target" for target
    by (rule bind_at) (use ren [of target] av Cons in auto)
  have "?R ?w (snd (sr_bind (sr_gets (\<lambda>w. available_target_path (rv_inbox_dir rcv) (mf_file_name f) (w_fs w)))
      (\<lambda>target. sr_bind (on_fs (fs_rename p target)) (\<lambda>_. publish_files U rcv tid files)) ?w))"
    by (rule bind_at) (auto intro: step)
  then show ?case using p(1) by (simp add: confined_uuid)
qed simp

lemma finish_transfer_confined:
  assumes "uuid_supply U" "inbox_ok (rv_inbox_dir rcv)"
  shows "confined (rv_inbox_dir rcv) w (snd (finish_transfer H U now rcv tid w))"
proof -
  let ?R = "confined (rv_inbox_dir rcv)"
  have v: "?R u (snd (verify_files H U now rcv tid files u))" for u files
    using verify_files_confined [OF assms(1)] by (rule confined_same_fs)
  have mk: "sr_keeps ?R (on_fs (create_dir_all (rv_inbox_dir rcv)))"
    using assms(2) by (intro keeps_create_dir_all) (auto simp: inbox_ok_def)
  have tail: "?R u (snd (sr_bind (verify_files H U now rcv tid files) (\<lambda>_.
       sr_bind (on_fs (create_dir_all (rv_inbox_dir rcv))) (\<lambda>_.
       sr_bind (publish_files U rcv tid files) (\<lambda>_.
       on_manifest (set_state now tid Completed)))) u))" for u files
    by (intro bind_at v keeps_at [OF mk] publish_files_confined [OF assms] keeps_at [OF keeps_on_manifest])
  show ?thesis
    using tail by (simp add: finish_transfer_def confined_same_fs)
qed

end
