(* ===== verification/Transfer_Integrity.thy ===== *)
theory Transfer_Integrity
  imports Transfer_Safety
begin

text \<open>
  Publication by \<open>finish_transfer\<close>: when it succeeds, every file of the transfer is in the inbox
  under a name that was free before, with the size of the offer and, where the offer had one,
  the BLAKE3 digest of the offer.
\<close>

section \<open>Part files\<close>

definition cleaned :: "string \<Rightarrow> string" where
  "cleaned v = filter (\<lambda>c. is_ascii_alphanumeric c \<or> c = CHR ''-'' \<or> c = CHR ''_'') v"

definition part_path :: "path \<Rightarrow> string \<Rightarrow> string \<Rightarrow> path" where
  "part_path inbox tid fid = inbox @ [''.incoming'', ''native'', cleaned tid, cleaned fid @ ''.part'']"

lemma safe_component_clean: "cleaned v \<noteq> [] \<Longrightarrow> safe_component U v w = (Inr (cleaned v), w)"
  by (simp add: safe_component_def cleaned_def Let_def)

lemma incoming_file_path_clean:
  "cleaned tid \<noteq> [] \<Longrightarrow> cleaned fid \<noteq> [] \<Longrightarrow>
    incoming_file_path U rcv tid fid w = (Inr (part_path (rv_inbox_dir rcv) tid fid), w)"
  by (simp add: incoming_file_path_def incoming_dir_def safe_component_clean part_path_def)

lemma incoming_dir_clean:
  "cleaned tid \<noteq> [] \<Longrightarrow>
    incoming_dir U rcv tid w = (Inr (rv_inbox_dir rcv @ [''.incoming'', ''native'', cleaned tid]), w)"
  by (simp add: incoming_dir_def safe_component_clean)

lemma part_path_is_part: "cleaned tid \<noteq> [] \<Longrightarrow> cleaned fid \<noteq> [] \<Longrightarrow> is_part inbox (part_path inbox tid fid)"
  unfolding is_part_def part_path_def using safe_name_filter [OF cleaned_def [symmetric]] by blast

lemma part_path_not_target [simp]: "part_path inbox tid fid \<noteq> inbox @ [n]" "\<not> prefix (part_path inbox tid fid) inbox"
  by (auto simp: part_path_def dest: prefix_length_le)

lemma fs_read_Inr: "list_all normal_name p \<Longrightarrow> fs_read p fs = Inr b \<Longrightarrow> fs p = Some (File b)"
proof -
  assume p: "list_all normal_name p" and r: "fs_read p fs = Inr b"
  then obtain q where q: "walk fs [] p = Inr q" by (auto simp: fs_read_def res_iffs)
  then have "q = p" using walk_normal_Inr [OF p q] by simp
  then show "fs p = Some (File b)" using r q by (auto simp: fs_read_def split: option.splits node.splits)
qed

lemma part_path_normal:
  assumes "inbox_ok inbox" "cleaned tid \<noteq> []" "cleaned fid \<noteq> []"
  shows "list_all normal_name (part_path inbox tid fid)"
  by (rule is_part_split [OF part_path_is_part [OF assms(2,3)] assms(1)]) simp

section \<open>Verification and publication\<close>

definition intact :: "(bytes \<Rightarrow> string) \<Rightarrow> ManifestFile \<Rightarrow> bytes \<Rightarrow> bool" where
  "intact H f b \<longleftrightarrow> of_nat (length b) = mf_size f \<and> (\<forall>h. mf_blake3 f = Some h \<longrightarrow> H b = h)"

lemma verify_files_Inr:
  assumes "verify_files H U now rcv tid files w = (Inr (), w')" "inbox_ok (rv_inbox_dir rcv)"
    "cleaned tid \<noteq> []" "\<forall>f \<in> set files. cleaned (mf_file_id f) \<noteq> []"
  shows "w' = w \<and> (\<forall>f \<in> set files. \<exists>b.
    w_fs w (part_path (rv_inbox_dir rcv) tid (mf_file_id f)) = Some (File b) \<and> intact H f b)"
  using assms
proof (induction files arbitrary: w)
  case (Cons f files)
  let ?p = "part_path (rv_inbox_dir rcv) tid (mf_file_id f)"
  have id: "cleaned (mf_file_id f) \<noteq> []" using Cons.prems(4) by simp
  obtain b where b: "fs_read ?p (w_fs w) = Inr b"
    using Cons.prems(1) incoming_file_path_clean [OF assms(3) id]
    by (cases "fs_read ?p (w_fs w)") auto
  have "w_fs w ?p = Some (File b)"
    using fs_read_Inr [OF part_path_normal [OF assms(2,3) id] b] .
  moreover have "intact H f b \<and> verify_files H U now rcv tid files w = (Inr (), w')"
    using Cons.prems(1) b incoming_file_path_clean [OF assms(3) id]
    by (auto simp: intact_def io_iffs split: option.splits if_splits)
  ultimately show ?case using Cons.IH Cons.prems(2-4) by auto
qed simp

text \<open>The names a file may be published under: its own, trimmed, or that name with a number.\<close>

definition target_name :: "string \<Rightarrow> string \<Rightarrow> bool" where
  "target_name name n \<longleftrightarrow> (\<exists>safe. safe_file_name name = Inr safe \<and> (n = safe \<or> (\<exists>k. 1 \<le> k \<and> k \<le> 9999 \<and> n = candidate_name safe k)))"

lemma search_target_name:
  "search_target fs inbox safe i = Some t \<Longrightarrow> \<exists>k. i \<le> k \<and> k \<le> 9999 \<and> t = inbox @ [candidate_name safe k]"
proof (induction fs inbox safe i rule: search_target.induct)
  case (1 fs inbox safe i)
  have unfolded: "(if i > 9999 then None else if \<not> is_ok (fs_metadata (inbox @ [candidate_name safe i]) fs)
      then Some (inbox @ [candidate_name safe i]) else search_target fs inbox safe (Suc i)) = Some t"
    using 1(2) by (subst (asm) search_target.simps) (simp only: Let_def)
  then have le: "i \<le> 9999" by (simp split: if_splits)
  show ?case
  proof (cases "is_ok (fs_metadata (inbox @ [candidate_name safe i]) fs)")
    case True
    then have "search_target fs inbox safe (Suc i) = Some t" using unfolded le by (simp only: not_less [symmetric] if_False not_True_eq_False)
    from 1(1) [OF _ refl _ this] True le obtain k where "Suc i \<le> k" "k \<le> 9999" "t = inbox @ [candidate_name safe k]" by auto
    then show ?thesis by (intro exI [of _ k]) simp
  next
    case False
    then show ?thesis using unfolded le by (intro exI [of _ i]) (simp split: if_splits)
  qed
qed

lemma available_target_name:
  "available_target_path inbox name fs = Inr t \<Longrightarrow> t = inbox @ [n] \<Longrightarrow> target_name name n"
  by (auto simp: available_target_path_def target_name_def res_iffs Let_def split: if_splits dest!: search_target_name)

lemma publish_files_Inr:
  assumes "publish_files U rcv tid files w = (Inr (), w')" "fs_wf (w_fs w)" "inbox_ok (rv_inbox_dir rcv)"
    "cleaned tid \<noteq> []" "\<forall>f \<in> set files. cleaned (mf_file_id f) \<noteq> []"
  shows "w_manifest w' = w_manifest w \<and> (\<exists>targets. length targets = length files \<and> distinct targets \<and>
    (\<forall>i < length files. (\<exists>n. targets ! i = rv_inbox_dir rcv @ [n] \<and> target_name (mf_file_name (files ! i)) n) \<and> w_fs w (targets ! i) = None \<and>
       (\<exists>b. w_fs w (part_path (rv_inbox_dir rcv) tid (mf_file_id (files ! i))) = Some (File b) \<and>
            w_fs w' (targets ! i) = Some (File b))) \<and>
    (\<forall>f \<in> set files. w_fs w' (part_path (rv_inbox_dir rcv) tid (mf_file_id f)) = None) \<and>
    (\<forall>q. q \<notin> set targets \<longrightarrow> (\<forall>f \<in> set files. q \<noteq> part_path (rv_inbox_dir rcv) tid (mf_file_id f)) \<longrightarrow>
       w_fs w' q = w_fs w q))"
  using assms
proof (induction files arbitrary: w)
  case (Cons f files)
  let ?in = "rv_inbox_dir rcv"
  let ?pp = "\<lambda>f. part_path ?in tid (mf_file_id f)"
  have id: "cleaned (mf_file_id f) \<noteq> []" using Cons.prems(5) by simp
  note part = part_path_is_part [OF assms(4) id, of ?in]
  obtain t fs1 where t: "available_target_path ?in (mf_file_name f) (w_fs w) = Inr t"
    and r: "fs_rename (?pp f) t (w_fs w) = Inr fs1"
    and rest: "publish_files U rcv tid files (w\<lparr>w_fs := fs1\<rparr>) = (Inr (), w')"
    using Cons.prems(1) incoming_file_path_clean [OF assms(4) id] by (auto simp: io_iffs)
  obtain n where n: "t = ?in @ [n]" "\<not> is_ok (fs_metadata (?in @ [n]) (w_fs w))"
    using available_target_fresh [OF t] by auto
  note name = available_target_name [OF t n(1)]
  note ren = rename_confined [OF part assms(3) Cons.prems(2) n(2) r [unfolded n(1)]]
  obtain b where b: "w_fs w (?pp f) = Some (File b)" "fs1 = (w_fs w)(?pp f := None, t \<mapsto> File b)"
    and tn: "w_fs w t = None" using ren n(1) by auto
  have wf1: "fs_wf fs1" using ren Cons.prems(2) by (simp add: confined_def)
  obtain ts where ts: "length ts = length files" "distinct ts" "w_manifest w' = w_manifest w"
    "\<forall>i < length files. (\<exists>n. ts ! i = ?in @ [n] \<and> target_name (mf_file_name (files ! i)) n) \<and> fs1 (ts ! i) = None \<and>
       (\<exists>b. fs1 (?pp (files ! i)) = Some (File b) \<and> w_fs w' (ts ! i) = Some (File b))"
    "\<forall>q. q \<notin> set ts \<longrightarrow> (\<forall>f \<in> set files. q \<noteq> ?pp f) \<longrightarrow> w_fs w' q = fs1 q"
    "\<forall>g \<in> set files. w_fs w' (?pp g) = None"
    using Cons.IH [OF rest _ assms(3,4)] wf1 Cons.prems(5) by auto
  have t_new: "t \<notin> set ts" using ts(1,4) b(2) by (auto simp: in_set_conv_nth)
  moreover have "\<forall>g \<in> set files. t \<noteq> ?pp g" using n(1) part_path_not_target(1) by metis
  ultimately have t_kept: "w_fs w' t = Some (File b)" using ts(5) b(2) by simp
  have old: "fs1 q = w_fs w q" if "q \<noteq> ?pp f" "q \<noteq> t" for q using that b(2) by simp
  have gone: "w_fs w' (?pp f) = None"
  proof (cases "\<exists>g \<in> set files. ?pp f = ?pp g")
    case False
    have "?pp f \<notin> set ts"
    proof
      assume "?pp f \<in> set ts"
      then obtain i where "i < length files" "ts ! i = ?pp f" using ts(1) by (auto simp: in_set_conv_nth)
      then show False using ts(4) part_path_not_target(1) by metis
    qed
    then show ?thesis using ts(5) False b(2) n(1) by simp
  qed (use ts(6) in auto)
  have each: "(\<exists>n. ts ! i = ?in @ [n] \<and> target_name (mf_file_name (files ! i)) n) \<and> w_fs w (ts ! i) = None \<and>
      (\<exists>b. w_fs w (?pp (files ! i)) = Some (File b) \<and> w_fs w' (ts ! i) = Some (File b))"
    if i: "i < length files" for i
  proof -
    from ts(4) i obtain m c where m: "ts ! i = ?in @ [m]" "target_name (mf_file_name (files ! i)) m" "fs1 (ts ! i) = None"
      "fs1 (?pp (files ! i)) = Some (File c)" "w_fs w' (ts ! i) = Some (File c)" by blast
    have "ts ! i \<noteq> t" using i t_new ts(1) nth_mem by metis
    then have "w_fs w (ts ! i) = None" using old [of "ts ! i"] m by (metis part_path_not_target(1))
    moreover have "?pp (files ! i) \<noteq> ?pp f" using m(4) b(2) n(1) by (auto simp: fun_upd_apply split: if_splits)
    then have "w_fs w (?pp (files ! i)) = Some (File c)" using old m(4) n(1) part_path_not_target(1) by metis
    ultimately show ?thesis using m by blast
  qed
  have all: "(\<exists>n. (t # ts) ! i = ?in @ [n] \<and> target_name (mf_file_name ((f # files) ! i)) n) \<and> w_fs w ((t # ts) ! i) = None \<and>
      (\<exists>b. w_fs w (?pp ((f # files) ! i)) = Some (File b) \<and> w_fs w' ((t # ts) ! i) = Some (File b))"
    if "i < length (f # files)" for i
    using that each b(1) tn t_kept n(1) name by (cases i) auto
  have "w_fs w' q = w_fs w q" if "q \<notin> set (t # ts)" "\<forall>g \<in> set (f # files). q \<noteq> ?pp g" for q
    using that ts(5) old by auto
  with all ts t_new gone show ?case by (intro conjI exI [of _ "t # ts"]) auto
qed simp

lemma set_state_get:
  "set_state now tid s m = Inr m' \<Longrightarrow> get_state m' tid = Inr (Some s)"
  by (auto simp: set_state_def get_state_def map_of_map_rows split: if_splits)

lemma finish_transfer_Inr:
  assumes "finish_transfer H U now rcv tid w = (Inr (), w')" "fs_wf (w_fs w)" "inbox_ok (rv_inbox_dir rcv)"
    "cleaned tid \<noteq> []" "\<forall>f \<in> set (manifest_files (w_manifest w) tid). cleaned (mf_file_id f) \<noteq> []"
  shows "transfer_complete (w_manifest w) tid \<and> get_state (w_manifest w') tid = Inr (Some Completed) \<and>
    set_state now tid Completed (w_manifest w) = Inr (w_manifest w') \<and>
    (\<exists>targets. length targets = length (manifest_files (w_manifest w) tid) \<and> distinct targets \<and>
    (\<forall>i < length targets. \<exists>n b. targets ! i = rv_inbox_dir rcv @ [n] \<and> w_fs w (targets ! i) = None \<and>
       w_fs w (part_path (rv_inbox_dir rcv) tid (mf_file_id (manifest_files (w_manifest w) tid ! i))) = Some (File b) \<and>
       w_fs w' (targets ! i) = Some (File b) \<and> intact H (manifest_files (w_manifest w) tid ! i) b \<and>
       target_name (mf_file_name (manifest_files (w_manifest w) tid ! i)) n) \<and>
    (\<forall>f \<in> set (manifest_files (w_manifest w) tid). w_fs w' (part_path (rv_inbox_dir rcv) tid (mf_file_id f)) = None) \<and>
    (\<forall>q. q \<notin> set targets \<and> q \<notin> part_path (rv_inbox_dir rcv) tid ` mf_file_id ` set (manifest_files (w_manifest w) tid) \<longrightarrow>
       w_fs w' q = (if prefix q (rv_inbox_dir rcv) then Some Dir else w_fs w q)))"
proof -
  let ?fs = "manifest_files (w_manifest w) tid" and ?in = "rv_inbox_dir rcv"
  have complete: "transfer_complete (w_manifest w) tid"
    using assms(1) by (auto simp: finish_transfer_def io_iffs split: if_splits)
  obtain w1 fs2 w3 m where v: "verify_files H U now rcv tid ?fs w = (Inr (), w1)"
    and mk: "create_dir_all ?in (w_fs w1) = Inr fs2"
    and p: "publish_files U rcv tid ?fs (w1\<lparr>w_fs := fs2\<rparr>) = (Inr (), w3)"
    and s: "set_state now tid Completed (w_manifest w3) = Inr m" "w' = w3\<lparr>w_manifest := m\<rparr>"
    using assms(1) complete by (auto simp: finish_transfer_def io_iffs)
  note ver = verify_files_Inr [OF v assms(3-5)]
  have w1: "w1 = w" using ver by simp
  have fs2: "fs2 = (\<lambda>q. if prefix q ?in then Some Dir else w_fs w q)" "fs_wf fs2"
    using create_dir_all_Inr [OF mk] create_dir_all_wf [OF mk] assms(2,3) by (auto simp: w1 inbox_ok_def fs_wf_def)
  obtain ts where ts: "length ts = length ?fs" "distinct ts" "w_manifest w3 = w_manifest w"
    "\<forall>i < length ?fs. (\<exists>n. ts ! i = ?in @ [n] \<and> target_name (mf_file_name (?fs ! i)) n) \<and> fs2 (ts ! i) = None \<and>
       (\<exists>b. fs2 (part_path ?in tid (mf_file_id (?fs ! i))) = Some (File b) \<and> w_fs w3 (ts ! i) = Some (File b))"
    and rest: "\<forall>f \<in> set ?fs. w_fs w3 (part_path ?in tid (mf_file_id f)) = None"
    "\<forall>q. q \<notin> set ts \<longrightarrow> (\<forall>f \<in> set ?fs. q \<noteq> part_path ?in tid (mf_file_id f)) \<longrightarrow> w_fs w3 q = fs2 q"
    using publish_files_Inr [OF p _ assms(3-5)] fs2(2) w1 by auto
  have each: "\<exists>n b. ts ! i = ?in @ [n] \<and> w_fs w (ts ! i) = None \<and>
       w_fs w (part_path ?in tid (mf_file_id (?fs ! i))) = Some (File b) \<and>
       w_fs w' (ts ! i) = Some (File b) \<and> intact H (?fs ! i) b \<and> target_name (mf_file_name (?fs ! i)) n" if i: "i < length ts" for i
  proof -
    obtain n b where b: "ts ! i = ?in @ [n]" "fs2 (ts ! i) = None"
      "fs2 (part_path ?in tid (mf_file_id (?fs ! i))) = Some (File b)" "w_fs w3 (ts ! i) = Some (File b)" "target_name (mf_file_name (?fs ! i)) n"
      using ts(1,4) i by metis
    have "w_fs w (part_path ?in tid (mf_file_id (?fs ! i))) = Some (File b)" "w_fs w (ts ! i) = None"
      using b(2,3) by (auto simp: fs2(1) split: if_splits)
    moreover have "intact H (?fs ! i) b" using ver calculation(1) ts(1) i nth_mem by fastforce
    ultimately show ?thesis using b s(2) by auto
  qed
  have state: "set_state now tid Completed (w_manifest w) = Inr (w_manifest w')" using s ts(3) by simp
  have frame: "w_fs w' q = (if prefix q ?in then Some Dir else w_fs w q)"
    if "q \<notin> set ts" "q \<notin> part_path ?in tid ` mf_file_id ` set ?fs" for q
    using that rest(2) s(2) by (auto simp: fs2(1))
  have gone: "\<forall>f \<in> set ?fs. w_fs w' (part_path ?in tid (mf_file_id f)) = None" using rest(1) s(2) by simp
  show ?thesis
    by (intro conjI exI [of _ ts] complete set_state_get [OF state] state ts(1,2) gone allI impI) (use each frame in blast)+
qed

end
