(* ===== verification/Transfer_Delivery.thy ===== *)
theory Transfer_Delivery
  imports Transfer_Integrity
begin

text \<open>
  The whole path of \<open>send_files_to_receiver\<close>: a trusted sender with readable, nonempty files
  succeeds, and the inbox then holds exactly the bytes of the files. The lemmas follow the
  stages: preparing the request, accepting it, sending the chunks of each file, finishing.
\<close>

section \<open>One chunk\<close>

lemma write_at_extend:
  assumes "off \<le> length b"
  shows "write_at (take off b) off (take len (drop off b)) = take (off + len) b"
proof (cases "take len (drop off b) = []")
  case False
  then show ?thesis using assms by (intro nth_equalityI) (auto simp: length_write_at nth_write_at)
qed (use assms in \<open>auto simp: write_at_def\<close>)

lemma fs_open_write_wf:
  assumes "fs_wf fs" "list_all normal_name d" "normal_name c" "fs d = Some Dir" "fs (d @ [c]) \<noteq> Some Dir"
  shows "fs_open_write (d @ [c]) fs =
    Inr (d @ [c], case fs (d @ [c]) of None \<Rightarrow> fs(d @ [c] \<mapsto> File []) | Some _ \<Rightarrow> fs)"
  using assms by (auto simp: fs_open_write_def walk_wf split: option.splits node.splits)

definition part_bytes :: "fs \<Rightarrow> path \<Rightarrow> bytes" where
  "part_bytes fs p = (case fs p of Some (File b) \<Rightarrow> b | _ \<Rightarrow> [])"

lemma receive_chunk_ok:
  fixes w :: World
  assumes wf: "fs_wf (w_fs w)" and "inbox_ok (rv_inbox_dir rcv)" and tid: "cleaned tid \<noteq> []" and fid: "cleaned fid \<noteq> []"
    and dir: "w_fs w (rv_inbox_dir rcv @ [''.incoming'', ''native'', cleaned tid]) = Some Dir"
    and part: "w_fs w (part_path (rv_inbox_dir rcv) tid fid) \<noteq> Some Dir"
    and bs: "bs \<noteq> []" "unat off < 2 ^ 63"
    and rec: "record_verified_chunk now tid fid off (of_nat (length bs)) (H bs) (w_manifest w) = Inr m"
  shows "receive_chunk_with_hash H U now rcv tid fid off bs (H bs) w = (Inr (),
    w\<lparr>w_fs := (w_fs w)(part_path (rv_inbox_dir rcv) tid fid \<mapsto>
         File (write_at (part_bytes (w_fs w) (part_path (rv_inbox_dir rcv) tid fid)) (unat off) bs)),
      w_manifest := m\<rparr>)"
proof -
  let ?p = "part_path (rv_inbox_dir rcv) tid fid"
  let ?d = "rv_inbox_dir rcv @ [''.incoming'', ''native'', cleaned tid]"
  have p: "?p = ?d @ [cleaned fid @ ''.part'']" by (simp add: part_path_def)
  have norm: "list_all normal_name ?d" "normal_name (cleaned fid @ ''.part'')"
    using part_path_normal [OF assms(2) tid fid] unfolding p by simp_all
  have mk: "create_dir_all (butlast ?p) (w_fs w) = Inr (w_fs w)"
    using create_dir_all_id [OF wf norm(1) dir] unfolding p butlast_snoc .
  let ?fs = "case w_fs w ?p of None \<Rightarrow> (w_fs w)(?p \<mapsto> File []) | Some _ \<Rightarrow> w_fs w"
  have "fs_open_write ?p (w_fs w) = Inr (?p, ?fs)"
    unfolding p by (rule fs_open_write_wf [OF wf norm dir part [unfolded p]])
  then have op: "open_write ?p w = (Inr ?p, w\<lparr>w_fs := ?fs\<rparr>)" by (simp add: open_write_def)
  have wr: "fs_write_at ?p off bs ?fs = Inr ((w_fs w)(?p \<mapsto> File (write_at (part_bytes (w_fs w) ?p) (unat off) bs)))"
    using part bs(2) by (auto simp: fs_write_at_def part_bytes_def split: option.splits node.splits)
  show ?thesis
    using bs(1) incoming_file_path_clean [OF tid fid] mk op wr rec
    by (simp add: receive_chunk_with_hash_def)
qed

section \<open>The chunks of one file\<close>

lemma fs_read_at_ok:
  "fs q = Some (File b) \<Longrightarrow> unat off < 2 ^ 63 \<Longrightarrow> unat off + unat len \<le> length b \<Longrightarrow>
    fs_read_at q off len fs = Inr (take (unat len) (drop (unat off) b))"
  by (simp add: fs_read_at_def)

definition sent_rows :: "ManifestStore \<Rightarrow> string \<Rightarrow> string \<Rightarrow> nat \<Rightarrow> bool" where
  "sent_rows m tid fid k \<longleftrightarrow> verified_bytes m tid fid = {0..<k} \<and>
     (\<forall>off row. ((tid, fid, as_i64 off), row) \<in> set (ms_chunks m) \<longrightarrow> unat off < k)"

text \<open>What sending one file leaves alone in the manifest.\<close>

definition same_elsewhere :: "string \<Rightarrow> string \<Rightarrow> ManifestStore \<Rightarrow> ManifestStore \<Rightarrow> bool" where
  "same_elsewhere tid fid m m' \<longleftrightarrow> ms_files m' = ms_files m \<and>
     map fst (ms_transfers m') = map fst (ms_transfers m) \<and>
     (\<forall>f. f \<noteq> fid \<longrightarrow> chunk_rows m' tid f = chunk_rows m tid f)"

lemma same_elsewhere_trans:
  "same_elsewhere tid fid a b \<Longrightarrow> same_elsewhere tid fid b c \<Longrightarrow> same_elsewhere tid fid a c"
  by (simp add: same_elsewhere_def)

lemma map_fst_touch [simp]: "map fst (ms_transfers (touch_transfer now tid m)) = map fst (ms_transfers m)"
  by (simp add: touch_transfer_def del: map_map)

lemma record_same_elsewhere:
  "record_verified_chunk now tid fid off len h m = Inr m' \<Longrightarrow> same_elsewhere tid fid m m'"
  by (auto simp: record_Inr_iff same_elsewhere_def chunk_rows_def intro!: filter_cong)

lemma record_sent_rows:
  assumes "record_verified_chunk now tid fid off len h m = Inr m'" "sent_rows m tid fid (unat off)"
  shows "sent_rows m' tid fid (unat off + unat len)"
proof -
  have "((tid, fid, as_i64 off), row) \<notin> set (ms_chunks m)" for row
    using assms(2) by (auto simp: sent_rows_def)
  then have "verified_bytes m' tid fid = verified_bytes m tid fid \<union> {unat off..<unat off + unat len}"
    using verified_bytes_record_mono [OF assms(1)] by auto
  moreover have "len \<noteq> 0" using assms(1) by (auto simp: record_Inr_iff resume_in_file_def resume_wf_def)
  moreover have "unat o' < unat off + unat len" if "((tid, fid, as_i64 o'), row) \<in> set (ms_chunks m')" for o' row
  proof (cases "o' = off")
    case True
    then show ?thesis using \<open>len \<noteq> 0\<close> by (simp add: unat_gt_0)
  next
    case False
    then have "((tid, fid, as_i64 o'), row) \<in> set (ms_chunks m)"
      using that assms(1) by (auto simp: record_Inr_iff)
    then show ?thesis using assms(2) by (auto simp: sent_rows_def)
  qed
  ultimately show ?thesis using assms(2) by (auto simp: sent_rows_def)
qed

lemma of_nat_unat_chunk: "n \<le> unat (x :: u64) \<Longrightarrow> (of_nat n :: u64) = of_nat n \<and> unat (of_nat n :: u64) = n"
  using unat_lt_u64 [of x] by (simp add: unat_of_nat)

abbreviation chunk_bytes :: "bytes \<Rightarrow> ResumeRange \<Rightarrow> bytes" where
  "chunk_bytes b r \<equiv> take (unat (rr_length r)) (drop (unat (rr_offset r)) b)"

lemma recv_chunk_ok:
  fixes w :: World
  assumes wf: "fs_wf (w_fs w)" and ib: "inbox_ok (rv_inbox_dir rcv)" and ids: "cleaned tid \<noteq> []" "cleaned fid \<noteq> []"
    and dir: "w_fs w (rv_inbox_dir rcv @ [''.incoming'', ''native'', cleaned tid]) = Some Dir"
    and row: "map_of (ms_files (w_manifest w)) (tid, fid) = Some fr" "i64_as_u64 (fw_size fr) = n" "unat n = length b"
    and small: "length b < 2 ^ 63"
    and part: "w_fs w (part_path (rv_inbox_dir rcv) tid fid) \<noteq> Some Dir"
      "part_bytes (w_fs w) (part_path (rv_inbox_dir rcv) tid fid) = take (unat off) b"
    and r: "resume_in_file n (mk_resume off len)"
    and sent: "sent_rows (w_manifest w) tid fid (unat off)"
  obtains m where
    "receive_chunk_with_hash H U now rcv tid fid off (take (unat len) (drop (unat off) b)) (H (take (unat len) (drop (unat off) b))) w = (Inr (),
     w\<lparr>w_fs := (w_fs w)(part_path (rv_inbox_dir rcv) tid fid \<mapsto> File (take (unat off + unat len) b)), w_manifest := m\<rparr>)"
    "sent_rows m tid fid (unat off + unat len)" "same_elsewhere tid fid (w_manifest w) m"
    "manifest_inv (w_manifest w) \<Longrightarrow> manifest_inv m"
proof -
  let ?p = "part_path (rv_inbox_dir rcv) tid fid"
  let ?bs = "take (unat len) (drop (unat off) b)"
  have r': "len \<noteq> 0" "unat off + unat len \<le> length b"
    using r row(3) by (auto simp: resume_in_file_def resume_wf_def resume_iv_def)
  then have "0 < unat len" by (simp add: unat_gt_0)
  with r' have off: "unat off < 2 ^ 63" "unat off < length b" using small by auto
  have bs: "length ?bs = unat len" "?bs \<noteq> []" using r' off by (auto simp: unat_eq_0)
  then have len: "(of_nat (length ?bs) :: u64) = len" by simp
  obtain m where m: "record_verified_chunk now tid fid off len (H ?bs) (w_manifest w) = Inr m"
    using record_Inr_iff [of now tid fid off len "H ?bs" "w_manifest w"] row r by auto
  have "receive_chunk_with_hash H U now rcv tid fid off ?bs (H ?bs) w = (Inr (),
      w\<lparr>w_fs := (w_fs w)(?p \<mapsto> File (take (unat off + unat len) b)), w_manifest := m\<rparr>)"
    using receive_chunk_ok [OF wf ib ids dir part(1) bs(2) off(1), of now H m U] m len
      write_at_extend [of "unat off" b "unat len"] off part(2) by simp
  then show ?thesis
    using that [of m] record_sent_rows [OF m sent] record_same_elsewhere [OF m] record_inv [OF _ m] by simp
qed

lemma plan_chunk_in_file:
  assumes "c \<noteq> 0" "off < n"
  shows "resume_in_file n (mk_resume off (min c (n - off)))"
proof -
  have "mk_resume off (min c (n - off)) \<in> set (map of_chunk (plan_chunks_loop n c off))"
    using assms by (subst plan_chunks_loop.simps) (simp add: Let_def)
  then show ?thesis by (rule plan_of_chunk_in_file)
qed

text \<open>The state in which the rest of a file can be received from offset \<open>off\<close>.\<close>

definition ready_at :: "NativeTransferReceiver \<Rightarrow> string \<Rightarrow> string \<Rightarrow> bytes \<Rightarrow> u64 \<Rightarrow> u64 \<Rightarrow> World \<Rightarrow> bool" where
  "ready_at rcv tid fid b n off w \<longleftrightarrow>
     fs_wf (w_fs w) \<and> w_fs w (rv_inbox_dir rcv @ [''.incoming'', ''native'', cleaned tid]) = Some Dir \<and>
     (\<exists>fr. map_of (ms_files (w_manifest w)) (tid, fid) = Some fr \<and> i64_as_u64 (fw_size fr) = n) \<and>
     w_fs w (part_path (rv_inbox_dir rcv) tid fid) \<noteq> Some Dir \<and>
     part_bytes (w_fs w) (part_path (rv_inbox_dir rcv) tid fid) = take (unat off) b \<and>
     sent_rows (w_manifest w) tid fid (unat off)"

lemma fs_wf_put_part:
  assumes "fs_wf fs" "fs (inbox @ [''.incoming'', ''native'', cleaned tid]) = Some Dir"
    "fs (part_path inbox tid fid) \<noteq> Some Dir"
  shows "fs_wf (fs(part_path inbox tid fid \<mapsto> File b))"
  using fs_wf_put_file [of fs "inbox @ [''.incoming'', ''native'', cleaned tid]" "cleaned fid @ ''.part''" b] assms
  by (simp add: part_path_def)

text \<open>
  The chunks of a file arrive one by one by the action \<open>act\<close>, which hands the bytes of the range to the
  receiver as long as the file system satisfies \<open>I\<close>; writing the part file keeps \<open>I\<close>.
\<close>

lemma recv_file_ok:
  assumes "chunk_size \<noteq> 0" "inbox_ok (rv_inbox_dir rcv)" "cleaned tid \<noteq> []" "cleaned fid \<noteq> []"
    "unat n = length b" "length b < 2 ^ 63" "off \<le> n" "ready_at rcv tid fid b n off w" "manifest_inv (w_manifest w)" "I (w_fs w)"
    and act: "\<And>r w. resume_in_file n r \<Longrightarrow> I (w_fs w) \<Longrightarrow> act r w =
      receive_chunk_with_hash H U now rcv tid fid (rr_offset r) (chunk_bytes b r) (H (chunk_bytes b r)) w"
    and keep: "\<And>fs c. I fs \<Longrightarrow> I (fs(part_path (rv_inbox_dir rcv) tid fid \<mapsto> File c))"
  shows "\<exists>m. sr_iter act (map of_chunk (plan_chunks_loop n chunk_size off)) w = (Inr (),
     w\<lparr>w_fs := if off < n then (w_fs w)(part_path (rv_inbox_dir rcv) tid fid \<mapsto> File b) else w_fs w, w_manifest := m\<rparr>) \<and>
     sent_rows m tid fid (unat n) \<and> same_elsewhere tid fid (w_manifest w) m \<and> manifest_inv m"
  using assms
proof (induction n chunk_size off arbitrary: w rule: plan_chunks_loop.induct)
  case (1 n c off)
  let ?p = "part_path (rv_inbox_dir rcv) tid fid"
  note prem = 1(2-11) and act = 1(12) and keep = 1(13)
  show ?case
  proof (cases "off < n")
    case False
    then have "off = n" using prem(7) by simp
    then show ?thesis
      using prem(8,9) plan_chunks_loop.simps [of n c n]
      by (auto simp: ready_at_def same_elsewhere_def intro!: exI [of _ "w_manifest w"])
  next
    case True
    let ?len = "min c (n - off)"
    have plan: "plan_chunks_loop n c off = mk_chunk off ?len # plan_chunks_loop n c (off + ?len)"
      using True prem(1) by (subst plan_chunks_loop.simps) (simp add: Let_def)
    have add: "unat (off + ?len) = unat off + unat ?len"
      using plan_step_unat [OF True, of c] by simp
    have le: "off + ?len \<le> n"
      using plan_step_unat [OF True, of c] True by (auto simp: word_le_nat_alt word_less_nat_alt)
    have r: "resume_in_file n (mk_resume off ?len)" by (rule plan_chunk_in_file [OF prem(1) True])
    obtain fr where fr: "map_of (ms_files (w_manifest w)) (tid, fid) = Some fr" "i64_as_u64 (fw_size fr) = n"
      using prem(8) by (auto simp: ready_at_def)
    obtain m where m: "act (mk_resume off ?len) w = (Inr (),
       w\<lparr>w_fs := (w_fs w)(?p \<mapsto> File (take (unat off + unat ?len) b)), w_manifest := m\<rparr>)"
      "sent_rows m tid fid (unat off + unat ?len)" "same_elsewhere tid fid (w_manifest w) m" "manifest_inv m"
      using recv_chunk_ok [of w rcv tid fid fr n b off ?len H U now] r prem fr act [OF r prem(10)] by (auto simp: ready_at_def)
    let ?w = "w\<lparr>w_fs := (w_fs w)(?p \<mapsto> File (take (unat off + unat ?len) b)), w_manifest := m\<rparr>"
    have cond: "\<not> (c = 0 \<or> \<not> off < n)" using True prem(1) by simp
    have inv: "manifest_inv (w_manifest ?w)" using m(4) by simp
    have ready: "ready_at rcv tid fid b n (off + ?len) ?w"
      using prem(8) m(2,3) fs_wf_put_part [of "w_fs w" "rv_inbox_dir rcv" tid fid]
      by (auto simp: ready_at_def add part_bytes_def same_elsewhere_def part_path_def)
    have I: "I (w_fs ?w)" using keep [OF prem(10)] by (simp del: fun_upd_apply)
    from 1(1) [OF cond refl prem(1-6) le ready inv I act keep] obtain m' where m': "sr_iter act (map of_chunk (plan_chunks_loop n c (off + ?len))) ?w = (Inr (),
       ?w\<lparr>w_fs := if off + ?len < n then (w_fs ?w)(?p \<mapsto> File b) else w_fs ?w, w_manifest := m'\<rparr>)"
      "sent_rows m' tid fid (unat n)" "same_elsewhere tid fid m m'" "manifest_inv m'"
      by auto
    have fs: "(if off + ?len < n then (w_fs ?w)(?p \<mapsto> File b) else w_fs ?w) = (w_fs w)(?p \<mapsto> File b)"
    proof (cases "off + ?len < n")
      case False
      then have "off + ?len = n" using le by simp
      then have "take (unat off + unat ?len) b = b" using add prem(5) by simp
      with False show ?thesis by simp
    qed simp
    have "sr_iter act (map of_chunk (plan_chunks_loop n c off)) w = (Inr (), w\<lparr>w_fs := (w_fs w)(?p \<mapsto> File b), w_manifest := m'\<rparr>)"
      using m(1) m'(1) unfolding fs plan by simp
    then show ?thesis
      unfolding if_P [OF True] using m'(2,4) same_elsewhere_trans [OF m(3) m'(3)] by blast
  qed
qed

section \<open>All files\<close>

abbreviation offer_part :: "NativeTransferReceiver \<Rightarrow> string \<Rightarrow> FileOffer \<Rightarrow> path" where
  "offer_part rcv tid f \<equiv> part_path (rv_inbox_dir rcv) tid (fo_file_id f)"

text \<open>The receiver knows the offer of a file with content \<open>b\<close> and has nothing of it yet.\<close>

definition offer_ready :: "NativeTransferReceiver \<Rightarrow> string \<Rightarrow> World \<Rightarrow> FileOffer \<Rightarrow> bytes \<Rightarrow> bool" where
  "offer_ready rcv tid w f b \<longleftrightarrow> cleaned (fo_file_id f) \<noteq> [] \<and> b \<noteq> [] \<and> length b < 2 ^ 63 \<and>
     (\<exists>fr. map_of (ms_files (w_manifest w)) (tid, fo_file_id f) = Some fr \<and> i64_as_u64 (fw_size fr) = of_nat (length b)) \<and>
     chunk_rows (w_manifest w) tid (fo_file_id f) = [] \<and> w_fs w (offer_part rcv tid f) = None"

definition sendable :: "NativeTransferReceiver \<Rightarrow> string \<Rightarrow> World \<Rightarrow> bool" where
  "sendable rcv tid w \<longleftrightarrow> fs_wf (w_fs w) \<and> manifest_inv (w_manifest w) \<and>
     w_fs w (rv_inbox_dir rcv @ [''.incoming'', ''native'', cleaned tid]) = Some Dir"

definition file_plan :: "u64 \<Rightarrow> bytes \<Rightarrow> ResumeRange list" where
  "file_plan chunk_size b = map of_chunk (plan_chunks_loop (of_nat (length b)) chunk_size 0)"

lemma part_in_staging: "prefix (staging inbox) (part_path inbox tid fid)"
  by (simp add: staging_def part_path_def)

lemma fresh_missing_ranges:
  assumes "manifest_inv m" "map_of (ms_files m) (tid, fid) = Some fr" "chunk_size \<noteq> 0" "chunk_rows m tid fid = []"
  shows "missing_ranges m tid fid chunk_size = Inr (map of_chunk (plan_chunks_loop (i64_as_u64 (fw_size fr)) chunk_size 0))"
proof -
  have "\<not> iv_set (resume_iv r) \<subseteq> {}" if "r \<in> set (map of_chunk (plan_chunks_loop n chunk_size 0))" for r n
    using plan_of_chunk_in_file [OF that] resume.iv_nonempty by (auto simp: resume_in_file_def)
  then show ?thesis
    using missing_ranges_eq [OF assms(1-3)] assms(4) by (simp add: verified_bytes_def filter_id_conv)
qed

lemma offer_missing_ranges:
  assumes "sendable rcv tid w" "offer_ready rcv tid w f b" "chunk_size \<noteq> 0"
  shows "missing_ranges (w_manifest w) tid (fo_file_id f) chunk_size = Inr (file_plan chunk_size b)"
proof -
  have inv: "manifest_inv (w_manifest w)" using assms(1) by (simp add: sendable_def)
  obtain fr where fr: "map_of (ms_files (w_manifest w)) (tid, fo_file_id f) = Some fr" "i64_as_u64 (fw_size fr) = of_nat (length b)"
    "chunk_rows (w_manifest w) tid (fo_file_id f) = []" using assms(2) by (auto simp: offer_ready_def)
  show ?thesis using fresh_missing_ranges [OF inv fr(1) assms(3) fr(3)] fr(2) by (simp add: file_plan_def)
qed

lemma recv_one_file_ok:
  assumes cs: "chunk_size \<noteq> 0" and ib: "inbox_ok (rv_inbox_dir rcv)" and tid: "cleaned tid \<noteq> []"
    and w: "sendable rcv tid w" and rd: "offer_ready rcv tid w f b" and I: "I (w_fs w)"
    and act: "\<And>r w. resume_in_file (of_nat (length b)) r \<Longrightarrow> I (w_fs w) \<Longrightarrow> act r w =
      receive_chunk_with_hash H U now rcv tid (fo_file_id f) (rr_offset r) (chunk_bytes b r) (H (chunk_bytes b r)) w"
    and keep: "\<And>fs c. I fs \<Longrightarrow> I (fs(offer_part rcv tid f \<mapsto> File c))"
  shows "\<exists>m. sr_iter act (file_plan chunk_size b) w = (Inr (), w\<lparr>w_fs := (w_fs w)(offer_part rcv tid f \<mapsto> File b), w_manifest := m\<rparr>)
    \<and> verified_bytes m tid (fo_file_id f) = {0..<length b} \<and> same_elsewhere tid (fo_file_id f) (w_manifest w) m \<and> manifest_inv m"
proof -
  let ?n = "of_nat (length b) :: u64"
  have id: "cleaned (fo_file_id f) \<noteq> []" and n: "unat ?n = length b" "length b < 2 ^ 63" "0 < ?n"
    using rd by (auto simp: offer_ready_def unat_of_nat word_less_nat_alt)
  have inv: "manifest_inv (w_manifest w)" using w by (simp add: sendable_def)
  have no_rows: "((tid, fo_file_id f, off), row) \<notin> set (ms_chunks (w_manifest w))" for off row
    using rd by (auto simp: offer_ready_def chunk_rows_def filter_empty_conv)
  then have ready: "ready_at rcv tid (fo_file_id f) b ?n 0 w"
    using w rd by (auto simp: ready_at_def sendable_def offer_ready_def part_bytes_def sent_rows_def verified_bytes_def)
  show ?thesis
    using recv_file_ok [OF cs ib tid id n(1,2) _ ready inv, of I act H U now, OF _ I act keep] n(1)
    unfolding if_P [OF n(3)] file_plan_def by (auto simp: sent_rows_def simp del: fun_upd_apply)
qed

lemma sendable_after:
  assumes "sendable rcv tid w" "offer_ready rcv tid w f b" "manifest_inv m"
  shows "sendable rcv tid (w\<lparr>w_fs := (w_fs w)(offer_part rcv tid f \<mapsto> File b), w_manifest := m\<rparr>)"
  using assms fs_wf_put_part [of "w_fs w" "rv_inbox_dir rcv" tid "fo_file_id f" b]
  by (auto simp: sendable_def offer_ready_def part_path_def)

lemma offer_ready_mono:
  assumes "offer_ready rcv tid w f b" "fo_file_id f \<noteq> fid" "offer_part rcv tid f \<noteq> part_path (rv_inbox_dir rcv) tid fid"
    "same_elsewhere tid fid (w_manifest w) m"
  shows "offer_ready rcv tid (w\<lparr>w_fs := (w_fs w)(part_path (rv_inbox_dir rcv) tid fid \<mapsto> File c), w_manifest := m\<rparr>) f b"
  using assms by (auto simp: offer_ready_def same_elsewhere_def)

text \<open>
  What every way of delivering a file to the receiver promises: from a state that is ready for the
  offer, the part file holds the content, the manifest has every byte of it verified, and nothing
  else changes. \<open>avail\<close> is what the way needs of the file system.
\<close>

locale file_delivery =
  fixes rcv :: NativeTransferReceiver and tid :: string
    and deliver :: "'x \<Rightarrow> unit io" and offer :: "'x \<Rightarrow> FileOffer" and content :: "'x \<Rightarrow> bytes" and avail :: "fs \<Rightarrow> 'x \<Rightarrow> bool"
  assumes deliver_ok: "\<lbrakk>rv_chunk_size rcv \<noteq> 0; inbox_ok (rv_inbox_dir rcv); cleaned tid \<noteq> []; sendable rcv tid w;
      offer_ready rcv tid w (offer x) (content x); avail (w_fs w) x\<rbrakk>
    \<Longrightarrow> \<exists>m. deliver x w = (Inr (), w\<lparr>w_fs := (w_fs w)(offer_part rcv tid (offer x) \<mapsto> File (content x)), w_manifest := m\<rparr>)
        \<and> verified_bytes m tid (fo_file_id (offer x)) = {0..<length (content x)}
        \<and> same_elsewhere tid (fo_file_id (offer x)) (w_manifest w) m \<and> manifest_inv m"
    and avail_part: "avail fs x \<Longrightarrow> avail (fs(part_path (rv_inbox_dir rcv) tid fid \<mapsto> File b)) x"
begin

lemma deliver_all_ok:
  assumes "rv_chunk_size rcv \<noteq> 0" "inbox_ok (rv_inbox_dir rcv)" "cleaned tid \<noteq> []" "sendable rcv tid w"
    "distinct (map (\<lambda>x. offer_part rcv tid (offer x)) rest)" "\<forall>x \<in> set rest. offer_ready rcv tid w (offer x) (content x)"
    "\<forall>x \<in> set rest. avail (w_fs w) x"
  shows "\<exists>w'. sr_iter deliver rest w = (Inr (), w') \<and> sendable rcv tid w' \<and>
    ms_files (w_manifest w') = ms_files (w_manifest w) \<and>
    map fst (ms_transfers (w_manifest w')) = map fst (ms_transfers (w_manifest w)) \<and>
    (\<forall>f. f \<notin> (\<lambda>x. fo_file_id (offer x)) ` set rest \<longrightarrow> chunk_rows (w_manifest w') tid f = chunk_rows (w_manifest w) tid f) \<and>
    (\<forall>x \<in> set rest. w_fs w' (offer_part rcv tid (offer x)) = Some (File (content x)) \<and>
       verified_bytes (w_manifest w') tid (fo_file_id (offer x)) = {0..<length (content x)}) \<and>
    (\<forall>q. (\<forall>x \<in> set rest. q \<noteq> offer_part rcv tid (offer x)) \<longrightarrow> w_fs w' q = w_fs w q)"
  using assms(4-)
proof (induction rest arbitrary: w)
  case (Cons x rest)
  let ?f = "offer x" and ?b = "content x"
  have x: "offer_ready rcv tid w ?f ?b" "avail (w_fs w) x" using Cons.prems(3,4) by simp_all
  obtain m where m: "deliver x w = (Inr (), w\<lparr>w_fs := (w_fs w)(offer_part rcv tid ?f \<mapsto> File ?b), w_manifest := m\<rparr>)"
    "verified_bytes m tid (fo_file_id ?f) = {0..<length ?b}" "same_elsewhere tid (fo_file_id ?f) (w_manifest w) m" "manifest_inv m"
    using deliver_ok [OF assms(1-3) Cons.prems(1) x] by blast
  let ?w = "w\<lparr>w_fs := (w_fs w)(offer_part rcv tid ?f \<mapsto> File ?b), w_manifest := m\<rparr>"
  have part_ne: "offer_part rcv tid (offer y) \<noteq> offer_part rcv tid ?f" if "y \<in> set rest" for y
    using Cons.prems(2) that by (auto simp: image_iff)
  then have id_ne: "fo_file_id (offer y) \<noteq> fo_file_id ?f" if "y \<in> set rest" for y using that by metis
  have ready: "\<forall>y \<in> set rest. offer_ready rcv tid ?w (offer y) (content y)"
    using Cons.prems(3) part_ne id_ne m(3) by (auto intro!: offer_ready_mono)
  have av: "\<forall>y \<in> set rest. avail (w_fs ?w) y" using Cons.prems(4) avail_part by simp
  have dist: "distinct (map (\<lambda>x. offer_part rcv tid (offer x)) rest)" using Cons.prems(2) by simp
  obtain w' where w': "sr_iter deliver rest ?w = (Inr (), w')" "sendable rcv tid w'"
    "ms_files (w_manifest w') = ms_files m" "map fst (ms_transfers (w_manifest w')) = map fst (ms_transfers m)"
    "\<forall>f. f \<notin> (\<lambda>x. fo_file_id (offer x)) ` set rest \<longrightarrow> chunk_rows (w_manifest w') tid f = chunk_rows m tid f"
    "\<forall>y \<in> set rest. w_fs w' (offer_part rcv tid (offer y)) = Some (File (content y)) \<and>
       verified_bytes (w_manifest w') tid (fo_file_id (offer y)) = {0..<length (content y)}"
    "\<forall>q. (\<forall>y \<in> set rest. q \<noteq> offer_part rcv tid (offer y)) \<longrightarrow> w_fs w' q = w_fs ?w q"
    using Cons.IH [OF sendable_after [OF Cons.prems(1) x(1) m(4)] dist ready av] by auto
  have "\<forall>y \<in> set rest. offer_part rcv tid ?f \<noteq> offer_part rcv tid (offer y)" using part_ne by metis
  then have head: "w_fs w' (offer_part rcv tid ?f) = Some (File ?b)" using w'(7) by simp
  have "fo_file_id ?f \<notin> (\<lambda>x. fo_file_id (offer x)) ` set rest" using id_ne by (metis imageE)
  then have vf: "verified_bytes (w_manifest w') tid (fo_file_id ?f) = {0..<length ?b}"
    using w'(5) m(2) by (simp add: verified_bytes_def)
  have run: "sr_iter deliver (x # rest) w = (Inr (), w')" using m(1) w'(1) by simp
  have rows: "\<forall>f'. f' \<notin> (\<lambda>x. fo_file_id (offer x)) ` set (x # rest) \<longrightarrow> chunk_rows (w_manifest w') tid f' = chunk_rows (w_manifest w) tid f'"
    using w'(5) m(3) by (auto simp: same_elsewhere_def)
  have other: "\<forall>q. (\<forall>y \<in> set (x # rest). q \<noteq> offer_part rcv tid (offer y)) \<longrightarrow> w_fs w' q = w_fs w q"
    using w'(7) by auto
  show ?case
    using run rows other head vf w'(2-4,6) m(3) unfolding same_elsewhere_def by (intro exI [of _ w']) simp
qed simp

end

section \<open>In process\<close>

definition source_file :: "path \<Rightarrow> fs \<Rightarrow> path \<Rightarrow> bytes \<Rightarrow> bool" where
  "source_file inbox fs p b \<longleftrightarrow> p \<noteq> [] \<and> list_all normal_name p \<and> fs p = Some (File b) \<and>
     b \<noteq> [] \<and> length b < 2 ^ 63 \<and> \<not> prefix (staging inbox) p"

lemma source_file_walk:
  assumes "fs_wf fs" "source_file inbox fs p b"
  shows "walk fs [] p = Inr p"
proof -
  have p: "p = butlast p @ [last p]" using assms(2) by (simp add: source_file_def)
  then have "fs (butlast p) = Some Dir"
    using assms unfolding fs_wf_def source_file_def by (metis option.distinct(1))
  moreover have "list_all normal_name (butlast p)" "normal_name (last p)"
    using assms(2) p unfolding source_file_def by (metis list_all_append list.pred_inject(2))+
  ultimately show ?thesis using walk_wf [OF assms(1)] p by metis
qed

text \<open>One round of the loop of \<open>send_ranges\<close>, for an offer, the path of its source and what the source holds.\<close>

definition send_source :: "(bytes \<Rightarrow> string) \<Rightarrow> (nat \<Rightarrow> string) \<Rightarrow> int \<Rightarrow> NativeTransferReceiver \<Rightarrow> string
    \<Rightarrow> (FileOffer \<times> path) \<times> bytes \<Rightarrow> unit io" where
  "send_source H U now rcv tid = (\<lambda>((file, p), _). send_ranges H U now rcv tid (rv_chunk_size rcv) None [(file, p)])"

lemma send_ranges_iter:
  "send_ranges H U now rcv tid (rv_chunk_size rcv) None (map fst xs) = sr_iter (send_source H U now rcv tid) xs"
proof (induction xs)
  case (Cons x xs)
  obtain f p b where x: "x = ((f, p), b)" by (metis prod.exhaust)
  have head: "send_source H U now rcv tid ((f, p), b) = send_ranges H U now rcv tid (rv_chunk_size rcv) None [(f, p)]"
    by (simp add: send_source_def)
  show ?case
    unfolding x sr_iter.simps head Cons.IH [symmetric]
    by (rule ext) (simp add: sr_bind_def split: prod.splits sum.splits)
qed simp

lemma send_file_ranges_iter:
  "send_file_ranges H U now rcv tid fid input rs =
     sr_iter (\<lambda>r. sr_bind (of_fs (fs_read_at input (rr_offset r) (rr_length r))) (\<lambda>bs.
       receive_chunk_with_hash H U now rcv tid fid (rr_offset r) bs (H bs))) rs"
  by (induction rs) (simp_all add: fun_eq_iff sr_bind_def split: prod.splits sum.splits)

interpretation in_process: file_delivery rcv tid "send_source H U now rcv tid" "\<lambda>x. fst (fst x)" snd
    "\<lambda>fs x. source_file (rv_inbox_dir rcv) fs (snd (fst x)) (snd x)" for H U now rcv tid
proof
  fix w x
  assume cs: "rv_chunk_size rcv \<noteq> 0" and ib: "inbox_ok (rv_inbox_dir rcv)" and tid: "cleaned tid \<noteq> []" and w: "sendable rcv tid w"
    and rd: "offer_ready rcv tid w (fst (fst x)) (snd x)" and src: "source_file (rv_inbox_dir rcv) (w_fs w) (snd (fst x)) (snd x)"
  obtain f p b where x: "x = ((f, p), b)" by (metis prod.exhaust)
  let ?act = "\<lambda>r. sr_bind (of_fs (fs_read_at p (rr_offset r) (rr_length r))) (\<lambda>bs.
       receive_chunk_with_hash H U now rcv tid (fo_file_id f) (rr_offset r) bs (H bs))"
  have ne: "p \<noteq> offer_part rcv tid f" using src part_in_staging by (auto simp: source_file_def x)
  have act: "?act r w' = receive_chunk_with_hash H U now rcv tid (fo_file_id f) (rr_offset r) (chunk_bytes b r) (H (chunk_bytes b r)) w'"
    if r: "resume_in_file (of_nat (length b)) r" and w': "w_fs w' p = Some (File b)" for r w'
  proof -
    have "unat (rr_offset r) + unat (rr_length r) \<le> length b" "length b < 2 ^ 63"
      using r src by (auto simp: resume_in_file_def resume_iv_def source_file_def x unat_of_nat)
    moreover from this have "unat (rr_offset r) < 2 ^ 63" by simp
    ultimately show ?thesis using fs_read_at_ok [of "w_fs w'" p b "rr_offset r" "rr_length r"] w' by simp
  qed
  have "fs_open_read p (w_fs w) = Inr p"
    using source_file_walk [of "w_fs w" "rv_inbox_dir rcv" p b] src w by (simp add: fs_open_read_def source_file_def sendable_def x)
  then have "send_source H U now rcv tid x w = sr_iter ?act (file_plan (rv_chunk_size rcv) b) w"
    using offer_missing_ranges [OF w _ cs] rd
    by (simp add: x send_source_def rv_missing_ranges_def send_file_ranges_iter sr_bind_def split: prod.splits sum.splits)
  then show "\<exists>m. send_source H U now rcv tid x w = (Inr (), w\<lparr>w_fs := (w_fs w)(offer_part rcv tid (fst (fst x)) \<mapsto> File (snd x)), w_manifest := m\<rparr>)
      \<and> verified_bytes m tid (fo_file_id (fst (fst x))) = {0..<length (snd x)}
      \<and> same_elsewhere tid (fo_file_id (fst (fst x))) (w_manifest w) m \<and> manifest_inv m"
    using recv_one_file_ok [OF cs ib tid w, of f b "\<lambda>fs. fs p = Some (File b)" ?act H U now] rd src act ne
    by (simp add: x source_file_def)
next
  show "source_file (rv_inbox_dir rcv) fs (snd (fst x)) (snd x) \<Longrightarrow>
      source_file (rv_inbox_dir rcv) (fs(part_path (rv_inbox_dir rcv) tid fid \<mapsto> File b)) (snd (fst x)) (snd x)" for fs x fid b
    using part_in_staging by (auto simp: source_file_def)
qed

end
