(* ===== verification/Transfer_Names.thy ===== *)
theory Transfer_Names
  imports Transfer_Integrity
begin

text \<open>
  Names chosen by the receiver: which file names \<open>safe_file_name\<close> accepts, that the numbered
  candidates of \<open>available_target_path\<close> are distinct, and that the search finds a free one as
  long as the inbox has fewer than 9999 entries.
\<close>

lemma safe_char_not_blank: "safe_char c \<Longrightarrow> \<not> blank (c # cs)"
proof -
  assume c: "safe_char c"
  have "is_whitespace (c # takeWhile is_cont cs) = False"
  proof -
    have "of_char c \<noteq> (9::nat) \<and> of_char c \<noteq> (10::nat) \<and> of_char c \<noteq> (11::nat) \<and> of_char c \<noteq> (12::nat) \<and>
        of_char c \<noteq> (13::nat) \<and> of_char c \<noteq> (32::nat) \<and> of_char c < (128::nat)"
      using c by (auto simp: safe_char_def is_ascii_alphanumeric_def is_ascii_digit_def less_eq_char_def)
    then have "\<not> ws_codes (of_char c # r)" for r
      by (cases r; cases "tl r"; cases "tl (tl r)") auto
    then show ?thesis by (simp add: is_whitespace_def)
  qed
  then show ?thesis by (simp add: blank_iff)
qed

lemma safe_name_not_blank: "safe_name s \<Longrightarrow> \<not> blank s"
  using safe_char_not_blank by (cases s) (auto simp: safe_name_def)

lemma safe_name_cleaned [simp]: "safe_name s \<Longrightarrow> cleaned s = s"
  by (auto simp: safe_name_def cleaned_def safe_char_def list_all_iff filter_id_conv)

lemma digit_safe: "is_ascii_digit c \<Longrightarrow> safe_char c"
  by (simp add: safe_char_def is_ascii_alphanumeric_def)

lemma file_id_safe: "safe_name (''file-'' @ show_nat k)"
proof -
  have "list_all safe_char (show_nat k)"
    using show_nat_digits [of k] digit_safe by (auto simp: list_all_iff)
  moreover have "list_all safe_char ''file-''"
    by (simp add: safe_char_def is_ascii_alphanumeric_def is_ascii_digit_def less_eq_char_def)
  ultimately show ?thesis unfolding safe_name_def list_all_append by simp
qed

section \<open>Candidate names\<close>

lemma rsplit_dot_set:
  "rsplit_dot s = Some (a, b) \<Longrightarrow> set a \<subseteq> set s \<and> set b \<subseteq> set s"
proof -
  have "set (drop k (rev s)) \<subseteq> set s" for k by (metis set_drop_subset set_rev)
  moreover have "set (takeWhile P (rev s)) \<subseteq> set s" for P by (metis set_rev set_takeWhileD subsetI)
  ultimately show "rsplit_dot s = Some (a, b) \<Longrightarrow> set a \<subseteq> set s \<and> set b \<subseteq> set s"
    by (simp add: rsplit_dot_def Let_def split: if_splits) (metis set_rev)
qed

lemma file_stem_set: "file_stem s = Some a \<Longrightarrow> set a \<subseteq> set s"
  using rsplit_dot_set [of s]
  by (auto simp: file_stem_def path_file_name_def split: if_splits option.splits)

lemma path_extension_set: "path_extension s = Some a \<Longrightarrow> set a \<subseteq> set s"
  by (auto simp: path_extension_def path_file_name_def bind_eq_Some_conv split: if_splits dest: rsplit_dot_set)

lemma candidate_name_set:
  "set (candidate_name s i) \<subseteq> set s \<union> set ''file'' \<union> set '' ().'' \<union> set (show_nat i)"
proof -
  let ?stem = "case file_stem s of Some s \<Rightarrow> s | None \<Rightarrow> ''file''"
  have "set ?stem \<subseteq> set s \<union> set ''file''"
    using file_stem_set [of s] by (cases "file_stem s") auto
  moreover have "set e \<subseteq> set s" if "path_extension s = Some e" for e
    using path_extension_set [OF that] .
  ultimately show ?thesis
    unfolding candidate_name_def Let_def by (cases "path_extension s") auto
qed

lemma show_nat_no_nul: "CHR 0x00 \<notin> set (show_nat i)"
proof
  assume "CHR 0x00 \<in> set (show_nat i)"
  then have "is_ascii_digit (CHR 0x00)" using show_nat_digits [of i] unfolding list_all_iff by blast
  then show False by (simp add: is_ascii_digit_def less_eq_char_def)
qed

lemma candidate_name_normal: "\<not> has_nul s \<Longrightarrow> normal_name (candidate_name s i)"
proof -
  assume s: "\<not> has_nul s"
  note digits = show_nat_no_nul [of i]
  have "CHR 0x00 \<notin> set (candidate_name s i)"
    using candidate_name_set [of s i] s digits by (auto simp: has_nul_def)
  moreover have "CHR ''('' \<in> set (candidate_name s i)"
    unfolding candidate_name_def Let_def by (cases "path_extension s") auto
  ultimately show ?thesis by (auto simp: normal_name_def has_nul_def)
qed

lemma candidate_name_inj: "candidate_name s i = candidate_name s j \<longleftrightarrow> i = j"
  unfolding candidate_name_def Let_def by (cases "path_extension s") auto

section \<open>The search\<close>

definition inbox_names :: "path \<Rightarrow> fs \<Rightarrow> string set" where
  "inbox_names inbox fs = {n. fs (inbox @ [n]) \<noteq> None}"

lemma search_target_finds:
  "i \<le> j \<Longrightarrow> j \<le> 9999 \<Longrightarrow> \<not> is_ok (fs_metadata (inbox @ [candidate_name s j]) fs)
    \<Longrightarrow> \<exists>t. search_target fs inbox s i = Some t"
proof (induction fs inbox s i rule: search_target.induct)
  case (1 fs inbox s i)
  show ?case
  proof (cases "is_ok (fs_metadata (inbox @ [candidate_name s i]) fs)")
    case False
    then show ?thesis using 1(2,3) by (subst search_target.simps) (simp add: Let_def)
  next
    case True
    then have "i \<noteq> j" using 1(4) by auto
    then have "\<exists>t. search_target fs inbox s (Suc i) = Some t"
      using 1(1) [OF _ refl] True 1(2-4) by simp
    then show ?thesis using True 1(2,3) by (subst search_target.simps) (simp add: Let_def)
  qed
qed

lemma metadata_ok_inbox:
  assumes "list_all normal_name inbox" "normal_name n" "is_ok (fs_metadata (inbox @ [n]) fs)"
  shows "n \<in> inbox_names inbox fs"
proof -
  obtain q where q: "walk fs [] (inbox @ [n]) = Inr q" "fs q \<noteq> None"
    using assms(3) by (auto simp: is_ok_iff fs_metadata_def res_iffs)
  have "q = inbox @ [n]" using walk_normal_Inr [of "inbox @ [n]" fs "[]" q] assms(1,2) q(1) by simp
  then show ?thesis using q(2) by (simp add: inbox_names_def)
qed

text \<open>Numbered alternatives of a name: as there are more of them than entries in the directory, one is free.\<close>

locale numbered_names =
  fixes cand :: "string \<Rightarrow> nat \<Rightarrow> string"
  assumes cand_inj: "cand s i = cand s j \<Longrightarrow> i = j"
    and cand_normal: "\<not> has_nul s \<Longrightarrow> normal_name (cand s i)"
begin

lemma free_index:
  assumes "list_all normal_name inbox" "\<not> has_nul s" "finite (inbox_names inbox fs)" "card (inbox_names inbox fs) < n"
  shows "\<exists>j. 1 \<le> j \<and> j \<le> n \<and> \<not> is_ok (fs_metadata (inbox @ [cand s j]) fs)"
proof (rule ccontr)
  assume no: "\<not> ?thesis"
  have "cand s ` {1..n} \<subseteq> inbox_names inbox fs"
    using no metadata_ok_inbox [OF assms(1) cand_normal [OF assms(2)]] by auto
  then have "card (cand s ` {1..n}) \<le> card (inbox_names inbox fs)" using assms(3) by (rule card_mono [rotated])
  moreover have "card (cand s ` {1..n}) = n" by (subst card_image) (auto simp: inj_on_def dest: cand_inj)
  ultimately show False using assms(4) by simp
qed

end

interpretation transfer_names: numbered_names candidate_name
  by unfold_locales (auto simp: candidate_name_inj candidate_name_normal)

definition good_name :: "string \<Rightarrow> bool" where
  "good_name n \<longleftrightarrow> \<not> blank n \<and> CHR ''/'' \<notin> set n \<and> CHR 0x5C \<notin> set n \<and> n \<noteq> ''.'' \<and> n \<noteq> ''..'' \<and> \<not> has_nul n"

lemma safe_file_name_ok: "good_name n \<Longrightarrow> safe_file_name n = Inr (rs_trim n)"
  by (simp add: good_name_def safe_file_name_def blank_def Let_def)

lemma available_target_path_ok:
  assumes "inbox_ok inbox" "good_name n" "finite (inbox_names inbox fs)" "card (inbox_names inbox fs) < 9999"
  shows "\<exists>t. available_target_path inbox n fs = Inr t"
proof -
  have nul: "\<not> has_nul (rs_trim n)" using assms(2) set_rs_trim [of n] by (auto simp: good_name_def has_nul_def)
  obtain j where "1 \<le> j" "j \<le> 9999" "\<not> is_ok (fs_metadata (inbox @ [candidate_name (rs_trim n) j]) fs)"
    using transfer_names.free_index [OF _ nul assms(3,4)] assms(1) by (auto simp: inbox_ok_def)
  then obtain t where "search_target fs inbox (rs_trim n) 1 = Some t" using search_target_finds by blast
  then show ?thesis
    using safe_file_name_ok [OF assms(2)] by (simp add: available_target_path_def Let_def)
qed

lemma available_target_no_nul:
  assumes "available_target_path inbox n fs = Inr (inbox @ [c])" "\<not> has_nul n"
  shows "\<not> has_nul c"
proof -
  have search: "search_target fs inbox s i = Some (inbox @ [c]) \<Longrightarrow> \<exists>j. c = candidate_name s j" for s i
  proof (induction fs inbox s i rule: search_target.induct)
    case (1 fs inbox s i)
    show ?case using 1(2) 1(1) by (subst (asm) search_target.simps) (auto simp: Let_def split: if_splits)
  qed
  obtain s where s: "safe_file_name n = Inr s" using assms(1) by (auto simp: available_target_path_def res_iffs)
  then have "set s \<subseteq> set n" using set_rs_trim [of n] by (auto simp: safe_file_name_def Let_def split: if_splits)
  then have "\<not> has_nul s" using assms(2) by (auto simp: has_nul_def)
  moreover have "c = s \<or> (\<exists>j. c = candidate_name s j)"
    using assms(1) s search by (auto simp: available_target_path_def Let_def ok_or_Inr_iff split: if_splits)
  ultimately show ?thesis using candidate_name_normal [of s] by (auto simp: normal_name_def)
qed

end
