(* ===== verification/Transfer_End.thy ===== *)
theory Transfer_End
  imports Transfer_Delivery Transfer_Names "HOL-Library.Multiset"
begin

text \<open>
  The stages of \<open>send_files_to_receiver\<close> put together: the request that is prepared, the state
  after it is accepted, and publication, ending in the delivery lemma.
\<close>

section \<open>Preparing the request\<close>

fun mk_offers :: "(bytes \<Rightarrow> string) \<Rightarrow> nat \<Rightarrow> (path \<times> bytes) list \<Rightarrow> FileOffer list" where
  "mk_offers H k [] = []"
| "mk_offers H k ((p, b) # xs) =
     \<lparr>fo_file_id = ''file-'' @ show_nat k, fo_file_name = last p,
      fo_size = of_nat (length b), fo_blake3 = Some (H b)\<rparr> # mk_offers H (Suc k) xs"

definition good_source :: "path \<Rightarrow> fs \<Rightarrow> path \<times> bytes \<Rightarrow> bool" where
  "good_source inbox fs x \<longleftrightarrow> source_file inbox fs (fst x) (snd x) \<and> good_name (last (fst x)) \<and> utf8_valid (last (fst x))"

definition sound_item :: "path \<times> bytes \<Rightarrow> bool" where
  "sound_item x \<longleftrightarrow> good_name (last (fst x)) \<and> utf8_valid (last (fst x)) \<and> snd x \<noteq> [] \<and> length (snd x) < 2 ^ 63"

lemma good_source_sound: "good_source inbox fs x \<Longrightarrow> sound_item x"
  by (simp add: good_source_def sound_item_def source_file_def)

lemma fs_read_source: "fs_wf fs \<Longrightarrow> source_file inbox fs p b \<Longrightarrow> fs_read p fs = Inr b"
  using source_file_walk [of fs inbox p b] by (simp add: fs_read_def source_file_def)

lemma path_name_source: "good_source inbox fs x \<Longrightarrow> path_name (fst x) = Inr (last (fst x))"
proof -
  assume g: "good_source inbox fs x"
  then have "normal_name (last (fst x))"
    by (auto simp: good_source_def source_file_def list_all_iff)
  then show ?thesis
    using g by (auto simp: path_name_def path_file_name_def good_source_def normal_name_def source_file_def)
qed

lemma prepare_offers_ok:
  "fs_wf (w_fs w) \<Longrightarrow> \<forall>x \<in> set xs. good_source inbox (w_fs w) x \<Longrightarrow>
    prepare_offers H k (map fst xs) w = (Inr (mk_offers H k xs), w)"
proof (induction xs arbitrary: k)
  case (Cons x xs)
  obtain p b where x: "x = (p, b)" by (cases x)
  have "fs_read p (w_fs w) = Inr b"
    using Cons.prems x fs_read_source [of "w_fs w" inbox p b] by (simp add: good_source_def)
  moreover have "path_name p = Inr (last p)" using path_name_source [of inbox "w_fs w" x] Cons.prems x by simp
  ultimately show ?case using Cons x by simp
qed simp

lemma length_mk_offers [simp]: "length (mk_offers H k xs) = length xs"
  by (induction H k xs rule: mk_offers.induct) auto

lemma nth_mk_offers:
  "i < length xs \<Longrightarrow> mk_offers H k xs ! i = \<lparr>fo_file_id = ''file-'' @ show_nat (k + i), fo_file_name = last (fst (xs ! i)),
      fo_size = of_nat (length (snd (xs ! i))), fo_blake3 = Some (H (snd (xs ! i)))\<rparr>"
proof (induction H k xs arbitrary: i rule: mk_offers.induct)
  case (2 H k p b xs)
  then show ?case by (cases i) auto
qed simp

lemma set_mk_offers:
  "f \<in> set (mk_offers H k xs) \<longleftrightarrow> (\<exists>i < length xs. f = mk_offers H k xs ! i)"
  by (auto simp: in_set_conv_nth)

lemma mk_offers_ids: "map fo_file_id (mk_offers H k xs) = map (\<lambda>i. ''file-'' @ show_nat i) [k..<k + length xs]"
  by (rule nth_equalityI) (auto simp: nth_mk_offers)

lemma mk_offers_distinct: "distinct (map fo_file_id (mk_offers H k xs))"
  unfolding mk_offers_ids by (simp add: distinct_map inj_on_def)

lemma mk_offers_safe: "f \<in> set (mk_offers H k xs) \<Longrightarrow> safe_name (fo_file_id f)"
  using file_id_safe by (auto simp: set_mk_offers nth_mk_offers)

lemma mk_offers_valid:
  assumes "xs \<noteq> []" "\<forall>x \<in> set xs. sound_item x" "safe_name tid"
  shows "validate_transfer_request \<lparr>rt_transfer_id = tid, rt_files = mk_offers H 0 xs\<rparr> = Inr ()"
proof -
  have "mk_offers H 0 xs \<noteq> []" using assms(1) by (metis length_0_conv length_mk_offers)
  moreover have "valid_offer f" if "f \<in> set (mk_offers H 0 xs)" for f
  proof -
    obtain i where i: "i < length xs" "f = mk_offers H 0 xs ! i" using \<open>f \<in> _\<close> by (auto simp: set_mk_offers)
    then have "good_name (last (fst (xs ! i)))" using assms(2) by (auto simp: sound_item_def)
    then show ?thesis
      using i safe_name_not_blank [OF file_id_safe] by (simp add: valid_offer_def nth_mk_offers good_name_def)
  qed
  ultimately show ?thesis
    using mk_offers_distinct safe_name_not_blank [OF assms(3)] by (simp add: validate_transfer_request_ok_iff)
qed

section \<open>Accepting it\<close>

definition receiver_ready :: "NativeTransferReceiver \<Rightarrow> string \<Rightarrow> World \<Rightarrow> bool" where
  "receiver_ready rcv tid w \<longleftrightarrow> inbox_ok (rv_inbox_dir rcv) \<and> fs_wf (w_fs w) \<and> manifest_inv (w_manifest w) \<and>
     safe_name tid \<and> map_of (ms_transfers (w_manifest w)) tid = None \<and>
     (\<forall>q b. prefix q (rv_inbox_dir rcv @ [''.incoming'', ''native'']) \<longrightarrow> w_fs w q \<noteq> Some (File b)) \<and>
     w_fs w (rv_inbox_dir rcv @ [''.incoming'', ''native'', tid]) = None"

definition accepted_fs :: "path \<Rightarrow> string \<Rightarrow> fs \<Rightarrow> fs" where
  "accepted_fs inbox tid fs = (\<lambda>q. if prefix q (inbox @ [''.incoming'', ''native'', tid]) then Some Dir else fs q)"

lemma staging_dir_cases:
  "prefix q (inbox @ [''.incoming'', ''native'', tid]) \<longleftrightarrow>
    prefix q (inbox @ [''.incoming'', ''native'']) \<or> q = inbox @ [''.incoming'', ''native'', tid]"
  using prefix_snoc [of q "inbox @ [''.incoming'', ''native'']" tid] by auto

lemma receiver_ready_dirs:
  assumes "receiver_ready rcv tid w"
  shows "create_dir_all (rv_inbox_dir rcv @ [''.incoming'', ''native'', tid]) (w_fs w) = Inr (accepted_fs (rv_inbox_dir rcv) tid (w_fs w))"
    and "fs_wf (accepted_fs (rv_inbox_dir rcv) tid (w_fs w))"
proof -
  let ?d = "rv_inbox_dir rcv @ [''.incoming'', ''native'', tid]"
  have norm: "list_all normal_name ?d"
    using assms safe_name_normal by (auto simp: receiver_ready_def inbox_ok_def normal_name_def [of "''.incoming''"]
      normal_name_def [of "''native''"] has_nul_def)
  have root: "w_fs w [] = Some Dir" "fs_wf (w_fs w)" using assms by (auto simp: receiver_ready_def fs_wf_def)
  obtain fs' where fs': "create_dir_all ?d (w_fs w) = Inr fs'"
    using mkdirs_ok [OF norm, of "[]" "w_fs w"] assms
    by (auto simp: create_dir_all_def receiver_ready_def staging_dir_cases)
  have "fs' = accepted_fs (rv_inbox_dir rcv) tid (w_fs w)"
    using create_dir_all_Inr [OF fs' norm root(1)] by (simp add: accepted_fs_def)
  then show "create_dir_all ?d (w_fs w) = Inr (accepted_fs (rv_inbox_dir rcv) tid (w_fs w))"
    "fs_wf (accepted_fs (rv_inbox_dir rcv) tid (w_fs w))"
    using fs' create_dir_all_wf [OF fs' norm root(2)] by auto
qed

lemma no_rows_of_unknown:
  assumes "manifest_inv m" "map_of (ms_transfers m) tid = None"
  shows "map_of (ms_files m) (tid, fid) = None" "chunk_rows m tid fid = []" "((tid, fid), row) \<notin> set (ms_files m)"
proof -
  show *: "((tid, fid), row) \<notin> set (ms_files m)" for fid row
    using assms unfolding manifest_inv_def by blast
  show **: "map_of (ms_files m) (tid, fid) = None" for fid
    using * by (auto simp: map_of_eq_None_iff)
  have "((tid, fid, off), row) \<notin> set (ms_chunks m)" for off row
    using assms(1) ** unfolding manifest_inv_def by (metis option.distinct(1))
  then show "chunk_rows m tid fid = []" by (auto simp: chunk_rows_def filter_empty_conv)
qed

lemma accept_manifest:
  assumes "manifest_inv m" "map_of (ms_transfers m) tid = None" "\<not> blank tid" "\<not> blank peer"
    "offers \<noteq> []" "distinct (map fo_file_id offers)"
  obtains m1 m2 where "create_transfer now tid peer Receive offers m = Inr m1" "set_state now tid Active m1 = Inr m2"
    "manifest_inv m2" "ms_files m2 = ms_files m @ map (\<lambda>f. ((tid, fo_file_id f), offer_row f)) offers"
    "map_of (ms_transfers m2) tid \<noteq> None" "\<forall>fid. chunk_rows m2 tid fid = []"
proof -
  obtain m1 where m1: "create_transfer now tid peer Receive offers m = Inr m1"
    using assms no_rows_of_unknown(1) [OF assms(1,2)]
      create_transfer_Inr_iff [of now tid peer Receive offers m] by blast
  then have inv1: "manifest_inv m1" using create_transfer_inv assms(1) by blast
  have f1: "ms_files m1 = ms_files m @ map (\<lambda>f. ((tid, fo_file_id f), offer_row f)) offers"
    "ms_chunks m1 = ms_chunks m" "map_of (ms_transfers m1) tid \<noteq> None"
    using m1 by (auto simp: create_transfer_Inr_iff map_add_def split: option.splits)
  obtain m2 where m2: "set_state now tid Active m1 = Inr m2"
    "ms_files m2 = ms_files m1" "ms_chunks m2 = ms_chunks m1" "map_of (ms_transfers m2) tid \<noteq> None"
    using f1(3) by (auto simp: set_state_def map_of_map_rows)
  show ?thesis
    using that [OF m1 m2(1)] set_state_inv [OF inv1 m2(1)] m2 f1 no_rows_of_unknown(2) [OF assms(1,2)]
    by (simp add: chunk_rows_def)
qed

lemma accepted_source:
  assumes "receiver_ready rcv tid w" "source_file (rv_inbox_dir rcv) (w_fs w) p b"
  shows "source_file (rv_inbox_dir rcv) (accepted_fs (rv_inbox_dir rcv) tid (w_fs w)) p b"
proof -
  have "\<not> prefix p (rv_inbox_dir rcv @ [''.incoming'', ''native'', tid])"
    using assms by (auto simp: staging_dir_cases receiver_ready_def source_file_def)
  then show ?thesis using assms(2) by (simp add: source_file_def accepted_fs_def)
qed

lemma accepted_part_free:
  assumes "receiver_ready rcv tid w"
  shows "accepted_fs (rv_inbox_dir rcv) tid (w_fs w) (part_path (rv_inbox_dir rcv) tid fid) = None"
proof -
  let ?d = "rv_inbox_dir rcv @ [''.incoming'', ''native'', tid]"
  have "cleaned tid = tid" using assms by (simp add: receiver_ready_def)
  then have p: "part_path (rv_inbox_dir rcv) tid fid = ?d @ [cleaned fid @ ''.part'']" by (simp add: part_path_def)
  have "w_fs w (?d @ [cleaned fid @ ''.part'']) = None"
    using assms unfolding receiver_ready_def fs_wf_def by (metis option.distinct(1))
  moreover have "\<not> prefix (?d @ [cleaned fid @ ''.part'']) ?d" by (auto dest: prefix_length_le)
  ultimately show ?thesis unfolding p accepted_fs_def by simp
qed

lemma offer_row_size [simp]: "i64_as_u64 (fw_size (offer_row f)) = fo_size f"
  by (simp add: offer_row_def)

text \<open>The state in which the receiver has accepted a request for the files \<open>xs\<close>.\<close>

definition accepted_state :: "(bytes \<Rightarrow> string) \<Rightarrow> NativeTransferReceiver \<Rightarrow> string \<Rightarrow> (path \<times> bytes) list \<Rightarrow> World \<Rightarrow> World \<Rightarrow> bool" where
  "accepted_state H rcv tid xs w w2 \<longleftrightarrow>
     w_fs w2 = accepted_fs (rv_inbox_dir rcv) tid (w_fs w) \<and> w_uuid w2 = w_uuid w \<and>
     ms_files (w_manifest w2) = ms_files (w_manifest w) @ map (\<lambda>f. ((tid, fo_file_id f), offer_row f)) (mk_offers H 0 xs) \<and>
     map_of (ms_transfers (w_manifest w2)) tid \<noteq> None \<and> sendable rcv tid w2 \<and>
     (\<forall>i < length xs. offer_ready rcv tid w2 (mk_offers H 0 xs ! i) (snd (xs ! i)))"

lemma accept_transfer_ok:
  assumes rd: "receiver_ready rcv tid w" and src: "xs \<noteq> []" "\<forall>x \<in> set xs. sound_item x"
    and tr: "\<not> rv_blocked rcv" "rv_trusted_peer_fingerprint rcv = Some (np_fingerprint peer)" "\<not> blank (np_fingerprint peer)"
  obtains w2 where "accept_transfer U now rcv peer \<lparr>rt_transfer_id = tid, rt_files = mk_offers H 0 xs\<rparr> w =
      (Inr \<lparr>at_transfer_id = tid, at_chunk_size = rv_chunk_size rcv\<rparr>, w2)"
    "accepted_state H rcv tid xs w w2"
proof -
  let ?in = "rv_inbox_dir rcv" and ?os = "mk_offers H 0 xs"
  have tid: "safe_name tid" "cleaned tid = tid" using rd by (simp_all add: receiver_ready_def)
  have inv: "manifest_inv (w_manifest w)" "map_of (ms_transfers (w_manifest w)) tid = None"
    using rd by (simp_all add: receiver_ready_def)
  have ne: "?os \<noteq> []" using src(1) by (metis length_0_conv length_mk_offers)
  obtain m1 m where m: "create_transfer now tid (np_fingerprint peer) Receive ?os (w_manifest w) = Inr m1"
    "set_state now tid Active m1 = Inr m" "manifest_inv m"
    "ms_files m = ms_files (w_manifest w) @ map (\<lambda>f. ((tid, fo_file_id f), offer_row f)) ?os"
    "map_of (ms_transfers m) tid \<noteq> None" "\<forall>fid. chunk_rows m tid fid = []"
    using accept_manifest [OF inv safe_name_not_blank [OF tid(1)] tr(3) ne mk_offers_distinct] .
  let ?w = "w\<lparr>w_fs := accepted_fs ?in tid (w_fs w), w_manifest := m\<rparr>"
  have run: "accept_transfer U now rcv peer \<lparr>rt_transfer_id = tid, rt_files = ?os\<rparr> w =
      (Inr \<lparr>at_transfer_id = tid, at_chunk_size = rv_chunk_size rcv\<rparr>, ?w)"
    using tr mk_offers_valid [OF src tid(1)] incoming_dir_clean [of tid U rcv w] tid receiver_ready_dirs(1) [OF rd] m(1,2) inv(2)
    by (simp add: accept_transfer_def safe_name_def get_state_def)
  have send: "sendable rcv tid ?w"
    using receiver_ready_dirs(2) [OF rd] m(3) tid(2) by (simp add: sendable_def accepted_fs_def)
  have "offer_ready rcv tid ?w (?os ! i) (snd (xs ! i))" if i: "i < length xs" for i
  proof -
    have os: "?os ! i \<in> set ?os" using i by simp
    have "map_of (ms_files m) (tid, fo_file_id (?os ! i)) = Some (offer_row (?os ! i))"
    proof (rule map_of_is_SomeI)
      show "distinct (map fst (ms_files m))" using m(3) by (simp add: manifest_inv_def)
      show "((tid, fo_file_id (?os ! i)), offer_row (?os ! i)) \<in> set (ms_files m)" using m(4) os by auto
    qed
    moreover have "sound_item (xs ! i)" using src(2) i by simp
    ultimately show ?thesis
      using i mk_offers_safe [OF os] m(6) accepted_part_free [OF rd]
      by (simp add: offer_ready_def nth_mk_offers safe_name_def [of "''file-'' @ _"] sound_item_def)
  qed
  then have "accepted_state H rcv tid xs w ?w" using m(4,5) send by (simp add: accepted_state_def)
  with run show ?thesis by (rule that)
qed

section \<open>Finishing\<close>

lemma verify_files_ok:
  assumes "cleaned tid \<noteq> []" "fs_wf (w_fs w)" "inbox_ok (rv_inbox_dir rcv)"
    "\<forall>f \<in> set files. cleaned (mf_file_id f) \<noteq> [] \<and>
      (\<exists>b. w_fs w (part_path (rv_inbox_dir rcv) tid (mf_file_id f)) = Some (File b) \<and> intact H f b)"
  shows "verify_files H U now rcv tid files w = (Inr (), w)"
  using assms(4)
proof (induction files)
  case (Cons f files)
  let ?p = "part_path (rv_inbox_dir rcv) tid (mf_file_id f)"
  obtain b where b: "w_fs w ?p = Some (File b)" "intact H f b" and id: "cleaned (mf_file_id f) \<noteq> []"
    using Cons.prems by auto
  let ?d = "rv_inbox_dir rcv @ [''.incoming'', ''native'', cleaned tid]" and ?c = "cleaned (mf_file_id f) @ ''.part''"
  have p: "?p = ?d @ [?c]" by (simp add: part_path_def)
  have norm: "list_all normal_name ?d" "normal_name ?c"
    using part_path_normal [OF assms(3,1) id] unfolding p by simp_all
  have dir: "w_fs w ?d = Some Dir" using assms(2) b(1) unfolding p fs_wf_def by (metis option.distinct(1))
  have "fs_read ?p (w_fs w) = Inr b" using fs_read_wf [OF assms(2) norm dir] b(1) unfolding p by simp
  then show ?case
    using Cons incoming_file_path_clean [OF assms(1) id] b(2) by (auto simp: intact_def split: option.splits)
qed simp

lemma fs_rename_ok:
  assumes wf: "fs_wf fs" and ib: "inbox_ok inbox" "fs inbox = Some Dir"
    and av: "available_target_path inbox name fs = Inr t" "\<not> has_nul name"
    and src: "is_part inbox p" "fs p = Some (File b)"
  obtains n where "t = inbox @ [n]" "fs_rename p t fs = Inr (fs(p := None, t \<mapsto> File b))" "fs t = None"
    "fs_wf (fs(p := None, t \<mapsto> File b))"
proof -
  obtain n where n: "t = inbox @ [n]" "\<not> is_ok (fs_metadata t fs)" using available_target_fresh [OF av(1)] by blast
  have nul: "\<not> has_nul n" using available_target_no_nul av n(1) by blast
  have "walk fs [] inbox = Inr inbox" using walk_dir [OF wf _ ib(2)] ib(1) by (simp add: inbox_ok_def)
  then have "\<exists>q. walk fs [] (inbox @ [n]) = Inr q" using ib(2) nul by (simp add: walk_append)
  then obtain q where q: "walk fs [] (inbox @ [n]) = Inr q" by blast
  have fresh: "q = inbox @ [n]" "fs q = None"
    using target_fresh [OF wf _ _ q] n ib(1) by (auto simp: inbox_ok_def)
  obtain d c where p: "p = d @ [c]" "list_all normal_name d" "normal_name c"
    using is_part_split [OF src(1) ib(1)] by metis
  have "fs d = Some Dir" using wf src(2) p(1) unfolding fs_wf_def by auto
  then have "walk fs [] p = Inr p" using walk_wf [OF wf p(2,3)] p(1) by simp
  then have r: "fs_rename p t fs = Inr (fs(p := None, t \<mapsto> File b))"
    using q fresh src(2) n(1) by (simp add: fs_rename_def)
  have "p \<noteq> inbox" "p \<noteq> t" using src(2) ib(2) fresh n(1) by auto
  then have "fs_wf (fs(p := None, inbox @ [n] \<mapsto> File b))"
    using fs_wf_remove_file [OF wf src(2)] ib(2) fresh n(1) by (intro fs_wf_put_file) auto
  then show ?thesis using that [of n] n(1) r fresh by simp
qed

lemma publish_files_ok:
  assumes "cleaned tid \<noteq> []" "inbox_ok (rv_inbox_dir rcv)" "fs_wf (w_fs w)" "w_fs w (rv_inbox_dir rcv) = Some Dir"
    "distinct (map (\<lambda>f. part_path (rv_inbox_dir rcv) tid (mf_file_id f)) files)"
    "\<forall>f \<in> set files. cleaned (mf_file_id f) \<noteq> [] \<and> good_name (mf_file_name f) \<and>
      (\<exists>b. w_fs w (part_path (rv_inbox_dir rcv) tid (mf_file_id f)) = Some (File b))"
    "finite (inbox_names (rv_inbox_dir rcv) (w_fs w))"
    "card (inbox_names (rv_inbox_dir rcv) (w_fs w)) + length files \<le> 9999"
  shows "\<exists>fs. publish_files U rcv tid files w = (Inr (), w\<lparr>w_fs := fs\<rparr>)"
  using assms(3-)
proof (induction files arbitrary: w)
  case Nil
  show ?case by (auto intro: exI [of _ "w_fs w"])
next
  case (Cons f files)
  let ?in = "rv_inbox_dir rcv"
  let ?pp = "\<lambda>f. part_path ?in tid (mf_file_id f)"
  obtain b where b: "w_fs w (?pp f) = Some (File b)" and id: "cleaned (mf_file_id f) \<noteq> []" and nm: "good_name (mf_file_name f)"
    using Cons.prems(4) by auto
  obtain t where t: "available_target_path ?in (mf_file_name f) (w_fs w) = Inr t"
    using available_target_path_ok [OF assms(2) nm Cons.prems(5)] Cons.prems(6) by auto
  obtain n where n: "t = ?in @ [n]" "fs_rename (?pp f) t (w_fs w) = Inr ((w_fs w)(?pp f := None, t \<mapsto> File b))"
    "w_fs w t = None" "fs_wf ((w_fs w)(?pp f := None, t \<mapsto> File b))"
    using fs_rename_ok [OF Cons.prems(1) assms(2) Cons.prems(2) t _ part_path_is_part [OF assms(1) id] b] nm
    by (auto simp: good_name_def)
  let ?fs = "(w_fs w)(?pp f := None, t \<mapsto> File b)" and ?w = "w\<lparr>w_fs := (w_fs w)(?pp f := None, t \<mapsto> File b)\<rparr>"
  have "?in @ [x] \<noteq> ?pp f" for x using part_path_not_target(1) by metis
  then have names: "inbox_names ?in ?fs = insert n (inbox_names ?in (w_fs w))"
    using n(1) by (auto simp: inbox_names_def fun_upd_apply)
  have card: "card (inbox_names ?in ?fs) + length files \<le> 9999"
    using Cons.prems(5,6) n(1,3) unfolding names by (subst card_insert_disjoint) (auto simp: inbox_names_def)
  have other: "\<forall>g \<in> set files. ?pp g \<noteq> ?pp f" using Cons.prems(3) by (auto simp: image_iff)
  have ready: "\<forall>g \<in> set files. cleaned (mf_file_id g) \<noteq> [] \<and> good_name (mf_file_name g) \<and> (\<exists>b. w_fs ?w (?pp g) = Some (File b))"
    using Cons.prems(4) other n(1) part_path_not_target(1) by auto
  have inbox: "w_fs ?w ?in = Some Dir"
    using Cons.prems(2) b n(1) by (auto simp: fun_upd_apply)
  have wf': "fs_wf (w_fs ?w)" using n(4) by simp
  have fin: "finite (inbox_names ?in (w_fs ?w))" using names Cons.prems(5) by simp
  have card': "card (inbox_names ?in (w_fs ?w)) + length files \<le> 9999" using card by simp
  have dist: "distinct (map ?pp files)" using Cons.prems(3) by simp
  obtain fs where "publish_files U rcv tid files ?w = (Inr (), ?w\<lparr>w_fs := fs\<rparr>)"
    using Cons.IH [OF wf' inbox dist ready fin card'] by blast
  then show ?case
    using incoming_file_path_clean [OF assms(1) id] t n(2) by auto
qed

section \<open>The files of the transfer\<close>

definition offer_file :: "FileOffer \<Rightarrow> ManifestFile" where
  "offer_file f = \<lparr>mf_file_id = fo_file_id f, mf_file_name = fo_file_name f, mf_size = fo_size f, mf_blake3 = fo_blake3 f\<rparr>"

lemma offer_file_sel [simp]:
  "mf_file_id (offer_file f) = fo_file_id f" "mf_file_name (offer_file f) = fo_file_name f"
  "mf_size (offer_file f) = fo_size f" "mf_blake3 (offer_file f) = fo_blake3 f"
  by (simp_all add: offer_file_def)

lemma file_rows_new:
  assumes "ms_files m = old @ map (\<lambda>f. ((tid, fo_file_id f), offer_row f)) offers"
    "\<forall>fid row. ((tid, fid), row) \<notin> set old"
  shows "file_rows m tid = map (\<lambda>f. ((tid, fo_file_id f), offer_row f)) offers"
proof -
  have "filter (\<lambda>((t, f), row). t = tid) old = []" using assms(2) by (auto simp: filter_empty_conv)
  then show ?thesis by (simp add: file_rows_def assms(1) filter_map comp_def)
qed

lemma manifest_files_new:
  assumes "file_rows m tid = map (\<lambda>f. ((tid, fo_file_id f), offer_row f)) offers"
  shows "mset (manifest_files m tid) = mset (map offer_file offers)"
  unfolding manifest_files_def assms by (simp add: offer_file_def [abs_def] offer_row_def multiset.map_comp comp_def)

lemma part_path_inject: "part_path inbox tid a = part_path inbox tid b \<longleftrightarrow> cleaned a = cleaned b"
  by (simp add: part_path_def)

lemma distinct_parts:
  assumes "distinct (map g xs)" "\<forall>x \<in> set xs. safe_name (g x)"
  shows "distinct (map (\<lambda>x. part_path inbox tid (g x)) xs)"
  using assms by (auto simp: distinct_map inj_on_def part_path_inject)

section \<open>Delivery\<close>

lemma finish_transfer_ok:
  assumes tid: "cleaned tid \<noteq> []" and ib: "inbox_ok (rv_inbox_dir rcv)" and w: "sendable rcv tid w"
    and complete: "transfer_complete (w_manifest w) tid" "map_of (ms_transfers (w_manifest w)) tid \<noteq> None"
    and files: "distinct (map mf_file_id (manifest_files (w_manifest w) tid))"
      "\<forall>f \<in> set (manifest_files (w_manifest w) tid). safe_name (mf_file_id f) \<and> good_name (mf_file_name f) \<and>
        (\<exists>b. w_fs w (part_path (rv_inbox_dir rcv) tid (mf_file_id f)) = Some (File b) \<and> intact H f b)"
    and free: "finite (inbox_names (rv_inbox_dir rcv) (w_fs w))"
      "card (inbox_names (rv_inbox_dir rcv) (w_fs w)) + length (manifest_files (w_manifest w) tid) \<le> 9999"
  shows "\<exists>w'. finish_transfer H U now rcv tid w = (Inr (), w')"
proof -
  let ?fs = "manifest_files (w_manifest w) tid" and ?in = "rv_inbox_dir rcv"
  have wf: "fs_wf (w_fs w)" using w by (simp add: sendable_def)
  have dir: "w_fs w ?in = Some Dir"
    using fs_wf_prefix [OF wf, of ?in "[''.incoming'', ''native'', cleaned tid]"] w by (simp add: sendable_def)
  have clean: "\<forall>f \<in> set ?fs. cleaned (mf_file_id f) \<noteq> []" using files(2) by (auto simp: safe_name_def)
  have v: "verify_files H U now rcv tid ?fs w = (Inr (), w)"
    using verify_files_ok [OF tid wf ib] files(2) clean by blast
  have mk: "create_dir_all ?in (w_fs w) = Inr (w_fs w)"
    using create_dir_all_id [OF wf _ dir] ib by (simp add: inbox_ok_def)
  have parts: "distinct (map (\<lambda>f. part_path ?in tid (mf_file_id f)) ?fs)"
    using distinct_parts [OF files(1)] files(2) by blast
  obtain fs where p: "publish_files U rcv tid ?fs w = (Inr (), w\<lparr>w_fs := fs\<rparr>)"
    using publish_files_ok [OF tid ib wf dir parts _ free] files(2) clean by blast
  obtain m where "set_state now tid Completed (w_manifest w) = Inr m"
    using complete by (auto simp: set_state_def)
  then show ?thesis using complete v mk p by (simp add: finish_transfer_def)
qed

lemma accepted_inbox_names:
  "inbox_names inbox (accepted_fs inbox tid fs) \<subseteq> insert ''.incoming'' (inbox_names inbox fs)"
  by (auto simp: inbox_names_def accepted_fs_def)

text \<open>The state in which every part file of \<open>xs\<close> is complete and verified.\<close>

definition all_delivered :: "(bytes \<Rightarrow> string) \<Rightarrow> NativeTransferReceiver \<Rightarrow> string \<Rightarrow> (path \<times> bytes) list \<Rightarrow> World \<Rightarrow> World \<Rightarrow> bool" where
  "all_delivered H rcv tid xs w2 w3 \<longleftrightarrow> sendable rcv tid w3 \<and> ms_files (w_manifest w3) = ms_files (w_manifest w2) \<and>
     map fst (ms_transfers (w_manifest w3)) = map fst (ms_transfers (w_manifest w2)) \<and>
     (\<forall>i < length xs. w_fs w3 (offer_part rcv tid (mk_offers H 0 xs ! i)) = Some (File (snd (xs ! i))) \<and>
        verified_bytes (w_manifest w3) tid (fo_file_id (mk_offers H 0 xs ! i)) = {0..<length (snd (xs ! i))}) \<and>
     (\<forall>n. w_fs w3 (rv_inbox_dir rcv @ [n]) = w_fs w2 (rv_inbox_dir rcv @ [n]))"

context file_delivery
begin

lemma delivers_all:
  assumes "rv_chunk_size rcv \<noteq> 0" and rd: "receiver_ready rcv tid w" and acc: "accepted_state H rcv tid xs w w2"
    and items: "map offer items = mk_offers H 0 xs" "map content items = map snd xs" "\<forall>x \<in> set items. avail (w_fs w2) x"
  shows "\<exists>w3. sr_iter deliver items w2 = (Inr (), w3) \<and> all_delivered H rcv tid xs w2 w3"
proof -
  have tid: "cleaned tid \<noteq> []" and ib: "inbox_ok (rv_inbox_dir rcv)" using rd by (auto simp: receiver_ready_def safe_name_def)
  have len: "length items = length xs" using items(2) by (metis length_map)
  have nth: "offer (items ! i) = mk_offers H 0 xs ! i" "content (items ! i) = snd (xs ! i)" if "i < length xs" for i
    using items(1,2) that len by (metis nth_map)+
  have "map (\<lambda>x. offer_part rcv tid (offer x)) items = map (\<lambda>f. offer_part rcv tid f) (mk_offers H 0 xs)"
    unfolding items(1) [symmetric] by simp
  then have dist: "distinct (map (\<lambda>x. offer_part rcv tid (offer x)) items)"
    using distinct_parts [OF mk_offers_distinct, of H 0 xs "rv_inbox_dir rcv" tid] mk_offers_safe by simp
  have ready: "\<forall>x \<in> set items. offer_ready rcv tid w2 (offer x) (content x)"
    using acc nth len by (auto simp: accepted_state_def in_set_conv_nth)
  have send: "sendable rcv tid w2" using acc by (simp add: accepted_state_def)
  obtain w3 where w3: "sr_iter deliver items w2 = (Inr (), w3)" "sendable rcv tid w3"
    "ms_files (w_manifest w3) = ms_files (w_manifest w2)"
    "map fst (ms_transfers (w_manifest w3)) = map fst (ms_transfers (w_manifest w2))"
    "\<forall>x \<in> set items. w_fs w3 (offer_part rcv tid (offer x)) = Some (File (content x)) \<and>
       verified_bytes (w_manifest w3) tid (fo_file_id (offer x)) = {0..<length (content x)}"
    "\<forall>q. (\<forall>x \<in> set items. q \<noteq> offer_part rcv tid (offer x)) \<longrightarrow> w_fs w3 q = w_fs w2 q"
    using deliver_all_ok [OF assms(1) ib tid send dist ready items(3)] by blast
  have each: "w_fs w3 (offer_part rcv tid (mk_offers H 0 xs ! i)) = Some (File (snd (xs ! i))) \<and>
      verified_bytes (w_manifest w3) tid (fo_file_id (mk_offers H 0 xs ! i)) = {0..<length (snd (xs ! i))}" if i: "i < length xs" for i
    using w3(5) nth [OF i] i len by (metis nth_mem)
  have "w_fs w3 (rv_inbox_dir rcv @ [n]) = w_fs w2 (rv_inbox_dir rcv @ [n])" for n
    using w3(6) part_path_not_target(1) by metis
  then show ?thesis using w3(1-4) each by (auto simp: all_delivered_def)
qed

end

lemma delivered_complete:
  assumes rd: "receiver_ready rcv tid w" and acc: "accepted_state H rcv tid xs w w2" and dl: "all_delivered H rcv tid xs w2 w3"
    and src: "xs \<noteq> []" "\<forall>x \<in> set xs. sound_item x"
  shows "mset (manifest_files (w_manifest w3) tid) = mset (map offer_file (mk_offers H 0 xs))"
    "transfer_complete (w_manifest w3) tid" "map_of (ms_transfers (w_manifest w3)) tid \<noteq> None"
proof -
  let ?os = "mk_offers H 0 xs"
  have old: "\<forall>fid row. ((tid, fid), row) \<notin> set (ms_files (w_manifest w))"
    using no_rows_of_unknown(3) rd by (auto simp: receiver_ready_def)
  have files3: "ms_files (w_manifest w3) = ms_files (w_manifest w) @ map (\<lambda>f. ((tid, fo_file_id f), offer_row f)) ?os"
    using acc dl by (simp add: accepted_state_def all_delivered_def)
  show "mset (manifest_files (w_manifest w3) tid) = mset (map offer_file ?os)"
    by (rule manifest_files_new [OF file_rows_new [OF files3 old]])
  have inv3: "manifest_inv (w_manifest w3)" using dl by (simp add: all_delivered_def sendable_def)
  have row_ok: "verified_bytes (w_manifest w3) tid f = {0..<unat (i64_as_u64 (fw_size row))}"
    if row: "((tid, f), row) \<in> set (ms_files (w_manifest w3))" for f row
  proof -
    obtain i where i: "i < length xs" "f = fo_file_id (?os ! i)" "row = offer_row (?os ! i)"
      using row old unfolding files3 by (auto simp: set_mk_offers)
    have "length (snd (xs ! i)) < 2 ^ 64" using src(2) i(1) by (auto simp: sound_item_def dest!: nth_mem)
    then show ?thesis using dl i by (simp add: all_delivered_def nth_mk_offers unat_of_nat)
  qed
  have "((tid, fo_file_id (?os ! 0)), offer_row (?os ! 0)) \<in> set (ms_files (w_manifest w3))"
    unfolding files3 using src(1) by (auto simp: nth_mem)
  then show "transfer_complete (w_manifest w3) tid"
    unfolding transfer_complete_iff [OF inv3] using row_ok by blast
  show "map_of (ms_transfers (w_manifest w3)) tid \<noteq> None"
    using acc dl unfolding accepted_state_def all_delivered_def by (metis map_of_eq_None_iff set_map)
qed

lemma delivered_finishes:
  assumes rd: "receiver_ready rcv tid w" and acc: "accepted_state H rcv tid xs w w2" and dl: "all_delivered H rcv tid xs w2 w3"
    and src: "xs \<noteq> []" "\<forall>x \<in> set xs. sound_item x"
    and free: "finite (inbox_names (rv_inbox_dir rcv) (w_fs w))" "card (inbox_names (rv_inbox_dir rcv) (w_fs w)) + length xs < 9999"
  shows "\<exists>w'. finish_transfer H U now rcv tid w3 = (Inr (), w')"
proof -
  let ?in = "rv_inbox_dir rcv" and ?os = "mk_offers H 0 xs" and ?ms = "manifest_files (w_manifest w3) tid"
  note complete = delivered_complete [OF rd acc dl src]
  have tid: "cleaned tid \<noteq> []" and ib: "inbox_ok ?in" using rd by (auto simp: receiver_ready_def safe_name_def)
  have send: "sendable rcv tid w3" using dl by (simp add: all_delivered_def)
  have "mset (map mf_file_id ?ms) = mset (map fo_file_id ?os)"
    using arg_cong [OF complete(1), of "image_mset mf_file_id"] by (simp add: multiset.map_comp comp_def)
  then have ids: "distinct (map mf_file_id ?ms)" using mk_offers_distinct mset_eq_imp_distinct_iff by blast
  have good: "safe_name (mf_file_id f) \<and> good_name (mf_file_name f) \<and>
      (\<exists>b. w_fs w3 (part_path ?in tid (mf_file_id f)) = Some (File b) \<and> intact H f b)"
    if f: "f \<in> set ?ms" for f
  proof -
    obtain i where i: "i < length xs" "f = offer_file (?os ! i)"
      using f mset_eq_setD [OF complete(1)] by (auto simp: set_mk_offers)
    then have "good_name (last (fst (xs ! i)))" using src(2) by (auto simp: sound_item_def dest!: nth_mem)
    then show ?thesis
      using dl i file_id_safe by (simp add: all_delivered_def nth_mk_offers intact_def)
  qed
  have sub: "inbox_names ?in (w_fs w3) \<subseteq> insert ''.incoming'' (inbox_names ?in (w_fs w))"
    using accepted_inbox_names [of ?in tid "w_fs w"] acc dl by (auto simp: inbox_names_def accepted_state_def all_delivered_def)
  have fin: "finite (inbox_names ?in (w_fs w3))" using sub free(1) by (meson finite_insert finite_subset)
  have "length ?ms = length xs" using arg_cong [OF complete(1), of size] by simp
  moreover have "card (inbox_names ?in (w_fs w3)) \<le> Suc (card (inbox_names ?in (w_fs w)))"
    using card_mono [OF _ sub] free(1) card_insert_if [OF free(1), of "''.incoming''"] by (auto split: if_splits)
  ultimately have card: "card (inbox_names ?in (w_fs w3)) + length ?ms \<le> 9999" using free(2) by simp
  show ?thesis using finish_transfer_ok [OF tid ib send complete(2,3) ids _ fin card, of H U now] good by blast
qed

text \<open>What publication leaves: every file of \<open>xs\<close> at a name of its own that was free before.\<close>

definition published :: "NativeTransferReceiver \<Rightarrow> string \<Rightarrow> (path \<times> bytes) list \<Rightarrow> World \<Rightarrow> World \<Rightarrow> (nat \<Rightarrow> path) \<Rightarrow> bool" where
  "published rcv tid xs w w' target \<longleftrightarrow> get_state (w_manifest w') tid = Inr (Some Completed) \<and> inj_on target {..<length xs} \<and>
     (\<forall>i < length xs. (\<exists>n. target i = rv_inbox_dir rcv @ [n]) \<and> w_fs w (target i) = None \<and>
       w_fs w' (target i) = Some (File (snd (xs ! i))))"

lemma delivered_published:
  assumes rd: "receiver_ready rcv tid w" and acc: "accepted_state H rcv tid xs w w2" and dl: "all_delivered H rcv tid xs w2 w3"
    and src: "xs \<noteq> []" "\<forall>x \<in> set xs. sound_item x" and fin: "finish_transfer H U now rcv tid w3 = (Inr (), w')"
  shows "\<exists>target. published rcv tid xs w w' target"
proof -
  let ?in = "rv_inbox_dir rcv" and ?ms = "manifest_files (w_manifest w3) tid"
  note mfs = delivered_complete(1) [OF rd acc dl src]
  have parts: "w_fs w3 (part_path ?in tid (''file-'' @ show_nat i)) = Some (File (snd (xs ! i)))" if "i < length xs" for i
    using dl that by (simp add: all_delivered_def nth_mk_offers)
  have names: "w_fs w3 (?in @ [n]) = accepted_fs ?in tid (w_fs w) (?in @ [n])" for n
    using acc dl by (simp add: accepted_state_def all_delivered_def)
  have ib: "inbox_ok ?in" and wf: "fs_wf (w_fs w3)" and tid: "cleaned tid \<noteq> []"
    using rd dl by (auto simp: receiver_ready_def sendable_def safe_name_def all_delivered_def)
  have clean: "\<forall>f \<in> set ?ms. cleaned (mf_file_id f) \<noteq> []"
    using mset_eq_setD [OF mfs] mk_offers_safe by (fastforce simp: safe_name_def)
  obtain ts where st: "get_state (w_manifest w') tid = Inr (Some Completed)"
    and ts: "length ts = length ?ms" "distinct ts"
      "\<forall>i < length ts. \<exists>n b. ts ! i = ?in @ [n] \<and> w_fs w3 (ts ! i) = None \<and>
         w_fs w3 (part_path ?in tid (mf_file_id (?ms ! i))) = Some (File b) \<and> w_fs w' (ts ! i) = Some (File b)"
    using finish_transfer_Inr [OF fin wf ib tid clean] by blast
  have "\<exists>j < length ?ms. ?ms ! j = offer_file (mk_offers H 0 xs ! i)" if "i < length xs" for i
    using mset_eq_setD [OF mfs] that by (metis in_set_conv_nth length_map length_mk_offers nth_map nth_mem)
  then obtain j where j: "\<forall>i < length xs. j i < length ?ms \<and> ?ms ! j i = offer_file (mk_offers H 0 xs ! i)" by metis
  have jid: "mf_file_id (?ms ! j i) = ''file-'' @ show_nat i" if "i < length xs" for i
    using j that by (simp add: nth_mk_offers)
  have "inj_on (\<lambda>i. ts ! j i) {..<length xs}"
  proof (rule inj_onI)
    fix a b assume ab: "a \<in> {..<length xs}" "b \<in> {..<length xs}" "ts ! j a = ts ! j b"
    then have "j a = j b" using ts(1,2) j by (simp add: nth_eq_iff_index_eq)
    then have "''file-'' @ show_nat a = ''file-'' @ show_nat b" using jid ab(1,2) by (metis lessThan_iff)
    then show "a = b" by simp
  qed
  moreover have "(\<exists>n. ts ! j i = ?in @ [n]) \<and> w_fs w (ts ! j i) = None \<and> w_fs w' (ts ! j i) = Some (File (snd (xs ! i)))"
    if i: "i < length xs" for i
  proof -
    obtain n b where t: "ts ! j i = ?in @ [n]" "w_fs w3 (ts ! j i) = None"
      "w_fs w3 (part_path ?in tid (mf_file_id (?ms ! j i))) = Some (File b)" "w_fs w' (ts ! j i) = Some (File b)"
      using ts(1,3) j i by metis
    then have "b = snd (xs ! i)" using parts [OF i] jid [OF i] by simp
    moreover have "w_fs w (ts ! j i) = None" using t(1,2) names by (simp add: accepted_fs_def split: if_splits)
    ultimately show ?thesis using t by blast
  qed
  ultimately show ?thesis using st by (auto simp: published_def)
qed

text \<open>The stages of \<open>send_files_to_receiver\<close> when everything is in place.\<close>

lemma delivery:
  assumes cs: "chunk_size \<noteq> 0" "rv_chunk_size rcv \<noteq> 0" and src: "xs \<noteq> []" "\<forall>x \<in> set xs. good_source (rv_inbox_dir rcv) (w_fs w) x"
    and tr: "\<not> rv_blocked rcv" "rv_trusted_peer_fingerprint rcv = Some (np_fingerprint peer)" "\<not> blank (np_fingerprint peer)"
    and rd0: "receiver_ready rcv (U (w_uuid w)) w"
    and free: "finite (inbox_names (rv_inbox_dir rcv) (w_fs w))" "card (inbox_names (rv_inbox_dir rcv) (w_fs w)) + length xs < 9999"
  obtains w2 w3 w' where "send_files_to_receiver H U now chunk_size rcv peer (map fst xs) w = (Inr (U (w_uuid w)), w')"
    "receiver_ready rcv (U (w_uuid w)) (w\<lparr>w_uuid := Suc (w_uuid w)\<rparr>)" "\<forall>x \<in> set xs. sound_item x"
    "accepted_state H rcv (U (w_uuid w)) xs (w\<lparr>w_uuid := Suc (w_uuid w)\<rparr>) w2" "all_delivered H rcv (U (w_uuid w)) xs w2 w3"
    "finish_transfer H U now rcv (U (w_uuid w)) w3 = (Inr (), w')"
proof -
  let ?tid = "U (w_uuid w)" and ?os = "mk_offers H 0 xs" and ?w1 = "w\<lparr>w_uuid := Suc (w_uuid w)\<rparr>"
  let ?items = "zip (zip ?os (map fst xs)) (map snd xs)"
  have rd: "receiver_ready rcv ?tid ?w1" using rd0 by (simp add: receiver_ready_def)
  have sound: "\<forall>x \<in> set xs. sound_item x" using src(2) good_source_sound by blast
  have prep: "prepare_request H U (map fst xs) w = (Inr \<lparr>rt_transfer_id = ?tid, rt_files = ?os\<rparr>, ?w1)"
    using prepare_offers_ok [OF _ src(2)] rd0 by (simp add: prepare_request_def new_v4_def receiver_ready_def)
  obtain w2 where acc: "accept_transfer U now rcv peer \<lparr>rt_transfer_id = ?tid, rt_files = ?os\<rparr> ?w1 =
      (Inr \<lparr>at_transfer_id = ?tid, at_chunk_size = rv_chunk_size rcv\<rparr>, w2)" "accepted_state H rcv ?tid xs ?w1 w2"
    using accept_transfer_ok [OF rd src(1) sound tr] .
  have avail: "\<forall>x \<in> set ?items. source_file (rv_inbox_dir rcv) (w_fs w2) (snd (fst x)) (snd x)"
    using accepted_source [OF rd] src(2) acc(2) by (auto simp: set_zip good_source_def accepted_state_def)
  have items: "map (\<lambda>x. fst (fst x)) ?items = ?os" "map snd ?items = map snd xs" "map fst ?items = zip ?os (map fst xs)"
    by (simp_all flip: map_map [of fst fst, unfolded comp_def])
  obtain w3 where w3: "sr_iter (send_source H U now rcv ?tid) ?items w2 = (Inr (), w3)" "all_delivered H rcv ?tid xs w2 w3"
    using in_process.delivers_all [OF cs(2) rd acc(2) items(1,2) avail] by blast
  have send: "send_ranges H U now rcv ?tid (rv_chunk_size rcv) None (zip ?os (map fst xs)) w2 = (Inr (), w3)"
    using w3(1) unfolding send_ranges_iter [symmetric] items(3) .
  have free1: "finite (inbox_names (rv_inbox_dir rcv) (w_fs ?w1))" "card (inbox_names (rv_inbox_dir rcv) (w_fs ?w1)) + length xs < 9999"
    using free by simp_all
  obtain w' where fin: "finish_transfer H U now rcv ?tid w3 = (Inr (), w')"
    using delivered_finishes [OF rd acc(2) w3(2) src(1) sound free1] by blast
  have "send_files_to_receiver H U now chunk_size rcv peer (map fst xs) w = (Inr ?tid, w')"
    using cs(1) src(1) prep acc(1) send fin by (simp add: send_files_to_receiver_def)
  then show ?thesis using that rd sound acc(2) w3(2) fin by blast
qed

text \<open>
  C7. A transfer to a receiver that trusts the peer is delivered. If the sources are readable, nonempty
  regular files outside the staging area with acceptable names, the transfer id is fresh, the
  staging path is free and the inbox has room for the names, then \<open>send_files_to_receiver\<close> returns
  the transfer id, the transfer is recorded as completed, and every source has its own new file in
  the inbox directory that holds exactly its bytes. Nothing is assumed about the digest function.
\<close>
theorem send_files_delivers:
  assumes "chunk_size \<noteq> 0" "rv_chunk_size rcv \<noteq> 0"
    "xs \<noteq> []" "\<forall>x \<in> set xs. good_source (rv_inbox_dir rcv) (w_fs w) x"
    "\<not> rv_blocked rcv" "rv_trusted_peer_fingerprint rcv = Some (np_fingerprint peer)" "\<not> blank (np_fingerprint peer)"
    "receiver_ready rcv (U (w_uuid w)) w"
    "finite (inbox_names (rv_inbox_dir rcv) (w_fs w))" "card (inbox_names (rv_inbox_dir rcv) (w_fs w)) + length xs < 9999"
  shows "\<exists>w' target.
    send_files_to_receiver H U now chunk_size rcv peer (map fst xs) w = (Inr (U (w_uuid w)), w') \<and>
    get_state (w_manifest w') (U (w_uuid w)) = Inr (Some Completed) \<and>
    inj_on target {..<length xs} \<and>
    (\<forall>i < length xs. (\<exists>n. target i = rv_inbox_dir rcv @ [n]) \<and> w_fs w (target i) = None \<and>
       w_fs w' (target i) = Some (File (snd (xs ! i))))"
proof -
  obtain w2 w3 w' where w: "send_files_to_receiver H U now chunk_size rcv peer (map fst xs) w = (Inr (U (w_uuid w)), w')"
    "receiver_ready rcv (U (w_uuid w)) (w\<lparr>w_uuid := Suc (w_uuid w)\<rparr>)" "\<forall>x \<in> set xs. sound_item x"
    "accepted_state H rcv (U (w_uuid w)) xs (w\<lparr>w_uuid := Suc (w_uuid w)\<rparr>) w2" "all_delivered H rcv (U (w_uuid w)) xs w2 w3"
    "finish_transfer H U now rcv (U (w_uuid w)) w3 = (Inr (), w')"
    using delivery [of chunk_size rcv xs w peer U, OF assms] .
  then show ?thesis
    using delivered_published [OF w(2,4,5) assms(3) w(3,6)] by (auto simp: published_def)
qed

definition demo_fs :: fs where
  "demo_fs = (\<lambda>p. if p = [] \<or> p = [''inbox''] then Some Dir else if p = [''a.txt''] then Some (File [1, 2, 3]) else None)"

definition demo_world :: World where
  "demo_world = \<lparr>w_manifest = open_in_memory, w_fs = demo_fs, w_uuid = 0\<rparr>"

definition demo_peer :: NativePeerInfo where
  "demo_peer = \<lparr>np_alias = ''a'', np_fingerprint = ''fp'', np_pubkey = [], np_quic_port = 1,
     np_native_certificate_fingerprint = None, np_extensions = []\<rparr>"

lemma demo_ready: "receiver_ready (receiver_trusted [''inbox''] ''fp'') ''t'' demo_world"
proof -
  have "fs_wf demo_fs" by (auto simp: fs_wf_def demo_fs_def append_eq_Cons_conv)
  moreover have "prefix q ([''inbox''] @ [''.incoming'', ''native'']) \<longrightarrow> demo_fs q \<noteq> Some (File b)" for q b
    by (auto simp: demo_fs_def)
  ultimately show ?thesis
    by (auto simp: receiver_ready_def receiver_trusted_def demo_world_def inbox_ok_def normal_name_def has_nul_def
      manifest_inv_def open_in_memory_def safe_name_def safe_char_def is_ascii_alphanumeric_def less_eq_char_def demo_fs_def)
qed

lemma demo_source: "good_source [''inbox''] demo_fs ([''a.txt''], [1, 2, 3])"
  by (simp add: good_source_def source_file_def good_name_def normal_name_def has_nul_def demo_fs_def staging_def
    utf8_valid_ascii is_ascii_def safe_char_not_blank safe_char_def is_ascii_alphanumeric_def less_eq_char_def)

lemma demo_names: "inbox_names [''inbox''] demo_fs = {}"
  by (simp add: inbox_names_def demo_fs_def)

theorem send_files_delivers_witness:
  "\<exists>w' target.
    send_files_to_receiver (\<lambda>_. ''h'') (\<lambda>_. ''t'') 0 2 (receiver_trusted [''inbox''] ''fp'') demo_peer
      (map fst [([''a.txt''], [1, 2, 3])]) demo_world = (Inr ''t'', w') \<and>
    get_state (w_manifest w') ''t'' = Inr (Some Completed) \<and>
    inj_on target {..<length [([''a.txt''], [1 :: u8, 2, 3])]} \<and>
    (\<forall>i < length [([''a.txt''], [1, 2, 3])]. (\<exists>n. target i = [''inbox''] @ [n]) \<and> w_fs demo_world (target i) = None \<and>
       w_fs w' (target i) = Some (File (snd ([([''a.txt''], [1, 2, 3])] ! i))))"
proof -
  have "\<not> blank (np_fingerprint demo_peer)"
    by (simp add: demo_peer_def safe_char_not_blank safe_char_def is_ascii_alphanumeric_def less_eq_char_def)
  then show ?thesis
    using send_files_delivers [of 2 "receiver_trusted [''inbox''] ''fp''" "[([''a.txt''], [1, 2, 3])]" demo_world demo_peer
        "\<lambda>_. ''t''" "\<lambda>_. ''h''" 0] demo_ready demo_source demo_names
    by (simp add: receiver_trusted_def DEFAULT_CHUNK_SIZE_def demo_world_def demo_peer_def)
qed

end
