(* ===== verification/Framing.thy ===== *)
theory Framing
  imports Dto
begin

text \<open>
  Length-delimited control frames, \<open>protocol-native-v1/src/framing.rs\<close>. A frame is a 4-byte
  big-endian length, one type byte and the JSON payload. \<open>serde_json\<close> is a parameter: the
  record \<open>ControlJson\<close> has the encoder and the decoder of each message struct, and
  \<open>json_ok\<close> is what the framing relies on for a message, that its encoding parses back.
\<close>

section \<open>Definitions\<close>

definition MAX_CONTROL_FRAME_BYTES :: nat where "MAX_CONTROL_FRAME_BYTES = 1024 * 1024"

definition TYPE_HELLO :: u8 where "TYPE_HELLO = 1"
definition TYPE_HELLO_ACK :: u8 where "TYPE_HELLO_ACK = 2"
definition TYPE_REQUEST_TRANSFER :: u8 where "TYPE_REQUEST_TRANSFER = 3"
definition TYPE_ACCEPT :: u8 where "TYPE_ACCEPT = 4"
definition TYPE_CHUNK_ACK :: u8 where "TYPE_CHUNK_ACK = 5"
definition TYPE_CANCEL :: u8 where "TYPE_CANCEL = 6"
definition TYPE_DONE :: u8 where "TYPE_DONE = 7"
definition TYPE_RESUME_REQUEST :: u8 where "TYPE_RESUME_REQUEST = 8"

lemmas type_codes = TYPE_HELLO_def TYPE_HELLO_ACK_def TYPE_REQUEST_TRANSFER_def TYPE_ACCEPT_def
  TYPE_CHUNK_ACK_def TYPE_CANCEL_def TYPE_DONE_def TYPE_RESUME_REQUEST_def

datatype ControlMessage =
    MHello Hello
  | MHelloAck HelloAck
  | MRequestTransfer RequestTransfer
  | MAccept AcceptTransfer
  | MChunkAck ChunkAck
  | MCancel CancelTransfer
  | MDone DoneTransfer
  | MResumeRequest ResumeRequest

record ControlJson =
  hello_to_vec :: "Hello \<Rightarrow> bytes native_result"
  hello_from_slice :: "bytes \<Rightarrow> Hello native_result"
  hello_ack_to_vec :: "HelloAck \<Rightarrow> bytes native_result"
  hello_ack_from_slice :: "bytes \<Rightarrow> HelloAck native_result"
  request_to_vec :: "RequestTransfer \<Rightarrow> bytes native_result"
  request_from_slice :: "bytes \<Rightarrow> RequestTransfer native_result"
  accept_to_vec :: "AcceptTransfer \<Rightarrow> bytes native_result"
  accept_from_slice :: "bytes \<Rightarrow> AcceptTransfer native_result"
  chunk_ack_to_vec :: "ChunkAck \<Rightarrow> bytes native_result"
  chunk_ack_from_slice :: "bytes \<Rightarrow> ChunkAck native_result"
  cancel_to_vec :: "CancelTransfer \<Rightarrow> bytes native_result"
  cancel_from_slice :: "bytes \<Rightarrow> CancelTransfer native_result"
  done_to_vec :: "DoneTransfer \<Rightarrow> bytes native_result"
  done_from_slice :: "bytes \<Rightarrow> DoneTransfer native_result"
  resume_to_vec :: "ResumeRequest \<Rightarrow> bytes native_result"
  resume_from_slice :: "bytes \<Rightarrow> ResumeRequest native_result"

fun message_type :: "ControlMessage \<Rightarrow> u8" where
  "message_type (MHello _) = TYPE_HELLO"
| "message_type (MHelloAck _) = TYPE_HELLO_ACK"
| "message_type (MRequestTransfer _) = TYPE_REQUEST_TRANSFER"
| "message_type (MAccept _) = TYPE_ACCEPT"
| "message_type (MChunkAck _) = TYPE_CHUNK_ACK"
| "message_type (MCancel _) = TYPE_CANCEL"
| "message_type (MDone _) = TYPE_DONE"
| "message_type (MResumeRequest _) = TYPE_RESUME_REQUEST"

fun message_payload :: "ControlJson \<Rightarrow> ControlMessage \<Rightarrow> bytes native_result" where
  "message_payload J (MHello m) = hello_to_vec J m"
| "message_payload J (MHelloAck m) = hello_ack_to_vec J m"
| "message_payload J (MRequestTransfer m) = request_to_vec J m"
| "message_payload J (MAccept m) = accept_to_vec J m"
| "message_payload J (MChunkAck m) = chunk_ack_to_vec J m"
| "message_payload J (MCancel m) = cancel_to_vec J m"
| "message_payload J (MDone m) = done_to_vec J m"
| "message_payload J (MResumeRequest m) = resume_to_vec J m"

text \<open>The bytes written to the stream; a failing write writes nothing before the checks.\<close>

definition write_control :: "ControlJson \<Rightarrow> ControlMessage \<Rightarrow> bytes native_result" where
  "write_control J message =
     res_bind (message_payload J message) (\<lambda>payload.
       let frame = message_type message # payload in
       if length frame > MAX_CONTROL_FRAME_BYTES then Inl (Protocol ''control frame too large'')
       else Inr (u32_to_be (of_nat (length frame)) @ frame))"

definition decode_frame :: "ControlJson \<Rightarrow> bytes \<Rightarrow> ControlMessage native_result" where
  "decode_frame J frame =
     (case frame of
        [] \<Rightarrow> Inl (Protocol ''empty control frame'')
      | t # payload \<Rightarrow>
          if t = TYPE_HELLO then res_map MHello (hello_from_slice J payload)
          else if t = TYPE_HELLO_ACK then res_map MHelloAck (hello_ack_from_slice J payload)
          else if t = TYPE_REQUEST_TRANSFER then res_map MRequestTransfer (request_from_slice J payload)
          else if t = TYPE_ACCEPT then res_map MAccept (accept_from_slice J payload)
          else if t = TYPE_CHUNK_ACK then res_map MChunkAck (chunk_ack_from_slice J payload)
          else if t = TYPE_CANCEL then res_map MCancel (cancel_from_slice J payload)
          else if t = TYPE_DONE then res_map MDone (done_from_slice J payload)
          else if t = TYPE_RESUME_REQUEST then res_map MResumeRequest (resume_from_slice J payload)
          else Inl (Protocol (''unknown control message type '' @ show_nat (unat t))))"

definition read_control :: "ControlJson \<Rightarrow> bytes \<Rightarrow> (ControlMessage \<times> bytes) native_result" where
  "read_control J s =
     res_bind (read_exact Io 4 s) (\<lambda>(len, s).
       let len = unat (u32_from_be len) in
       if len = 0 then Inl (Protocol ''empty control frame'')
       else if len > MAX_CONTROL_FRAME_BYTES then Inl (Protocol ''control frame too large'')
       else res_bind (read_exact Io len s) (\<lambda>(frame, s).
         res_map (\<lambda>m. (m, s)) (decode_frame J frame)))"

section \<open>Round trip\<close>

fun json_ok :: "ControlJson \<Rightarrow> ControlMessage \<Rightarrow> bool" where
  "json_ok J (MHello m) = (\<forall>p. hello_to_vec J m = Inr p \<longrightarrow> hello_from_slice J p = Inr m)"
| "json_ok J (MHelloAck m) = (\<forall>p. hello_ack_to_vec J m = Inr p \<longrightarrow> hello_ack_from_slice J p = Inr m)"
| "json_ok J (MRequestTransfer m) = (\<forall>p. request_to_vec J m = Inr p \<longrightarrow> request_from_slice J p = Inr m)"
| "json_ok J (MAccept m) = (\<forall>p. accept_to_vec J m = Inr p \<longrightarrow> accept_from_slice J p = Inr m)"
| "json_ok J (MChunkAck m) = (\<forall>p. chunk_ack_to_vec J m = Inr p \<longrightarrow> chunk_ack_from_slice J p = Inr m)"
| "json_ok J (MCancel m) = (\<forall>p. cancel_to_vec J m = Inr p \<longrightarrow> cancel_from_slice J p = Inr m)"
| "json_ok J (MDone m) = (\<forall>p. done_to_vec J m = Inr p \<longrightarrow> done_from_slice J p = Inr m)"
| "json_ok J (MResumeRequest m) = (\<forall>p. resume_to_vec J m = Inr p \<longrightarrow> resume_from_slice J p = Inr m)"

lemma decode_message:
  "json_ok J m \<Longrightarrow> message_payload J m = Inr p \<Longrightarrow> decode_frame J (message_type m # p) = Inr m"
  by (cases m) (auto simp: decode_frame_def type_codes)

lemma write_control_Inr_iff:
  "write_control J m = Inr bs \<longleftrightarrow>
     (\<exists>p. message_payload J m = Inr p \<and> Suc (length p) \<le> MAX_CONTROL_FRAME_BYTES \<and>
          bs = u32_to_be (of_nat (Suc (length p))) @ message_type m # p)"
  by (cases "message_payload J m") (auto simp: write_control_def Let_def)

lemma frame_length_fits:
  "n \<le> MAX_CONTROL_FRAME_BYTES \<Longrightarrow> unat (of_nat n :: u32) = n"
  by (simp add: unat_of_nat MAX_CONTROL_FRAME_BYTES_def)

lemma read_write_control:
  assumes "json_ok J m" "write_control J m = Inr bs"
  shows "read_control J (bs @ rest) = Inr (m, rest)"
proof -
  obtain p where p: "message_payload J m = Inr p" "Suc (length p) \<le> MAX_CONTROL_FRAME_BYTES"
    and bs: "bs = u32_to_be (of_nat (Suc (length p))) @ message_type m # p"
    using assms(2) by (auto simp: write_control_Inr_iff)
  have "read_exact Io (Suc (length p)) ((message_type m # p) @ rest) = Inr (message_type m # p, rest)"
    by (rule read_exact_append) simp
  moreover have "unat (u32_from_be (u32_to_be (of_nat (Suc (length p))))) = Suc (length p)"
    using frame_length_fits [OF p(2)] by simp
  ultimately show ?thesis
    using p decode_message [OF assms(1) p(1)] unfolding bs read_control_def
    by (simp add: Let_def del: of_nat_Suc)
qed

interpretation control: frame_codec "write_control J" "read_control J" "json_ok J" for J
proof
  show "\<And>m bs rest. json_ok J m \<Longrightarrow> write_control J m = Inr bs \<Longrightarrow> read_control J (bs @ rest) = Inr (m, rest)"
    by (rule read_write_control)
  show "\<And>m bs. write_control J m = Inr bs \<Longrightarrow> bs \<noteq> []"
    by (auto simp: write_control_Inr_iff)
qed

end
