(* ===== verification/Native_Properties.thy ===== *)
theory Native_Properties
  imports Transfer_End Chunk_Frame Framing
begin

text \<open>Properties of the native receiver, its manifest and its wire formats, stated over the component
  theories: confinement to the inbox, publication of intact files only, exactness of the manifest
  queries, agreement of the two merge routines, and the round trips of chunk and control frames.\<close>

section \<open>Receiver\<close>

text \<open>C8. The receiver writes only under its inbox and never destroys a file the user has. Whatever
  transfer id, file id, offset, bytes and file name the peer chooses, after accepting a transfer, after
  receiving a chunk and after finishing (successfully or not), every changed path lies under the inbox
  directory or is a directory leading to it, and every file outside the staging area \<open>.incoming\<close> still
  has its contents.\<close>

theorem receiver_confined_to_inbox:
  assumes "uuid_supply U" "inbox_ok (rv_inbox_dir rcv)" "fs_wf (w_fs w)"
    and "w' \<in> {snd (accept_transfer U now rcv peer request w),
               snd (receive_chunk_with_hash H U now rcv tid fid off bs h w),
               snd (finish_transfer H U now rcv tid w)}"
  shows "fs_wf (w_fs w')
    \<and> (\<forall>q. w_fs w' q \<noteq> w_fs w q \<longrightarrow> prefix (rv_inbox_dir rcv) q \<or> prefix q (rv_inbox_dir rcv))
    \<and> (\<forall>q b. w_fs w q = Some (File b) \<and> \<not> prefix (rv_inbox_dir rcv @ [''.incoming'']) q \<longrightarrow> w_fs w' q = Some (File b))"
proof -
  have "confined (rv_inbox_dir rcv) w w'"
    using assms(4) accept_transfer_confined [OF assms(1,2)] receive_chunk_confined [OF assms(1,2)]
      finish_transfer_confined [OF assms(1,2)] by auto
  then show ?thesis using assms(3) by (simp add: confined_def staging_def)
qed

lemma demo_fs_wf: "fs_wf demo_fs"
  by (auto simp: fs_wf_def demo_fs_def append_eq_Cons_conv)

lemma demo_uuid: "uuid_supply (\<lambda>_. ''u'')"
  by (simp add: uuid_supply_def safe_name_def safe_char_def is_ascii_alphanumeric_def less_eq_char_def)

lemma demo_inbox: "inbox_ok [''inbox'']"
  by (simp add: inbox_ok_def normal_name_def has_nul_def)

definition demo_receiver :: NativeTransferReceiver where
  "demo_receiver = receiver_trusted [''inbox''] ''fp''"

lemma demo_receiver_inbox: "rv_inbox_dir demo_receiver = [''inbox'']"
  by (simp add: demo_receiver_def receiver_trusted_def)

theorem receiver_confined_to_inbox_witness:
  "w_fs (snd (receive_chunk_with_hash (\<lambda>_. ''h'') (\<lambda>_. ''u'') 0 demo_receiver ''../../t'' ''../f'' 0 [9] ''h'' demo_world))
     [''a.txt''] = Some (File [1, 2, 3])"
proof -
  let ?w = "snd (receive_chunk_with_hash (\<lambda>_. ''h'') (\<lambda>_. ''u'') 0 demo_receiver ''../../t'' ''../f'' 0 [9] ''h'' demo_world)"
  have "?w \<in> {snd (accept_transfer (\<lambda>_. ''u'') 0 demo_receiver demo_peer undefined demo_world), ?w,
      snd (finish_transfer (\<lambda>_. ''h'') (\<lambda>_. ''u'') 0 demo_receiver ''../../t'' demo_world)}" by simp
  moreover have "inbox_ok (rv_inbox_dir demo_receiver)" "fs_wf (w_fs demo_world)"
    using demo_inbox demo_fs_wf by (simp_all add: demo_receiver_inbox demo_world_def)
  ultimately have "\<forall>q b. w_fs demo_world q = Some (File b) \<and> \<not> prefix (rv_inbox_dir demo_receiver @ [''.incoming'']) q
      \<longrightarrow> w_fs ?w q = Some (File b)"
    using receiver_confined_to_inbox [OF demo_uuid] by blast
  moreover have "w_fs demo_world [''a.txt''] = Some (File [1, 2, 3])" by (simp add: demo_world_def demo_fs_def)
  ultimately show ?thesis by (simp add: demo_receiver_inbox)
qed

text \<open>C9. A transfer that finishes has published exactly the manifest's files, intact, provided its
  identifier and those of its files keep at least one character when they are made into a path: the
  manifest had every byte verified, and all that has changed in it is that the transfer is completed. Every file of
  the manifest is now at a path of the inbox that was free before, distinct for distinct files, under its own
  name or that name with a number, with the staged bytes, whose number is the declared size and whose hash is
  the declared one when there is one. The staged files are gone, and nothing else on the disk has changed, except
  that the directories that lead to the inbox exist.\<close>

theorem finish_transfer_publishes_intact:
  assumes "finish_transfer H U now rcv tid w = (Inr (), w')" "fs_wf (w_fs w)" "inbox_ok (rv_inbox_dir rcv)"
    "cleaned tid \<noteq> []" "\<forall>f \<in> set (manifest_files (w_manifest w) tid). cleaned (mf_file_id f) \<noteq> []"
  shows "transfer_complete (w_manifest w) tid \<and> get_state (w_manifest w') tid = Inr (Some Completed) \<and>
    set_state now tid Completed (w_manifest w) = Inr (w_manifest w') \<and>
    (\<exists>targets. length targets = length (manifest_files (w_manifest w) tid) \<and> distinct targets \<and>
    (\<forall>i < length targets. \<exists>n b. targets ! i = rv_inbox_dir rcv @ [n] \<and> w_fs w (targets ! i) = None \<and>
       w_fs w (part_path (rv_inbox_dir rcv) tid (mf_file_id (manifest_files (w_manifest w) tid ! i))) = Some (File b) \<and>
       w_fs w' (targets ! i) = Some (File b) \<and>
       of_nat (length b) = mf_size (manifest_files (w_manifest w) tid ! i) \<and>
       (\<forall>h. mf_blake3 (manifest_files (w_manifest w) tid ! i) = Some h \<longrightarrow> H b = h) \<and>
       target_name (mf_file_name (manifest_files (w_manifest w) tid ! i)) n) \<and>
    (\<forall>f \<in> set (manifest_files (w_manifest w) tid). w_fs w' (part_path (rv_inbox_dir rcv) tid (mf_file_id f)) = None) \<and>
    (\<forall>q. q \<notin> set targets \<and> q \<notin> part_path (rv_inbox_dir rcv) tid ` mf_file_id ` set (manifest_files (w_manifest w) tid) \<longrightarrow>
       w_fs w' q = (if prefix q (rv_inbox_dir rcv) then Some Dir else w_fs w q)))"
  using finish_transfer_Inr [OF assms] unfolding intact_def conj_assoc .

theorem finish_transfer_publishes_intact_witness:
  "\<exists>w3 w'. finish_transfer (\<lambda>_. ''h'') (\<lambda>_. ''t'') 0 demo_receiver ''t'' w3 = (Inr (), w')
     \<and> get_state (w_manifest w') ''t'' = Inr (Some Completed)"
proof -
  have fp: "\<not> blank (np_fingerprint demo_peer)"
    by (simp add: demo_peer_def safe_char_not_blank safe_char_def is_ascii_alphanumeric_def less_eq_char_def)
  have pre: "rv_chunk_size demo_receiver \<noteq> 0" "\<not> rv_blocked demo_receiver"
    "rv_trusted_peer_fingerprint demo_receiver = Some (np_fingerprint demo_peer)" "receiver_ready demo_receiver ''t'' demo_world"
    using demo_ready by (simp_all add: demo_receiver_def receiver_trusted_def DEFAULT_CHUNK_SIZE_def demo_peer_def)
  have src: "\<forall>x \<in> set [([''a.txt''], [1, 2, 3])]. good_source (rv_inbox_dir demo_receiver) (w_fs demo_world) x"
    using demo_source by (simp add: demo_receiver_inbox demo_world_def)
  have free: "finite (inbox_names (rv_inbox_dir demo_receiver) (w_fs demo_world))"
    "card (inbox_names (rv_inbox_dir demo_receiver) (w_fs demo_world)) + length [([''a.txt''], [1 :: u8, 2, 3])] < 9999"
    using demo_names by (simp_all add: demo_receiver_inbox demo_world_def)
  obtain w2 w3 w' where d: "receiver_ready demo_receiver ''t'' (demo_world\<lparr>w_uuid := 1\<rparr>)"
    "\<forall>x \<in> set [([''a.txt''], [1, 2, 3])]. sound_item x"
    "accepted_state (\<lambda>_. ''h'') demo_receiver ''t'' [([''a.txt''], [1, 2, 3])] (demo_world\<lparr>w_uuid := 1\<rparr>) w2"
    "all_delivered (\<lambda>_. ''h'') demo_receiver ''t'' [([''a.txt''], [1, 2, 3])] w2 w3"
    and w3: "finish_transfer (\<lambda>_. ''h'') (\<lambda>_. ''t'') 0 demo_receiver ''t'' w3 = (Inr (), w')"
    by (rule delivery [of 2, OF _ pre(1) _ src pre(2,3) fp pre(4) free, of "\<lambda>_. ''h''" 0]) (simp_all add: demo_world_def)
  have files: "mset (manifest_files (w_manifest w3) ''t'') = mset (map offer_file (mk_offers (\<lambda>_. ''h'') 0 [([''a.txt''], [1, 2, 3])]))"
    using delivered_complete(1) [OF d(1,3,4) _ d(2)] by simp
  have "inbox_ok (rv_inbox_dir demo_receiver)" using demo_inbox by (simp add: demo_receiver_inbox)
  moreover have "fs_wf (w_fs w3)" using d(4) by (simp add: all_delivered_def sendable_def)
  moreover have "cleaned ''t'' \<noteq> []" by code_simp
  moreover have "\<forall>f \<in> set (manifest_files (w_manifest w3) ''t''). cleaned (mf_file_id f) \<noteq> []"
    unfolding mset_eq_setD [OF files] by code_simp
  ultimately show ?thesis using finish_transfer_publishes_intact [OF w3] w3 by blast
qed

section \<open>Manifest\<close>

text \<open>C17. The manifest's resume query is exact. In every store reachable by its operations, for every
  known file and chunk size, \<open>missing_ranges\<close> succeeds; what it returns are the chunks of the file's
  plan that hold an unverified byte, in order; together with the verified bytes they cover exactly the
  file; and it returns nothing exactly when every byte is verified.\<close>

theorem missing_ranges_exact:
  assumes "manifest_reachable st" "map_of (ms_files st) (tid, fid) = Some fr" "chunk_size \<noteq> 0"
  shows "\<exists>rs. missing_ranges st tid fid chunk_size = Inr rs
    \<and> rs = filter (\<lambda>r. \<not> iv_set (resume_iv r) \<subseteq> verified_bytes st tid fid)
             (map of_chunk (plan_chunks_loop (i64_as_u64 (fw_size fr)) chunk_size 0))
    \<and> verified_bytes st tid fid \<union> covered (map resume_iv rs) = {0..<unat (i64_as_u64 (fw_size fr))}
    \<and> (rs = [] \<longleftrightarrow> verified_bytes st tid fid = {0..<unat (i64_as_u64 (fw_size fr))})"
proof -
  let ?n = "i64_as_u64 (fw_size fr)" and ?vs = "verified_ranges_locked st tid fid"
  note inv = manifest_reachable_inv [OF assms(1)]
  note v = verified_ranges_locked_props [OF chunk_rows_in_file [OF inv assms(2)]]
  have m: "missing_ranges st tid fid chunk_size = Inr (missing_ranges_for ?n chunk_size ?vs)"
    using assms(2,3) by (simp add: missing_ranges_def file_size_locked_def)
  show ?thesis
    using m missing_ranges_eq [OF inv assms(2,3)] missing_covers [OF v(1) assms(3)] missing_disjoint_iff [OF v(1) assms(3)] v(2)
    by simp
qed

text \<open>C18. A transfer can be marked completed only when it is: in every reachable store, setting the
  state to completed succeeds exactly when the transfer exists, has files, and every byte of every file
  is verified; the store then reports it completed. Every other state can be set for every known
  transfer.\<close>

theorem completed_only_when_verified:
  assumes "manifest_reachable st"
  shows "(is_ok (set_state now tid s st) \<longleftrightarrow> map_of (ms_transfers st) tid \<noteq> None \<and>
      (s = Completed \<longrightarrow> (\<exists>f row. ((tid, f), row) \<in> set (ms_files st)) \<and>
        (\<forall>f row. ((tid, f), row) \<in> set (ms_files st) \<longrightarrow> verified_bytes st tid f = {0..<unat (i64_as_u64 (fw_size row))})))
    \<and> (\<forall>st'. set_state now tid s st = Inr st' \<longrightarrow> get_state st' tid = Inr (Some s))"
proof (rule conjI)
  show "is_ok (set_state now tid s st) \<longleftrightarrow> map_of (ms_transfers st) tid \<noteq> None \<and>
      (s = Completed \<longrightarrow> (\<exists>f row. ((tid, f), row) \<in> set (ms_files st)) \<and>
        (\<forall>f row. ((tid, f), row) \<in> set (ms_files st) \<longrightarrow> verified_bytes st tid f = {0..<unat (i64_as_u64 (fw_size row))}))"
    unfolding transfer_complete_iff [OF manifest_reachable_inv [OF assms], symmetric] by (simp add: set_state_def)
qed (blast intro: set_state_get)

definition demo_offer :: FileOffer where
  "demo_offer = \<lparr>fo_file_id = ''f'', fo_file_name = ''a.txt'', fo_size = 5, fo_blake3 = None\<rparr>"

definition demo_manifest :: ManifestStore where
  "demo_manifest = \<lparr>ms_transfers = [(''t'', \<lparr>tw_peer_fingerprint = ''p'', tw_direction = direction_as_str Receive,
       tw_state = state_as_str Pending, tw_created_at = 1, tw_updated_at = 1\<rparr>)],
     ms_files = [((''t'', ''f''), offer_row demo_offer)], ms_chunks = []\<rparr>"

lemma demo_manifest_reachable: "manifest_reachable demo_manifest"
proof -
  have "create_transfer 1 ''t'' ''p'' Receive [demo_offer] open_in_memory = Inr demo_manifest" by code_simp
  then show ?thesis by (blast intro: reach_init reach_step step_create)
qed

theorem missing_ranges_exact_witness:
  "\<exists>rs. missing_ranges demo_manifest ''t'' ''f'' 2 = Inr rs \<and> covered (map resume_iv rs) = {0..<5}"
proof -
  have "map_of (ms_files demo_manifest) (''t'', ''f'') = Some (offer_row demo_offer)" by (simp add: demo_manifest_def)
  from missing_ranges_exact [OF demo_manifest_reachable this, of 2] show ?thesis
    by (auto simp: demo_offer_def offer_row_def demo_manifest_def verified_bytes_def chunk_rows_def covered_def)
qed

theorem completed_only_when_verified_witness:
  "\<not> is_ok (set_state 2 ''t'' Completed demo_manifest) \<and> is_ok (set_state 2 ''t'' Active demo_manifest)"
proof -
  have "verified_bytes demo_manifest ''t'' ''f'' = {}"
    by (simp add: demo_manifest_def verified_bytes_def chunk_rows_def covered_def)
  then show ?thesis
    using completed_only_when_verified [OF demo_manifest_reachable, of 2 "''t''" Completed]
      completed_only_when_verified [OF demo_manifest_reachable, of 2 "''t''" Active]
    by (simp add: demo_manifest_def demo_offer_def offer_row_def)
qed

text \<open>What recording a verified chunk does. It succeeds exactly for a known file and a non-empty
  range without overflow inside it. The verified bytes of that file then include the chunk, and every
  byte verified before unless the chunk replaces a longer one recorded at the same offset; no other
  file's verified bytes change.\<close>

theorem record_verified_chunk_effect:
  "(is_ok (record_verified_chunk now tid fid off len h st) \<longleftrightarrow>
      (\<exists>fr. map_of (ms_files st) (tid, fid) = Some fr \<and> len \<noteq> 0 \<and>
         unat off + unat len < 2 ^ 64 \<and> unat off + unat len \<le> unat (i64_as_u64 (fw_size fr))))
   \<and> (\<forall>st'. record_verified_chunk now tid fid off len h st = Inr st' \<longrightarrow>
        {unat off..<unat off + unat len} \<subseteq> verified_bytes st' tid fid
        \<and> (\<forall>t f. (t, f) \<noteq> (tid, fid) \<longrightarrow> verified_bytes st' t f = verified_bytes st t f)
        \<and> ((\<forall>row. ((tid, fid, as_i64 off), row) \<in> set (ms_chunks st) \<longrightarrow> i64_as_u64 (kw_length row) \<le> len) \<longrightarrow>
             verified_bytes st' tid fid = verified_bytes st tid fid \<union> {unat off..<unat off + unat len}))"
proof (intro conjI allI impI)
  show "is_ok (record_verified_chunk now tid fid off len h st) \<longleftrightarrow>
      (\<exists>fr. map_of (ms_files st) (tid, fid) = Some fr \<and> len \<noteq> 0 \<and>
         unat off + unat len < 2 ^ 64 \<and> unat off + unat len \<le> unat (i64_as_u64 (fw_size fr)))"
    unfolding is_ok_iff record_Inr_iff by (auto simp: resume_in_file_def resume_wf_def resume_iv_def)
next
  fix st' assume r: "record_verified_chunk now tid fid off len h st = Inr st'"
  show "{unat off..<unat off + unat len} \<subseteq> verified_bytes st' tid fid"
    using verified_bytes_record [OF r, of tid fid] by auto
  show "verified_bytes st' t f = verified_bytes st t f" if "(t, f) \<noteq> (tid, fid)" for t f
    using verified_bytes_record [OF r, of t f] that by (auto split: if_splits)
  show "verified_bytes st' tid fid = verified_bytes st tid fid \<union> {unat off..<unat off + unat len}"
    if "\<forall>row. ((tid, fid, as_i64 off), row) \<in> set (ms_chunks st) \<longrightarrow> i64_as_u64 (kw_length row) \<le> len"
    using verified_bytes_record_mono [OF r that] .
qed

theorem record_verified_chunk_effect_witness:
  "\<exists>st'. record_verified_chunk 2 ''t'' ''f'' 1 3 ''h'' demo_manifest = Inr st' \<and> {1..<4} \<subseteq> verified_bytes st' ''t'' ''f''"
  using record_verified_chunk_effect [of 2 "''t''" "''f''" 1 3 "''h''" demo_manifest]
  by (auto simp: is_ok_iff demo_manifest_def demo_offer_def offer_row_def)

text \<open>C27. The manifest and the chunk planner agree. The merge of \<open>manifest.rs\<close> and the checked merge of
  \<open>chunk.rs\<close> give the same ranges on every list of well-formed ranges, in whatever order it is given,
  and the two coverage tests give the same answer on them.\<close>

theorem merge_implementations_agree:
  assumes "\<forall>r \<in> set rs. resume_wf r" "resume_wf r"
  shows "chunk_merge_ranges (map to_chunk rs) = Inr (map to_chunk (resume_merge_ranges rs))
    \<and> resume_fully_covered r (resume_merge_ranges rs) = chunk_fully_covered (to_chunk r) (map to_chunk (resume_merge_ranges rs))
    \<and> (resume_fully_covered r (resume_merge_ranges rs) \<longleftrightarrow> iv_set (resume_iv r) \<subseteq> covered (map resume_iv rs))"
  using merge_ranges_agree [OF assms(1)] fully_covered_agree [OF assms(2) resume_merge_wf [OF assms(1)]]
    resume.inside_merge_iff [OF assms(1) assms(2) refl] by blast

theorem merge_implementations_agree_witness:
  "chunk_merge_ranges (map to_chunk [mk_resume 5 5, mk_resume 0 6]) = Inr [mk_chunk 0 10]"
  using merge_implementations_agree [of "[mk_resume 5 5, mk_resume 0 6]" "mk_resume 0 1"]
  by (simp add: resume_wf_def resume_merge_ranges_def sort_key_def Let_def max_def to_chunk_def)

section \<open>Wire formats\<close>

text \<open>The chunk stream. Reading back a sequence of written chunk frames from a stream, whatever
  follows them, gives exactly the chunks that were written and leaves the rest of the stream untouched.\<close>

theorem chunk_stream_round_trip:
  assumes "\<forall>c \<in> set cs. chunk_frame_good c" "write_all_msgs (write_chunk_frame H) cs = Inr bs"
  shows "read_n_msgs (read_chunk_frame H) (length cs) (bs @ rest) = Inr (cs, rest)"
  using chunk_frame.read_write_all [OF assms] .

definition demo_chunk :: TransferChunk where
  "demo_chunk = \<lparr>tc_file_id = ''f'', tc_offset = 7, tc_blake3 = replicate 64 (CHR ''a''), tc_bytes = [1, 2]\<rparr>"

lemma demo_chunk_good: "chunk_frame_good demo_chunk"
  by (simp add: chunk_frame_good_def demo_chunk_def chunk_frame_len_def MAX_CHUNK_FRAME_BYTES_def DEFAULT_CHUNK_SIZE_def
    utf8_valid_def)

lemma demo_chunk_written:
  "write_chunk_frame (\<lambda>_. replicate 64 (CHR ''a'')) demo_chunk = Inr (chunk_frame_bytes demo_chunk)"
  by (simp add: write_chunk_frame_Inr_iff chunk_frame_ok_def demo_chunk_def chunk_frame_len_def safe_char_not_blank safe_char_def
    is_ascii_alphanumeric_def is_ascii_hexdigit_def is_ascii_digit_def less_eq_char_def list_all_iff)

theorem chunk_stream_round_trip_witness:
  "\<exists>bs. write_all_msgs (write_chunk_frame (\<lambda>_. replicate 64 (CHR ''a''))) [demo_chunk, demo_chunk] = Inr bs
     \<and> read_n_msgs (read_chunk_frame (\<lambda>_. replicate 64 (CHR ''a''))) 2 (bs @ [9]) = Inr ([demo_chunk, demo_chunk], [9])"
proof -
  obtain bs where bs: "write_all_msgs (write_chunk_frame (\<lambda>_. replicate 64 (CHR ''a''))) [demo_chunk, demo_chunk] = Inr bs"
    using demo_chunk_written by auto
  show ?thesis using chunk_stream_round_trip [OF _ bs, of "[9]"] bs demo_chunk_good by (simp add: numeral_2_eq_2)
qed

text \<open>C29. What the chunk reader accepts: a frame within the size limit, exactly the encoding of the
  chunk it returns followed by the unread rest, with a non-empty UTF-8 file id, and bytes whose hash is
  the one in the frame. Nothing whose hash does not match gets through.\<close>

theorem read_chunk_frame_sound:
  assumes "read_chunk_frame H s = Inr (c, rest)"
  shows "H (tc_bytes c) = tc_blake3 c \<and> length (tc_blake3 c) = 64 \<and> utf8_valid (tc_file_id c) \<and> tc_file_id c \<noteq> []
    \<and> chunk_frame_len c \<le> MAX_CHUNK_FRAME_BYTES \<and> s = chunk_frame_bytes c @ rest"
  using read_chunk_frame_Inr [OF assms] by blast

theorem read_chunk_frame_sound_witness:
  "\<exists>s. read_chunk_frame (\<lambda>_. replicate 64 (CHR ''a'')) s = Inr (demo_chunk, []) \<and> s = chunk_frame_bytes demo_chunk"
proof -
  have r: "read_chunk_frame (\<lambda>_. replicate 64 (CHR ''a'')) (chunk_frame_bytes demo_chunk) = Inr (demo_chunk, [])"
    using read_write_chunk_frame [OF demo_chunk_good demo_chunk_written, of "[]"] by simp
  show ?thesis using read_chunk_frame_sound [OF r] r by blast
qed

text \<open>C30. The control stream. For a JSON codec that decodes what it encodes, reading a sequence of
  written control messages returns exactly these messages in order and the rest of the stream; a message
  is written exactly when its payload and type byte fit in the frame limit.\<close>

theorem control_stream_round_trip:
  assumes "\<forall>m \<in> set ms. json_ok J m" "write_all_msgs (write_control J) ms = Inr bs"
  shows "read_n_msgs (read_control J) (length ms) (bs @ rest) = Inr (ms, rest)
    \<and> (\<forall>m. is_ok (write_control J m) \<longleftrightarrow>
         (\<exists>p. message_payload J m = Inr p \<and> Suc (length p) \<le> MAX_CONTROL_FRAME_BYTES))"
  using control.read_write_all [OF assms] by (auto simp: is_ok_iff write_control_Inr_iff)

definition demo_json :: ControlJson where
  "demo_json = \<lparr>
     hello_to_vec = (\<lambda>_. Inl (Json ''n'')), hello_from_slice = (\<lambda>_. Inl (Json ''n'')),
     hello_ack_to_vec = (\<lambda>_. Inl (Json ''n'')), hello_ack_from_slice = (\<lambda>_. Inl (Json ''n'')),
     request_to_vec = (\<lambda>_. Inl (Json ''n'')), request_from_slice = (\<lambda>_. Inl (Json ''n'')),
     accept_to_vec = (\<lambda>m. Inr (u64_to_be (at_chunk_size m) @ str_bytes (at_transfer_id m))),
     accept_from_slice = (\<lambda>p. Inr \<lparr>at_transfer_id = bytes_str (drop 8 p), at_chunk_size = u64_from_be (take 8 p)\<rparr>),
     chunk_ack_to_vec = (\<lambda>_. Inl (Json ''n'')), chunk_ack_from_slice = (\<lambda>_. Inl (Json ''n'')),
     cancel_to_vec = (\<lambda>_. Inl (Json ''n'')), cancel_from_slice = (\<lambda>_. Inl (Json ''n'')),
     done_to_vec = (\<lambda>_. Inl (Json ''n'')), done_from_slice = (\<lambda>_. Inl (Json ''n'')),
     resume_to_vec = (\<lambda>_. Inl (Json ''n'')), resume_from_slice = (\<lambda>_. Inl (Json ''n''))\<rparr>"

theorem control_stream_round_trip_witness:
  "\<exists>bs. write_all_msgs (write_control demo_json) [MAccept \<lparr>at_transfer_id = ''t'', at_chunk_size = 9\<rparr>] = Inr bs
     \<and> read_n_msgs (read_control demo_json) 1 (bs @ [7]) = Inr ([MAccept \<lparr>at_transfer_id = ''t'', at_chunk_size = 9\<rparr>], [7])"
proof -
  let ?m = "MAccept \<lparr>at_transfer_id = ''t'', at_chunk_size = 9\<rparr>"
  obtain bs where bs: "write_all_msgs (write_control demo_json) [?m] = Inr bs"
    by (simp add: write_control_def demo_json_def MAX_CONTROL_FRAME_BYTES_def)
  have "json_ok demo_json ?m" by (simp add: demo_json_def)
  then show ?thesis using control_stream_round_trip [OF _ bs, of "[7]"] bs by simp
qed

section \<open>Messages\<close>

text \<open>A transfer request is accepted exactly when its id is not blank, it offers at least one file,
  every offer has a non-blank id and name, and the ids are distinct; every rejection is a protocol
  error.\<close>

theorem validate_transfer_request_exact:
  "(validate_transfer_request rq = Inr () \<longleftrightarrow>
      \<not> blank (rt_transfer_id rq) \<and> rt_files rq \<noteq> [] \<and> distinct (map fo_file_id (rt_files rq))
      \<and> (\<forall>f \<in> set (rt_files rq). \<not> blank (fo_file_id f) \<and> \<not> blank (fo_file_name f)))
   \<and> (\<forall>e. validate_transfer_request rq = Inl e \<longrightarrow> (\<exists>m. e = Protocol m))"
  using validate_transfer_request_ok_iff [of rq] validate_transfer_request_error [of rq]
  by (auto simp: valid_offer_def)

theorem validate_transfer_request_exact_witness:
  "validate_transfer_request \<lparr>rt_transfer_id = ''t'', rt_files = [demo_offer, demo_offer]\<rparr> \<noteq> Inr ()"
  using validate_transfer_request_exact [of "\<lparr>rt_transfer_id = ''t'', rt_files = [demo_offer, demo_offer]\<rparr>"] by simp

text \<open>Extension negotiation: both sides settle on the same set, the known extensions both
  announced, in the order of the local list, and two peers with the default extensions keep them all.\<close>

theorem negotiate_extensions_agree:
  "set (negotiate_extensions a b) = {e \<in> set a \<inter> set b. is_known_extension e}
   \<and> set (negotiate_extensions a b) = set (negotiate_extensions b a)
   \<and> subseq (negotiate_extensions a b) a
   \<and> negotiate_extensions default_extensions default_extensions = default_extensions"
  using negotiate_set negotiate_agree negotiate_subseq negotiate_default by blast

end
