(* ===== verification/Identity.thy ===== *)
theory Identity
  imports NB_Fs
begin

text \<open>
  Identities of the core crate: the error type \<open>core/src/error.rs\<close>, fingerprints
  (\<open>identity/fingerprint.rs\<close>), short authentication strings (\<open>identity/sas.rs\<close>), the identity
  and API token vaults (\<open>identity/vault.rs\<close>, \<open>api_token.rs\<close>). SHA-256, HKDF and the Ed25519 key
  derivation are parameters. A Rust panic is the error \<open>Panicked\<close>. File modes are not modelled.
\<close>

section \<open>Errors\<close>

datatype CoreError =
    CoreIo IoError
  | Sqlite string
  | IdentityVault string
  | TrustStoreError string
  | ConfigError string
  | CoreCrypto string
  | Panicked string

type_synonym 'a core_result = "CoreError + 'a"

section \<open>Hexadecimal text\<close>

definition hex_digit :: "nat \<Rightarrow> char" where
  "hex_digit d = (if d < 10 then char_of (48 + d) else char_of (87 + d))"

definition hex_byte :: "u8 \<Rightarrow> string" where
  "hex_byte b = [hex_digit (unat b div 16), hex_digit (unat b mod 16)]"

definition hex_val :: "char \<Rightarrow> nat option" where
  "hex_val c = (let n = of_char c in
     if 48 \<le> n \<and> n \<le> 57 then Some (n - 48)
     else if 97 \<le> n \<and> n \<le> 102 then Some (n - 87)
     else if 65 \<le> n \<and> n \<le> 70 then Some (n - 55)
     else None)"

text \<open>\<open>u8::from_str_radix(s, 16)\<close> on a text of two bytes: a leading plus sign is accepted.\<close>

definition u8_from_hex2 :: "char \<Rightarrow> char \<Rightarrow> u8 core_result" where
  "u8_from_hex2 a b =
     (if a = CHR ''+'' then
        (case hex_val b of Some y \<Rightarrow> Inr (of_nat y) | None \<Rightarrow> Inl (CoreCrypto ''invalid digit found in string''))
      else case (hex_val a, hex_val b) of
        (Some x, Some y) \<Rightarrow> Inr (of_nat (16 * x + y))
      | _ \<Rightarrow> Inl (CoreCrypto ''invalid digit found in string''))"

section \<open>Fingerprints\<close>

type_synonym Fingerprint = bytes

definition fingerprint_from_pubkey :: "(bytes \<Rightarrow> bytes) \<Rightarrow> bytes \<Rightarrow> Fingerprint" where
  "fingerprint_from_pubkey sha256 pubkey = take 8 (sha256 pubkey)"

fun fp_groups :: "nat \<Rightarrow> Fingerprint \<Rightarrow> string" where
  "fp_groups index [] = []"
| "fp_groups index (b # bs) =
     (if index > 0 \<and> index mod 2 = 0 then ''-'' else []) @ hex_byte b @ fp_groups (Suc index) bs"

definition fingerprint_to_string :: "Fingerprint \<Rightarrow> string" where
  "fingerprint_to_string fp = fp_groups 0 fp"

fun fp_parse_pairs :: "string \<Rightarrow> bytes core_result" where
  "fp_parse_pairs (a # b # rest) =
     (if is_cont a \<or> rest \<noteq> [] \<and> is_cont (hd rest) then Inl (Panicked ''not a char boundary'')
      else res_bind (u8_from_hex2 a b) (\<lambda>v. res_map (\<lambda>vs. v # vs) (fp_parse_pairs rest)))"
| "fp_parse_pairs _ = Inr []"

definition fingerprint_from_str :: "string \<Rightarrow> Fingerprint core_result" where
  "fingerprint_from_str value =
     (let cleaned = filter (\<lambda>c. c \<noteq> CHR ''-'') value in
      if length cleaned \<noteq> 16
      then Inl (CoreCrypto (''fingerprint must be 16 hex chars, got '' @ show_nat (length cleaned)))
      else fp_parse_pairs cleaned)"

section \<open>Short authentication strings\<close>

definition SAS_DIGITS :: nat where "SAS_DIGITS = 6"

text \<open>\<open>hkdf ikm\<close> is the 4-byte expansion under the info string \<open>lsi-sas-v1\<close>.\<close>

definition pad_zeros :: "nat \<Rightarrow> string \<Rightarrow> string" where
  "pad_zeros w s = replicate (w - length s) (CHR ''0'') @ s"

definition compute_sas :: "(bytes \<Rightarrow> bytes) \<Rightarrow> bytes \<Rightarrow> bytes \<Rightarrow> bytes \<Rightarrow> string" where
  "compute_sas hkdf a b nonce =
     (let (lo, hi) = (if a \<le> b then (a, b) else (b, a));
          value = unat (u32_from_be (hkdf (lo @ hi @ nonce)))
      in pad_zeros SAS_DIGITS (show_nat (value mod 10 ^ SAS_DIGITS)))"

section \<open>Vaults\<close>

definition with_extension :: "path \<Rightarrow> string \<Rightarrow> path" where
  "with_extension p ext = (case path_file_name p of
     None \<Rightarrow> p
   | Some n \<Rightarrow> butlast p @ [(case file_stem n of Some s \<Rightarrow> s | None \<Rightarrow> n) @ ''.'' @ ext])"

definition core_fs :: "IoError + 'a \<Rightarrow> 'a core_result" where
  "core_fs r = (case r of Inl e \<Rightarrow> Inl (CoreIo e) | Inr x \<Rightarrow> Inr x)"

text \<open>Operations that change files: what an earlier step wrote stays when a later one fails.\<close>

type_synonym 'a core_io = "(fs, CoreError, 'a) sr"

definition core_on :: "(fs \<Rightarrow> IoError + fs) \<Rightarrow> unit core_io" where
  "core_on f = sr_modify (\<lambda>fs. core_fs (f fs))"

text \<open>Write a whole file (create, truncate).\<close>

definition fs_write :: "path \<Rightarrow> bytes \<Rightarrow> fs \<Rightarrow> IoError + fs" where
  "fs_write p bs fs = res_bind (walk fs [] p) (\<lambda>q.
     if fs q = Some Dir then Inl IsADirectory else Inr (fs(q \<mapsto> File bs)))"

definition fs_remove_file :: "path \<Rightarrow> fs \<Rightarrow> IoError + fs" where
  "fs_remove_file p fs = res_bind (walk fs [] p) (\<lambda>q.
     case fs q of None \<Rightarrow> Inl NotFound | Some Dir \<Rightarrow> Inl IsADirectory | Some (File _) \<Rightarrow> Inr (fs(q := None)))"

definition vault_load :: "path \<Rightarrow> fs \<Rightarrow> bytes option core_result" where
  "vault_load p fs =
     (if \<not> is_ok (fs_metadata p fs) then Inr None
      else res_bind (core_fs (fs_read p fs)) (\<lambda>bs.
        if length bs \<noteq> 32
        then Inl (IdentityVault (''expected 32 bytes, found '' @ show_nat (length bs)))
        else Inr (Some bs)))"

definition vault_save :: "path \<Rightarrow> bytes \<Rightarrow> unit core_io" where
  "vault_save p secret =
     sr_bind (if p = [] then sr_return () else core_on (create_dir_all (butlast p))) (\<lambda>_.
     let tmp = with_extension p ''key.tmp'' in
     sr_bind (core_on (fs_write tmp secret)) (\<lambda>_.
     core_on (fs_rename tmp p)))"

definition vault_delete :: "path \<Rightarrow> fs \<Rightarrow> fs core_result" where
  "vault_delete p fs = (if is_ok (fs_metadata p fs) then core_fs (fs_remove_file p fs) else Inr fs)"

definition api_token_new :: "string \<Rightarrow> string core_result" where
  "api_token_new token = (let token = rs_trim token in
     if token = [] then Inl (IdentityVault ''api token is blank'') else Inr token)"

definition B64_TABLE :: string where
  "B64_TABLE = ''ABCDEFGHIJKLMNOPQRSTUVWXYZabcdefghijklmnopqrstuvwxyz0123456789-_''"

definition b64_char :: "u8 \<Rightarrow> char" where
  "b64_char i = B64_TABLE ! unat i"

fun base64url_no_pad :: "bytes \<Rightarrow> string" where
  "base64url_no_pad [] = []"
| "base64url_no_pad [b0] =
     [b64_char (drop_bit 2 b0), b64_char (push_bit 4 (b0 AND 3))]"
| "base64url_no_pad [b0, b1] =
     [b64_char (drop_bit 2 b0), b64_char (push_bit 4 (b0 AND 3) OR drop_bit 4 b1),
      b64_char (push_bit 2 (b1 AND 15))]"
| "base64url_no_pad (b0 # b1 # b2 # rest) =
     [b64_char (drop_bit 2 b0), b64_char (push_bit 4 (b0 AND 3) OR drop_bit 4 b1),
      b64_char (push_bit 2 (b1 AND 15) OR drop_bit 6 b2), b64_char (b2 AND 63)]
     @ base64url_no_pad rest"

definition token_load :: "path \<Rightarrow> fs \<Rightarrow> string option core_result" where
  "token_load p fs =
     (if \<not> is_ok (fs_metadata p fs) then Inr None
      else res_bind (core_fs (fs_read p fs)) (\<lambda>bs.
        case string_from_utf8 bs of
          None \<Rightarrow> Inl (CoreIo InvalidData)
        | Some s \<Rightarrow> res_map Some (api_token_new s)))"

definition token_save :: "path \<Rightarrow> string \<Rightarrow> unit core_io" where
  "token_save p token =
     sr_bind (if p = [] then sr_return () else core_on (create_dir_all (butlast p))) (\<lambda>_.
     let tmp = with_extension p ''token.tmp'' in
     sr_bind (core_on (fs_write tmp (str_bytes token))) (\<lambda>_.
     core_on (fs_rename tmp p)))"

text \<open>\<open>rng\<close> are the 32 random bytes of a generated token.\<close>

definition token_load_or_generate :: "bytes \<Rightarrow> path \<Rightarrow> string core_io" where
  "token_load_or_generate rng p =
     sr_bind (sr_gets (token_load p)) (\<lambda>found. case found of
       Some token \<Rightarrow> sr_return token
     | None \<Rightarrow> (let token = base64url_no_pad rng in
         sr_bind (token_save p token) (\<lambda>_. sr_return token)))"

section \<open>Fingerprint text\<close>

lemma hex_val_digit: "d < 16 \<Longrightarrow> hex_val (hex_digit d) = Some d"
  by (auto simp: hex_val_def hex_digit_def)

lemma hex_digit_plain: "d < 16 \<Longrightarrow> hex_digit d \<noteq> CHR ''+'' \<and> hex_digit d \<noteq> CHR ''-'' \<and> \<not> is_cont (hex_digit d)"
proof -
  assume "d < 16"
  then have "of_char (hex_digit d) \<noteq> (43::nat) \<and> of_char (hex_digit d) \<noteq> (45::nat) \<and> of_char (hex_digit d) < (128::nat)"
    by (auto simp: hex_digit_def)
  then show ?thesis by (auto simp: is_cont_def)
qed

lemma u8_hex2_hex_byte: "u8_from_hex2 (hex_digit (unat b div 16)) (hex_digit (unat b mod 16)) = Inr b"
proof -
  have "unat b div 16 < 16" using unat_lt_u8 [of b] by simp
  then show ?thesis
    using hex_digit_plain [of "unat b div 16"] by (simp add: u8_from_hex2_def hex_val_digit)
qed

lemma fp_parse_pairs_hex: "fp_parse_pairs (concat (map hex_byte bs)) = Inr bs"
proof (induction bs)
  case (Cons b bs)
  have "unat b div 16 < 16" using unat_lt_u8 [of b] by simp
  moreover have "concat (map hex_byte bs) = [] \<or> \<not> is_cont (hd (concat (map hex_byte bs)))"
  proof (cases bs)
    case (Cons c cs)
    have "unat c div 16 < 16" using unat_lt_u8 [of c] by simp
    then show ?thesis using Cons hex_digit_plain [of "unat c div 16"] by (simp add: hex_byte_def)
  qed simp
  ultimately show ?case
    using Cons hex_digit_plain [of "unat b div 16"] u8_hex2_hex_byte [of b]
    by (simp add: hex_byte_def [of b])
qed simp

lemma filter_fp_groups: "filter (\<lambda>c. c \<noteq> CHR ''-'') (fp_groups i bs) = concat (map hex_byte bs)"
proof (induction i bs rule: fp_groups.induct)
  case (2 i b bs)
  have "unat b div 16 < 16" using unat_lt_u8 [of b] by simp
  then show ?case
    using 2 hex_digit_plain [of "unat b div 16"] hex_digit_plain [of "unat b mod 16"]
    by (simp add: hex_byte_def)
qed simp

lemma length_hex_bytes: "length (concat (map hex_byte bs)) = 2 * length bs"
  by (induction bs) (auto simp: hex_byte_def)

lemma fingerprint_round_trip: "length fp = 8 \<Longrightarrow> fingerprint_from_str (fingerprint_to_string fp) = Inr fp"
  by (simp add: fingerprint_from_str_def fingerprint_to_string_def filter_fp_groups length_hex_bytes
    fp_parse_pairs_hex Let_def)

lemma fingerprint_to_string_inject:
  "length a = 8 \<Longrightarrow> length b = 8 \<Longrightarrow> fingerprint_to_string a = fingerprint_to_string b \<Longrightarrow> a = b"
  by (metis fingerprint_round_trip sum.inject(2))

lemma fp_parse_pairs_length: "fp_parse_pairs s = Inr bs \<Longrightarrow> length bs = length s div 2"
  by (induction s arbitrary: bs rule: fp_parse_pairs.induct) (auto simp: res_iffs split: if_splits)

lemma fingerprint_from_str_length: "fingerprint_from_str s = Inr fp \<Longrightarrow> length fp = 8"
  using fp_parse_pairs_length by (auto simp: fingerprint_from_str_def Let_def split: if_splits)

section \<open>SAS\<close>

lemma show_nat_bound: "n < 10 ^ Suc k \<Longrightarrow> length (show_nat n) \<le> Suc k"
proof (induction k arbitrary: n)
  case 0
  then show ?case by (subst show_nat.simps) simp
next
  case (Suc k)
  then have "n div 10 < 10 ^ Suc k" by (simp add: less_mult_imp_div_less)
  then show ?case using Suc.IH [of "n div 10"] by (subst show_nat.simps) simp
qed

lemma compute_sas_shape:
  "length (compute_sas hkdf a b nonce) = 6 \<and> list_all is_ascii_digit (compute_sas hkdf a b nonce)"
proof -
  have "length (show_nat (v mod 10 ^ 6)) \<le> 6" for v using show_nat_bound [of "v mod 10 ^ 6" 5] by simp
  moreover have "is_ascii_digit (CHR ''0'')" by (simp add: is_ascii_digit_def)
  ultimately show ?thesis
    using show_nat_digits by (simp add: compute_sas_def pad_zeros_def SAS_DIGITS_def Let_def list_all_append
      list_all_iff split: prod.splits)
qed

lemma compute_sas_sym: "compute_sas hkdf a b nonce = compute_sas hkdf b a nonce"
  by (auto simp: compute_sas_def Let_def)

section \<open>Vault files\<close>

lemma with_extension_snoc:
  "normal_name c \<Longrightarrow> with_extension (d @ [c]) ext = d @ [(case file_stem c of Some s \<Rightarrow> s | None \<Rightarrow> c) @ ''.'' @ ext]"
  by (simp add: with_extension_def path_file_name_def normal_name_def)

lemma rsplit_dot_sub: "rsplit_dot s = Some (a, b) \<Longrightarrow> set a \<subseteq> set s"
proof -
  have "set (drop k (rev s)) \<subseteq> set s" for k by (metis set_drop_subset set_rev)
  then show "rsplit_dot s = Some (a, b) \<Longrightarrow> set a \<subseteq> set s"
    by (simp add: rsplit_dot_def Let_def split: if_splits) (metis set_rev)
qed

lemma file_stem_sub: "file_stem c = Some s \<Longrightarrow> set s \<subseteq> set c"
  using rsplit_dot_sub [of c] by (auto simp: file_stem_def path_file_name_def split: if_splits option.splits)

lemma tmp_name_normal:
  assumes "normal_name c" "\<not> has_nul ext" "2 < length ext"
  shows "normal_name ((case file_stem c of Some s \<Rightarrow> s | None \<Rightarrow> c) @ ''.'' @ ext)"
proof -
  have "set (case file_stem c of Some s \<Rightarrow> s | None \<Rightarrow> c) \<subseteq> set c"
    using file_stem_sub by (auto split: option.splits)
  then have "\<not> has_nul ((case file_stem c of Some s \<Rightarrow> s | None \<Rightarrow> c) @ ''.'' @ ext)"
    using assms by (auto simp: normal_name_def has_nul_def)
  moreover have "2 < length ((case file_stem c of Some s \<Rightarrow> s | None \<Rightarrow> c) @ ''.'' @ ext)" using assms(3) by simp
  ultimately show ?thesis unfolding normal_name_def by (metis length_Cons list.size(3) less_irrefl numeral_2_eq_2 Suc_lessD less_nat_zero_code length_greater_0_conv gr_implies_not0 One_nat_def not_less_eq)
qed

text \<open>Saving through a temporary file: what the target holds afterwards.\<close>

lemma save_via_tmp:
  assumes wf: "fs_wf fs" and nm: "list_all normal_name d" "normal_name c" "normal_name t"
    and mk: "create_dir_all d fs = Inr fs1" and wr: "fs_write (d @ [t]) bs fs1 = Inr fs2"
    and mv: "fs_rename (d @ [t]) (d @ [c]) fs2 = Inr fs3"
  shows "fs3 (d @ [c]) = Some (File bs)" "fs_wf fs3"
    "\<forall>q. q \<noteq> d @ [c] \<longrightarrow> q \<noteq> d @ [t] \<longrightarrow> \<not> prefix q d \<longrightarrow> fs3 q = fs q"
proof -
  have wf1: "fs_wf fs1" using create_dir_all_wf [OF mk nm(1) wf] .
  have fs1: "fs1 = (\<lambda>q. if prefix q d then Some Dir else fs q)"
    using create_dir_all_Inr [OF mk nm(1)] wf by (simp add: fs_wf_def)
  then have dir: "fs1 d = Some Dir" by simp
  have fs2: "fs2 = fs1(d @ [t] \<mapsto> File bs)" "fs1 (d @ [t]) \<noteq> Some Dir"
    using wr walk_wf [OF wf1 nm(1,3) dir] by (auto simp: fs_write_def split: if_splits)
  have wf2: "fs_wf fs2" unfolding fs2(1) using wf1 dir fs2(2) by (rule fs_wf_put_file)
  have dir2: "fs2 d = Some Dir" using dir by (simp add: fs2(1))
  have held: "fs2 (d @ [t]) = Some (File bs)" by (simp add: fs2(1))
  have fs3: "fs3 = fs2(d @ [t] := None, d @ [c] \<mapsto> File bs)" "fs2 (d @ [c]) \<noteq> Some Dir"
    using mv walk_wf [OF wf2 nm(1,3) dir2] walk_wf [OF wf2 nm(1,2) dir2] held
    by (auto simp: fs_rename_def split: if_splits)
  show "fs3 (d @ [c]) = Some (File bs)" by (simp add: fs3(1))
  have wf2': "fs_wf (fs2(d @ [t] := None))" by (rule fs_wf_remove_file [OF wf2]) (simp add: fs2(1))
  show "fs_wf fs3" unfolding fs3(1)
    by (rule fs_wf_put_file [OF wf2']) (use dir2 fs3(2) in \<open>auto simp: fun_upd_apply\<close>)
  show "\<forall>q. q \<noteq> d @ [c] \<longrightarrow> q \<noteq> d @ [t] \<longrightarrow> \<not> prefix q d \<longrightarrow> fs3 q = fs q"
    by (simp add: fs3(1) fs2(1) fs1)
qed

lemma load_normal:
  assumes "fs_wf fs" "list_all normal_name d" "normal_name c" "fs (d @ [c]) = Some (File bs)"
  shows "is_ok (fs_metadata (d @ [c]) fs)" "fs_read (d @ [c]) fs = Inr bs"
proof -
  have "fs d = Some Dir" using assms(1,4) unfolding fs_wf_def by auto
  then show "is_ok (fs_metadata (d @ [c]) fs)" "fs_read (d @ [c]) fs = Inr bs"
    using assms by (simp_all add: fs_metadata_wf fs_read_wf)
qed

lemma core_fs_Inr_iff [simp]: "core_fs r = Inr x \<longleftrightarrow> r = Inr x"
  by (cases r) (auto simp: core_fs_def)

lemma core_fs_Inr [simp]: "core_fs (Inr x) = Inr x"
  by (simp add: core_fs_def)

lemma core_on_Inr_iff: "core_on f fs = (Inr u, fs') \<longleftrightarrow> f fs = Inr fs'"
  by (simp add: core_on_def sr_modify_Inr_iff)

lemma is_ok_fst: "is_ok (fst r) \<Longrightarrow> \<exists>x s. r = (Inr x, s)"
  by (cases r) (simp add: is_ok_iff)

lemma vault_save_load:
  assumes "fs_wf fs" "list_all normal_name d" "normal_name c" "length secret = 32"
    "vault_save (d @ [c]) secret fs = (Inr (), fs')"
  shows "vault_load (d @ [c]) fs' = Inr (Some secret)"
proof -
  let ?t = "(case file_stem c of Some s \<Rightarrow> s | None \<Rightarrow> c) @ ''.'' @ ''key.tmp''"
  have t: "normal_name ?t" using tmp_name_normal [OF assms(3), of "''key.tmp''"] by (simp add: has_nul_def)
  obtain fs1 fs2 where s: "create_dir_all d fs = Inr fs1" "fs_write (d @ [?t]) secret fs1 = Inr fs2"
    "fs_rename (d @ [?t]) (d @ [c]) fs2 = Inr fs'"
    using assms(5) with_extension_snoc [OF assms(3), of d "''key.tmp''"]
    by (auto simp: vault_save_def Let_def sr_bind_Inr_iff core_on_Inr_iff)
  note sv = save_via_tmp [OF assms(1-3) t s]
  show ?thesis using load_normal [OF sv(2) assms(2,3) sv(1)] assms(4) by (simp add: vault_load_def)
qed

lemma utf8_chars_ascii: "list_all is_ascii s \<Longrightarrow> utf8_chars s = map (\<lambda>c. [c]) s"
proof (induction s)
  case (Cons c s)
  have "takeWhile is_cont s = []" "dropWhile is_cont s = s"
    using Cons.prems by (cases s; simp add: is_ascii_def is_cont_def)+
  with Cons show ?case by simp
qed simp

lemma rs_trim_id:
  assumes "list_all is_ascii s" "list_all (\<lambda>c. \<not> is_whitespace [c]) s"
  shows "rs_trim s = s"
proof -
  have dw: "dropWhile is_whitespace xs = xs" if "\<forall>x \<in> set xs. \<not> is_whitespace x" for xs
    using that by (cases xs) auto
  have nw: "\<forall>x \<in> set (map (\<lambda>c. [c]) s). \<not> is_whitespace x" using assms(2) by (auto simp: list_all_iff)
  have "trim_ends is_whitespace (map (\<lambda>c. [c]) s) = map (\<lambda>c. [c]) s"
    unfolding trim_ends_def dw [OF nw] using dw [of "rev (map (\<lambda>c. [c]) s)"] nw by simp
  then show ?thesis using utf8_chars_ascii [OF assms(1)] concat_utf8_chars [of s] by (simp add: rs_trim_def)
qed

definition token_char :: "char \<Rightarrow> bool" where
  "token_char c \<longleftrightarrow> is_ascii c \<and> \<not> is_whitespace [c]"

lemma b64_char_token: "i < 64 \<Longrightarrow> token_char (b64_char i)"
proof -
  assume "i < 64"
  then have "unat i < 64" by (simp add: word_less_nat_alt)
  then have "b64_char i \<in> set B64_TABLE" unfolding b64_char_def by (intro nth_mem) (simp add: B64_TABLE_def)
  moreover have "list_all token_char B64_TABLE"
    by (simp add: B64_TABLE_def token_char_def is_ascii_def is_whitespace_def)
  ultimately show ?thesis by (simp add: list_all_iff)
qed

section \<open>Token text\<close>

lemma length_takeWhile_nth_distinct:
  assumes "distinct xs" "i < length xs"
  shows "length (takeWhile (\<lambda>x. x \<noteq> xs ! i) xs) = i"
proof -
  have "takeWhile (\<lambda>x. x \<noteq> xs ! i) xs = take i xs"
    by (rule takeWhile_eq_take_P_nth) (use assms in \<open>auto simp: nth_eq_iff_index_eq\<close>)
  then show ?thesis using assms by simp
qed

text \<open>The decoder of base64url without padding is part of the specification only: it shows that a
  generated token determines the random bytes it was made from.\<close>

definition b64_val :: "char \<Rightarrow> 8 word" where
  "b64_val c = of_nat (length (takeWhile (\<lambda>x. x \<noteq> c) B64_TABLE))"

fun b64_bytes :: "8 word list \<Rightarrow> bytes" where
  "b64_bytes (s0 # s1 # s2 # s3 # rest) =
     (push_bit 2 s0 OR drop_bit 4 s1) # (push_bit 4 s1 OR drop_bit 2 s2) # (push_bit 6 s2 OR s3) # b64_bytes rest"
| "b64_bytes [s0, s1, s2] = [push_bit 2 s0 OR drop_bit 4 s1, push_bit 4 s1 OR drop_bit 2 s2]"
| "b64_bytes [s0, s1] = [push_bit 2 s0 OR drop_bit 4 s1]"
| "b64_bytes _ = []"

lemma sextet_lt:
  fixes a b :: "8 word"
  shows "drop_bit 2 a < 64" "push_bit 4 (a AND 3) OR drop_bit 4 b < 64" "push_bit 4 (a AND 3) < 64"
    "push_bit 2 (a AND 15) OR drop_bit 6 b < 64" "push_bit 2 (a AND 15) < 64" "a AND 63 < 64"
proof -
  have lt: "x < 64" if "take_bit 6 x = x" for x :: "8 word"
  proof -
    have "unat x = take_bit 6 (unat x)" using that by (metis unsigned_take_bit_eq)
    also have "\<dots> < 64" using take_bit_nat_less_exp [of 6 "unat x"] by simp
    finally show ?thesis by (simp add: word_less_nat_alt)
  qed
  have m: "(3 :: 8 word) = mask 2" "(15 :: 8 word) = mask 4" "(63 :: 8 word) = mask 6" by (simp_all add: mask_eq_exp_minus_1)
  show "drop_bit 2 a < 64" "push_bit 4 (a AND 3) OR drop_bit 4 b < 64" "push_bit 4 (a AND 3) < 64"
    "push_bit 2 (a AND 15) OR drop_bit 6 b < 64" "push_bit 2 (a AND 15) < 64" "a AND 63 < 64"
    unfolding m by (rule lt, rule bit_word_eqI, auto simp: bit_simps dest: bit_imp_le_length)+
qed

lemma sextet_join:
  fixes a b c :: "8 word"
  shows "push_bit 2 (drop_bit 2 a) OR drop_bit 4 (push_bit 4 (a AND 3) OR drop_bit 4 b) = a"
    "push_bit 2 (drop_bit 2 a) OR drop_bit 4 (push_bit 4 (a AND 3)) = a"
    "push_bit 4 (push_bit 4 (a AND 3) OR drop_bit 4 b) OR drop_bit 2 (push_bit 2 (b AND 15) OR drop_bit 6 c) = b"
    "push_bit 4 (push_bit 4 (a AND 3) OR drop_bit 4 b) OR drop_bit 2 (push_bit 2 (b AND 15)) = b"
    "push_bit 6 (push_bit 2 (b AND 15) OR drop_bit 6 c) OR (c AND 63) = c"
proof -
  have m: "(3 :: 8 word) = mask 2" "(15 :: 8 word) = mask 4" "(63 :: 8 word) = mask 6" by (simp_all add: mask_eq_exp_minus_1)
  have pd: "push_bit k (drop_bit k x) = x AND NOT (mask k)" for k and x :: "8 word"
    by (rule bit_word_eqI) (auto simp: bit_simps not_less)
  show "push_bit 2 (drop_bit 2 a) OR drop_bit 4 (push_bit 4 (a AND 3) OR drop_bit 4 b) = a"
    "push_bit 2 (drop_bit 2 a) OR drop_bit 4 (push_bit 4 (a AND 3)) = a"
    "push_bit 4 (push_bit 4 (a AND 3) OR drop_bit 4 b) OR drop_bit 2 (push_bit 2 (b AND 15) OR drop_bit 6 c) = b"
    "push_bit 4 (push_bit 4 (a AND 3) OR drop_bit 4 b) OR drop_bit 2 (push_bit 2 (b AND 15)) = b"
    "push_bit 6 (push_bit 2 (b AND 15) OR drop_bit 6 c) OR (c AND 63) = c"
    unfolding m push_bit_or pd by (rule bit_word_eqI, auto simp: bit_simps not_le not_less)+
qed

lemma b64_val_char: "i < 64 \<Longrightarrow> b64_val (b64_char i) = i"
proof -
  assume "i < 64"
  then have i: "unat i < 64" by (simp add: word_less_nat_alt)
  have d: "distinct B64_TABLE" "length B64_TABLE = 64" by (simp_all add: B64_TABLE_def)
  have "length (takeWhile (\<lambda>x. x \<noteq> B64_TABLE ! unat i) B64_TABLE) = unat i"
    using i d by (intro length_takeWhile_nth_distinct) auto
  then show ?thesis by (simp add: b64_val_def b64_char_def)
qed

lemma base64_decode: "b64_bytes (map b64_val (base64url_no_pad bs)) = bs"
  by (induction bs rule: base64url_no_pad.induct) (simp_all add: b64_val_char sextet_lt sextet_join del: push_bit_and push_bit_or drop_bit_or)

lemma base64_token_chars: "list_all token_char (base64url_no_pad bs)"
  by (induction bs rule: base64url_no_pad.induct) (simp_all add: b64_char_token sextet_lt del: push_bit_and)

lemma base64_length: "length (base64url_no_pad bs) = (length bs * 4 + 2) div 3"
  by (induction bs rule: base64url_no_pad.induct) auto

lemma base64_trim: "rs_trim (base64url_no_pad bs) = base64url_no_pad bs"
  using base64_token_chars [of bs] by (intro rs_trim_id) (auto simp: list_all_iff token_char_def)

lemma base64_utf8: "string_from_utf8 (str_bytes (base64url_no_pad bs)) = Some (base64url_no_pad bs)"
  using base64_token_chars [of bs] utf8_valid_ascii [of "base64url_no_pad bs"]
  by (auto simp: string_from_utf8_def list_all_iff token_char_def)

lemma token_save_load:
  assumes "fs_wf fs" "list_all normal_name d" "normal_name c" "rng \<noteq> []"
    "token_save (d @ [c]) (base64url_no_pad rng) fs = (Inr (), fs')"
  shows "token_load (d @ [c]) fs' = Inr (Some (base64url_no_pad rng))"
proof -
  let ?t = "(case file_stem c of Some s \<Rightarrow> s | None \<Rightarrow> c) @ ''.'' @ ''token.tmp''"
  have t: "normal_name ?t" using tmp_name_normal [OF assms(3), of "''token.tmp''"] by (simp add: has_nul_def)
  obtain fs1 fs2 where s: "create_dir_all d fs = Inr fs1"
    "fs_write (d @ [?t]) (str_bytes (base64url_no_pad rng)) fs1 = Inr fs2"
    "fs_rename (d @ [?t]) (d @ [c]) fs2 = Inr fs'"
    using assms(5) with_extension_snoc [OF assms(3), of d "''token.tmp''"]
    by (auto simp: token_save_def Let_def sr_bind_Inr_iff core_on_Inr_iff)
  note sv = save_via_tmp [OF assms(1-3) t s]
  have "base64url_no_pad rng \<noteq> []" using base64_length [of rng] assms(4) by (cases rng) auto
  then show ?thesis using load_normal [OF sv(2) assms(2,3) sv(1)] base64_trim base64_utf8
    by (simp add: token_load_def api_token_new_def)
qed

section \<open>Properties\<close>

definition demo_root :: fs where
  "demo_root q = (if q = [] then Some Dir else None)"

lemma demo_root_wf: "fs_wf demo_root"
  by (auto simp: fs_wf_def demo_root_def)

text \<open>The text form of an identity fingerprint determines the fingerprint: parsing what
  \<open>Display\<close> prints gives the fingerprint back, whatever parses has eight bytes, and two fingerprints
  with the same text are equal.\<close>

theorem fingerprint_text:
  assumes "length fp = 8" "length fp' = 8"
  shows "fingerprint_from_str (fingerprint_to_string fp) = Inr fp
    \<and> (fingerprint_to_string fp = fingerprint_to_string fp' \<longleftrightarrow> fp = fp')
    \<and> length (fingerprint_to_string fp) = 19
    \<and> (\<forall>s q. fingerprint_from_str s = Inr q \<longrightarrow> length q = 8)"
proof -
  obtain a b c d e f g h where "fp = [a, b, c, d, e, f, g, h]"
    using assms(1) by (auto simp: length_Suc_conv eval_nat_numeral)
  then have "length (fingerprint_to_string fp) = 19" by (simp add: fingerprint_to_string_def hex_byte_def)
  then show ?thesis
    using assms fingerprint_round_trip fingerprint_to_string_inject fingerprint_from_str_length by blast
qed

theorem fingerprint_text_witness:
  "fingerprint_from_str (fingerprint_to_string [0xa1, 0xb2, 0xc3, 0xd4, 0xe5, 0xf6, 0x78, 0x90])
     = Inr [0xa1, 0xb2, 0xc3, 0xd4, 0xe5, 0xf6, 0x78, 0x90]
   \<and> fingerprint_to_string [0xa1, 0xb2, 0xc3, 0xd4, 0xe5, 0xf6, 0x78, 0x90] = ''a1b2-c3d4-e5f6-7890''"
proof -
  have "fingerprint_to_string [0xa1, 0xb2, 0xc3, 0xd4, 0xe5, 0xf6, 0x78, 0x90] = ''a1b2-c3d4-e5f6-7890''"
    by code_simp
  then show ?thesis
    using fingerprint_text [of "[0xa1, 0xb2, 0xc3, 0xd4, 0xe5, 0xf6, 0x78, 0x90]" "[0,0,0,0,0,0,0,0]"] by simp
qed

text \<open>The short authentication string is six decimal digits and both sides of a pairing derive
  the same one: swapping the two public keys does not change it, whatever HKDF returns.\<close>

theorem compute_sas_agrees:
  "compute_sas hkdf a b nonce = compute_sas hkdf b a nonce
   \<and> length (compute_sas hkdf a b nonce) = SAS_DIGITS
   \<and> list_all is_ascii_digit (compute_sas hkdf a b nonce)"
  using compute_sas_sym compute_sas_shape by (simp add: SAS_DIGITS_def)

text \<open>The identity vault: when saving a 32-byte secret succeeds, loading returns exactly that
  secret, and apart from the directories leading to it, the key file and its temporary file, no path
  changed.\<close>

theorem vault_save_then_load:
  assumes "fs_wf fs" "list_all normal_name d" "normal_name c" "length secret = 32"
    "vault_save (d @ [c]) secret fs = (Inr (), fs')"
  shows "vault_load (d @ [c]) fs' = Inr (Some secret) \<and> fs_wf fs'
    \<and> (\<forall>q. q \<noteq> d @ [c] \<and> q \<noteq> with_extension (d @ [c]) ''key.tmp'' \<and> \<not> prefix q d \<longrightarrow> fs' q = fs q)"
proof -
  let ?t = "(case file_stem c of Some s \<Rightarrow> s | None \<Rightarrow> c) @ ''.'' @ ''key.tmp''"
  have t: "normal_name ?t" using tmp_name_normal [OF assms(3), of "''key.tmp''"] by (simp add: has_nul_def)
  have we: "with_extension (d @ [c]) ''key.tmp'' = d @ [?t]" by (rule with_extension_snoc [OF assms(3)])
  obtain fs1 fs2 where s: "create_dir_all d fs = Inr fs1" "fs_write (d @ [?t]) secret fs1 = Inr fs2"
    "fs_rename (d @ [?t]) (d @ [c]) fs2 = Inr fs'"
    using assms(5) we by (auto simp: vault_save_def Let_def sr_bind_Inr_iff core_on_Inr_iff)
  note sv = save_via_tmp [OF assms(1-3) t s]
  show ?thesis unfolding we using sv(2,3) vault_save_load [OF assms] by blast
qed

theorem vault_save_then_load_witness:
  "\<exists>fs'. vault_save [''identity.key''] (replicate 32 7) demo_root = (Inr (), fs')
     \<and> vault_load [''identity.key''] fs' = Inr (Some (replicate 32 7))"
proof -
  have "is_ok (fst (vault_save ([] @ [''identity.key'']) (replicate 32 7) demo_root))" by code_simp
  from is_ok_fst [OF this] obtain fs' where
    s: "vault_save ([] @ [''identity.key'']) (replicate 32 7) demo_root = (Inr (), fs')" by auto
  have "normal_name ''identity.key''" by code_simp
  then show ?thesis using vault_save_then_load [OF demo_root_wf _ _ _ s] s by simp
qed

text \<open>The API token vault: \<open>load_or_generate\<close> is stable. The token it returned is returned by
  every later call, whatever random bytes that call would draw, without touching the file system; and
  a generated token is 43 base64url characters that determine the 32 random bytes.\<close>

theorem token_load_or_generate_stable:
  assumes "fs_wf fs" "list_all normal_name d" "normal_name c" "length rng = 32"
    "token_load_or_generate rng (d @ [c]) fs = (Inr token, fs')"
  shows "token_load_or_generate rng' (d @ [c]) fs' = (Inr token, fs')
    \<and> (token_load (d @ [c]) fs = Inr None \<longrightarrow> length token = 43 \<and> b64_bytes (map b64_val token) = rng)"
proof (cases "token_load (d @ [c]) fs")
  case (Inr found)
  show ?thesis
  proof (cases found)
    case None
    then have sv: "token_save (d @ [c]) (base64url_no_pad rng) fs = (Inr (), fs')" "token = base64url_no_pad rng"
      using assms(5) Inr by (auto simp: token_load_or_generate_def Let_def sr_bind_Inr_iff)
    have "rng \<noteq> []" using assms(4) by auto
    from token_save_load [OF assms(1-3) this sv(1)]
    show ?thesis using assms(4) by (simp add: sv(2) token_load_or_generate_def base64_length base64_decode)
  next
    case (Some t)
    then show ?thesis using assms(5) Inr by (auto simp: token_load_or_generate_def)
  qed
qed (use assms(5) in \<open>simp add: token_load_or_generate_def\<close>)

theorem token_load_or_generate_stable_witness:
  "\<exists>token fs'. token_load_or_generate (replicate 32 7) [''api.token''] demo_root = (Inr token, fs')
     \<and> token_load_or_generate (replicate 32 9) [''api.token''] fs' = (Inr token, fs') \<and> length token = 43"
proof -
  have "is_ok (fst (token_load_or_generate (replicate 32 7) ([] @ [''api.token'']) demo_root))" by code_simp
  from is_ok_fst [OF this] obtain token fs' where
    s: "token_load_or_generate (replicate 32 7) ([] @ [''api.token'']) demo_root = (Inr token, fs')" by blast
  have "normal_name ''api.token''" "token_load ([] @ [''api.token'']) demo_root = Inr None" by code_simp+
  then show ?thesis using token_load_or_generate_stable [OF demo_root_wf _ _ _ s, of "replicate 32 9"] s by auto
qed

end
