(* ===== verification/Trust_Store.thy ===== *)
theory Trust_Store
  imports Identity
begin

text \<open>The trust store of \<open>core/src/trust/store.rs\<close> and \<open>schema.sql\<close>: native peers by fingerprint,
  LocalSend peers with their approval status, and LocalSend peers seen on the LAN. The three tables
  are association lists keyed by their primary key; policies and statuses are stored as text and
  parsed back on every read. \<open>now\<close> is the clock reading of a call. SQLite returns rows with equal
  sort keys in table order. An \<open>attempt_count\<close> beyond the 64-bit range is stored by SQLite as a
  floating-point value, which the reader refuses. The Unicode table behind \<open>char::to_lowercase\<close> for
  characters outside ASCII is the parameter \<open>lc\<close>.\<close>

section \<open>Data\<close>

datatype PeerPolicy = AutoAccept | Prompt | Block

fun policy_as_str :: "PeerPolicy \<Rightarrow> string" where
  "policy_as_str AutoAccept = ''auto_accept''"
| "policy_as_str Prompt = ''prompt''"
| "policy_as_str Block = ''block''"

definition policy_from_str :: "string \<Rightarrow> PeerPolicy core_result" where
  "policy_from_str s =
     (if s = ''auto_accept'' then Inr AutoAccept
      else if s = ''prompt'' then Inr Prompt
      else if s = ''block'' then Inr Block
      else Inl (TrustStoreError (''unknown policy \"'' @ s @ ''\"'')))"

record Peer =
  pe_fingerprint :: Fingerprint
  pe_pubkey :: bytes
  pe_label :: string
  pe_trusted_at :: int
  pe_last_seen :: "int option"
  pe_native_certificate_fingerprint :: "string option"
  pe_policy :: PeerPolicy

datatype LocalSendPeerStatus = PeerPending | PeerTrusted | PeerBlocked

fun status_as_str :: "LocalSendPeerStatus \<Rightarrow> string" where
  "status_as_str PeerPending = ''pending''"
| "status_as_str PeerTrusted = ''trusted''"
| "status_as_str PeerBlocked = ''blocked''"

definition status_from_str :: "string \<Rightarrow> LocalSendPeerStatus core_result" where
  "status_from_str s =
     (if s = ''pending'' then Inr PeerPending
      else if s = ''trusted'' then Inr PeerTrusted
      else if s = ''blocked'' then Inr PeerBlocked
      else Inl (TrustStoreError (''unknown LocalSend peer status \"'' @ s @ ''\"'')))"

record LocalSendPeer =
  lp_fingerprint :: string
  lp_alias :: string
  lp_label :: "string option"
  lp_status :: LocalSendPeerStatus
  lp_first_seen :: int
  lp_last_seen :: int
  lp_attempt_count :: u64
  lp_source_ip :: "string option"

record LocalSendLanPeer =
  ln_fingerprint :: string
  ln_alias :: string
  ln_source_ip :: string
  ln_port :: u16
  ln_protocol :: string
  ln_device_model :: "string option"
  ln_device_type :: "string option"
  ln_download :: bool
  ln_first_seen :: int
  ln_last_seen :: int

text \<open>The rows of the three tables, without their key.\<close>

record PeerRow =
  pw_pubkey :: bytes
  pw_label :: string
  pw_trusted_at :: int
  pw_last_seen :: "int option"
  pw_native_certificate_fingerprint :: "string option"
  pw_policy :: string

record LocalSendRow =
  lw_alias :: string
  lw_label :: "string option"
  lw_status :: string
  lw_first_seen :: int
  lw_last_seen :: int
  lw_attempt_count :: int
  lw_source_ip :: "string option"

record LanRow =
  nw_alias :: string
  nw_source_ip :: string
  nw_port :: int
  nw_protocol :: string
  nw_device_model :: "string option"
  nw_device_type :: "string option"
  nw_download :: int
  nw_first_seen :: int
  nw_last_seen :: int

record TrustStore =
  ts_peers :: "(string \<times> PeerRow) list"
  ts_localsend_peers :: "(string \<times> LocalSendRow) list"
  ts_localsend_lan_peers :: "(string \<times> LanRow) list"

definition trust_open_in_memory :: TrustStore where
  "trust_open_in_memory = \<lparr>ts_peers = [], ts_localsend_peers = [], ts_localsend_lan_peers = []\<rparr>"

text \<open>\<open>INSERT ... ON CONFLICT(key) DO UPDATE\<close>, and \<open>UPDATE ... WHERE key = ?\<close>.\<close>

fun upsert :: "'k \<Rightarrow> 'v \<Rightarrow> ('v \<Rightarrow> 'v) \<Rightarrow> ('k \<times> 'v) list \<Rightarrow> ('k \<times> 'v) list" where
  "upsert k new upd [] = [(k, new)]"
| "upsert k new upd ((k', v) # rows) =
     (if k' = k then (k', upd v) # rows else (k', v) # upsert k new upd rows)"

definition update_row :: "'k \<Rightarrow> ('v \<Rightarrow> 'v) \<Rightarrow> ('k \<times> 'v) list \<Rightarrow> ('k \<times> 'v) list" where
  "update_row k upd rows = map (\<lambda>(k', v). if k' = k then (k', upd v) else (k', v)) rows"

text \<open>\<open>ORDER BY last_seen DESC, first_seen DESC\<close>.\<close>

definition order_desc :: "('a \<Rightarrow> int) \<Rightarrow> ('a \<Rightarrow> int) \<Rightarrow> 'a list \<Rightarrow> 'a list" where
  "order_desc major minor rows = sort_key (\<lambda>r. - major r) (sort_key (\<lambda>r. - minor r) rows)"

section \<open>Validation\<close>

definition validate_certificate_fingerprint :: "string \<Rightarrow> unit core_result" where
  "validate_certificate_fingerprint value =
     (if length value = 64 \<and> list_all (\<lambda>ch. is_ascii_hexdigit ch \<and> \<not> (CHR ''A'' \<le> ch \<and> ch \<le> CHR ''Z'')) value
      then Inr ()
      else Inl (TrustStoreError ''native certificate fingerprint must be 64 lowercase hex characters''))"

definition char_to_lowercase :: "(string \<Rightarrow> string) \<Rightarrow> string \<Rightarrow> string" where
  "char_to_lowercase lc ch = (if is_ascii (hd ch) then map ascii_lower ch else lc ch)"

definition normalize_localsend_fingerprint :: "(string \<Rightarrow> string) \<Rightarrow> string \<Rightarrow> string core_result" where
  "normalize_localsend_fingerprint lc fingerprint =
     (let normalized = concat (map (char_to_lowercase lc)
            (filter (\<lambda>ch. ch \<noteq> '':'' \<and> ch \<noteq> ''-'') (utf8_chars fingerprint)))
      in if normalized = [] then Inl (TrustStoreError ''LocalSend fingerprint is required'')
         else Inr normalized)"

definition require_nonblank :: "string \<Rightarrow> string \<Rightarrow> unit core_result" where
  "require_nonblank label value =
     (if rs_trim value = [] then Inl (TrustStoreError (label @ '' is required'')) else Inr ())"

section \<open>Reading rows\<close>

definition row_to_peer :: "string \<times> PeerRow \<Rightarrow> Peer core_result" where
  "row_to_peer = (\<lambda>(key, row).
     res_bind (fingerprint_from_str key) (\<lambda>fingerprint.
     if length (pw_pubkey row) \<noteq> 32
     then Inl (TrustStoreError (''pubkey wrong length: '' @ show_nat (length (pw_pubkey row))))
     else res_map (\<lambda>policy.
       \<lparr>pe_fingerprint = fingerprint, pe_pubkey = pw_pubkey row, pe_label = pw_label row,
        pe_trusted_at = pw_trusted_at row, pe_last_seen = pw_last_seen row,
        pe_native_certificate_fingerprint = pw_native_certificate_fingerprint row, pe_policy = policy\<rparr>)
       (policy_from_str (pw_policy row))))"

definition row_to_localsend_peer :: "string \<times> LocalSendRow \<Rightarrow> LocalSendPeer core_result" where
  "row_to_localsend_peer = (\<lambda>(key, row).
     if lw_attempt_count row \<ge> 2 ^ 63 then Inl (Sqlite ''Invalid column type Real at index: 6, name: attempt_count'')
     else res_bind (status_from_str (lw_status row)) (\<lambda>status.
     if lw_attempt_count row < 0 then Inl (TrustStoreError ''LocalSend attempt_count is negative'')
     else Inr \<lparr>lp_fingerprint = key, lp_alias = lw_alias row, lp_label = lw_label row, lp_status = status,
       lp_first_seen = lw_first_seen row, lp_last_seen = lw_last_seen row,
       lp_attempt_count = word_of_int (lw_attempt_count row), lp_source_ip = lw_source_ip row\<rparr>))"

definition row_to_localsend_lan_peer :: "string \<times> LanRow \<Rightarrow> LocalSendLanPeer core_result" where
  "row_to_localsend_lan_peer = (\<lambda>(key, row).
     if \<not> (0 \<le> nw_port row \<and> nw_port row \<le> 65535)
     then Inl (TrustStoreError ''LocalSend LAN peer port is out of range'')
     else Inr \<lparr>ln_fingerprint = key, ln_alias = nw_alias row, ln_source_ip = nw_source_ip row,
       ln_port = word_of_int (nw_port row), ln_protocol = nw_protocol row,
       ln_device_model = nw_device_model row, ln_device_type = nw_device_type row,
       ln_download = (nw_download row \<noteq> 0), ln_first_seen = nw_first_seen row, ln_last_seen = nw_last_seen row\<rparr>)"

text \<open>A query for one key, as \<open>rows.next()\<close> reads it.\<close>

definition query_row :: "('k \<times> 'v \<Rightarrow> 'a core_result) \<Rightarrow> ('k \<times> 'v) list \<Rightarrow> 'k \<Rightarrow> 'a option core_result" where
  "query_row read rows key = (case map_of rows key of None \<Rightarrow> Inr None | Some row \<Rightarrow> res_map Some (read (key, row)))"

section \<open>Native peers\<close>

definition trust_get :: "TrustStore \<Rightarrow> Fingerprint \<Rightarrow> Peer option core_result" where
  "trust_get st fp = query_row row_to_peer (ts_peers st) (fingerprint_to_string fp)"

definition trust_peer :: "(bytes \<Rightarrow> bytes) \<Rightarrow> int \<Rightarrow> bytes \<Rightarrow> string \<Rightarrow> PeerPolicy
    \<Rightarrow> TrustStore \<Rightarrow> Peer core_result \<times> TrustStore" where
  "trust_peer sha256 now pubkey label policy st =
     (let fp = fingerprint_from_pubkey sha256 pubkey;
          st' = st\<lparr>ts_peers := upsert (fingerprint_to_string fp)
                  \<lparr>pw_pubkey = pubkey, pw_label = label, pw_trusted_at = now, pw_last_seen = None,
                   pw_native_certificate_fingerprint = None, pw_policy = policy_as_str policy\<rparr>
                  (\<lambda>row. row\<lparr>pw_label := label, pw_policy := policy_as_str policy\<rparr>) (ts_peers st)\<rparr>
      in (res_bind (trust_get st' fp) (ok_or (TrustStoreError ''peer disappeared after insert'')), st'))"

definition trust_with_native_certificate :: "(bytes \<Rightarrow> bytes) \<Rightarrow> int \<Rightarrow> bytes \<Rightarrow> string \<Rightarrow> PeerPolicy \<Rightarrow> string
    \<Rightarrow> TrustStore \<Rightarrow> Peer core_result \<times> TrustStore" where
  "trust_with_native_certificate sha256 now pubkey label policy cert st =
     (case validate_certificate_fingerprint cert of
        Inl e \<Rightarrow> (Inl e, st)
      | Inr _ \<Rightarrow>
       (let fp = fingerprint_from_pubkey sha256 pubkey;
            st' = st\<lparr>ts_peers := upsert (fingerprint_to_string fp)
                    \<lparr>pw_pubkey = pubkey, pw_label = label, pw_trusted_at = now, pw_last_seen = None,
                     pw_native_certificate_fingerprint = Some cert, pw_policy = policy_as_str policy\<rparr>
                    (\<lambda>row. row\<lparr>pw_label := label, pw_policy := policy_as_str policy,
                               pw_native_certificate_fingerprint := Some cert\<rparr>) (ts_peers st)\<rparr>
        in (res_bind (trust_get st' fp) (ok_or (TrustStoreError ''peer disappeared after insert'')), st')))"

definition untrust :: "Fingerprint \<Rightarrow> TrustStore \<Rightarrow> bool \<times> TrustStore" where
  "untrust fp st =
     (let key = fingerprint_to_string fp;
          kept = filter (\<lambda>(k, _). k \<noteq> key) (ts_peers st)
      in (length kept < length (ts_peers st), st\<lparr>ts_peers := kept\<rparr>))"

definition trust_list :: "TrustStore \<Rightarrow> Peer list core_result" where
  "trust_list st = res_mapM row_to_peer (sort_key (\<lambda>(_, row). pw_trusted_at row) (ts_peers st))"

definition trust_touch :: "int \<Rightarrow> Fingerprint \<Rightarrow> TrustStore \<Rightarrow> TrustStore" where
  "trust_touch now fp st =
     st\<lparr>ts_peers := update_row (fingerprint_to_string fp) (\<lambda>row. row\<lparr>pw_last_seen := Some now\<rparr>) (ts_peers st)\<rparr>"

section \<open>LocalSend peers\<close>

definition get_localsend_peer :: "(string \<Rightarrow> string) \<Rightarrow> TrustStore \<Rightarrow> string \<Rightarrow> LocalSendPeer option core_result" where
  "get_localsend_peer lc st fingerprint =
     res_bind (normalize_localsend_fingerprint lc fingerprint) (\<lambda>key.
       query_row row_to_localsend_peer (ts_localsend_peers st) key)"

text \<open>The two record operations differ in the status and the attempt count of a new row and in
  whether an existing row counts the attempt.\<close>

definition coalesce :: "'a option \<Rightarrow> 'a option \<Rightarrow> 'a option" where
  "coalesce a b = (case a of None \<Rightarrow> b | Some x \<Rightarrow> Some x)"

definition record_pending_localsend_peer :: "(string \<Rightarrow> string) \<Rightarrow> int \<Rightarrow> string \<Rightarrow> string \<Rightarrow> string option
    \<Rightarrow> TrustStore \<Rightarrow> LocalSendPeer core_result \<times> TrustStore" where
  "record_pending_localsend_peer lc now fingerprint alias source_ip st =
     (case res_bind (normalize_localsend_fingerprint lc fingerprint)
             (\<lambda>key. res_map (\<lambda>_. key) (require_nonblank ''LocalSend alias'' alias)) of
        Inl e \<Rightarrow> (Inl e, st)
      | Inr key \<Rightarrow>
       (let st' = st\<lparr>ts_localsend_peers := upsert key
                    \<lparr>lw_alias = alias, lw_label = None, lw_status = ''pending'', lw_first_seen = now,
                     lw_last_seen = now, lw_attempt_count = 1, lw_source_ip = source_ip\<rparr>
                    (\<lambda>row. row\<lparr>lw_alias := alias, lw_last_seen := now,
                               lw_attempt_count := lw_attempt_count row + 1,
                               lw_source_ip := coalesce source_ip (lw_source_ip row)\<rparr>)
                    (ts_localsend_peers st)\<rparr>
        in (res_bind (get_localsend_peer lc st' key)
              (ok_or (TrustStoreError ''LocalSend peer disappeared after insert'')), st')))"

definition record_trusted_localsend_peer :: "(string \<Rightarrow> string) \<Rightarrow> int \<Rightarrow> string \<Rightarrow> string \<Rightarrow> string option
    \<Rightarrow> TrustStore \<Rightarrow> LocalSendPeer core_result \<times> TrustStore" where
  "record_trusted_localsend_peer lc now fingerprint alias source_ip st =
     (case res_bind (normalize_localsend_fingerprint lc fingerprint)
             (\<lambda>key. res_map (\<lambda>_. key) (require_nonblank ''LocalSend alias'' alias)) of
        Inl e \<Rightarrow> (Inl e, st)
      | Inr key \<Rightarrow>
       (let st' = st\<lparr>ts_localsend_peers := upsert key
                    \<lparr>lw_alias = alias, lw_label = None, lw_status = ''trusted'', lw_first_seen = now,
                     lw_last_seen = now, lw_attempt_count = 0, lw_source_ip = source_ip\<rparr>
                    (\<lambda>row. row\<lparr>lw_alias := alias, lw_last_seen := now,
                               lw_source_ip := coalesce source_ip (lw_source_ip row)\<rparr>)
                    (ts_localsend_peers st)\<rparr>
        in (res_bind (get_localsend_peer lc st' key)
              (ok_or (TrustStoreError ''LocalSend peer disappeared after insert'')), st')))"

text \<open>Rows with the same times come in the order of the table, which is how the database's sorter leaves them; the
  query itself does not ask for it, and no property depends on it.\<close>

definition list_localsend_peers_by_status :: "TrustStore \<Rightarrow> LocalSendPeerStatus \<Rightarrow> LocalSendPeer list core_result" where
  "list_localsend_peers_by_status st status =
     res_mapM row_to_localsend_peer
       (order_desc (\<lambda>(_, row). lw_last_seen row) (\<lambda>(_, row). lw_first_seen row)
         (filter (\<lambda>(_, row). lw_status row = status_as_str status) (ts_localsend_peers st)))"

definition list_pending_localsend_peers :: "TrustStore \<Rightarrow> LocalSendPeer list core_result" where
  "list_pending_localsend_peers st = list_localsend_peers_by_status st PeerPending"

definition list_trusted_localsend_peers :: "TrustStore \<Rightarrow> LocalSendPeer list core_result" where
  "list_trusted_localsend_peers st = list_localsend_peers_by_status st PeerTrusted"

definition set_localsend_peer_status :: "(string \<Rightarrow> string) \<Rightarrow> int \<Rightarrow> string \<Rightarrow> LocalSendPeerStatus \<Rightarrow> string option
    \<Rightarrow> TrustStore \<Rightarrow> LocalSendPeer core_result \<times> TrustStore" where
  "set_localsend_peer_status lc now fingerprint status label st =
     (case normalize_localsend_fingerprint lc fingerprint of
        Inl e \<Rightarrow> (Inl e, st)
      | Inr key \<Rightarrow>
       (let label = (case map_option rs_trim label of Some v \<Rightarrow> if v = [] then None else Some v | None \<Rightarrow> None);
            updated = map_of (ts_localsend_peers st) key \<noteq> None;
            st' = (if updated
              then st\<lparr>ts_localsend_peers := update_row key (\<lambda>row. row\<lparr>lw_status := status_as_str status,
                     lw_label := coalesce label (lw_label row), lw_last_seen := now\<rparr>) (ts_localsend_peers st)\<rparr>
              else st\<lparr>ts_localsend_peers := ts_localsend_peers st @
                     [(key, \<lparr>lw_alias = [], lw_label = label, lw_status = status_as_str status, lw_first_seen = now,
                       lw_last_seen = now, lw_attempt_count = 0, lw_source_ip = None\<rparr>)]\<rparr>)
        in (res_bind (get_localsend_peer lc st' key)
              (ok_or (TrustStoreError ''LocalSend peer disappeared after update'')), st')))"

definition approve_localsend_peer :: "(string \<Rightarrow> string) \<Rightarrow> int \<Rightarrow> string \<Rightarrow> string option
    \<Rightarrow> TrustStore \<Rightarrow> LocalSendPeer core_result \<times> TrustStore" where
  "approve_localsend_peer lc now fingerprint label = set_localsend_peer_status lc now fingerprint PeerTrusted label"

definition deny_localsend_peer :: "(string \<Rightarrow> string) \<Rightarrow> int \<Rightarrow> string
    \<Rightarrow> TrustStore \<Rightarrow> LocalSendPeer core_result \<times> TrustStore" where
  "deny_localsend_peer lc now fingerprint = set_localsend_peer_status lc now fingerprint PeerBlocked None"

definition is_localsend_peer_blocked :: "(string \<Rightarrow> string) \<Rightarrow> TrustStore \<Rightarrow> string \<Rightarrow> bool core_result" where
  "is_localsend_peer_blocked lc st fingerprint =
     res_map (\<lambda>peer. case peer of Some p \<Rightarrow> lp_status p = PeerBlocked | None \<Rightarrow> False)
       (get_localsend_peer lc st fingerprint)"

definition trusted_localsend_fingerprints :: "TrustStore \<Rightarrow> string list core_result" where
  "trusted_localsend_fingerprints st =
     res_map (map lp_fingerprint) (list_localsend_peers_by_status st PeerTrusted)"

section \<open>LocalSend peers on the LAN\<close>

definition get_localsend_lan_peer :: "(string \<Rightarrow> string) \<Rightarrow> TrustStore \<Rightarrow> string \<Rightarrow> LocalSendLanPeer option core_result" where
  "get_localsend_lan_peer lc st fingerprint =
     res_bind (normalize_localsend_fingerprint lc fingerprint) (\<lambda>key.
       query_row row_to_localsend_lan_peer (ts_localsend_lan_peers st) key)"

definition record_localsend_lan_peer :: "(string \<Rightarrow> string) \<Rightarrow> int \<Rightarrow> LocalSendLanPeer
    \<Rightarrow> TrustStore \<Rightarrow> LocalSendLanPeer core_result \<times> TrustStore" where
  "record_localsend_lan_peer lc now peer st =
     (case res_bind (normalize_localsend_fingerprint lc (ln_fingerprint peer)) (\<lambda>key.
           res_bind (require_nonblank ''LocalSend alias'' (ln_alias peer)) (\<lambda>_.
           res_bind (require_nonblank ''LocalSend source IP'' (ln_source_ip peer)) (\<lambda>_.
           res_map (\<lambda>_. key) (require_nonblank ''LocalSend protocol'' (ln_protocol peer))))) of
        Inl e \<Rightarrow> (Inl e, st)
      | Inr key \<Rightarrow>
       (let fresh = \<lparr>nw_alias = ln_alias peer, nw_source_ip = ln_source_ip peer, nw_port = uint (ln_port peer),
                     nw_protocol = ln_protocol peer, nw_device_model = ln_device_model peer,
                     nw_device_type = ln_device_type peer, nw_download = (if ln_download peer then 1 else 0),
                     nw_first_seen = now, nw_last_seen = now\<rparr>;
            st' = st\<lparr>ts_localsend_lan_peers := upsert key fresh
                    (\<lambda>row. fresh\<lparr>nw_first_seen := nw_first_seen row\<rparr>) (ts_localsend_lan_peers st)\<rparr>
        in (res_bind (get_localsend_lan_peer lc st' key)
              (ok_or (TrustStoreError ''LocalSend LAN peer disappeared after insert'')), st')))"

definition list_localsend_lan_peers :: "TrustStore \<Rightarrow> LocalSendLanPeer list core_result" where
  "list_localsend_lan_peers st =
     res_mapM row_to_localsend_lan_peer
       (order_desc (\<lambda>(_, row). nw_last_seen row) (\<lambda>(_, row). nw_first_seen row) (ts_localsend_lan_peers st))"

section \<open>Tables\<close>

lemma policy_round_trip [simp]: "policy_from_str (policy_as_str p) = Inr p"
  by (cases p) (simp_all add: policy_from_str_def)

lemma status_round_trip [simp]: "status_from_str (status_as_str s) = Inr s"
  by (cases s) (simp_all add: status_from_str_def)

lemma status_as_str_inject [simp]: "status_as_str s = status_as_str t \<longleftrightarrow> s = t"
  by (metis status_round_trip sum.inject(2))

lemma map_of_upsert:
  "map_of (upsert k new upd rows) j =
     (if j = k then Some (case map_of rows k of None \<Rightarrow> new | Some v \<Rightarrow> upd v) else map_of rows j)"
  by (induction k new upd rows rule: upsert.induct) auto

lemma upsert_keys: "fst ` set (upsert k new upd rows) = insert k (fst ` set rows)"
  by (induction k new upd rows rule: upsert.induct) (auto simp: image_iff)

lemma upsert_distinct: "distinct (map fst rows) \<Longrightarrow> distinct (map fst (upsert k new upd rows))"
proof (induction k new upd rows rule: upsert.induct)
  case (2 k new upd k' v rows)
  then show ?case using upsert_keys [of k new upd rows] by (auto simp: set_map [symmetric] simp del: set_map)
qed simp

lemma upsert_all:
  assumes "\<forall>j v. (j, v) \<in> set rows \<longrightarrow> P j v" "Q k new" "\<And>v. P k v \<Longrightarrow> Q k (upd v)" "\<And>j v. P j v \<Longrightarrow> Q j v"
  shows "\<forall>j v. (j, v) \<in> set (upsert k new upd rows) \<longrightarrow> Q j v"
  using assms by (induction k new upd rows rule: upsert.induct) auto

lemma map_of_update_row:
  "map_of (update_row k upd rows) j = (if j = k then map_option upd (map_of rows k) else map_of rows j)"
  by (induction rows) (auto simp: update_row_def)

lemma update_row_keys [simp]: "map fst (update_row k upd rows) = map fst rows"
  by (induction rows) (auto simp: update_row_def)

lemma update_row_all:
  assumes "\<forall>j v. (j, v) \<in> set rows \<longrightarrow> P j v" "\<And>v. P k v \<Longrightarrow> P k (upd v)"
  shows "\<forall>j v. (j, v) \<in> set (update_row k upd rows) \<longrightarrow> P j v"
  using assms by (auto simp: update_row_def split: if_splits)

lemma set_order_desc [simp]: "set (order_desc f g rows) = set rows"
  by (simp add: order_desc_def)

section \<open>Normalised fingerprints\<close>

lemma while_all_cont:
  "\<forall>x \<in> set cs. is_cont x \<Longrightarrow> takeWhile is_cont cs = cs" "\<forall>x \<in> set cs. is_cont x \<Longrightarrow> dropWhile is_cont cs = []"
  by (simp_all add: takeWhile_eq_all_conv dropWhile_eq_Nil_conv)

lemma drop_take_cont [simp]: "dropWhile is_cont (takeWhile is_cont cs) = []"
  by (auto simp: dropWhile_eq_Nil_conv dest: set_takeWhileD)

lemma utf8_chars_append:
  "b = [] \<or> \<not> is_cont (hd b) \<Longrightarrow> utf8_chars (a @ b) = utf8_chars a @ utf8_chars b"
proof (induction a rule: utf8_chars.induct)
  case (2 c cs)
  show ?case
  proof (cases "\<forall>x \<in> set cs. is_cont x")
    case True
    moreover have "takeWhile is_cont b = []" "dropWhile is_cont b = b" using 2(2) by (cases b; simp)+
    ultimately show ?thesis by (simp add: takeWhile_append dropWhile_append while_all_cont)
  next
    case False
    then show ?thesis using 2 by (auto simp: takeWhile_append dropWhile_append)
  qed
qed simp

lemma utf8_valid_hd: "utf8_valid s \<Longrightarrow> s \<noteq> [] \<Longrightarrow> \<not> is_cont (hd s)"
  by (cases s) (auto simp: utf8_valid_def is_cont_def)

lemma utf8_chars_segs:
  "s = [] \<or> \<not> is_cont (hd s) \<Longrightarrow> seg \<in> set (utf8_chars s) \<Longrightarrow> utf8_chars seg = [seg] \<and> \<not> is_cont (hd seg)"
proof (induction s rule: utf8_chars.induct)
  case (2 c cs)
  have "dropWhile is_cont cs = [] \<or> \<not> is_cont (hd (dropWhile is_cont cs))"
    using hd_dropWhile by blast
  then show ?case using 2 by (auto simp: takeWhile_idem)
qed simp

text \<open>What the code relies on of Unicode lower-casing: a character outside ASCII becomes a non-empty
  text without the two separators, and lower-casing is idempotent.\<close>

definition unicode_lower_ok :: "(string \<Rightarrow> string) \<Rightarrow> bool" where
  "unicode_lower_ok lc \<longleftrightarrow> (\<forall>ch. utf8_chars ch = [ch] \<longrightarrow> \<not> is_ascii (hd ch) \<longrightarrow> \<not> is_cont (hd ch) \<longrightarrow>
     lc ch \<noteq> [] \<and> \<not> is_cont (hd (lc ch)) \<and>
     (\<forall>seg \<in> set (utf8_chars (lc ch)). seg \<noteq> '':'' \<and> seg \<noteq> ''-'' \<and> char_to_lowercase lc seg = seg))"

definition lower_fixed :: "(string \<Rightarrow> string) \<Rightarrow> string \<Rightarrow> bool" where
  "lower_fixed lc seg \<longleftrightarrow> seg \<noteq> '':'' \<and> seg \<noteq> ''-'' \<and> char_to_lowercase lc seg = seg"

lemma of_char_ascii_lower:
  "(of_char (ascii_lower c) :: nat) = (if 65 \<le> (of_char c :: nat) \<and> (of_char c :: nat) \<le> 90 then of_char c + 32 else of_char c)"
proof -
  have A: "(CHR ''A'' \<le> c \<and> c \<le> CHR ''Z'') = (65 \<le> (of_char c :: nat) \<and> (of_char c :: nat) \<le> 90)"
    by (simp add: less_eq_char_def)
  show ?thesis unfolding ascii_lower_def A by (auto simp: of_char_of)
qed

lemma ascii_lower_facts:
  "ascii_lower (ascii_lower c) = ascii_lower c" "is_ascii (ascii_lower c) = is_ascii c"
  "is_cont (ascii_lower c) = is_cont c"
  "ascii_lower c = CHR '':'' \<longleftrightarrow> c = CHR '':''" "ascii_lower c = CHR ''-'' \<longleftrightarrow> c = CHR ''-''"
proof -
  have i: "x = y \<longleftrightarrow> (of_char x :: nat) = of_char y" for x y :: char by simp
  show "ascii_lower (ascii_lower c) = ascii_lower c" "is_ascii (ascii_lower c) = is_ascii c"
    "is_cont (ascii_lower c) = is_cont c"
    "ascii_lower c = CHR '':'' \<longleftrightarrow> c = CHR '':''" "ascii_lower c = CHR ''-'' \<longleftrightarrow> c = CHR ''-''"
    unfolding i is_ascii_def is_cont_def by (auto simp: of_char_ascii_lower)
qed

lemma lowercase_seg:
  assumes lc: "unicode_lower_ok lc" and seg: "utf8_chars seg = [seg]" "\<not> is_cont (hd seg)" "seg \<noteq> '':''" "seg \<noteq> ''-''"
  shows "char_to_lowercase lc seg \<noteq> [] \<and> \<not> is_cont (hd (char_to_lowercase lc seg))
    \<and> (\<forall>x \<in> set (utf8_chars (char_to_lowercase lc seg)). lower_fixed lc x)"
proof (cases "is_ascii (hd seg)")
  case True
  obtain c cs where s: "seg = c # cs" using seg(1) by (cases seg) auto
  then have "\<forall>x \<in> set cs. is_cont x" using seg(1) by (simp add: takeWhile_eq_all_conv)
  then have "\<forall>x \<in> set (map ascii_lower cs). is_cont x" by (simp add: ascii_lower_facts)
  then have "utf8_chars (map ascii_lower seg) = [map ascii_lower seg]"
    by (simp add: s while_all_cont)
  moreover have "char_to_lowercase lc seg = map ascii_lower seg"
    "char_to_lowercase lc (map ascii_lower seg) = map ascii_lower seg"
    using True by (simp_all add: s char_to_lowercase_def ascii_lower_facts comp_def)
  moreover have "map ascii_lower seg \<noteq> '':''" "map ascii_lower seg \<noteq> ''-''"
    using seg(3,4) by (auto simp: s ascii_lower_facts)
  moreover have "map ascii_lower seg \<noteq> []" "\<not> is_cont (hd (map ascii_lower seg))"
    using seg(2) by (simp_all add: s ascii_lower_facts)
  ultimately show ?thesis by (simp add: lower_fixed_def)
next
  case False
  then show ?thesis using lc seg(1,2) by (simp add: unicode_lower_ok_def char_to_lowercase_def lower_fixed_def)
qed

lemma lowercase_segs:
  assumes lc: "unicode_lower_ok lc"
    and segs: "\<forall>seg \<in> set segs. utf8_chars seg = [seg] \<and> \<not> is_cont (hd seg) \<and> seg \<noteq> '':'' \<and> seg \<noteq> ''-''"
  shows "(concat (map (char_to_lowercase lc) segs) = [] \<or> \<not> is_cont (hd (concat (map (char_to_lowercase lc) segs))))
    \<and> (\<forall>x \<in> set (utf8_chars (concat (map (char_to_lowercase lc) segs))). lower_fixed lc x)"
  using segs
proof (induction segs)
  case (Cons seg segs)
  have one: "char_to_lowercase lc seg \<noteq> []" "\<not> is_cont (hd (char_to_lowercase lc seg))"
    "\<forall>x \<in> set (utf8_chars (char_to_lowercase lc seg)). lower_fixed lc x"
    using lowercase_seg [OF lc, of seg] Cons.prems by auto
  have rest: "concat (map (char_to_lowercase lc) segs) = [] \<or> \<not> is_cont (hd (concat (map (char_to_lowercase lc) segs)))"
    "\<forall>x \<in> set (utf8_chars (concat (map (char_to_lowercase lc) segs))). lower_fixed lc x"
    using Cons by auto
  show ?case using one rest utf8_chars_append [OF rest(1), of "char_to_lowercase lc seg"] by auto
qed simp

lemma normalize_idem:
  assumes lc: "unicode_lower_ok lc" and v: "utf8_valid s" and n: "normalize_localsend_fingerprint lc s = Inr k"
  shows "normalize_localsend_fingerprint lc k = Inr k"
proof -
  let ?segs = "filter (\<lambda>ch. ch \<noteq> '':'' \<and> ch \<noteq> ''-'') (utf8_chars s)"
  have k: "k = concat (map (char_to_lowercase lc) ?segs)" "k \<noteq> []"
    using n by (auto simp: normalize_localsend_fingerprint_def Let_def split: if_splits)
  have "\<forall>seg \<in> set ?segs. utf8_chars seg = [seg] \<and> \<not> is_cont (hd seg) \<and> seg \<noteq> '':'' \<and> seg \<noteq> ''-''"
    using utf8_chars_segs [of s] utf8_valid_hd [OF v] by auto
  from lowercase_segs [OF lc this] have fixed: "\<forall>x \<in> set (utf8_chars k). lower_fixed lc x" unfolding k(1) by blast
  then have "filter (\<lambda>ch. ch \<noteq> '':'' \<and> ch \<noteq> ''-'') (utf8_chars k) = utf8_chars k"
    by (auto simp: lower_fixed_def filter_id_conv)
  moreover have "map (char_to_lowercase lc) (utf8_chars k) = utf8_chars k"
    using fixed by (auto simp: lower_fixed_def intro: map_idI)
  ultimately show ?thesis using k(2) by (simp add: normalize_localsend_fingerprint_def)
qed

section \<open>Histories of operations\<close>

datatype TrustOp =
    TrustPeerOp bytes string PeerPolicy
  | TrustCertOp bytes string PeerPolicy string
  | UntrustOp Fingerprint
  | TouchOp Fingerprint
  | RecordPendingOp string string "string option"
  | RecordTrustedOp string string "string option"
  | RecordLanOp LocalSendLanPeer
  | ApproveOp string "string option"
  | DenyOp string

fun run_trust_op :: "(bytes \<Rightarrow> bytes) \<Rightarrow> (string \<Rightarrow> string) \<Rightarrow> int \<times> TrustOp \<Rightarrow> TrustStore \<Rightarrow> TrustStore" where
  "run_trust_op sha256 lc (now, TrustPeerOp pk label policy) st = snd (trust_peer sha256 now pk label policy st)"
| "run_trust_op sha256 lc (now, TrustCertOp pk label policy cert) st =
     snd (trust_with_native_certificate sha256 now pk label policy cert st)"
| "run_trust_op sha256 lc (now, UntrustOp fp) st = snd (untrust fp st)"
| "run_trust_op sha256 lc (now, TouchOp fp) st = trust_touch now fp st"
| "run_trust_op sha256 lc (now, RecordPendingOp fp alias ip) st = snd (record_pending_localsend_peer lc now fp alias ip st)"
| "run_trust_op sha256 lc (now, RecordTrustedOp fp alias ip) st = snd (record_trusted_localsend_peer lc now fp alias ip st)"
| "run_trust_op sha256 lc (now, RecordLanOp peer) st = snd (record_localsend_lan_peer lc now peer st)"
| "run_trust_op sha256 lc (now, ApproveOp fp label) st = snd (approve_localsend_peer lc now fp label st)"
| "run_trust_op sha256 lc (now, DenyOp fp) st = snd (deny_localsend_peer lc now fp st)"

definition run_trust_ops :: "(bytes \<Rightarrow> bytes) \<Rightarrow> (string \<Rightarrow> string) \<Rightarrow> (int \<times> TrustOp) list \<Rightarrow> TrustStore \<Rightarrow> TrustStore" where
  "run_trust_ops sha256 lc = fold (run_trust_op sha256 lc)"

text \<open>What the Rust types say of the arguments: keys are 32 bytes, texts are UTF-8.\<close>

fun trust_op_ok :: "TrustOp \<Rightarrow> bool" where
  "trust_op_ok (TrustPeerOp pk _ _) \<longleftrightarrow> length pk = 32"
| "trust_op_ok (TrustCertOp pk _ _ _) \<longleftrightarrow> length pk = 32"
| "trust_op_ok (RecordPendingOp fp _ _) \<longleftrightarrow> utf8_valid fp"
| "trust_op_ok (RecordTrustedOp fp _ _) \<longleftrightarrow> utf8_valid fp"
| "trust_op_ok (RecordLanOp peer) \<longleftrightarrow> utf8_valid (ln_fingerprint peer)"
| "trust_op_ok (ApproveOp fp _) \<longleftrightarrow> utf8_valid fp"
| "trust_op_ok (DenyOp fp) \<longleftrightarrow> utf8_valid fp"
| "trust_op_ok _ \<longleftrightarrow> True"

section \<open>The invariant\<close>

definition peer_row_ok :: "string \<Rightarrow> PeerRow \<Rightarrow> bool" where
  "peer_row_ok k row \<longleftrightarrow> (\<exists>fp. length fp = 8 \<and> k = fingerprint_to_string fp) \<and> length (pw_pubkey row) = 32
     \<and> (\<exists>p. pw_policy row = policy_as_str p)"

definition localsend_row_ok :: "(string \<Rightarrow> string) \<Rightarrow> nat \<Rightarrow> string \<Rightarrow> LocalSendRow \<Rightarrow> bool" where
  "localsend_row_ok lc n k row \<longleftrightarrow> normalize_localsend_fingerprint lc k = Inr k
     \<and> (\<exists>s. lw_status row = status_as_str s) \<and> 0 \<le> lw_attempt_count row \<and> lw_attempt_count row \<le> int n"

definition lan_row_ok :: "(string \<Rightarrow> string) \<Rightarrow> string \<Rightarrow> LanRow \<Rightarrow> bool" where
  "lan_row_ok lc k row \<longleftrightarrow> normalize_localsend_fingerprint lc k = Inr k \<and> 0 \<le> nw_port row \<and> nw_port row \<le> 65535"

text \<open>\<open>n\<close> bounds the number of operations so far.\<close>

definition trust_inv :: "(string \<Rightarrow> string) \<Rightarrow> nat \<Rightarrow> TrustStore \<Rightarrow> bool" where
  "trust_inv lc n st \<longleftrightarrow>
     distinct (map fst (ts_peers st)) \<and> distinct (map fst (ts_localsend_peers st))
     \<and> distinct (map fst (ts_localsend_lan_peers st))
     \<and> (\<forall>k row. (k, row) \<in> set (ts_peers st) \<longrightarrow> peer_row_ok k row)
     \<and> (\<forall>k row. (k, row) \<in> set (ts_localsend_peers st) \<longrightarrow> localsend_row_ok lc n k row)
     \<and> (\<forall>k row. (k, row) \<in> set (ts_localsend_lan_peers st) \<longrightarrow> lan_row_ok lc k row)"

lemma localsend_row_ok_mono: "localsend_row_ok lc n k row \<Longrightarrow> n \<le> m \<Longrightarrow> localsend_row_ok lc m k row"
  by (auto simp: localsend_row_ok_def)

lemma trust_inv_mono: "trust_inv lc n st \<Longrightarrow> n \<le> m \<Longrightarrow> trust_inv lc m st"
  using localsend_row_ok_mono unfolding trust_inv_def by blast

lemma trust_inv_peers:
  "trust_inv lc n st \<Longrightarrow> distinct (map fst rows) \<Longrightarrow> \<forall>k row. (k, row) \<in> set rows \<longrightarrow> peer_row_ok k row
   \<Longrightarrow> trust_inv lc n (st\<lparr>ts_peers := rows\<rparr>)"
  by (simp add: trust_inv_def)

lemma trust_inv_localsend:
  "trust_inv lc n st \<Longrightarrow> distinct (map fst rows) \<Longrightarrow> \<forall>k row. (k, row) \<in> set rows \<longrightarrow> localsend_row_ok lc n k row
   \<Longrightarrow> trust_inv lc n (st\<lparr>ts_localsend_peers := rows\<rparr>)"
  by (simp add: trust_inv_def)

lemma trust_inv_lan:
  "trust_inv lc n st \<Longrightarrow> distinct (map fst rows) \<Longrightarrow> \<forall>k row. (k, row) \<in> set rows \<longrightarrow> lan_row_ok lc k row
   \<Longrightarrow> trust_inv lc n (st\<lparr>ts_localsend_lan_peers := rows\<rparr>)"
  by (simp add: trust_inv_def)

lemma trust_inv_open: "trust_inv lc 0 trust_open_in_memory"
  by (simp add: trust_inv_def trust_open_in_memory_def)

text \<open>Documented behaviour of SHA-256: a 32-byte digest.\<close>

definition sha256_ok :: "(bytes \<Rightarrow> bytes) \<Rightarrow> bool" where
  "sha256_ok sha256 \<longleftrightarrow> (\<forall>bs. length (sha256 bs) = 32)"

lemma fingerprint_length: "sha256_ok sha256 \<Longrightarrow> length (fingerprint_from_pubkey sha256 pk) = 8"
  by (simp add: fingerprint_from_pubkey_def sha256_ok_def)

lemma trust_peer_inv:
  assumes "trust_inv lc n st" "sha256_ok sha256" "length pk = 32"
  shows "trust_inv lc n (snd (trust_peer sha256 now pk label policy st))"
    "trust_inv lc n (snd (trust_with_native_certificate sha256 now pk label policy cert st))"
proof -
  have rows: "distinct (map fst (ts_peers st))" "\<forall>k row. (k, row) \<in> set (ts_peers st) \<longrightarrow> peer_row_ok k row"
    using assms(1) by (simp_all add: trust_inv_def)
  have up: "trust_inv lc n (st\<lparr>ts_peers := upsert (fingerprint_to_string (fingerprint_from_pubkey sha256 pk)) new upd (ts_peers st)\<rparr>)"
    if "pw_pubkey new = pk" "pw_policy new = policy_as_str policy"
      "\<And>row. pw_pubkey (upd row) = pw_pubkey row" "\<And>row. pw_policy (upd row) = policy_as_str policy" for new upd
    by (intro trust_inv_peers assms(1) upsert_distinct rows(1) upsert_all [OF rows(2)])
      (use that assms(3) fingerprint_length [OF assms(2)] in \<open>auto simp: peer_row_ok_def\<close>)
  show "trust_inv lc n (snd (trust_peer sha256 now pk label policy st))"
    "trust_inv lc n (snd (trust_with_native_certificate sha256 now pk label policy cert st))"
    using assms(1) by (auto simp: trust_peer_def trust_with_native_certificate_def Let_def intro!: up split: sum.splits)
qed

lemma untrust_touch_inv:
  assumes "trust_inv lc n st"
  shows "trust_inv lc n (snd (untrust fp st))" "trust_inv lc n (trust_touch now fp st)"
proof -
  have rows: "distinct (map fst (ts_peers st))" "\<forall>k row. (k, row) \<in> set (ts_peers st) \<longrightarrow> peer_row_ok k row"
    using assms by (simp_all add: trust_inv_def)
  show "trust_inv lc n (snd (untrust fp st))"
    using rows by (auto simp: untrust_def Let_def intro!: trust_inv_peers assms distinct_map_filter)
  show "trust_inv lc n (trust_touch now fp st)"
    unfolding trust_touch_def
    by (intro trust_inv_peers assms update_row_all rows(2)) (use rows in \<open>auto simp: peer_row_ok_def\<close>)
qed

lemma trust_record_inv:
  assumes "trust_inv lc n st" "unicode_lower_ok lc" "utf8_valid fp"
  shows "trust_inv lc (Suc n) (snd (record_pending_localsend_peer lc now fp alias ip st))"
    "trust_inv lc (Suc n) (snd (record_trusted_localsend_peer lc now fp alias ip st))"
proof -
  have inv: "trust_inv lc (Suc n) st" using assms(1) by (rule trust_inv_mono) simp
  have rows: "distinct (map fst (ts_localsend_peers st))"
    "\<forall>k row. (k, row) \<in> set (ts_localsend_peers st) \<longrightarrow> localsend_row_ok lc n k row"
    using assms(1) by (simp_all add: trust_inv_def)
  have up: "trust_inv lc (Suc n) (st\<lparr>ts_localsend_peers := upsert key new upd (ts_localsend_peers st)\<rparr>)"
    if "normalize_localsend_fingerprint lc fp = Inr key" "localsend_row_ok lc (Suc n) key new"
      "\<And>row. lw_status (upd row) = lw_status row"
      and bump: "\<And>row. lw_attempt_count (upd row) \<in> {lw_attempt_count row, lw_attempt_count row + 1}" for key new upd
  proof (intro trust_inv_localsend inv upsert_distinct rows(1) upsert_all [OF rows(2)] that(2))
    show "localsend_row_ok lc (Suc n) key (upd row)" if "localsend_row_ok lc n key row" for row
      using that \<open>\<And>row. lw_status (upd row) = lw_status row\<close> bump [of row] by (auto simp: localsend_row_ok_def)
  qed (auto intro: localsend_row_ok_mono)
  note idem = normalize_idem [OF assms(2,3)]
  have "\<exists>s. ''pending'' = status_as_str s" "\<exists>s. ''trusted'' = status_as_str s"
    by (rule exI [of _ PeerPending], simp) (rule exI [of _ PeerTrusted], simp)
  then show "trust_inv lc (Suc n) (snd (record_pending_localsend_peer lc now fp alias ip st))"
    "trust_inv lc (Suc n) (snd (record_trusted_localsend_peer lc now fp alias ip st))"
    using inv by (auto simp: record_pending_localsend_peer_def record_trusted_localsend_peer_def Let_def
        localsend_row_ok_def res_iffs dest: idem intro!: up split: sum.splits)
qed

lemma set_status_inv:
  assumes "trust_inv lc n st" "unicode_lower_ok lc" "utf8_valid fp"
  shows "trust_inv lc n (snd (set_localsend_peer_status lc now fp status label st))"
proof (cases "normalize_localsend_fingerprint lc fp")
  case (Inr key)
  have rows: "distinct (map fst (ts_localsend_peers st))"
    "\<forall>k row. (k, row) \<in> set (ts_localsend_peers st) \<longrightarrow> localsend_row_ok lc n k row"
    using assms(1) by (simp_all add: trust_inv_def)
  have key: "normalize_localsend_fingerprint lc key = Inr key" by (rule normalize_idem [OF assms(2,3) Inr])
  have upd: "trust_inv lc n (st\<lparr>ts_localsend_peers := update_row key upd (ts_localsend_peers st)\<rparr>)"
    if "\<And>row. lw_status (upd row) = status_as_str status" "\<And>row. lw_attempt_count (upd row) = lw_attempt_count row" for upd
    by (intro trust_inv_localsend assms(1) update_row_all rows(2))
      (use that rows(1) in \<open>auto simp: localsend_row_ok_def\<close>)
  have new: "trust_inv lc n (st\<lparr>ts_localsend_peers := ts_localsend_peers st @ [(key, row)]\<rparr>)"
    if "map_of (ts_localsend_peers st) key = None" "lw_status row = status_as_str status" "lw_attempt_count row = 0" for row
    using that key rows(2)
    by (intro trust_inv_localsend assms(1)) (auto simp: rows(1) localsend_row_ok_def map_of_eq_None_iff)
  show ?thesis by (auto simp: set_localsend_peer_status_def Inr Let_def intro!: upd new)
qed (use assms(1) in \<open>simp add: set_localsend_peer_status_def\<close>)

lemma record_lan_inv:
  assumes "trust_inv lc n st" "unicode_lower_ok lc" "utf8_valid (ln_fingerprint peer)"
  shows "trust_inv lc n (snd (record_localsend_lan_peer lc now peer st))"
proof -
  have rows: "distinct (map fst (ts_localsend_lan_peers st))"
    "\<forall>k row. (k, row) \<in> set (ts_localsend_lan_peers st) \<longrightarrow> lan_row_ok lc k row"
    using assms(1) by (simp_all add: trust_inv_def)
  have port: "uint (ln_port peer) \<le> 65535" using uint_lt2p [of "ln_port peer"] by simp
  have up: "trust_inv lc n (st\<lparr>ts_localsend_lan_peers := upsert key new upd (ts_localsend_lan_peers st)\<rparr>)"
    if "normalize_localsend_fingerprint lc (ln_fingerprint peer) = Inr key" "nw_port new = uint (ln_port peer)"
      "\<And>row. nw_port (upd row) = uint (ln_port peer)" for key new upd
    by (intro trust_inv_lan assms(1) upsert_distinct rows(1) upsert_all [OF rows(2)])
      (use that port normalize_idem [OF assms(2,3) that(1)] in \<open>auto simp: lan_row_ok_def\<close>)
  show ?thesis using assms(1)
    by (auto simp: record_localsend_lan_peer_def Let_def res_iffs intro!: up split: sum.splits)
qed

lemma run_trust_op_inv:
  assumes "trust_inv lc n st" "unicode_lower_ok lc" "sha256_ok sha256" "trust_op_ok (snd nop)"
  shows "trust_inv lc (Suc n) (run_trust_op sha256 lc nop st)"
proof -
  obtain now t where nop: "nop = (now, t)" by fastforce
  have S: "trust_inv lc n st' \<Longrightarrow> trust_inv lc (Suc n) st'" for st' by (erule trust_inv_mono) simp
  show ?thesis
    using assms unfolding nop
    by (cases t) (auto simp: approve_localsend_peer_def deny_localsend_peer_def
      intro: S trust_record_inv record_lan_inv set_status_inv trust_peer_inv untrust_touch_inv)
qed

lemma run_trust_ops_inv:
  assumes "trust_inv lc n st" "unicode_lower_ok lc" "sha256_ok sha256" "list_all (\<lambda>(_, t). trust_op_ok t) ops"
  shows "trust_inv lc (n + length ops) (run_trust_ops sha256 lc ops st)"
  using assms(1,4)
proof (induction ops arbitrary: n st)
  case (Cons nop ops)
  have "trust_op_ok (snd nop)" using Cons.prems(2) by (auto split: prod.splits)
  from run_trust_op_inv [OF Cons.prems(1) assms(2,3) this]
  have "trust_inv lc (Suc n + length ops) (run_trust_ops sha256 lc ops (run_trust_op sha256 lc nop st))"
    using Cons.prems(2) by (intro Cons.IH) auto
  then show ?case by (simp add: run_trust_ops_def)
qed (simp add: run_trust_ops_def)

section \<open>Reads\<close>

lemma row_to_peer_ok:
  assumes "peer_row_ok (fingerprint_to_string fp) row" "length fp = 8"
  shows "\<exists>p. row_to_peer (fingerprint_to_string fp, row) = Inr p \<and> pe_fingerprint p = fp \<and> pe_pubkey p = pw_pubkey row
    \<and> pe_label p = pw_label row \<and> pe_trusted_at p = pw_trusted_at row \<and> pe_last_seen p = pw_last_seen row
    \<and> pe_native_certificate_fingerprint p = pw_native_certificate_fingerprint row
    \<and> policy_as_str (pe_policy p) = pw_policy row"
  using assms by (auto simp: peer_row_ok_def row_to_peer_def fingerprint_round_trip)

lemma row_to_peer_total: "peer_row_ok k row \<Longrightarrow> is_ok (row_to_peer (k, row))"
  by (auto simp: peer_row_ok_def row_to_peer_def fingerprint_round_trip)

lemma row_to_localsend_ok:
  assumes "localsend_row_ok lc n k row" "n < 2 ^ 63"
  shows "\<exists>p. row_to_localsend_peer (k, row) = Inr p \<and> lp_fingerprint p = k \<and> status_as_str (lp_status p) = lw_status row"
  using assms by (auto simp: localsend_row_ok_def row_to_localsend_peer_def)

lemma row_to_lan_total: "lan_row_ok lc k row \<Longrightarrow> is_ok (row_to_localsend_lan_peer (k, row))"
  by (simp add: lan_row_ok_def row_to_localsend_lan_peer_def)

lemma res_mapM_is_ok: "\<forall>x \<in> set xs. is_ok (f x) \<Longrightarrow> is_ok (res_mapM f xs)"
  by (induction xs) (auto simp: is_ok_iff)

definition localsend_status :: "TrustStore \<Rightarrow> string \<Rightarrow> string option" where
  "localsend_status st k = map_option lw_status (map_of (ts_localsend_peers st) k)"

lemma get_localsend_status:
  assumes inv: "trust_inv lc n st" "n < 2 ^ 63" and k: "normalize_localsend_fingerprint lc fp = Inr k"
  shows "\<exists>p. get_localsend_peer lc st fp = Inr p
    \<and> map_option (status_as_str \<circ> lp_status) p = localsend_status st k"
proof (cases "map_of (ts_localsend_peers st) k")
  case (Some row)
  have "localsend_row_ok lc n k row" using inv(1) map_of_SomeD [OF Some] by (simp add: trust_inv_def)
  from row_to_localsend_ok [OF this inv(2)] show ?thesis
    using k Some by (auto simp: get_localsend_peer_def query_row_def localsend_status_def)
qed (use k in \<open>simp add: get_localsend_peer_def query_row_def localsend_status_def\<close>)

lemma list_by_status_ok:
  assumes inv: "trust_inv lc n st" "n < 2 ^ 63"
  shows "\<exists>ps. list_localsend_peers_by_status st s = Inr ps
    \<and> set (map lp_fingerprint ps) = {k. localsend_status st k = Some (status_as_str s)}"
proof -
  let ?rows = "order_desc (\<lambda>(_, row). lw_last_seen row) (\<lambda>(_, row). lw_first_seen row)
      (filter (\<lambda>(_, row). lw_status row = status_as_str s) (ts_localsend_peers st))"
  have ok: "\<forall>k row. (k, row) \<in> set ?rows \<longrightarrow> (\<exists>p. row_to_localsend_peer (k, row) = Inr p \<and> lp_fingerprint p = k)"
    using inv row_to_localsend_ok unfolding trust_inv_def by auto blast
  have "\<forall>r \<in> set ?rows. is_ok (row_to_localsend_peer r)" using ok by (auto simp: is_ok_iff)
  from res_mapM_is_ok [OF this] obtain ps where ps: "list_localsend_peers_by_status st s = Inr ps"
    by (auto simp: is_ok_iff list_localsend_peers_by_status_def)
  then have "list_all2 (\<lambda>r p. row_to_localsend_peer r = Inr p) ?rows ps"
    by (simp add: list_localsend_peers_by_status_def res_mapM_Inr_iff)
  moreover have "row_to_localsend_peer r = Inr p \<Longrightarrow> lp_fingerprint p = fst r" for r p
    by (cases r) (auto simp: row_to_localsend_peer_def res_iffs split: if_splits)
  ultimately have "list_all2 (\<lambda>r p. lp_fingerprint p = fst r) ?rows ps"
    by (auto elim: list_all2_mono)
  then have "map lp_fingerprint ps = map fst ?rows"
    by (auto simp: list_all2_conv_all_nth intro: nth_equalityI)
  then have "set (map lp_fingerprint ps) = fst ` set ?rows" by (metis set_map)
  moreover have "distinct (map fst (ts_localsend_peers st))" using inv(1) by (simp add: trust_inv_def)
  then have "fst ` set ?rows = {k. localsend_status st k = Some (status_as_str s)}"
    by (force simp: localsend_status_def)
  ultimately show ?thesis using ps by blast
qed

lemma query_row_ok:
  "(\<And>k row. (k, row) \<in> set rows \<Longrightarrow> is_ok (read (k, row))) \<Longrightarrow> is_ok (query_row read rows key)"
  using map_of_SomeD [of rows key] by (cases "map_of rows key") (auto simp: query_row_def is_ok_iff res_map_Inr_iff)

lemma localsend_status_simps [simp]:
  "localsend_status (st\<lparr>ts_peers := x\<rparr>) k = localsend_status st k"
  "localsend_status (st\<lparr>ts_localsend_lan_peers := y\<rparr>) k = localsend_status st k"
  "localsend_status (st\<lparr>ts_localsend_peers := upsert key new upd (ts_localsend_peers st)\<rparr>) k =
     (if k = key then Some (case map_of (ts_localsend_peers st) key of None \<Rightarrow> lw_status new | Some r \<Rightarrow> lw_status (upd r))
      else localsend_status st k)"
  by (simp_all add: localsend_status_def map_of_upsert split: option.splits)

lemma set_status_status:
  "localsend_status (snd (set_localsend_peer_status lc now fp status label st)) k =
     (if normalize_localsend_fingerprint lc fp = Inr k then Some (status_as_str status) else localsend_status st k)"
proof (cases "normalize_localsend_fingerprint lc fp")
  case (Inr key)
  then show ?thesis
    by (auto simp: set_localsend_peer_status_def Let_def localsend_status_def map_of_update_row map_add_def split: option.splits)
qed (simp add: set_localsend_peer_status_def)

lemma record_pending_status:
  "localsend_status (snd (record_pending_localsend_peer lc now fp alias ip st)) k =
     (if normalize_localsend_fingerprint lc fp = Inr k \<and> \<not> blank alias \<and> localsend_status st k = None
      then Some ''pending'' else localsend_status st k)"
  by (cases "normalize_localsend_fingerprint lc fp")
    (auto simp: record_pending_localsend_peer_def Let_def require_nonblank_def blank_def localsend_status_def map_of_upsert
      split: option.splits)

lemma record_trusted_status:
  "localsend_status (snd (record_trusted_localsend_peer lc now fp alias ip st)) k =
     (if normalize_localsend_fingerprint lc fp = Inr k \<and> \<not> blank alias \<and> localsend_status st k = None
      then Some ''trusted'' else localsend_status st k)"
  by (cases "normalize_localsend_fingerprint lc fp")
    (auto simp: record_trusted_localsend_peer_def Let_def require_nonblank_def blank_def localsend_status_def map_of_upsert
      split: option.splits)

lemma record_lan_status: "localsend_status (snd (record_localsend_lan_peer lc now peer st)) k = localsend_status st k"
  by (simp add: record_localsend_lan_peer_def Let_def split: sum.splits)

lemma native_ops_status:
  "localsend_status (snd (trust_peer sha256 now pk label policy st)) k = localsend_status st k"
  "localsend_status (snd (trust_with_native_certificate sha256 now pk label policy cert st)) k = localsend_status st k"
  "localsend_status (snd (untrust fp st)) k = localsend_status st k"
  "localsend_status (trust_touch now fp st) k = localsend_status st k"
  by (simp_all add: trust_peer_def trust_with_native_certificate_def untrust_def trust_touch_def Let_def split: sum.splits)

definition status_after :: "(string \<Rightarrow> string) \<Rightarrow> TrustOp \<Rightarrow> string \<Rightarrow> string option \<Rightarrow> string option" where
  "status_after lc t k before = (case t of
     ApproveOp fp _ \<Rightarrow> if normalize_localsend_fingerprint lc fp = Inr k then Some ''trusted'' else before
   | DenyOp fp \<Rightarrow> if normalize_localsend_fingerprint lc fp = Inr k then Some ''blocked'' else before
   | RecordPendingOp fp alias _ \<Rightarrow>
       if normalize_localsend_fingerprint lc fp = Inr k \<and> \<not> blank alias \<and> before = None then Some ''pending'' else before
   | RecordTrustedOp fp alias _ \<Rightarrow>
       if normalize_localsend_fingerprint lc fp = Inr k \<and> \<not> blank alias \<and> before = None then Some ''trusted'' else before
   | _ \<Rightarrow> before)"

lemma run_trust_op_status:
  "localsend_status (run_trust_op sha256 lc (now, t) st) k = status_after lc t k (localsend_status st k)"
  by (cases t) (simp_all add: status_after_def native_ops_status record_pending_status record_trusted_status
    record_lan_status set_status_status approve_localsend_peer_def deny_localsend_peer_def)

lemma blocked_kept:
  assumes "localsend_status st k = Some ''blocked''"
    "\<forall>now q l. (now, ApproveOp q l) \<in> set ops \<longrightarrow> normalize_localsend_fingerprint lc q \<noteq> Inr k"
  shows "localsend_status (run_trust_ops sha256 lc ops st) k = Some ''blocked''"
  using assms
proof (induction ops arbitrary: st)
  case (Cons nop ops)
  obtain now t where nop: "nop = (now, t)" by fastforce
  have "localsend_status (run_trust_op sha256 lc nop st) k = Some ''blocked''"
    using Cons.prems unfolding nop run_trust_op_status by (auto simp: status_after_def split: TrustOp.splits)
  then show ?case using Cons by (auto simp: run_trust_ops_def)
qed (simp add: run_trust_ops_def)

lemma run_trust_ops_append: "run_trust_ops sha256 lc (xs @ ys) st = run_trust_ops sha256 lc ys (run_trust_ops sha256 lc xs st)"
  by (simp add: run_trust_ops_def)

lemma is_blocked_iff:
  assumes "trust_inv lc n st" "n < 2 ^ 63" "normalize_localsend_fingerprint lc fp = Inr k"
  shows "is_localsend_peer_blocked lc st fp = Inr (localsend_status st k = Some ''blocked'')"
proof -
  obtain p where p: "get_localsend_peer lc st fp = Inr p" "map_option (status_as_str \<circ> lp_status) p = localsend_status st k"
    using get_localsend_status [OF assms] by blast
  have b: "status_as_str s = ''blocked'' \<longleftrightarrow> s = PeerBlocked" for s by (cases s) simp_all
  show ?thesis by (cases p) (simp_all add: is_localsend_peer_blocked_def p(1) p(2) [symmetric] b)
qed

lemma trust_get_eq:
  "map_of (ts_peers st) (fingerprint_to_string fp) = None \<Longrightarrow> trust_get st fp = Inr None"
  "map_of (ts_peers st) (fingerprint_to_string fp) = Some row \<Longrightarrow>
     trust_get st fp = res_map Some (row_to_peer (fingerprint_to_string fp, row))"
  by (simp_all add: trust_get_def query_row_def)

lemma trust_get_row:
  assumes "trust_inv lc n st" "length fp = 8"
  shows "trust_get st fp = Inr None \<and> map_of (ts_peers st) (fingerprint_to_string fp) = None
    \<or> (\<exists>row p. map_of (ts_peers st) (fingerprint_to_string fp) = Some row \<and> trust_get st fp = Inr (Some p)
        \<and> row_to_peer (fingerprint_to_string fp, row) = Inr p)"
proof (cases "map_of (ts_peers st) (fingerprint_to_string fp)")
  case (Some row)
  have "peer_row_ok (fingerprint_to_string fp) row" using assms(1) map_of_SomeD [OF Some] by (simp add: trust_inv_def)
  then show ?thesis using row_to_peer_total Some trust_get_eq(2) [OF Some] by (fastforce simp: is_ok_iff)
qed (simp add: trust_get_eq)

lemma row_to_peer_label_policy:
  assumes "row_to_peer (k, row) = Inr p"
  shows "row_to_peer (k, row\<lparr>pw_label := label, pw_policy := policy_as_str policy\<rparr>) = Inr (p\<lparr>pe_label := label, pe_policy := policy\<rparr>)"
  using assms by (auto simp: row_to_peer_def res_iffs split: if_splits)

lemma untrust_get:
  "length fp = 8 \<Longrightarrow> length fp' = 8 \<Longrightarrow>
   trust_get (snd (untrust fp st)) fp' = (if fp' = fp then Inr None else trust_get st fp')"
proof -
  assume l: "length fp = 8" "length fp' = 8"
  have "map_of (filter (\<lambda>(k, _). k \<noteq> key) rows) j = (if j = key then None else map_of rows j)" for key j and rows :: "(string \<times> PeerRow) list"
    by (induction rows) auto
  then show ?thesis using fingerprint_to_string_inject [OF l]
    by (auto simp: trust_get_def query_row_def untrust_def Let_def)
qed

lemma trust_peer_get:
  assumes "unicode_lower_ok lc" "sha256_ok sha256" "list_all (\<lambda>(_, t). trust_op_ok t) ops" "length pk = 32"
    and st: "st = run_trust_ops sha256 lc ops trust_open_in_memory"
    and fp: "fp = fingerprint_from_pubkey sha256 pk"
    and tr: "trust_peer sha256 now pk label policy st = (r, st')"
  shows "\<exists>p. r = Inr p \<and> trust_get st' fp = Inr (Some p)
    \<and> (\<forall>old. trust_get st fp = Inr (Some old) \<longrightarrow> p = old\<lparr>pe_label := label, pe_policy := policy\<rparr>)
    \<and> (trust_get st fp = Inr None \<longrightarrow> p = \<lparr>pe_fingerprint = fp, pe_pubkey = pk, pe_label = label, pe_trusted_at = now,
         pe_last_seen = None, pe_native_certificate_fingerprint = None, pe_policy = policy\<rparr>)
    \<and> (\<forall>q. length q = 8 \<and> q \<noteq> fp \<longrightarrow> trust_get st' q = trust_get st q)
    \<and> fst (untrust fp st') \<and> trust_get (snd (untrust fp st')) fp = Inr None"
proof -
  let ?k = "fingerprint_to_string fp"
  let ?new = "\<lparr>pw_pubkey = pk, pw_label = label, pw_trusted_at = now, pw_last_seen = None,
    pw_native_certificate_fingerprint = None, pw_policy = policy_as_str policy\<rparr>"
  have len: "length fp = 8" using fingerprint_length [OF assms(2)] by (simp add: fp)
  have inv: "trust_inv lc (length ops) st"
    using run_trust_ops_inv [OF trust_inv_open assms(1-3)] by (simp add: st)
  have st': "st' = st\<lparr>ts_peers := upsert ?k ?new (\<lambda>row. row\<lparr>pw_label := label, pw_policy := policy_as_str policy\<rparr>) (ts_peers st)\<rparr>"
    and r: "r = res_bind (trust_get st' fp) (ok_or (TrustStoreError ''peer disappeared after insert''))"
    using tr by (auto simp: trust_peer_def Let_def fp)
  have others: "trust_get st' q = trust_get st q" if "length q = 8" "q \<noteq> fp" for q
    using that len fingerprint_to_string_inject by (auto simp: st' trust_get_def query_row_def map_of_upsert)
  have gone: "fst (untrust fp st')" "trust_get (snd (untrust fp st')) fp = Inr None"
  proof -
    have "?k \<in> fst ` set (ts_peers st')" by (simp add: st' upsert_keys)
    then have "filter (\<lambda>(k, _). k \<noteq> ?k) (ts_peers st') \<noteq> ts_peers st'" by (auto simp: filter_id_conv)
    then show "fst (untrust fp st')"
      using length_filter_le [of "\<lambda>(k, _). k \<noteq> ?k" "ts_peers st'"]
      by (auto simp: untrust_def Let_def filter_id_conv length_filter_less)
    show "trust_get (snd (untrust fp st')) fp = Inr None"
      by (auto simp: untrust_def Let_def trust_get_def query_row_def map_of_eq_None_iff split: option.splits dest!: map_of_SomeD)
  qed
  show ?thesis
  proof (cases "map_of (ts_peers st) ?k")
    case None
    then have "trust_get st fp = Inr None" "trust_get st' fp = Inr (Some \<lparr>pe_fingerprint = fp, pe_pubkey = pk,
      pe_label = label, pe_trusted_at = now, pe_last_seen = None, pe_native_certificate_fingerprint = None, pe_policy = policy\<rparr>)"
      using len assms(4) by (simp_all add: st' trust_get_def query_row_def map_of_upsert row_to_peer_def fingerprint_round_trip)
    then show ?thesis using r others gone by simp
  next
    case (Some row)
    have ok: "peer_row_ok ?k row" using inv map_of_SomeD [OF Some] by (simp add: trust_inv_def)
    from row_to_peer_ok [OF this len] obtain p where p: "row_to_peer (?k, row) = Inr p" by blast
    then have "row_to_peer (?k, row\<lparr>pw_label := label, pw_policy := policy_as_str policy\<rparr>)
        = Inr (p\<lparr>pe_label := label, pe_policy := policy\<rparr>)"
      using ok by (auto simp: row_to_peer_def res_iffs split: if_splits)
    then have "trust_get st fp = Inr (Some p)" "trust_get st' fp = Inr (Some (p\<lparr>pe_label := label, pe_policy := policy\<rparr>))"
      using Some p by (simp_all add: st' trust_get_def query_row_def map_of_upsert)
    then show ?thesis using r others gone by simp
  qed
qed

section \<open>Properties\<close>

text \<open>C32. Whatever sequence of fewer than \<open>2 ^ 63\<close> operations produced a trust store, no read of it
  fails: listing native peers, LocalSend peers of any status and LAN peers, and fetching any native
  peer, all succeed, and so does every LocalSend lookup with a non-empty normalised fingerprint. The
  stored policies, statuses, fingerprints, counters and ports all parse back.\<close>

theorem trust_store_reads_succeed:
  assumes "unicode_lower_ok lc" "sha256_ok sha256" "list_all (\<lambda>(_, t). trust_op_ok t) ops" "length ops < 2 ^ 63"
    and st: "st = run_trust_ops sha256 lc ops trust_open_in_memory"
  shows "is_ok (trust_list st) \<and> is_ok (trust_get st fp) \<and> is_ok (list_localsend_peers_by_status st status)
    \<and> is_ok (list_localsend_lan_peers st) \<and> is_ok (trusted_localsend_fingerprints st)
    \<and> (is_ok (normalize_localsend_fingerprint lc s) \<longrightarrow>
         is_ok (get_localsend_peer lc st s) \<and> is_ok (get_localsend_lan_peer lc st s) \<and> is_ok (is_localsend_peer_blocked lc st s))"
proof -
  have inv: "trust_inv lc (length ops) st"
    using run_trust_ops_inv [OF trust_inv_open assms(1-3)] by (simp add: st)
  have peers: "\<And>k row. (k, row) \<in> set (ts_peers st) \<Longrightarrow> is_ok (row_to_peer (k, row))"
    and lan: "\<And>k row. (k, row) \<in> set (ts_localsend_lan_peers st) \<Longrightarrow> is_ok (row_to_localsend_lan_peer (k, row))"
    using inv row_to_peer_total row_to_lan_total unfolding trust_inv_def by blast+
  have "is_ok (trust_list st)" unfolding trust_list_def by (rule res_mapM_is_ok) (use peers in auto)
  moreover have "is_ok (trust_get st fp)"
    unfolding trust_get_def by (rule query_row_ok) (rule peers)
  moreover have l: "\<exists>ps. list_localsend_peers_by_status st s' = Inr ps" for s'
    using list_by_status_ok [OF inv assms(4)] by blast
  moreover have "is_ok (list_localsend_peers_by_status st status)" "is_ok (trusted_localsend_fingerprints st)"
    using l [of status] l [of PeerTrusted] by (auto simp: trusted_localsend_fingerprints_def is_ok_iff res_map_Inr_iff)
  moreover have "is_ok (list_localsend_lan_peers st)"
    unfolding list_localsend_lan_peers_def by (rule res_mapM_is_ok) (use lan in auto)
  moreover have "is_ok (get_localsend_peer lc st s)" "is_ok (is_localsend_peer_blocked lc st s)"
    if n: "is_ok (normalize_localsend_fingerprint lc s)"
  proof -
    obtain k where "normalize_localsend_fingerprint lc s = Inr k" using n by (auto simp: is_ok_iff)
    from get_localsend_status [OF inv assms(4) this]
    show "is_ok (get_localsend_peer lc st s)" "is_ok (is_localsend_peer_blocked lc st s)"
      by (auto simp: is_localsend_peer_blocked_def)
  qed
  moreover have "is_ok (get_localsend_lan_peer lc st s)" if n: "is_ok (normalize_localsend_fingerprint lc s)"
  proof -
    obtain k where "normalize_localsend_fingerprint lc s = Inr k" using n by (auto simp: is_ok_iff)
    then show ?thesis using query_row_ok [of "ts_localsend_lan_peers st" row_to_localsend_lan_peer k, OF lan]
      by (simp add: get_localsend_lan_peer_def)
  qed
  ultimately show ?thesis by blast
qed

text \<open>C31. The approval state machine of LocalSend peers. One operation changes the stored status of a
  fingerprint only as follows: approving or denying it sets it, recording a pending or a trusted
  sighting creates a row when there is none and never changes the status of an existing one, and no
  other operation touches it.\<close>

theorem localsend_status_transition:
  "localsend_status (run_trust_op sha256 lc (now, t) st) k = (case t of
     ApproveOp fp _ \<Rightarrow> if normalize_localsend_fingerprint lc fp = Inr k then Some ''trusted'' else localsend_status st k
   | DenyOp fp \<Rightarrow> if normalize_localsend_fingerprint lc fp = Inr k then Some ''blocked'' else localsend_status st k
   | RecordPendingOp fp alias _ \<Rightarrow>
       if normalize_localsend_fingerprint lc fp = Inr k \<and> \<not> blank alias \<and> localsend_status st k = None
       then Some ''pending'' else localsend_status st k
   | RecordTrustedOp fp alias _ \<Rightarrow>
       if normalize_localsend_fingerprint lc fp = Inr k \<and> \<not> blank alias \<and> localsend_status st k = None
       then Some ''trusted'' else localsend_status st k
   | _ \<Rightarrow> localsend_status st k)"
  unfolding run_trust_op_status by (simp add: status_after_def)

text \<open>C26. A denied LocalSend peer stays denied: once \<open>is_localsend_peer_blocked\<close> answers true, it
  answers true after every later sequence of operations without an approval of the same normalised
  fingerprint, however often the peer knocks or is seen, and the fingerprint is in no list of trusted
  fingerprints.\<close>

theorem blocked_peer_stays_blocked:
  assumes "unicode_lower_ok lc" "sha256_ok sha256" "list_all (\<lambda>(_, t). trust_op_ok t) (ops @ later)"
    "length (ops @ later) < 2 ^ 63"
    and st: "st = run_trust_ops sha256 lc ops trust_open_in_memory"
    and blocked: "is_localsend_peer_blocked lc st fp = Inr True"
    and no_approval: "\<forall>now q l. (now, ApproveOp q l) \<in> set later \<longrightarrow>
      normalize_localsend_fingerprint lc q \<noteq> normalize_localsend_fingerprint lc fp"
  shows "is_localsend_peer_blocked lc (run_trust_ops sha256 lc later st) fp = Inr True
    \<and> (\<exists>k fps. normalize_localsend_fingerprint lc fp = Inr k
         \<and> trusted_localsend_fingerprints (run_trust_ops sha256 lc later st) = Inr fps \<and> k \<notin> set fps)"
proof -
  let ?st = "run_trust_ops sha256 lc later st"
  obtain k where k: "normalize_localsend_fingerprint lc fp = Inr k"
    using blocked by (auto simp: is_localsend_peer_blocked_def get_localsend_peer_def res_iffs)
  have inv: "trust_inv lc (length ops) st"
    using run_trust_ops_inv [OF trust_inv_open assms(1,2), of ops] assms(3) by (simp add: st)
  have inv': "trust_inv lc (length (ops @ later)) ?st"
    using run_trust_ops_inv [OF trust_inv_open assms(1-3)] by (simp add: st run_trust_ops_append)
  have "localsend_status st k = Some ''blocked''"
    using is_blocked_iff [OF inv _ k] blocked assms(4) by simp
  then have b: "localsend_status ?st k = Some ''blocked''" using no_approval k by (intro blocked_kept) auto
  obtain ps where "list_localsend_peers_by_status ?st PeerTrusted = Inr ps"
    "set (map lp_fingerprint ps) = {k. localsend_status ?st k = Some (status_as_str PeerTrusted)}"
    using list_by_status_ok [OF inv' assms(4), of PeerTrusted] by blast
  then have "trusted_localsend_fingerprints ?st = Inr (map lp_fingerprint ps)" "k \<notin> set (map lp_fingerprint ps)"
    using b by (simp_all add: trusted_localsend_fingerprints_def)
  then show ?thesis using is_blocked_iff [OF inv' assms(4) k] b k by simp
qed

text \<open>C27. Trusting a native peer on any reachable store succeeds and returns what a later lookup finds:
  the given label and policy, with key and first trust time of the first call kept on a repeated one;
  no other peer changes. Removing the peer afterwards reports a removal and leaves exactly the others.\<close>

theorem trust_get_untrust:
  assumes "unicode_lower_ok lc" "sha256_ok sha256" "list_all (\<lambda>(_, t). trust_op_ok t) ops" "length pk = 32"
    and st: "st = run_trust_ops sha256 lc ops trust_open_in_memory"
    and fp: "fp = fingerprint_from_pubkey sha256 pk"
    and run: "trust_peer sha256 now pk label policy st = (r, st')"
  shows "\<exists>p. r = Inr p \<and> trust_get st' fp = Inr (Some p) \<and> pe_fingerprint p = fp \<and> pe_label p = label \<and> pe_policy p = policy
    \<and> (trust_get st fp = Inr None \<longrightarrow> pe_pubkey p = pk \<and> pe_trusted_at p = now)
    \<and> (\<forall>old. trust_get st fp = Inr (Some old) \<longrightarrow> p = old\<lparr>pe_label := label, pe_policy := policy\<rparr>)
    \<and> (\<forall>fp'. length fp' = 8 \<and> fp' \<noteq> fp \<longrightarrow> trust_get st' fp' = trust_get st fp'
          \<and> trust_get (snd (untrust fp st')) fp' = trust_get st fp')
    \<and> fst (untrust fp st') \<and> trust_get (snd (untrust fp st')) fp = Inr None"
proof -
  have l: "length fp = 8" using fingerprint_length [OF assms(2)] by (simp add: fp)
  have inv: "trust_inv lc (length ops) st"
    using run_trust_ops_inv [OF trust_inv_open assms(1-3)] by (simp add: st)
  let ?k = "fingerprint_to_string fp"
  define new where "new = \<lparr>pw_pubkey = pk, pw_label = label, pw_trusted_at = now, pw_last_seen = None,
     pw_native_certificate_fingerprint = None, pw_policy = policy_as_str policy\<rparr>"
  define upd where "upd = (\<lambda>row. row\<lparr>pw_label := label, pw_policy := policy_as_str policy\<rparr> :: PeerRow)"
  have st': "st' = st\<lparr>ts_peers := upsert ?k new upd (ts_peers st)\<rparr>"
    and r: "r = res_bind (trust_get st' fp) (ok_or (TrustStoreError ''peer disappeared after insert''))"
    using run by (auto simp: trust_peer_def Let_def fp new_def upd_def)
  have others: "trust_get st' fp' = trust_get st fp'" if "length fp' = 8" "fp' \<noteq> fp" for fp'
    using fingerprint_to_string_inject [OF that(1) l] that(2) by (auto simp: st' trust_get_def query_row_def map_of_upsert)
  obtain row where row: "map_of (ts_peers st') ?k = Some row" by (simp add: st' map_of_upsert)
  then have "(?k, row) \<in> set (ts_peers st')" by (rule map_of_SomeD)
  then have gone: "fst (untrust fp st')"
    by (auto simp: untrust_def Let_def intro!: length_filter_less)
  have "\<exists>p. trust_get st' fp = Inr (Some p) \<and> pe_fingerprint p = fp \<and> pe_label p = label \<and> pe_policy p = policy
    \<and> (trust_get st fp = Inr None \<longrightarrow> pe_pubkey p = pk \<and> pe_trusted_at p = now)
    \<and> (\<forall>old. trust_get st fp = Inr (Some old) \<longrightarrow> p = old\<lparr>pe_label := label, pe_policy := policy\<rparr>)"
    using trust_get_row [OF inv l]
  proof (elim disjE exE conjE)
    assume none: "trust_get st fp = Inr None" "map_of (ts_peers st) ?k = None"
    then have "map_of (ts_peers st') ?k = Some new" by (simp add: st' map_of_upsert)
    then show ?thesis using none l assms(4) by (simp add: trust_get_eq row_to_peer_def fingerprint_round_trip new_def)
  next
    fix old p assume some: "map_of (ts_peers st) ?k = Some old" "trust_get st fp = Inr (Some p)" "row_to_peer (?k, old) = Inr p"
    then have "map_of (ts_peers st') ?k = Some (upd old)" by (simp add: st' map_of_upsert)
    then have "trust_get st' fp = Inr (Some (p\<lparr>pe_label := label, pe_policy := policy\<rparr>))"
      using row_to_peer_label_policy [OF some(3)] by (simp add: trust_get_eq upd_def)
    moreover have "pe_fingerprint p = fp"
      using some(3) fingerprint_round_trip [OF l] by (auto simp: row_to_peer_def res_iffs split: if_splits)
    ultimately show ?thesis using some(2) by simp
  qed
  then show ?thesis using r others gone untrust_get [OF l] l by fastforce
qed

definition no_unicode :: "string \<Rightarrow> string" where
  "no_unicode s = s"

lemma unicode_lower_ok_id: "unicode_lower_ok no_unicode"
proof -
  have "ch \<noteq> '':'' \<and> ch \<noteq> ''-''" if "\<not> is_ascii (hd ch)" for ch
    using that by (auto simp: is_ascii_def)
  then show ?thesis
    by (auto simp: unicode_lower_ok_def no_unicode_def char_to_lowercase_def)
qed

definition zero_digest :: "bytes \<Rightarrow> bytes" where
  "zero_digest bs = replicate 32 (if bs = [] then 0 else hd bs)"

lemma zero_digest_ok: "sha256_ok zero_digest"
  by (simp add: sha256_ok_def zero_digest_def)

theorem trust_store_reads_succeed_witness:
  "is_ok (trust_list (run_trust_ops zero_digest no_unicode
     [(5, TrustPeerOp (replicate 32 1) ''laptop'' Prompt), (6, RecordPendingOp ''AA:BB'' ''phone'' None)] trust_open_in_memory))"
proof -
  have "list_all (\<lambda>(_, t). trust_op_ok t)
    [(5 :: int, TrustPeerOp (replicate 32 1) ''laptop'' Prompt), (6, RecordPendingOp ''AA:BB'' ''phone'' None)]" by code_simp
  from trust_store_reads_succeed [OF unicode_lower_ok_id zero_digest_ok this _ refl]
  show ?thesis by simp
qed

theorem blocked_peer_stays_blocked_witness:
  "is_localsend_peer_blocked no_unicode (run_trust_ops zero_digest no_unicode
     [(7, RecordTrustedOp ''aabb'' ''phone'' None)]
     (run_trust_ops zero_digest no_unicode [(5, DenyOp ''AA:BB'')] trust_open_in_memory)) ''aa-bb'' = Inr True"
proof -
  have w: "list_all (\<lambda>(_, t). trust_op_ok t) ([(5 :: int, DenyOp ''AA:BB'')] @ [(7, RecordTrustedOp ''aabb'' ''phone'' None)])"
    by code_simp
  have b: "is_localsend_peer_blocked no_unicode
      (run_trust_ops zero_digest no_unicode [(5, DenyOp ''AA:BB'')] trust_open_in_memory) ''aa-bb'' = Inr True"
    by code_simp
  show ?thesis
    using blocked_peer_stays_blocked [OF unicode_lower_ok_id zero_digest_ok w _ refl b] by simp
qed

text \<open>Trusting a native peer: the call succeeds and returns what a later \<open>get\<close> returns. A new
  peer gets the key, the label, the policy and the current time; for a known peer only the label and
  the policy change, so the first trust time, the last sighting and a pinned certificate stay. No
  other peer changes. Untrusting it afterwards reports a removal and leaves it unknown.\<close>

theorem trust_then_get:
  assumes "unicode_lower_ok lc" "sha256_ok sha256" "list_all (\<lambda>(_, t). trust_op_ok t) ops" "length pk = 32"
    and st: "st = run_trust_ops sha256 lc ops trust_open_in_memory"
    and fp: "fp = fingerprint_from_pubkey sha256 pk"
    and tr: "trust_peer sha256 now pk label policy st = (r, st')"
  shows "\<exists>p. r = Inr p \<and> trust_get st' fp = Inr (Some p)
    \<and> (\<forall>old. trust_get st fp = Inr (Some old) \<longrightarrow> p = old\<lparr>pe_label := label, pe_policy := policy\<rparr>)
    \<and> (trust_get st fp = Inr None \<longrightarrow> p = \<lparr>pe_fingerprint = fp, pe_pubkey = pk, pe_label = label, pe_trusted_at = now,
         pe_last_seen = None, pe_native_certificate_fingerprint = None, pe_policy = policy\<rparr>)
    \<and> (\<forall>q. length q = 8 \<and> q \<noteq> fp \<longrightarrow> trust_get st' q = trust_get st q)
    \<and> fst (untrust fp st') \<and> trust_get (snd (untrust fp st')) fp = Inr None"
  using trust_peer_get [OF assms] .

theorem trust_then_get_witness:
  "fst (untrust (fingerprint_from_pubkey zero_digest (replicate 32 1))
     (snd (trust_peer zero_digest 5 (replicate 32 1) ''laptop'' Prompt trust_open_in_memory)))"
proof -
  obtain r st' where t: "trust_peer zero_digest 5 (replicate 32 1) ''laptop'' Prompt trust_open_in_memory = (r, st')"
    by fastforce
  have s: "trust_open_in_memory = run_trust_ops zero_digest no_unicode [] trust_open_in_memory"
    by (simp add: run_trust_ops_def)
  show ?thesis
    using trust_then_get [OF unicode_lower_ok_id zero_digest_ok _ _ s refl t] t by auto
qed

end
