(* ===== verification/Pairing.thy ===== *)
theory Pairing
  imports Trust_Store Dto
begin

text \<open>Identity proofs and pairing of the native protocol, \<open>protocol-native-v1/src/auth.rs\<close> and
  \<open>pairing.rs\<close>, with the keypair of \<open>core/src/identity/keypair.rs\<close>. Ed25519 and the QUIC exporter are
  outside the sources: the signature scheme is the record \<open>Ed25519\<close> of its four functions, the channel
  binding is an argument, and what the code relies on of the scheme is \<open>ed25519_ok\<close>. Error
  texts of that library are left out of the messages.\<close>

section \<open>Keys and signatures\<close>

record Ed25519 =
  ed_public :: "bytes \<Rightarrow> bytes"                   \<comment> \<open>verifying key of a secret key\<close>
  ed_sign :: "bytes \<Rightarrow> bytes \<Rightarrow> bytes"           \<comment> \<open>secret key, message\<close>
  ed_point :: "bytes \<Rightarrow> bool"                     \<comment> \<open>the 32 bytes are a curve point\<close>
  ed_verify_strict :: "bytes \<Rightarrow> bytes \<Rightarrow> bytes \<Rightarrow> bool"   \<comment> \<open>verifying key, message, signature\<close>

text \<open>Documented behaviour: keys and signatures have their lengths, public keys are points, and a
  signature verifies under the key that made it.\<close>

definition ed25519_ok :: "Ed25519 \<Rightarrow> bool" where
  "ed25519_ok E \<longleftrightarrow> (\<forall>sk m. length (ed_public E sk) = 32 \<and> ed_point E (ed_public E sk)
     \<and> length (ed_sign E sk m) = 64 \<and> ed_verify_strict E (ed_public E sk) m (ed_sign E sk m))"

record Keypair =
  kp_signing :: bytes

definition public_bytes :: "Ed25519 \<Rightarrow> Keypair \<Rightarrow> bytes" where
  "public_bytes E kp = ed_public E (kp_signing kp)"

definition keypair_sign :: "Ed25519 \<Rightarrow> Keypair \<Rightarrow> bytes \<Rightarrow> bytes" where
  "keypair_sign E kp message = ed_sign E (kp_signing kp) message"

definition from_secret_bytes :: "bytes \<Rightarrow> Keypair" where
  "from_secret_bytes bs = \<lparr>kp_signing = bs\<rparr>"

definition secret_bytes :: "Keypair \<Rightarrow> bytes" where
  "secret_bytes kp = kp_signing kp"

section \<open>Identity proofs\<close>

definition IDENTITY_PROOF_CONTEXT :: bytes where
  "IDENTITY_PROOF_CONTEXT = str_bytes ''nightbridge-native-identity-proof-v1''"

definition SESSION_NONCE_LEN :: nat where "SESSION_NONCE_LEN = 32"

definition identity_proof_message :: "bytes \<Rightarrow> bytes \<Rightarrow> bytes" where
  "identity_proof_message peer_pubkey channel_binding = IDENTITY_PROOF_CONTEXT @ peer_pubkey @ channel_binding"

definition sign_identity_proof :: "Ed25519 \<Rightarrow> Keypair \<Rightarrow> bytes \<Rightarrow> bytes" where
  "sign_identity_proof E kp channel_binding =
     keypair_sign E kp (identity_proof_message (public_bytes E kp) channel_binding)"

definition verify_identity_proof :: "Ed25519 \<Rightarrow> bytes \<Rightarrow> bytes \<Rightarrow> bytes \<Rightarrow> unit native_result" where
  "verify_identity_proof E peer_pubkey channel_binding signature =
     (if length signature \<noteq> 64 then Inl (Crypto ''invalid identity proof signature'')
      else if \<not> ed_point E peer_pubkey then Inl (Crypto ''invalid peer public key'')
      else if \<not> ed_verify_strict E peer_pubkey (identity_proof_message peer_pubkey channel_binding) signature
        then Inl (Crypto ''identity proof verification failed'')
      else Inr ())"

definition build_authenticated_hello :: "Ed25519 \<Rightarrow> Keypair \<Rightarrow> string \<Rightarrow> bytes \<Rightarrow> string list \<Rightarrow> bytes \<Rightarrow> Hello" where
  "build_authenticated_hello E kp alias nonce extensions channel_binding =
     \<lparr>h_protocol_version = PROTOCOL_VERSION, h_alias = alias, h_pubkey = public_bytes E kp, h_nonce = nonce,
      h_extensions = extensions, h_identity_proof = sign_identity_proof E kp channel_binding\<rparr>"

definition authenticate_hello :: "Ed25519 \<Rightarrow> Hello \<Rightarrow> bytes \<Rightarrow> unit native_result" where
  "authenticate_hello E hello channel_binding =
     verify_identity_proof E (h_pubkey hello) channel_binding (h_identity_proof hello)"

section \<open>Pairing\<close>

record PairingState =
  ps_peer_alias :: string
  ps_peer_pubkey :: bytes
  ps_peer_fingerprint :: Fingerprint
  ps_sas :: string

datatype TrustDecision = DecideAutoAccept | DecidePrompt | DecideBlock

definition push_nonce :: "bytes \<Rightarrow> bytes \<Rightarrow> bytes" where
  "push_nonce out nonce = out @ u32_to_be (of_nat (length nonce)) @ nonce"

definition combined_nonce :: "bytes \<Rightarrow> bytes \<Rightarrow> bytes \<Rightarrow> bytes \<Rightarrow> bytes" where
  "combined_nonce local_pubkey local_nonce remote_pubkey remote_nonce =
     (if local_pubkey \<le> remote_pubkey
      then push_nonce (push_nonce [] local_nonce) remote_nonce
      else push_nonce (push_nonce [] remote_nonce) local_nonce)"

definition pairing_sas :: "(bytes \<Rightarrow> bytes) \<Rightarrow> bytes \<Rightarrow> bytes \<Rightarrow> bytes \<Rightarrow> bytes \<Rightarrow> string" where
  "pairing_sas hkdf local_pubkey local_nonce remote_pubkey remote_nonce =
     compute_sas hkdf local_pubkey remote_pubkey (combined_nonce local_pubkey local_nonce remote_pubkey remote_nonce)"

definition validate_protocol_version :: "u16 \<Rightarrow> unit native_result" where
  "validate_protocol_version v =
     (if v \<noteq> PROTOCOL_VERSION then Inl (Protocol (''unsupported native protocol version '' @ show_nat (unat v)))
      else Inr ())"

definition validate_nonce :: "bytes \<Rightarrow> string \<Rightarrow> unit native_result" where
  "validate_nonce nonce name =
     (if nonce = [] then Inl (Protocol (name @ '' is required for pairing'')) else Inr ())"

definition derive_state :: "(bytes \<Rightarrow> bytes) \<Rightarrow> (bytes \<Rightarrow> bytes) \<Rightarrow> bytes \<Rightarrow> bytes \<Rightarrow> string \<Rightarrow> bytes \<Rightarrow> bytes
    \<Rightarrow> PairingState native_result" where
  "derive_state sha256 hkdf local_pubkey local_nonce peer_alias peer_pubkey peer_nonce =
     res_bind (validate_nonce local_nonce ''local nonce'') (\<lambda>_.
     res_bind (validate_nonce peer_nonce ''peer nonce'') (\<lambda>_.
     Inr \<lparr>ps_peer_alias = peer_alias, ps_peer_pubkey = peer_pubkey,
          ps_peer_fingerprint = fingerprint_from_pubkey sha256 peer_pubkey,
          ps_sas = pairing_sas hkdf local_pubkey local_nonce peer_pubkey peer_nonce\<rparr>))"

definition derive_from_hello :: "(bytes \<Rightarrow> bytes) \<Rightarrow> (bytes \<Rightarrow> bytes) \<Rightarrow> bytes \<Rightarrow> bytes \<Rightarrow> Hello \<Rightarrow> PairingState native_result" where
  "derive_from_hello sha256 hkdf local_pubkey local_nonce hello =
     res_bind (validate_protocol_version (h_protocol_version hello)) (\<lambda>_.
       derive_state sha256 hkdf local_pubkey local_nonce (h_alias hello) (h_pubkey hello) (h_nonce hello))"

definition derive_from_hello_ack :: "(bytes \<Rightarrow> bytes) \<Rightarrow> (bytes \<Rightarrow> bytes) \<Rightarrow> bytes \<Rightarrow> bytes \<Rightarrow> HelloAck \<Rightarrow> PairingState native_result" where
  "derive_from_hello_ack sha256 hkdf local_pubkey local_nonce ack =
     res_bind (validate_protocol_version (ha_protocol_version ack)) (\<lambda>_.
       derive_state sha256 hkdf local_pubkey local_nonce (ha_alias ack) (ha_pubkey ack) (ha_nonce ack))"

text \<open>\<open>Display\<close> of core errors, as the pairing code embeds them.\<close>

fun io_display :: "IoError \<Rightarrow> string" where
  "io_display NotFound = ''No such file or directory (os error 2)''"
| "io_display UnexpectedEof = ''failed to fill whole buffer''"
| "io_display AlreadyExists = ''File exists (os error 17)''"
| "io_display NotADirectory = ''Not a directory (os error 20)''"
| "io_display IsADirectory = ''Is a directory (os error 21)''"
| "io_display InvalidInput = ''Invalid argument (os error 22)''"
| "io_display InvalidData = ''stream did not contain valid UTF-8''"
| "io_display (IoOther m) = m"

fun core_display :: "CoreError \<Rightarrow> string" where
  "core_display (CoreIo e) = ''io: '' @ io_display e"
| "core_display (Sqlite m) = ''sqlite: '' @ m"
| "core_display (IdentityVault m) = ''identity vault: '' @ m"
| "core_display (TrustStoreError m) = ''trust store: '' @ m"
| "core_display (ConfigError m) = ''config: '' @ m"
| "core_display (CoreCrypto m) = ''crypto: '' @ m"
| "core_display (Panicked m) = m"

definition core_error :: "CoreError + 'a \<Rightarrow> 'a native_result" where
  "core_error r = (case r of Inl e \<Rightarrow> Inl (Protocol (core_display e)) | Inr x \<Rightarrow> Inr x)"

definition validate_peer_info_fingerprint :: "(bytes \<Rightarrow> bytes) \<Rightarrow> NativePeerInfo \<Rightarrow> Fingerprint native_result" where
  "validate_peer_info_fingerprint sha256 peer =
     res_bind (core_error (fingerprint_from_str (np_fingerprint peer))) (\<lambda>advertised.
       let derived = fingerprint_from_pubkey sha256 (np_pubkey peer) in
       if advertised \<noteq> derived
       then Inl (Protocol (''fingerprint mismatch for peer \"'' @ np_alias peer @ ''\": advertised ''
              @ fingerprint_to_string advertised @ '', derived '' @ fingerprint_to_string derived))
       else Inr derived)"

definition trust_decision :: "TrustStore \<Rightarrow> Fingerprint \<Rightarrow> TrustDecision native_result" where
  "trust_decision store fingerprint =
     res_bind (core_error (trust_get store fingerprint)) (\<lambda>found. case found of
       Some peer \<Rightarrow> Inr (case pe_policy peer of
           AutoAccept \<Rightarrow> DecideAutoAccept | Prompt \<Rightarrow> DecidePrompt | Block \<Rightarrow> DecideBlock)
     | None \<Rightarrow> Inr DecidePrompt)"

section \<open>Lemmas\<close>

lemma identity_proof_message_inject:
  "length a = length c \<Longrightarrow> identity_proof_message a b = identity_proof_message c d \<longleftrightarrow> a = c \<and> b = d"
  by (simp add: identity_proof_message_def)

lemma push_nonce_split:
  assumes "length a < 2 ^ 32" "length b < 2 ^ 32" "push_nonce out a @ x = push_nonce out b @ y"
  shows "a = b \<and> x = y"
proof -
  have len: "u32_to_be (of_nat (length a)) = u32_to_be (of_nat (length b))" and rest: "a @ x = b @ y"
    using assms(3) by (simp_all add: push_nonce_def append_eq_append_conv)
  have "length a = length b"
    using len assms(1,2) by (metis u32_be_inverse unat_of_nat_u32)
  with rest show ?thesis by simp
qed

lemma combined_nonce_swap:
  "a \<noteq> b \<Longrightarrow> combined_nonce a na b nb = combined_nonce b nb a na"
  by (auto simp: combined_nonce_def)

lemma combined_nonce_inject:
  assumes "length na < 2 ^ 32" "length nb < 2 ^ 32" "length na' < 2 ^ 32" "length nb' < 2 ^ 32"
    and eq: "combined_nonce a na b nb = combined_nonce a na' b nb'"
  shows "na = na' \<and> nb = nb'"
proof -
  have two: "x = x' \<and> y = y'"
    if "push_nonce (push_nonce [] x) y = push_nonce (push_nonce [] x') y'" "length x < 2 ^ 32" "length x' < 2 ^ 32"
      "length y < 2 ^ 32" "length y' < 2 ^ 32" for x y x' y'
  proof -
    have "push_nonce [] x @ (u32_to_be (of_nat (length y)) @ y) = push_nonce [] x' @ (u32_to_be (of_nat (length y')) @ y')"
      using that(1) by (simp add: push_nonce_def)
    from push_nonce_split [OF that(2,3) this]
    have x: "x = x'" and y: "push_nonce [] y @ [] = push_nonce [] y' @ []" by (simp_all add: push_nonce_def)
    show ?thesis using x push_nonce_split [OF that(4,5) y] by simp
  qed
  show ?thesis using eq assms(1-4) two [of na nb na' nb'] two [of nb na nb' na']
    by (auto simp: combined_nonce_def split: if_splits)
qed

lemma derive_state_ok:
  assumes "local_nonce \<noteq> []" "peer_nonce \<noteq> []"
  shows "derive_state sha256 hkdf local_pubkey local_nonce peer_alias peer_pubkey peer_nonce =
    Inr \<lparr>ps_peer_alias = peer_alias, ps_peer_pubkey = peer_pubkey,
         ps_peer_fingerprint = fingerprint_from_pubkey sha256 peer_pubkey,
         ps_sas = pairing_sas hkdf local_pubkey local_nonce peer_pubkey peer_nonce\<rparr>"
  using assms by (simp add: derive_state_def validate_nonce_def)

fun decision_of :: "PeerPolicy \<Rightarrow> TrustDecision" where
  "decision_of AutoAccept = DecideAutoAccept"
| "decision_of Prompt = DecidePrompt"
| "decision_of Block = DecideBlock"

lemma trust_decision_eq:
  "trust_get st fp = Inr (Some p) \<Longrightarrow> trust_decision st fp = Inr (decision_of (pe_policy p))"
  "trust_get st fp = Inr None \<Longrightarrow> trust_decision st fp = Inr DecidePrompt"
  by (simp_all add: trust_decision_def core_error_def split: PeerPolicy.splits)

section \<open>Properties\<close>

text \<open>A signature scheme for the witnesses: the signature tells the identity proof for binding \<open>[9]\<close>
  from all other messages.\<close>

definition demo_tag :: "bytes \<Rightarrow> bytes \<Rightarrow> bytes" where
  "demo_tag pk m = replicate 63 0 @ [if m = identity_proof_message pk [9] then 1 else 0]"

definition demo_ed :: Ed25519 where
  "demo_ed = \<lparr>ed_public = (\<lambda>sk. take 32 (sk @ replicate 32 0)), ed_sign = (\<lambda>sk m. demo_tag (take 32 (sk @ replicate 32 0)) m),
     ed_point = (\<lambda>_. True), ed_verify_strict = (\<lambda>pk m s. s = demo_tag pk m)\<rparr>"

lemma demo_ed_ok: "ed25519_ok demo_ed"
  by (auto simp: ed25519_ok_def demo_ed_def demo_tag_def min_def)

text \<open>The cryptographic assumptions, over the messages that have been signed as pairs of a secret key and a message.
  Unforgeability: a signature seen on the wire that verifies under the key of an honest holder is for a message
  which that holder has signed. Message binding: a signature verifies for no other message, whatever the key; this is
  what strict verification adds.\<close>

definition unforged :: "Ed25519 \<Rightarrow> bytes set \<Rightarrow> (bytes \<times> bytes) set \<Rightarrow> bytes set \<Rightarrow> bool" where
  "unforged E honest made wire \<longleftrightarrow> (\<forall>sk \<in> honest. \<forall>s \<in> wire. \<forall>m. ed_verify_strict E (ed_public E sk) m s \<longrightarrow> (sk, m) \<in> made)"

definition message_bound :: "Ed25519 \<Rightarrow> (bytes \<times> bytes) set \<Rightarrow> bool" where
  "message_bound E made \<longleftrightarrow> (\<forall>(sk, m) \<in> made. \<forall>pk m'. ed_verify_strict E pk m' (ed_sign E sk m) \<longrightarrow> m' = m)"

text \<open>What building hellos signs.\<close>

definition proofs_signed :: "Ed25519 \<Rightarrow> (Keypair \<times> bytes) set \<Rightarrow> (bytes \<times> bytes) set" where
  "proofs_signed E sent = (\<lambda>(kp, binding). (kp_signing kp, identity_proof_message (public_bytes E kp) binding)) ` sent"

text \<open>C13. Identity proofs are bound to a key and to a session. A hello authenticates on the session it was built for. Let the
  holders of keys have built hellos for the sessions in \<open>sent\<close> and signed nothing else that starts with the
  context of identity proofs. Then a hello that claims the key of an honest holder is accepted on a session only if that
  holder has built a hello for this very session; and the proof of a hello, put into any other hello, is accepted
  exactly under the key and on the session it was made for, so that it can neither be replayed on another
  session nor be claimed by another key.\<close>

theorem identity_proof_bound_to_session:
  assumes "ed25519_ok E" and "\<forall>(sk, m) \<in> others. \<not> prefix IDENTITY_PROOF_CONTEXT m"
    and "unforged E honest (proofs_signed E sent \<union> others) wire" and "message_bound E (proofs_signed E sent \<union> others)"
  shows "authenticate_hello E (build_authenticated_hello E kp alias nonce exts binding) binding = Inr ()
    \<and> (kp_signing kp \<in> honest \<and> h_identity_proof hello \<in> wire \<and> h_pubkey hello = public_bytes E kp
        \<and> authenticate_hello E hello binding = Inr () \<longrightarrow> (kp, binding) \<in> sent)
    \<and> ((kp, binding) \<in> sent \<and> length (h_pubkey hello) = 32
        \<and> h_identity_proof hello = h_identity_proof (build_authenticated_hello E kp alias nonce exts binding) \<longrightarrow>
        (authenticate_hello E hello binding' = Inr () \<longleftrightarrow> h_pubkey hello = public_bytes E kp \<and> binding' = binding))"
proof (intro conjI impI)
  have built: "authenticate_hello E h binding = Inr ()"
    if "h_pubkey h = public_bytes E kp" "h_identity_proof h = sign_identity_proof E kp binding" for h
    using assms(1) that
    by (simp add: ed25519_ok_def authenticate_hello_def verify_identity_proof_def sign_identity_proof_def keypair_sign_def public_bytes_def)
  have accepted: "ed_verify_strict E (h_pubkey hello) (identity_proof_message (h_pubkey hello) b) (h_identity_proof hello)"
    if "authenticate_hello E hello b = Inr ()" for b
    using that by (simp add: authenticate_hello_def verify_identity_proof_def split: if_splits)
  show "authenticate_hello E (build_authenticated_hello E kp alias nonce exts binding) binding = Inr ()"
    by (rule built) (simp_all add: build_authenticated_hello_def)
  show "(kp, binding) \<in> sent" if "kp_signing kp \<in> honest \<and> h_identity_proof hello \<in> wire \<and> h_pubkey hello = public_bytes E kp
      \<and> authenticate_hello E hello binding = Inr ()"
  proof -
    have "(kp_signing kp, identity_proof_message (public_bytes E kp) binding) \<in> proofs_signed E sent \<union> others"
      using assms(3) that accepted [of binding] by (auto simp: unforged_def public_bytes_def)
    moreover have "prefix IDENTITY_PROOF_CONTEXT (identity_proof_message (public_bytes E kp) binding)" by (simp add: identity_proof_message_def)
    ultimately obtain kp' b where b: "(kp', b) \<in> sent" "kp_signing kp = kp_signing kp'"
      "identity_proof_message (public_bytes E kp) binding = identity_proof_message (public_bytes E kp') b"
      using assms(2) by (auto simp: proofs_signed_def)
    then have "kp' = kp" by simp
    with b show ?thesis by (simp add: identity_proof_message_inject)
  qed
  assume a: "(kp, binding) \<in> sent \<and> length (h_pubkey hello) = 32
      \<and> h_identity_proof hello = h_identity_proof (build_authenticated_hello E kp alias nonce exts binding)"
  then have sig: "h_identity_proof hello = ed_sign E (kp_signing kp) (identity_proof_message (public_bytes E kp) binding)"
    by (simp add: build_authenticated_hello_def sign_identity_proof_def keypair_sign_def)
  show "authenticate_hello E hello binding' = Inr () \<longleftrightarrow> h_pubkey hello = public_bytes E kp \<and> binding' = binding"
  proof
    assume "authenticate_hello E hello binding' = Inr ()"
    then have "identity_proof_message (h_pubkey hello) binding' = identity_proof_message (public_bytes E kp) binding"
      using accepted [of binding'] a assms(4) unfolding sig message_bound_def proofs_signed_def by fastforce
    moreover have "length (public_bytes E kp) = 32" using assms(1) by (simp add: ed25519_ok_def public_bytes_def)
    ultimately show "h_pubkey hello = public_bytes E kp \<and> binding' = binding" using a by (simp add: identity_proof_message_inject)
  next
    assume "h_pubkey hello = public_bytes E kp \<and> binding' = binding"
    then show "authenticate_hello E hello binding' = Inr ()"
      using built [of hello] a by (simp add: build_authenticated_hello_def)
  qed
qed

text \<open>C33. Both sides of a pairing show the same six digits. The responder derives its state from the
  initiator's hello and the initiator from the responder's acknowledgement; for different keys, nonces
  present and the current protocol version both succeed with the same short authentication string, each
  with the other's fingerprint. The string is computed from both nonces unambiguously: with the same two
  keys, a different pair of nonces gives a different input.\<close>

theorem pairing_sides_agree:
  assumes "h_protocol_version hello = PROTOCOL_VERSION" "ha_protocol_version ack = PROTOCOL_VERSION"
    "h_nonce hello \<noteq> []" "ha_nonce ack \<noteq> []" "h_pubkey hello \<noteq> ha_pubkey ack"
  shows "(\<exists>responder initiator.
      derive_from_hello sha256 hkdf (ha_pubkey ack) (ha_nonce ack) hello = Inr responder
      \<and> derive_from_hello_ack sha256 hkdf (h_pubkey hello) (h_nonce hello) ack = Inr initiator
      \<and> ps_sas responder = ps_sas initiator
      \<and> ps_peer_fingerprint responder = fingerprint_from_pubkey sha256 (h_pubkey hello)
      \<and> ps_peer_fingerprint initiator = fingerprint_from_pubkey sha256 (ha_pubkey ack))
    \<and> (\<forall>a b na nb na' nb'. max (max (length na) (length nb)) (max (length na') (length nb')) < 2 ^ 32 \<longrightarrow>
         combined_nonce a na b nb = combined_nonce a na' b nb' \<longrightarrow> na = na' \<and> nb = nb')"
proof -
  have "pairing_sas hkdf (ha_pubkey ack) (ha_nonce ack) (h_pubkey hello) (h_nonce hello) =
      pairing_sas hkdf (h_pubkey hello) (h_nonce hello) (ha_pubkey ack) (ha_nonce ack)"
    using combined_nonce_swap [OF assms(5)] compute_sas_sym by (simp add: pairing_sas_def)
  then show ?thesis
    using assms combined_nonce_inject
    by (simp add: derive_from_hello_def derive_from_hello_ack_def validate_protocol_version_def derive_state_ok) blast
qed

definition demo_hello :: Hello where
  "demo_hello = \<lparr>h_protocol_version = 1, h_alias = ''a'', h_pubkey = replicate 32 1, h_nonce = [1], h_extensions = [],
     h_identity_proof = demo_tag (replicate 32 1) (identity_proof_message (replicate 32 1) [9])\<rparr>"

definition demo_ack :: HelloAck where
  "demo_ack = \<lparr>ha_protocol_version = 1, ha_alias = ''b'', ha_pubkey = replicate 32 2, ha_nonce = [2], ha_accepted_extensions = []\<rparr>"

theorem pairing_sides_agree_witness:
  "\<exists>r i. derive_from_hello zero_digest zero_digest (replicate 32 2) [2] demo_hello = Inr r
     \<and> derive_from_hello_ack zero_digest zero_digest (replicate 32 1) [1] demo_ack = Inr i \<and> ps_sas r = ps_sas i"
  using pairing_sides_agree [of demo_hello demo_ack zero_digest zero_digest]
  by (auto simp: demo_hello_def demo_ack_def PROTOCOL_VERSION_def replicate_eq_replicate)

text \<open>A scheme in which one proof has been made, with the key of ones and for the binding \<open>[9]\<close>; it is refused on
  another session and under another key.\<close>

definition one_key :: Keypair where "one_key = \<lparr>kp_signing = replicate 32 1\<rparr>"

definition one_proof_tag :: "bytes \<Rightarrow> bytes" where
  "one_proof_tag m = replicate 63 0 @ [if m = identity_proof_message (replicate 32 1) [9] then 1 else 0]"

definition one_proof_ed :: Ed25519 where
  "one_proof_ed = \<lparr>ed_public = (\<lambda>sk. take 32 (sk @ replicate 32 0)), ed_sign = (\<lambda>_. one_proof_tag),
     ed_point = (\<lambda>_. True), ed_verify_strict = (\<lambda>_ m s. s = one_proof_tag m)\<rparr>"

definition one_proof_hello :: Hello where
  "one_proof_hello = build_authenticated_hello one_proof_ed one_key ''a'' [1] [] [9]"

theorem identity_proof_bound_to_session_witness:
  "authenticate_hello one_proof_ed one_proof_hello [9] = Inr () \<and> authenticate_hello one_proof_ed one_proof_hello [8] \<noteq> Inr ()
   \<and> authenticate_hello one_proof_ed (one_proof_hello\<lparr>h_pubkey := replicate 32 2\<rparr>) [9] \<noteq> Inr ()"
proof -
  let ?m = "identity_proof_message (replicate 32 1) [9]"
  have pub: "public_bytes one_proof_ed one_key = replicate 32 1" by (simp add: public_bytes_def one_proof_ed_def one_key_def)
  have signed: "proofs_signed one_proof_ed {(one_key, [9])} = {(replicate 32 1, ?m)}" by (simp add: proofs_signed_def pub) (simp add: one_key_def)
  have tag: "one_proof_tag m = one_proof_tag ?m \<longleftrightarrow> m = ?m" for m by (simp add: one_proof_tag_def)
  have hello: "h_identity_proof one_proof_hello = one_proof_tag ?m" "h_pubkey one_proof_hello = replicate 32 1"
    by (simp_all add: one_proof_hello_def build_authenticated_hello_def sign_identity_proof_def keypair_sign_def pub)
      (simp_all add: one_proof_ed_def)
  have ok: "ed25519_ok one_proof_ed" by (simp add: ed25519_ok_def one_proof_ed_def one_proof_tag_def min_def)
  have un: "unforged one_proof_ed {replicate 32 1} (proofs_signed one_proof_ed {(one_key, [9])} \<union> {}) {one_proof_tag ?m}"
    unfolding unforged_def signed by (simp add: one_proof_ed_def tag [symmetric])
  have bound: "message_bound one_proof_ed (proofs_signed one_proof_ed {(one_key, [9])} \<union> {})"
    unfolding message_bound_def signed by (simp add: one_proof_ed_def tag [symmetric])
  note applied = identity_proof_bound_to_session [of one_proof_ed "{}", OF ok _ un bound, of one_key "''a''" "[1]" "[]"]
  have two: "replicate 32 (2 :: u8) \<noteq> replicate 32 1" by (simp add: replicate_eq_replicate)
  show ?thesis
    using applied [of "[9]"] applied [of "[9]" one_proof_hello "[8]"] applied [of "[9]" "one_proof_hello\<lparr>h_pubkey := replicate 32 2\<rparr>" "[9]"] two
    by (simp add: hello pub flip: one_proof_hello_def)
qed

text \<open>The trust decision follows the store: an unknown peer is prompted for, trusting it with a
  policy makes the decision that policy's, and removing it brings back the prompt.\<close>

theorem trust_decision_follows_store:
  assumes "unicode_lower_ok lc" "sha256_ok sha256" "list_all (\<lambda>(_, t). trust_op_ok t) ops" "length pk = 32"
    and "st = run_trust_ops sha256 lc ops trust_open_in_memory" "fp = fingerprint_from_pubkey sha256 pk"
    and "trust_peer sha256 now pk label policy st = (r, st')"
  shows "trust_decision st' fp = Inr (decision_of policy)
    \<and> trust_decision (snd (untrust fp st')) fp = Inr DecidePrompt
    \<and> trust_decision trust_open_in_memory fp = Inr DecidePrompt"
proof -
  have new: "trust_get trust_open_in_memory fp = Inr None"
    by (simp add: trust_get_def query_row_def trust_open_in_memory_def)
  obtain p where p: "trust_get st' fp = Inr (Some p)" "trust_get (snd (untrust fp st')) fp = Inr None"
    "\<forall>old. trust_get st fp = Inr (Some old) \<longrightarrow> p = old\<lparr>pe_label := label, pe_policy := policy\<rparr>"
    "trust_get st fp = Inr None \<longrightarrow> pe_policy p = policy"
    using trust_peer_get [OF assms] by auto
  have "is_ok (trust_get st fp)"
  proof -
    have inv: "trust_inv lc (length ops) st" using run_trust_ops_inv [OF trust_inv_open assms(1-3)] by (simp add: assms(5))
    show ?thesis unfolding trust_get_def
      by (rule query_row_ok) (use inv row_to_peer_total in \<open>auto simp: trust_inv_def\<close>)
  qed
  then have "pe_policy p = policy" using p(3,4) by (auto simp: is_ok_iff split: option.splits)
  then show ?thesis using trust_decision_eq p(1,2) new by metis
qed

theorem trust_decision_follows_store_witness:
  "trust_decision (snd (trust_peer zero_digest 5 (replicate 32 1) ''laptop'' Block trust_open_in_memory))
     (fingerprint_from_pubkey zero_digest (replicate 32 1)) = Inr DecideBlock"
proof -
  obtain r st' where t: "trust_peer zero_digest 5 (replicate 32 1) ''laptop'' Block trust_open_in_memory = (r, st')"
    by fastforce
  have s: "trust_open_in_memory = run_trust_ops zero_digest no_unicode [] trust_open_in_memory"
    by (simp add: run_trust_ops_def)
  show ?thesis
    using trust_decision_follows_store [OF unicode_lower_ok_id zero_digest_ok _ _ s refl t] t by simp
qed

end
