(* ===== verification/NB_Net.thy ===== *)
theory NB_Net
  imports NB_Text "HOL-Library.List_Lexorder"
begin

text \<open>Socket addresses of the standard library: the parser behind \<open>str::parse::<SocketAddr>\<close> (the one
  of \<open>core::net::parser\<close>, which reads greedily and backtracks on failure), the printer, and the
  order. A failed sub-parser leaves the input where it was, so parsers are functions from the rest of
  the text to an optional value and rest.\<close>

section \<open>Addresses\<close>

datatype IpAddr = V4 u8 u8 u8 u8 | V6 "u16 list"

datatype SocketAddr =
    SockV4 u8 u8 u8 u8 u16
  | SockV6 "u16 list" u32 u32 u16   \<comment> \<open>address, flow info, scope id, port\<close>

fun sock_port :: "SocketAddr \<Rightarrow> u16" where
  "sock_port (SockV4 a b c d p) = p"
| "sock_port (SockV6 s f i p) = p"

fun sock_ip :: "SocketAddr \<Rightarrow> IpAddr" where
  "sock_ip (SockV4 a b c d p) = V4 a b c d"
| "sock_ip (SockV6 s f i p) = V6 s"

section \<open>Parsing\<close>

type_synonym 'a parser = "string \<Rightarrow> ('a \<times> string) option"

definition read_given_char :: "char \<Rightarrow> unit parser" where
  "read_given_char c s = (case s of x # xs \<Rightarrow> if x = c then Some ((), xs) else None | [] \<Rightarrow> None)"

definition digit_val :: "nat \<Rightarrow> char \<Rightarrow> nat option" where
  "digit_val radix c = (let n = of_char c;
      d = (if 48 \<le> n \<and> n \<le> 57 then n - 48
           else if 97 \<le> n \<and> n \<le> 122 then n - 87
           else if 65 \<le> n \<and> n \<le> 90 then n - 55
           else 36)
    in if d < radix then Some d else None)"

definition digits_val :: "nat \<Rightarrow> string \<Rightarrow> nat" where
  "digits_val radix s = foldl (\<lambda>acc c. acc * radix + the (digit_val radix c)) 0 s"

text \<open>\<open>read_number\<close> takes the longest run of digits; \<open>bound\<close> is one more than the largest value of the
  result type.\<close>

definition read_number :: "nat \<Rightarrow> nat option \<Rightarrow> bool \<Rightarrow> nat \<Rightarrow> nat parser" where
  "read_number radix max_digits allow_zero_prefix bound s =
     (let ds = takeWhile (\<lambda>c. digit_val radix c \<noteq> None) s;
          rest = dropWhile (\<lambda>c. digit_val radix c \<noteq> None) s
      in if ds = [] \<or> (case max_digits of Some m \<Rightarrow> length ds > m | None \<Rightarrow> False)
            \<or> \<not> allow_zero_prefix \<and> hd ds = CHR ''0'' \<and> length ds > 1
            \<or> digits_val radix ds \<ge> bound
         then None else Some (digits_val radix ds, rest))"

definition read_separator :: "char \<Rightarrow> nat \<Rightarrow> 'a parser \<Rightarrow> 'a parser" where
  "read_separator sep index inner s =
     (if index > 0 then Option.bind (read_given_char sep s) (\<lambda>(_, s). inner s) else inner s)"

definition read_octet :: "nat \<Rightarrow> u8 parser" where
  "read_octet index = read_separator (CHR ''.'') index
     (\<lambda>s. map_option (\<lambda>(n, r). (of_nat n, r)) (read_number 10 (Some 3) False 256 s))"

definition read_ipv4_addr :: "(u8 \<times> u8 \<times> u8 \<times> u8) parser" where
  "read_ipv4_addr s =
     Option.bind (read_octet 0 s) (\<lambda>(a, s).
     Option.bind (read_octet 1 s) (\<lambda>(b, s).
     Option.bind (read_octet 2 s) (\<lambda>(c, s).
     map_option (\<lambda>(d, s). ((a, b, c, d), s)) (read_octet 3 s))))"

text \<open>\<open>read_groups\<close>: at most \<open>limit\<close> groups, from index \<open>i\<close>; the flag says that an embedded IPv4
  address ended the list.\<close>

function read_groups :: "nat \<Rightarrow> nat \<Rightarrow> string \<Rightarrow> (u16 list \<times> bool) \<times> string" where
  "read_groups limit i s =
     (if i \<ge> limit then (([], False), s)
      else case (if i < limit - 1 then read_separator (CHR '':'') i read_ipv4_addr s else None) of
        Some ((a, b, c, d), r) \<Rightarrow> (([of_nat (unat a * 256 + unat b), of_nat (unat c * 256 + unat d)], True), r)
      | None \<Rightarrow>
         (case read_separator (CHR '':'') i (read_number 16 (Some 4) True 65536) s of
            None \<Rightarrow> (([], False), s)
          | Some (g, r) \<Rightarrow> (let ((gs, v4), r') = read_groups limit (Suc i) r in ((of_nat g # gs, v4), r'))))"
  by pat_completeness auto
termination by (relation "measure (\<lambda>(limit, i, s). limit - i)") auto

declare read_groups.simps [simp del]

definition read_ipv6_addr :: "u16 list parser" where
  "read_ipv6_addr s =
     (let ((head, head_ipv4), s) = read_groups 8 0 s in
      if length head = 8 then Some (head, s)
      else if head_ipv4 then None
      else Option.bind (read_given_char (CHR '':'') s) (\<lambda>(_, s).
           Option.bind (read_given_char (CHR '':'') s) (\<lambda>(_, s).
             let ((tail, _), s) = read_groups (8 - (length head + 1)) 0 s in
             Some (head @ replicate (8 - length head - length tail) 0 @ tail, s))))"

definition read_port :: "u16 parser" where
  "read_port s = Option.bind (read_given_char (CHR '':'') s) (\<lambda>(_, s).
     map_option (\<lambda>(n, r). (of_nat n, r)) (read_number 10 None True 65536 s))"

definition read_scope_id :: "u32 parser" where
  "read_scope_id s = Option.bind (read_given_char (CHR ''%'') s) (\<lambda>(_, s).
     map_option (\<lambda>(n, r). (of_nat n, r)) (read_number 10 None True 4294967296 s))"

definition read_socket_addr_v4 :: "SocketAddr parser" where
  "read_socket_addr_v4 s = Option.bind (read_ipv4_addr s) (\<lambda>((a, b, c, d), s).
     map_option (\<lambda>(p, s). (SockV4 a b c d p, s)) (read_port s))"

definition read_socket_addr_v6 :: "SocketAddr parser" where
  "read_socket_addr_v6 s =
     Option.bind (read_given_char (CHR ''['') s) (\<lambda>(_, s).
     Option.bind (read_ipv6_addr s) (\<lambda>(ip, s).
       let (scope, s) = (case read_scope_id s of Some (i, r) \<Rightarrow> (i, r) | None \<Rightarrow> (0, s)) in
     Option.bind (read_given_char (CHR '']'') s) (\<lambda>(_, s).
     map_option (\<lambda>(p, s). (SockV6 ip 0 scope p, s)) (read_port s))))"

definition parse_socket_addr :: "string \<Rightarrow> SocketAddr option" where
  "parse_socket_addr s =
     (case (case read_socket_addr_v4 s of Some r \<Rightarrow> Some r | None \<Rightarrow> read_socket_addr_v6 s) of
        Some (a, []) \<Rightarrow> Some a | _ \<Rightarrow> None)"

definition parse_ip_addr :: "string \<Rightarrow> IpAddr option" where
  "parse_ip_addr s =
     (case (case read_ipv4_addr s of
              Some ((a, b, c, d), r) \<Rightarrow> Some (V4 a b c d, r)
            | None \<Rightarrow> map_option (\<lambda>(gs, r). (V6 gs, r)) (read_ipv6_addr s)) of
        Some (ip, []) \<Rightarrow> Some ip | _ \<Rightarrow> None)"

fun socket_addr_new :: "IpAddr \<Rightarrow> u16 \<Rightarrow> SocketAddr" where
  "socket_addr_new (V4 a b c d) p = SockV4 a b c d p"
| "socket_addr_new (V6 gs) p = SockV6 gs 0 0 p"

section \<open>Printing\<close>

definition hex_char :: "nat \<Rightarrow> char" where
  "hex_char d = (if d < 10 then char_of (48 + d) else char_of (87 + d))"

fun show_hex :: "nat \<Rightarrow> string" where
  "show_hex n = (if n < 16 then [hex_char n] else show_hex (n div 16) @ [hex_char (n mod 16)])"

declare show_hex.simps [simp del]

definition show_ipv4 :: "u8 \<Rightarrow> u8 \<Rightarrow> u8 \<Rightarrow> u8 \<Rightarrow> string" where
  "show_ipv4 a b c d =
     show_nat (unat a) @ ''.'' @ show_nat (unat b) @ ''.'' @ show_nat (unat c) @ ''.'' @ show_nat (unat d)"

text \<open>The longest run of zero segments, the first one of equal length: start and length.\<close>

fun zero_run :: "u16 list \<Rightarrow> nat \<Rightarrow> nat \<times> nat \<Rightarrow> nat \<times> nat \<Rightarrow> nat \<times> nat" where
  "zero_run [] i current longest = longest"
| "zero_run (g # gs) i (cs, cl) (ls, ll) =
     (if g = 0 then
        (let cur = (if cl = 0 then i else cs, Suc cl)
         in zero_run gs (Suc i) cur (if snd cur > ll then cur else (ls, ll)))
      else zero_run gs (Suc i) (0, 0) (ls, ll))"

definition show_segments :: "u16 list \<Rightarrow> string" where
  "show_segments gs = join_with '':'' (map (\<lambda>g. show_hex (unat g)) gs)"

definition show_ipv6 :: "u16 list \<Rightarrow> string" where
  "show_ipv6 gs =
     (if take 6 gs = [0, 0, 0, 0, 0, 0xffff] then
        ''::ffff:'' @ show_ipv4 (ucast (drop_bit 8 (gs ! 6))) (ucast (gs ! 6)) (ucast (drop_bit 8 (gs ! 7))) (ucast (gs ! 7))
      else let (start, len) = zero_run gs 0 (0, 0) (0, 0) in
        if len > 1 then show_segments (take start gs) @ ''::'' @ show_segments (drop (start + len) gs)
        else show_segments gs)"

fun show_socket_addr :: "SocketAddr \<Rightarrow> string" where
  "show_socket_addr (SockV4 a b c d p) = show_ipv4 a b c d @ '':'' @ show_nat (unat p)"
| "show_socket_addr (SockV6 s f i p) =
     ''['' @ show_ipv6 s @ (if i = 0 then [] else ''%'' @ show_nat (unat i)) @ '']:'' @ show_nat (unat p)"

fun show_ip_addr :: "IpAddr \<Rightarrow> string" where
  "show_ip_addr (V4 a b c d) = show_ipv4 a b c d"
| "show_ip_addr (V6 s) = show_ipv6 s"

text \<open>The debug form of a string, \<open>{:?}\<close>: ASCII is escaped as the library does, and the bytes of other
  characters are kept, which is what it does with the printable ones.\<close>

definition char_debug :: "char \<Rightarrow> string" where
  "char_debug c =
     (if c = CHR 0x22 \<or> c = CHR 0x5C then [CHR 0x5C, c]
      else if c = CHR 0x00 then [CHR 0x5C, CHR ''0'']
      else if c = CHR 0x09 then [CHR 0x5C, CHR ''t'']
      else if c = CHR 0x0D then [CHR 0x5C, CHR ''r'']
      else if c = CHR 0x0A then [CHR 0x5C, CHR ''n'']
      else if of_char c < (32 :: nat) \<or> of_char c = (127 :: nat) then [CHR 0x5C] @ ''u{'' @ show_hex (of_char c) @ ''}''
      else [c])"

definition str_debug :: "string \<Rightarrow> string" where
  "str_debug s = [CHR 0x22] @ concat (map char_debug s) @ [CHR 0x22]"

section \<open>Order\<close>

fun sock_key :: "SocketAddr \<Rightarrow> nat list" where
  "sock_key (SockV4 a b c d p) = [0, unat a, unat b, unat c, unat d, unat p]"
| "sock_key (SockV6 s f i p) = 1 # map unat s @ [unat p, unat f, unat i]"

lemma sock_key_inject: "sock_key x = sock_key y \<longleftrightarrow> x = y"
proof
  have m: "map unat s = map unat t \<longleftrightarrow> s = t" for s t :: "u16 list"
    by (rule inj_map_eq_map) (auto simp: inj_def intro: unsigned_word_eqI)
  assume "sock_key x = sock_key y"
  then show "x = y" by (cases x; cases y) (auto simp: m intro: unsigned_word_eqI)
qed simp

instantiation SocketAddr :: linorder
begin

definition less_eq_SocketAddr :: "SocketAddr \<Rightarrow> SocketAddr \<Rightarrow> bool" where
  "less_eq_SocketAddr x y \<longleftrightarrow> sock_key x \<le> sock_key y"

definition less_SocketAddr :: "SocketAddr \<Rightarrow> SocketAddr \<Rightarrow> bool" where
  "less_SocketAddr x y \<longleftrightarrow> sock_key x < sock_key y"

instance
proof
  fix x y z :: SocketAddr
  show "x < y \<longleftrightarrow> x \<le> y \<and> \<not> y \<le> x" by (auto simp: less_eq_SocketAddr_def less_SocketAddr_def)
  show "x \<le> x" by (simp add: less_eq_SocketAddr_def)
  show "x \<le> y \<Longrightarrow> y \<le> z \<Longrightarrow> x \<le> z" by (simp add: less_eq_SocketAddr_def)
  show "x \<le> y \<Longrightarrow> y \<le> x \<Longrightarrow> x = y" using sock_key_inject by (simp add: less_eq_SocketAddr_def)
  show "x \<le> y \<or> y \<le> x" using linear by (simp add: less_eq_SocketAddr_def)
qed

end

section \<open>Printing then parsing\<close>

lemma digit_val_digit_char: "d < 10 \<Longrightarrow> digit_val 10 (digit_char d) = Some d"
  by (simp add: digit_val_def of_char_digit_char)

lemma digit_val_show: "c \<in> set (show_nat n) \<Longrightarrow> digit_val 10 c \<noteq> None"
proof (induction n rule: show_nat.induct)
  case (1 n)
  then show ?case
    by (subst (asm) (2) show_nat.simps) (auto simp: digit_val_digit_char split: if_splits)
qed

lemma digits_val_snoc: "digits_val r (s @ [c]) = digits_val r s * r + the (digit_val r c)"
  by (simp add: digits_val_def)

lemma digits_val_show [simp]: "digits_val 10 (show_nat n) = n"
proof (induction n rule: show_nat.induct)
  case (1 n)
  show ?case
  proof (cases "n < 10")
    case True
    then show ?thesis by (subst show_nat.simps) (simp add: digits_val_def digit_val_digit_char)
  next
    case False
    then show ?thesis using 1 by (subst show_nat.simps) (simp add: digits_val_snoc digit_val_digit_char)
  qed
qed

lemma hd_show_nat: "0 < n \<Longrightarrow> hd (show_nat n) \<noteq> CHR ''0''"
proof (induction n rule: show_nat.induct)
  case (1 n)
  show ?case
  proof (cases "n < 10")
    case True
    have "of_char (digit_char n) \<noteq> (48 :: nat)" using True 1(2) by (simp add: of_char_digit_char)
    then have "digit_char n \<noteq> CHR ''0''" by auto
    then show ?thesis using True by (subst show_nat.simps) simp
  next
    case False
    then show ?thesis using 1 by (subst show_nat.simps) (simp add: hd_append)
  qed
qed

lemma show_nat_zero_prefix: "hd (show_nat n) = CHR ''0'' \<Longrightarrow> length (show_nat n) = 1"
  using hd_show_nat [of n] by (cases "n = 0") (auto simp: show_nat.simps [of 0])

lemma show_nat_len3: "n < 256 \<Longrightarrow> length (show_nat n) \<le> 3"
  by (subst show_nat.simps, subst show_nat.simps, subst show_nat.simps) (auto simp: show_nat.simps)

definition no_digit :: "string \<Rightarrow> bool" where
  "no_digit s \<longleftrightarrow> s = [] \<or> digit_val 10 (hd s) = None"

lemma read_number_show:
  assumes "n < bound" "no_digit rest" "case m of Some k \<Rightarrow> length (show_nat n) \<le> k | None \<Rightarrow> True"
  shows "read_number 10 m z bound (show_nat n @ rest) = Some (n, rest)"
proof -
  have t: "takeWhile (\<lambda>c. digit_val 10 c \<noteq> None) (show_nat n @ rest) = show_nat n"
    "dropWhile (\<lambda>c. digit_val 10 c \<noteq> None) (show_nat n @ rest) = rest"
    using assms(2) digit_val_show [of _ n]
    by (cases rest; force simp: no_digit_def takeWhile_append dropWhile_append)+
  show ?thesis
    unfolding read_number_def t Let_def using assms(1,3) show_nat_zero_prefix [of n] by (auto split: option.splits)
qed

lemma read_octet_show:
  assumes "no_digit rest"
  shows "read_octet 0 (show_nat (unat b) @ rest) = Some (b, rest)"
    "0 < i \<Longrightarrow> read_octet i (CHR ''.'' # show_nat (unat b) @ rest) = Some (b, rest)"
  using read_number_show [of "unat b" 256 rest "Some 3" False] assms show_nat_len3 [of "unat b"] unat_lt_u8 [of b]
  by (simp_all add: read_octet_def read_separator_def read_given_char_def)

lemma no_digit_simps [simp]: "no_digit []" "no_digit (CHR ''.'' # s)" "no_digit (CHR '':'' # s)"
  by (simp_all add: no_digit_def digit_val_def)

lemma read_ipv4_show: "no_digit rest \<Longrightarrow> read_ipv4_addr (show_ipv4 a b c d @ rest) = Some ((a, b, c, d), rest)"
  by (simp add: read_ipv4_addr_def show_ipv4_def read_octet_show)

lemma parse_ip_show_v4: "parse_ip_addr (show_ipv4 a b c d) = Some (V4 a b c d)"
  using read_ipv4_show [of "[]"] by (simp add: parse_ip_addr_def)

lemma parse_show_v4: "parse_socket_addr (show_socket_addr (SockV4 a b c d p)) = Some (SockV4 a b c d p)"
proof -
  have "read_port (CHR '':'' # show_nat (unat p)) = Some (p, [])"
    using read_number_show [of "unat p" 65536 "[]" None True] unat_lt_u16 [of p]
    by (simp add: read_port_def read_given_char_def)
  moreover have "read_ipv4_addr (show_ipv4 a b c d @ CHR '':'' # show_nat (unat p)) = Some ((a, b, c, d), CHR '':'' # show_nat (unat p))"
    by (rule read_ipv4_show) simp
  ultimately show ?thesis by (simp add: parse_socket_addr_def read_socket_addr_v4_def)
qed

end
