(* ===== verification/Stun.thy ===== *)
theory Stun
  imports Dto NB_Net
begin

text \<open>The STUN client of \<open>protocol-native-v1/src/stun.rs\<close>: building a binding request, parsing a binding
  response, and one discovery exchange. The socket is a parameter: what binding the port, sending the
  request and waiting for a datagram give. A \<open>usize\<close> is a natural number, the lengths involved are
  below \<open>2 ^ 17\<close>.\<close>

unbundle bit_operations_syntax

section \<open>Messages\<close>

definition BINDING_REQUEST :: u16 where "BINDING_REQUEST = 0x0001"
definition BINDING_SUCCESS_RESPONSE :: u16 where "BINDING_SUCCESS_RESPONSE = 0x0101"
definition XOR_MAPPED_ADDRESS :: u16 where "XOR_MAPPED_ADDRESS = 0x0020"
definition MAGIC_COOKIE :: u32 where "MAGIC_COOKIE = 0x2112a442"
definition HEADER_LEN :: nat where "HEADER_LEN = 20"
definition TRANSACTION_ID_LEN :: nat where "TRANSACTION_ID_LEN = 12"

definition build_binding_request :: "bytes \<Rightarrow> bytes" where
  "build_binding_request transaction_id =
     u16_to_be BINDING_REQUEST @ u16_to_be 0 @ u32_to_be MAGIC_COOKIE @ transaction_id"

definition stun_error :: "string \<Rightarrow> 'a native_result" where
  "stun_error message = Inl (Transport message)"

definition padded_attr_len :: "nat \<Rightarrow> nat" where
  "padded_attr_len len = 4 * ((len + 3) div 4)"

definition parse_xor_mapped_address :: "bytes \<Rightarrow> SocketAddr native_result" where
  "parse_xor_mapped_address attribute =
     (if length attribute < 8 then stun_error ''STUN XOR-MAPPED-ADDRESS is truncated''
      else if attribute ! 1 \<noteq> 1 then stun_error ''STUN XOR-MAPPED-ADDRESS must be IPv4''
      else
        let x_port = u16_from_be [attribute ! 2, attribute ! 3];
            port = x_port XOR ucast (drop_bit 16 MAGIC_COOKIE);
            cookie = u32_to_be MAGIC_COOKIE
        in Inr (SockV4 (attribute ! 4 XOR cookie ! 0) (attribute ! 5 XOR cookie ! 1)
             (attribute ! 6 XOR cookie ! 2) (attribute ! 7 XOR cookie ! 3) port))"

function stun_attributes :: "bytes \<Rightarrow> nat \<Rightarrow> nat \<Rightarrow> SocketAddr native_result" where
  "stun_attributes response end_off off =
     (if off + 4 \<le> end_off then
        (let attr_type = u16_from_be [response ! off, response ! (off + 1)];
             attr_len = unat (u16_from_be [response ! (off + 2), response ! (off + 3)]);
             off' = off + 4
         in if off' + attr_len > end_off then stun_error ''STUN attribute is truncated''
            else if attr_type = XOR_MAPPED_ADDRESS
              then parse_xor_mapped_address (take attr_len (drop off' response))
            else stun_attributes response end_off (off' + padded_attr_len attr_len))
      else stun_error ''STUN response missing XOR-MAPPED-ADDRESS'')"
  by pat_completeness auto
termination by (relation "measure (\<lambda>(r, e, i). e - i)") auto

declare stun_attributes.simps [simp del]

definition parse_binding_response :: "bytes \<Rightarrow> bytes \<Rightarrow> SocketAddr native_result" where
  "parse_binding_response response transaction_id =
     (if length response < HEADER_LEN then stun_error ''STUN response is shorter than header''
      else if u16_from_be [response ! 0, response ! 1] \<noteq> BINDING_SUCCESS_RESPONSE
        then stun_error ''STUN response is not a binding success''
      else let message_len = unat (u16_from_be [response ! 2, response ! 3]) in
        if length response < HEADER_LEN + message_len then stun_error ''STUN response body is truncated''
        else if u32_from_be [response ! 4, response ! 5, response ! 6, response ! 7] \<noteq> MAGIC_COOKIE
          then stun_error ''STUN magic cookie mismatch''
        else if take 12 (drop 8 response) \<noteq> transaction_id then stun_error ''STUN transaction id mismatch''
        else stun_attributes response (HEADER_LEN + message_len) HEADER_LEN)"

text \<open>One exchange: binding the local port and sending can fail with an I/O error; the wait gives a
  datagram, an I/O error, or nothing before the timeout.\<close>

record StunNet =
  stun_bind :: "u16 \<Rightarrow> IoError + unit"
  stun_send_to :: "bytes \<Rightarrow> SocketAddr \<Rightarrow> IoError + unit"
  stun_recv_from :: "(IoError + bytes) option"

definition io_error :: "IoError + 'a \<Rightarrow> 'a native_result" where
  "io_error r = (case r of Inl e \<Rightarrow> Inl (Io e) | Inr x \<Rightarrow> Inr x)"

definition discover_server_reflexive_candidate :: "StunNet \<Rightarrow> bytes \<Rightarrow> SocketAddr \<Rightarrow> u16 \<Rightarrow> SocketAddr native_result" where
  "discover_server_reflexive_candidate net transaction_id stun_server local_port =
     (if local_port = 0 then stun_error ''STUN local port must be greater than zero''
      else
        res_bind (io_error (stun_bind net local_port)) (\<lambda>_.
        res_bind (io_error (stun_send_to net (build_binding_request transaction_id) stun_server)) (\<lambda>_.
        res_bind (ok_or (Transport ''STUN binding request timed out'') (stun_recv_from net)) (\<lambda>received.
        res_bind (io_error received) (\<lambda>response.
        parse_binding_response (take 1500 response) transaction_id)))))"

section \<open>Responses\<close>

text \<open>The encoding a STUN server uses: attributes are a type, the length of the value, and the value
  padded to a multiple of four; the address is XORed with the magic cookie.\<close>

definition stun_attribute :: "u16 \<times> bytes \<Rightarrow> bytes" where
  "stun_attribute = (\<lambda>(t, v). u16_to_be t @ u16_to_be (of_nat (length v)) @ v @ replicate (padded_attr_len (length v) - length v) 0)"

definition xor_mapped :: "u8 \<Rightarrow> u8 \<Rightarrow> u8 \<Rightarrow> u8 \<Rightarrow> u16 \<Rightarrow> bytes" where
  "xor_mapped a b c d p = [0, 1] @ u16_to_be (p XOR 0x2112) @ [a XOR 0x21, b XOR 0x12, c XOR 0xa4, d XOR 0x42]"

definition stun_response :: "bytes \<Rightarrow> bytes \<Rightarrow> bytes" where
  "stun_response transaction_id body =
     u16_to_be BINDING_SUCCESS_RESPONSE @ u16_to_be (of_nat (length body)) @ u32_to_be MAGIC_COOKIE @ transaction_id @ body"

lemma padded_ge: "len \<le> padded_attr_len len"
  unfolding padded_attr_len_def by presburger

lemma length_stun_attribute: "length (stun_attribute (t, v)) = 4 + padded_attr_len (length v)"
  using padded_ge [of "length v"] by (simp add: stun_attribute_def)

lemma u16_pair:
  obtains x y where "u16_to_be w = [x, y]" "u16_from_be [x, y] = w"
proof -
  have "u16_to_be w = [of_nat (unat w div 256), of_nat (unat w)]"
    by (simp add: u16_to_be_def numeral_2_eq_2)
  then show ?thesis using that u16_be_inverse [of w] by metis
qed

lemma nat_to_be_4: "nat_to_be 4 v = [of_nat (v div 256 ^ 3), of_nat (v div 256 ^ 2), of_nat (v div 256), of_nat v]"
proof -
  have four: "(4 :: nat) = Suc (Suc (Suc (Suc 0)))" "(3 :: nat) = Suc (Suc (Suc 0))" "(2 :: nat) = Suc (Suc 0)" by simp_all
  show ?thesis unfolding four by simp
qed

lemma u32_quad:
  obtains a b c d where "u32_to_be w = [a, b, c, d]" "u32_from_be [a, b, c, d] = w"
proof -
  show ?thesis using that u32_be_inverse [of w] unfolding u32_to_be_def nat_to_be_4 by metis
qed

lemma u16_from_be_nth:
  "length pre = n \<Longrightarrow> u16_from_be [(pre @ u16_to_be w @ s) ! n, (pre @ u16_to_be w @ s) ! Suc n] = w"
proof -
  assume n: "length pre = n"
  obtain x y where "u16_to_be w = [x, y]" "u16_from_be [x, y] = w" by (rule u16_pair)
  then show ?thesis using n by (simp add: nth_append)
qed

lemma stun_attributes_step:
  assumes r: "response = pre @ stun_attribute (t, v) @ post" and len: "length v < 2 ^ 16"
  shows "stun_attributes response (length response) (length pre) =
    (if t = XOR_MAPPED_ADDRESS then parse_xor_mapped_address v
     else stun_attributes response (length response) (length (pre @ stun_attribute (t, v))))"
proof -
  let ?pad = "replicate (padded_attr_len (length v) - length v) 0"
  have split: "response = pre @ u16_to_be t @ (u16_to_be (of_nat (length v)) @ v @ ?pad @ post)"
    "response = (pre @ u16_to_be t) @ u16_to_be (of_nat (length v)) @ (v @ ?pad @ post)"
    by (simp_all add: r stun_attribute_def)
  have ty: "u16_from_be [response ! length pre, response ! (length pre + 1)] = t"
    unfolding split(1) using u16_from_be_nth [OF refl] by simp
  have "u16_from_be [response ! (length pre + 2), response ! (length pre + 3)] = of_nat (length v)"
    unfolding split(2) using u16_from_be_nth [of "pre @ u16_to_be t" "length pre + 2" "of_nat (length v)" "v @ ?pad @ post"]
    by (simp add: numeral_3_eq_3)
  then have ln: "unat (u16_from_be [response ! (length pre + 2), response ! (length pre + 3)]) = length v"
    using len by (simp add: unat_of_nat_u16)
  have tot: "length response = length pre + 4 + padded_attr_len (length v) + length post"
    by (simp add: r length_stun_attribute)
  have val: "take (length v) (drop (length pre + 4) response) = v"
    by (simp add: r stun_attribute_def)
  show ?thesis
    by (subst stun_attributes.simps)
      (use ty ln val tot padded_ge [of "length v"] in \<open>simp add: Let_def length_stun_attribute add.assoc\<close>)
qed

lemma stun_attributes_found:
  assumes "\<forall>(t, v) \<in> set attrs. t \<noteq> XOR_MAPPED_ADDRESS \<and> length v < 2 ^ 16" "length v < 2 ^ 16"
  shows "stun_attributes (pre @ concat (map stun_attribute attrs) @ stun_attribute (XOR_MAPPED_ADDRESS, v) @ post)
      (length (pre @ concat (map stun_attribute attrs) @ stun_attribute (XOR_MAPPED_ADDRESS, v) @ post)) (length pre)
    = parse_xor_mapped_address v"
  using assms(1)
proof (induction attrs arbitrary: pre)
  case Nil
  show ?case using stun_attributes_step [OF refl assms(2), of pre XOR_MAPPED_ADDRESS post] by simp
next
  case (Cons x attrs)
  obtain t w where x: "x = (t, w)" by fastforce
  have t: "t \<noteq> XOR_MAPPED_ADDRESS" "length w < 2 ^ 16" using Cons.prems x by auto
  let ?post = "concat (map stun_attribute attrs) @ stun_attribute (XOR_MAPPED_ADDRESS, v) @ post"
  show ?case
    using stun_attributes_step [OF refl t(2), of pre t ?post] t(1) Cons.IH [of "pre @ stun_attribute (t, w)"] Cons.prems
    by (simp add: x)
qed

lemma cookie_bytes: "u32_to_be MAGIC_COOKIE = [0x21, 0x12, 0xa4, 0x42]"
  by (simp add: u32_to_be_def MAGIC_COOKIE_def nat_to_be_4)

lemma parse_xor_mapped: "parse_xor_mapped_address (xor_mapped a b c d p) = Inr (SockV4 a b c d p)"
proof -
  obtain x y where xy: "u16_to_be (p XOR 0x2112) = [x, y]" and "u16_from_be [x, y] = p XOR 0x2112" by (rule u16_pair)
  moreover have "ucast (drop_bit 16 MAGIC_COOKIE) = (0x2112 :: u16)" by (simp add: MAGIC_COOKIE_def)
  ultimately show ?thesis
    by (simp add: parse_xor_mapped_address_def xor_mapped_def xy cookie_bytes Let_def xor.assoc)
qed

lemma length_xor_mapped: "length (xor_mapped a b c d p) = 8"
  by (simp add: xor_mapped_def)

lemma header_reads:
  assumes "length tid = 12" "length body < 2 ^ 16"
  shows "u16_from_be [stun_response tid body ! 0, stun_response tid body ! 1] = BINDING_SUCCESS_RESPONSE"
    "unat (u16_from_be [stun_response tid body ! 2, stun_response tid body ! 3]) = length body"
    "u32_from_be [stun_response tid body ! 4, stun_response tid body ! 5, stun_response tid body ! 6, stun_response tid body ! 7]
       = MAGIC_COOKIE"
    "take 12 (drop 8 (stun_response tid body)) = tid" "length (stun_response tid body) = 20 + length body"
proof -
  obtain a b where ab: "u16_to_be BINDING_SUCCESS_RESPONSE = [a, b]" "u16_from_be [a, b] = BINDING_SUCCESS_RESPONSE" by (rule u16_pair)
  obtain c d where cd: "u16_to_be (of_nat (length body)) = [c, d]" "u16_from_be [c, d] = of_nat (length body)" by (rule u16_pair)
  obtain e f g h where efgh: "u32_to_be MAGIC_COOKIE = [e, f, g, h]" "u32_from_be [e, f, g, h] = MAGIC_COOKIE" by (rule u32_quad)
  have r: "stun_response tid body = a # b # c # d # e # f # g # h # tid @ body"
    by (simp add: stun_response_def ab(1) cd(1) efgh(1))
  show "u16_from_be [stun_response tid body ! 0, stun_response tid body ! 1] = BINDING_SUCCESS_RESPONSE"
    "unat (u16_from_be [stun_response tid body ! 2, stun_response tid body ! 3]) = length body"
    "u32_from_be [stun_response tid body ! 4, stun_response tid body ! 5, stun_response tid body ! 6, stun_response tid body ! 7]
       = MAGIC_COOKIE"
    using ab(2) cd(2) efgh(2) assms(2) by (simp_all add: r unat_of_nat_u16)
  show "take 12 (drop 8 (stun_response tid body)) = tid" "length (stun_response tid body) = 20 + length body"
    using assms(1) by (simp_all add: r)
qed

section \<open>Properties\<close>

text \<open>C34. What the parser accepts. A binding success response with the request's transaction id, in
  which any sequence of other attributes comes before the XOR-MAPPED-ADDRESS of an IPv4 endpoint and
  anything after it, parses to that endpoint. Conversely whatever parses is a binding success, carries
  the magic cookie and the transaction id of the request, and gives an IPv4 endpoint.\<close>

theorem stun_response_parses:
  assumes "length tid = 12" "\<forall>(t, v) \<in> set attrs. t \<noteq> XOR_MAPPED_ADDRESS \<and> length v < 2 ^ 16"
    and body: "body = concat (map stun_attribute attrs) @ stun_attribute (XOR_MAPPED_ADDRESS, xor_mapped a b c d p) @ post"
      "length body < 2 ^ 16"
  shows "parse_binding_response (stun_response tid body) tid = Inr (SockV4 a b c d p)
    \<and> (\<forall>r addr. parse_binding_response r tid = Inr addr \<longrightarrow>
         20 \<le> length r \<and> u16_from_be [r ! 0, r ! 1] = BINDING_SUCCESS_RESPONSE
         \<and> u32_from_be [r ! 4, r ! 5, r ! 6, r ! 7] = MAGIC_COOKIE \<and> take 12 (drop 8 r) = tid
         \<and> (\<exists>x y z w q. addr = SockV4 x y z w q))"
proof (intro conjI allI impI)
  note h = header_reads [OF assms(1) body(2)]
  let ?pre = "take 20 (stun_response tid body)"
  have r: "stun_response tid body = ?pre @ concat (map stun_attribute attrs) @ stun_attribute (XOR_MAPPED_ADDRESS, xor_mapped a b c d p) @ post"
    and pre: "length ?pre = 20"
    using assms(1) by (simp_all add: stun_response_def body(1))
  have "stun_attributes (stun_response tid body) (20 + length body) 20 = parse_xor_mapped_address (xor_mapped a b c d p)"
    using stun_attributes_found [OF assms(2), of "xor_mapped a b c d p" ?pre post] h(5) pre
    unfolding r [symmetric] by (simp add: length_xor_mapped)
  then show "parse_binding_response (stun_response tid body) tid = Inr (SockV4 a b c d p)"
    unfolding parse_binding_response_def Let_def h(1-4) by (simp add: h(5) HEADER_LEN_def parse_xor_mapped)
next
  fix r addr assume p: "parse_binding_response r tid = Inr addr"
  have "stun_attributes rs e i = Inr addr \<Longrightarrow> \<exists>x y z w q. addr = SockV4 x y z w q" for rs e i
  proof (induction rs e i rule: stun_attributes.induct)
    case (1 rs e i)
    show ?case using 1(2) 1(1)
      by (subst (asm) stun_attributes.simps)
        (auto simp: Let_def stun_error_def parse_xor_mapped_address_def split: if_splits)
  qed
  with p show "20 \<le> length r" "u16_from_be [r ! 0, r ! 1] = BINDING_SUCCESS_RESPONSE"
    "u32_from_be [r ! 4, r ! 5, r ! 6, r ! 7] = MAGIC_COOKIE" "take 12 (drop 8 r) = tid"
    "\<exists>x y z w q. addr = SockV4 x y z w q"
    by (auto simp: parse_binding_response_def Let_def stun_error_def HEADER_LEN_def split: if_splits)
qed

theorem stun_response_parses_witness:
  "parse_binding_response (stun_response (replicate 12 7)
     (stun_attribute (0x8022, [1, 2, 3]) @ stun_attribute (XOR_MAPPED_ADDRESS, xor_mapped 192 0 2 1 40000))) (replicate 12 7)
   = Inr (SockV4 192 0 2 1 40000)"
  using stun_response_parses [of "replicate 12 7" "[(0x8022, [1, 2, 3])]"
      "stun_attribute (0x8022, [1, 2, 3]) @ stun_attribute (XOR_MAPPED_ADDRESS, xor_mapped 192 0 2 1 40000)" 192 0 2 1 40000 "[]"]
  by (simp add: XOR_MAPPED_ADDRESS_def length_stun_attribute padded_attr_len_def length_xor_mapped)

end
