(* ===== verification/Tls_Vault.thy ===== *)
theory Tls_Vault
  imports Pairing
begin

text \<open>
  Identities that a process generates once and keeps: the Ed25519 key of the daemon
  (\<open>load_or_create_identity\<close> of \<open>daemon/src/main.rs\<close>) and the self-signed TLS identities of both
  protocols (\<open>tls.rs\<close> of \<open>protocol-native-v1\<close> and \<open>protocol-localsend-v2\<close>). The locale
  \<open>identity_vault\<close> is what a vault promises: a saved identity is the one loaded next. File modes
  are not modelled, so \<open>set_owner_only_permissions\<close> on the file just written has no effect here.
\<close>

section \<open>The contract of a vault\<close>

text \<open>Load the stored identity or generate one and save it, the shape of every caller.\<close>

definition load_or_generate :: "(fs \<Rightarrow> 'e + 'i option) \<Rightarrow> ('i \<Rightarrow> (fs, 'e, unit) sr) \<Rightarrow> 'e + 'i \<Rightarrow> (fs, 'e, 'i) sr" where
  "load_or_generate load save generated =
     sr_bind (sr_gets load) (\<lambda>found. case found of
       Some i \<Rightarrow> sr_return i
     | None \<Rightarrow> sr_bind (sr_gets (\<lambda>_. generated)) (\<lambda>i. sr_bind (save i) (\<lambda>_. sr_return i)))"

locale identity_vault =
  fixes load :: "fs \<Rightarrow> 'e + 'i option" and save :: "'i \<Rightarrow> (fs, 'e, unit) sr" and valid :: "'i \<Rightarrow> bool"
  assumes load_saved: "fs_wf fs \<Longrightarrow> valid i \<Longrightarrow> save i fs = (Inr (), fs') \<Longrightarrow> load fs' = Inr (Some i)"
begin

lemma only_generates_when_missing: "load fs = Inr (Some i) \<Longrightarrow> load_or_generate load save g fs = (Inr i, fs)"
  by (simp add: load_or_generate_def)

lemma stable:
  assumes "fs_wf fs" "pred_sum (\<lambda>_. True) valid g" "load_or_generate load save g fs = (Inr i, fs')"
  shows "load_or_generate load save g' fs' = (Inr i, fs')"
proof -
  have "load fs' = Inr (Some i)"
    using assms load_saved [of fs i fs']
    by (auto simp: load_or_generate_def sr_iffs split: option.splits)
  then show ?thesis by (rule only_generates_when_missing)
qed

end

section \<open>The identity key\<close>

definition load_or_create_identity :: "path \<Rightarrow> bytes \<Rightarrow> bytes core_io" where
  "load_or_create_identity p fresh = load_or_generate (vault_load p) (vault_save p) (Inr fresh)"

section \<open>A certificate and a key on disk\<close>

record TlsIdentity =
  cert_der :: bytes
  key_der :: bytes

definition tls_load :: "(IoError \<Rightarrow> 'e) \<Rightarrow> 'e \<Rightarrow> path \<Rightarrow> path \<Rightarrow> fs \<Rightarrow> 'e + TlsIdentity option" where
  "tls_load io incomplete cert_path key_path fs =
     (let read = \<lambda>p. case fs_read p fs of Inl e \<Rightarrow> Inl (io e) | Inr b \<Rightarrow> Inr b in
      case (is_ok (fs_metadata cert_path fs), is_ok (fs_metadata key_path fs)) of
        (False, False) \<Rightarrow> Inr None
      | (True, True) \<Rightarrow> res_bind (read cert_path) (\<lambda>c. res_bind (read key_path) (\<lambda>k.
          Inr (Some \<lparr>cert_der = c, key_der = k\<rparr>)))
      | _ \<Rightarrow> Inl incomplete)"

definition tls_on :: "(IoError \<Rightarrow> 'e) \<Rightarrow> (fs \<Rightarrow> IoError + fs) \<Rightarrow> (fs, 'e, unit) sr" where
  "tls_on io f = sr_modify (\<lambda>fs. case f fs of Inl e \<Rightarrow> Inl (io e) | Inr fs' \<Rightarrow> Inr fs')"

definition write_atomically :: "(IoError \<Rightarrow> 'e) \<Rightarrow> path \<Rightarrow> bytes \<Rightarrow> (fs, 'e, unit) sr" where
  "write_atomically io p bs =
     (let tmp_path = with_extension p ''tmp'' in
      sr_bind (tls_on io (fs_write tmp_path bs)) (\<lambda>_. tls_on io (fs_rename tmp_path p)))"

definition tls_save :: "(IoError \<Rightarrow> 'e) \<Rightarrow> path \<Rightarrow> path \<Rightarrow> path \<Rightarrow> TlsIdentity \<Rightarrow> (fs, 'e, unit) sr" where
  "tls_save io config_dir cert_path key_path i =
     sr_bind (tls_on io (create_dir_all config_dir)) (\<lambda>_.
     sr_bind (write_atomically io cert_path (cert_der i)) (\<lambda>_.
     write_atomically io key_path (key_der i)))"

definition certificate_fingerprint_sha256_hex :: "(bytes \<Rightarrow> bytes) \<Rightarrow> bytes \<Rightarrow> string" where
  "certificate_fingerprint_sha256_hex sha256 der = concat (map hex_byte (sha256 der))"

section \<open>Loading what was saved\<close>

lemma tls_on_Inr_iff: "tls_on io f fs = (Inr u, fs') \<longleftrightarrow> f fs = Inr fs'"
  by (auto simp: tls_on_def sr_modify_Inr_iff split: sum.splits)

lemma write_atomically_holds:
  assumes wf: "fs_wf fs" and nm: "list_all normal_name d" "normal_name c" and dir: "fs d = Some Dir"
    and wr: "write_atomically io (d @ [c]) bs fs = (Inr (), fs')"
  shows "fs_wf fs'" "fs' (d @ [c]) = Some (File bs)" "fs' d = Some Dir"
    "\<forall>q. q \<noteq> d @ [c] \<longrightarrow> q \<noteq> with_extension (d @ [c]) ''tmp'' \<longrightarrow> fs' q = fs q"
proof -
  let ?t = "(case file_stem c of Some s \<Rightarrow> s | None \<Rightarrow> c) @ ''.'' @ ''tmp''"
  have t: "normal_name ?t" using tmp_name_normal [OF nm(2), of "''tmp''"] by (simp add: has_nul_def)
  have ext: "with_extension (d @ [c]) ''tmp'' = d @ [?t]" using with_extension_snoc [OF nm(2)] by simp
  obtain fs2 where s: "fs_write (d @ [?t]) bs fs = Inr fs2" "fs_rename (d @ [?t]) (d @ [c]) fs2 = Inr fs'"
    using wr unfolding write_atomically_def ext by (auto simp: Let_def sr_bind_Inr_iff tls_on_Inr_iff)
  note sv = save_via_tmp [OF wf nm t create_dir_all_id [OF wf nm(1) dir] s]
  show "fs_wf fs'" "fs' (d @ [c]) = Some (File bs)" using sv by simp_all
  then show "fs' d = Some Dir" unfolding fs_wf_def by auto
  moreover have "fs q = Some Dir \<and> fs' q = Some Dir" if "prefix q d" for q
    using that fs_wf_prefix [of fs q] fs_wf_prefix [of fs' q] wf dir \<open>fs_wf fs'\<close> \<open>fs' d = Some Dir\<close>
    by (metis append_Nil2 option.distinct(1) prefixE)
  ultimately show "\<forall>q. q \<noteq> d @ [c] \<longrightarrow> q \<noteq> with_extension (d @ [c]) ''tmp'' \<longrightarrow> fs' q = fs q"
    using sv(3) unfolding ext by metis
qed

text \<open>Names that do not interfere: the temporary file of the second is not the first.\<close>

definition tls_names_ok :: "path \<Rightarrow> string \<Rightarrow> string \<Rightarrow> bool" where
  "tls_names_ok d c k \<longleftrightarrow> list_all normal_name d \<and> normal_name c \<and> normal_name k \<and> c \<noteq> k
     \<and> with_extension (d @ [k]) ''tmp'' \<noteq> d @ [c]"

lemma tls_save_load:
  assumes wf: "fs_wf fs" and nm: "tls_names_ok d c k" and sv: "tls_save io d (d @ [c]) (d @ [k]) i fs = (Inr (), fs')"
  shows "tls_load io' incomplete (d @ [c]) (d @ [k]) fs' = Inr (Some i)"
proof -
  have n: "list_all normal_name d" "normal_name c" "normal_name k" "c \<noteq> k" "with_extension (d @ [k]) ''tmp'' \<noteq> d @ [c]"
    using nm by (simp_all add: tls_names_ok_def)
  obtain fs1 fs2 where s: "create_dir_all d fs = Inr fs1" "write_atomically io (d @ [c]) (cert_der i) fs1 = (Inr (), fs2)"
    "write_atomically io (d @ [k]) (key_der i) fs2 = (Inr (), fs')"
    using sv by (auto simp: tls_save_def sr_bind_Inr_iff tls_on_Inr_iff)
  have fs1: "fs_wf fs1" "fs1 d = Some Dir"
    using create_dir_all_wf [OF s(1) n(1) wf] create_dir_all_Inr [OF s(1) n(1)] wf by (auto simp: fs_wf_def)
  note w1 = write_atomically_holds [OF fs1(1) n(1,2) fs1(2) s(2)]
  note w2 = write_atomically_holds [OF w1(1) n(1,3) w1(3) s(3)]
  have "fs' (d @ [c]) = Some (File (cert_der i))" using w1(2) w2(4) n(4,5) by simp
  note l = load_normal [OF w2(1) n(1,2) this] load_normal [OF w2(1) n(1,3) w2(2)]
  show ?thesis by (simp add: tls_load_def l)
qed

interpretation key_vault: identity_vault "vault_load (d @ [c])" "vault_save (d @ [c])"
  "\<lambda>i. length i = 32 \<and> list_all normal_name d \<and> normal_name c" for d c
  by unfold_locales (use vault_save_load in blast)

interpretation tls_vault: identity_vault "tls_load io incomplete (d @ [c]) (d @ [k])" "tls_save io d (d @ [c]) (d @ [k])"
  "\<lambda>i. tls_names_ok d c k" for io :: "IoError \<Rightarrow> 'e" and incomplete d c k
  by unfold_locales (rule tls_save_load)

end
