(* ===== verification/Native_Transport.thy ===== *)
theory Native_Transport
  imports Tls_Vault NB_Net
begin

text \<open>
  The transport layer of the native protocol: the TLS identity and the certificate pinning of
  \<open>tls.rs\<close>, the QUIC settings and addresses of \<open>transport.rs\<close>. Quinn and rustls are parameters: what
  they do with a configuration is not modelled, only which configuration they are given.
\<close>

section \<open>TLS identity\<close>

definition native_io :: "IoError \<Rightarrow> NativeError" where
  "native_io e = Crypto (io_display e)"

definition NATIVE_CERT_FILE :: string where "NATIVE_CERT_FILE = ''native-v1.cert.der''"
definition NATIVE_KEY_FILE :: string where "NATIVE_KEY_FILE = ''native-v1.key.der''"

definition native_tls_load :: "path \<Rightarrow> fs \<Rightarrow> TlsIdentity option native_result" where
  "native_tls_load config_dir =
     tls_load native_io (Crypto ''incomplete native TLS identity on disk'')
       (config_dir @ [NATIVE_CERT_FILE]) (config_dir @ [NATIVE_KEY_FILE])"

definition native_tls_save :: "path \<Rightarrow> TlsIdentity \<Rightarrow> (fs, NativeError, unit) sr" where
  "native_tls_save config_dir =
     tls_save native_io config_dir (config_dir @ [NATIVE_CERT_FILE]) (config_dir @ [NATIVE_KEY_FILE])"

text \<open>\<open>generated\<close> is the outcome of the certificate generator for the alias.\<close>

definition native_tls_load_or_generate :: "path \<Rightarrow> TlsIdentity native_result \<Rightarrow> (fs, NativeError, TlsIdentity) sr" where
  "native_tls_load_or_generate config_dir generated =
     load_or_generate (native_tls_load config_dir) (native_tls_save config_dir) generated"

definition native_fingerprint_sha256_hex :: "(bytes \<Rightarrow> bytes) \<Rightarrow> TlsIdentity \<Rightarrow> string" where
  "native_fingerprint_sha256_hex sha256 i = certificate_fingerprint_sha256_hex sha256 (cert_der i)"

definition verify_certificate_fingerprint :: "(bytes \<Rightarrow> bytes) \<Rightarrow> string \<Rightarrow> bytes \<Rightarrow> string + unit" where
  "verify_certificate_fingerprint sha256 expected cert =
     (let actual = certificate_fingerprint_sha256_hex sha256 cert in
      if actual = expected then Inr ()
      else Inl (''native peer certificate fingerprint mismatch: expected '' @ expected @ '', got '' @ actual))"

definition verify_server_cert :: "(bytes \<Rightarrow> bytes) \<Rightarrow> string \<Rightarrow> bytes \<Rightarrow> bytes list \<Rightarrow> string + unit" where
  "verify_server_cert sha256 expected end_entity intermediates =
     verify_certificate_fingerprint sha256 expected end_entity"

section \<open>QUIC settings\<close>

definition NATIVE_ALPN :: bytes where "NATIVE_ALPN = str_bytes ''lsi-native-v1''"

record NativeTransportConfig =
  ntc_alpn :: bytes
  ntc_max_concurrent_bidi_streams :: u32
  ntc_max_concurrent_uni_streams :: u32
  ntc_max_idle_timeout_ms :: u64
  ntc_keep_alive_interval_ms :: "u64 option"

definition default_transport_config :: NativeTransportConfig where
  "default_transport_config = \<lparr>ntc_alpn = NATIVE_ALPN, ntc_max_concurrent_bidi_streams = 64,
     ntc_max_concurrent_uni_streams = 16, ntc_max_idle_timeout_ms = 30000, ntc_keep_alive_interval_ms = Some 10000\<rparr>"

definition transport_error :: "string \<Rightarrow> NativeError" where
  "transport_error message = Transport message"

definition validate_transport :: "NativeTransportConfig \<Rightarrow> unit native_result" where
  "validate_transport c =
     (if ntc_alpn c = [] then Inl (transport_error ''ALPN must not be empty'')
      else if ntc_max_concurrent_bidi_streams c = 0
        then Inl (transport_error ''max_concurrent_bidi_streams must be greater than zero'')
      else if ntc_max_idle_timeout_ms c = 0 then Inl (transport_error ''max_idle_timeout_ms must be greater than zero'')
      else if ntc_keep_alive_interval_ms c = Some 0
        then Inl (transport_error ''keep_alive_interval_ms must be greater than zero when configured'')
      else Inr ())"

text \<open>The settings handed to Quinn; a segmentation offload of \<open>None\<close> leaves the library's default.
  \<open>idle\<close> is the library's conversion of a duration in milliseconds to an idle timeout.\<close>

record 'i QuinnTransport =
  qt_max_concurrent_bidi_streams :: u32
  qt_max_concurrent_uni_streams :: u32
  qt_max_idle_timeout :: "'i option"
  qt_keep_alive_interval_ms :: "u64 option"
  qt_segmentation_offload :: "bool option"

definition build_quinn_transport_config :: "(u64 \<Rightarrow> string + 'i) \<Rightarrow> bool \<Rightarrow> NativeTransportConfig
    \<Rightarrow> 'i QuinnTransport native_result" where
  "build_quinn_transport_config idle disable_gso c =
     res_bind (validate_transport c) (\<lambda>_.
     res_bind (case idle (ntc_max_idle_timeout_ms c) of
         Inl error \<Rightarrow> Inl (transport_error (''invalid idle timeout: '' @ error)) | Inr t \<Rightarrow> Inr t) (\<lambda>idle_timeout.
     Inr \<lparr>qt_max_concurrent_bidi_streams = ntc_max_concurrent_bidi_streams c,
          qt_max_concurrent_uni_streams = ntc_max_concurrent_uni_streams c,
          qt_max_idle_timeout = Some idle_timeout,
          qt_keep_alive_interval_ms = ntc_keep_alive_interval_ms c,
          qt_segmentation_offload = (if disable_gso then Some False else None)\<rparr>))"

section \<open>Addresses\<close>

record HostPort =
  hp_host :: string
  hp_port :: u16

type_synonym NativeServerBind = HostPort
type_synonym NativeClientTarget = HostPort

definition parse_ip :: "string \<Rightarrow> IpAddr native_result" where
  "parse_ip host = ok_or (transport_error (''invalid IP address '' @ host @ '': invalid IP address syntax'')) (parse_ip_addr host)"

definition validate_host_port :: "string \<Rightarrow> u16 \<Rightarrow> unit native_result" where
  "validate_host_port host port =
     (if blank host then Inl (transport_error ''host must not be empty'')
      else if port = 0 then Inl (transport_error ''port must be greater than zero'')
      else res_map (\<lambda>_. ()) (parse_ip host))"

definition socket_addr :: "string \<Rightarrow> u16 \<Rightarrow> SocketAddr native_result" where
  "socket_addr host port =
     res_bind (validate_host_port host port) (\<lambda>_.
     res_map (\<lambda>ip. socket_addr_new ip port) (parse_ip host))"

definition bind_addr :: "HostPort \<Rightarrow> SocketAddr native_result" where
  "bind_addr b = socket_addr (hp_host b) (hp_port b)"

text \<open>The endpoint operations of Quinn, in the order the code calls them. Dialing gives up with an
  error at once or resolves to a connection or an error.\<close>

record ('p, 'c) Quic =
  quic_server :: "SocketAddr \<Rightarrow> IoError + 'p"
  quic_client :: "SocketAddr \<Rightarrow> IoError + 'p"
  quic_connect :: "'p \<Rightarrow> SocketAddr \<Rightarrow> string \<Rightarrow> string + (string + 'c)"

definition bind_server_endpoint :: "('p, 'c) Quic \<Rightarrow> NativeServerBind \<Rightarrow> 'p native_result" where
  "bind_server_endpoint Q bind =
     res_bind (bind_addr bind) (\<lambda>addr. case quic_server Q addr of Inl e \<Rightarrow> Inl (Io e) | Inr p \<Rightarrow> Inr p)"

definition bind_client_endpoint :: "('p, 'c) Quic \<Rightarrow> 'p native_result" where
  "bind_client_endpoint Q = (case quic_client Q (SockV4 0 0 0 0 0) of Inl e \<Rightarrow> Inl (Io e) | Inr p \<Rightarrow> Inr p)"

definition connect :: "('p, 'c) Quic \<Rightarrow> 'p \<Rightarrow> NativeClientTarget \<Rightarrow> string \<Rightarrow> 'c native_result" where
  "connect Q endpoint target server_name =
     (if blank server_name then Inl (transport_error ''server_name must not be empty'')
      else res_bind (bind_addr target) (\<lambda>addr.
        case quic_connect Q endpoint addr server_name of
          Inl error \<Rightarrow> Inl (transport_error error)
        | Inr (Inl error) \<Rightarrow> Inl (transport_error error)
        | Inr (Inr connection) \<Rightarrow> Inr connection))"

section \<open>Lemmas\<close>

lemma native_tls_names: "list_all normal_name d \<Longrightarrow> tls_names_ok d NATIVE_CERT_FILE NATIVE_KEY_FILE"
proof -
  have "normal_name NATIVE_CERT_FILE" "normal_name NATIVE_KEY_FILE" "NATIVE_CERT_FILE \<noteq> NATIVE_KEY_FILE" by code_simp+
  moreover have "(case file_stem NATIVE_KEY_FILE of Some s \<Rightarrow> s | None \<Rightarrow> NATIVE_KEY_FILE) @ ''.'' @ ''tmp'' \<noteq> NATIVE_CERT_FILE"
    by code_simp
  ultimately show "list_all normal_name d \<Longrightarrow> tls_names_ok d NATIVE_CERT_FILE NATIVE_KEY_FILE"
    by (simp add: tls_names_ok_def with_extension_snoc)
qed

lemma native_tls_stable:
  assumes "fs_wf fs" "list_all normal_name d" "native_tls_load_or_generate d g fs = (Inr i, fs')"
  shows "native_tls_load_or_generate d g' fs' = (Inr i, fs')"
proof -
  have "pred_sum (\<lambda>_. True) (\<lambda>i. tls_names_ok d NATIVE_CERT_FILE NATIVE_KEY_FILE) g"
    using native_tls_names [OF assms(2)] by (cases g) auto
  then show ?thesis
    using assms(3,1) unfolding native_tls_load_or_generate_def native_tls_load_def native_tls_save_def
    by (rule tls_vault.stable [rotated])
qed

lemma hex_bytes_inject: "concat (map hex_byte xs) = concat (map hex_byte ys) \<longleftrightarrow> xs = ys"
  by (metis fp_parse_pairs_hex sum.inject(2))

lemma default_transport_valid: "validate_transport default_transport_config = Inr ()"
  by (simp add: validate_transport_def default_transport_config_def NATIVE_ALPN_def str_bytes_def)

lemma socket_addr_Inr:
  "socket_addr host port = Inr a \<longleftrightarrow> \<not> blank host \<and> port \<noteq> 0 \<and> (\<exists>ip. parse_ip_addr host = Some ip \<and> a = socket_addr_new ip port)"
  by (auto simp: socket_addr_def validate_host_port_def parse_ip_def res_iffs)

section \<open>Properties\<close>

text \<open>C23. The certificate fingerprint that peers pin is stable over restarts. Once
  \<open>load_or_generate\<close> has returned an identity, every later call returns the same one without touching
  the files, whatever the generator would produce; so the pinning verifier of a peer that recorded the
  fingerprint accepts that certificate, and of all certificates only those with the same digest.\<close>

theorem native_certificate_stays_pinned:
  assumes "fs_wf fs" "list_all normal_name d" "native_tls_load_or_generate d g fs = (Inr i, fs')"
  shows "native_tls_load_or_generate d g' fs' = (Inr i, fs')
    \<and> (\<forall>cert intermediates. verify_server_cert sha256 (native_fingerprint_sha256_hex sha256 i) cert intermediates = Inr ()
         \<longleftrightarrow> sha256 cert = sha256 (cert_der i))"
  using native_tls_stable [OF assms]
  by (simp add: verify_server_cert_def verify_certificate_fingerprint_def native_fingerprint_sha256_hex_def
    certificate_fingerprint_sha256_hex_def hex_bytes_inject Let_def)

theorem native_certificate_stays_pinned_witness:
  "\<exists>i fs'. native_tls_load_or_generate [''etc''] (Inr \<lparr>cert_der = [1, 2], key_der = [3]\<rparr>) demo_root = (Inr i, fs')
     \<and> native_tls_load_or_generate [''etc''] (Inr \<lparr>cert_der = [9], key_der = [8]\<rparr>) fs' = (Inr i, fs')
     \<and> is_ok (verify_server_cert rev (native_fingerprint_sha256_hex rev i) (cert_der i) [])"
proof -
  have "is_ok (fst (native_tls_load_or_generate [''etc''] (Inr \<lparr>cert_der = [1, 2], key_der = [3]\<rparr>) demo_root))" by code_simp
  from is_ok_fst [OF this] obtain i fs' where
    s: "native_tls_load_or_generate [''etc''] (Inr \<lparr>cert_der = [1, 2], key_der = [3]\<rparr>) demo_root = (Inr i, fs')" by blast
  have "list_all normal_name [''etc'']" by code_simp
  then show ?thesis
    using native_certificate_stays_pinned [OF demo_root_wf _ s, of "Inr \<lparr>cert_der = [9], key_der = [8]\<rparr>" rev] s
    by (auto simp: is_ok_iff)
qed

end
