(* ===== verification/Candidates.thy ===== *)
theory Candidates
  imports Native_Transport Stun "HOL-Library.Product_Lexorder" "HOL-Library.Multiset"
begin

text \<open>
  WAN connectivity of the native protocol: candidate endpoints (\<open>candidates.rs\<close>) and dialing of
  candidate pairs (\<open>hole_punch.rs\<close>). The sockets are parameters: the probe of the primary address, the
  STUN exchanges, and what Quinn answers to each dial. The concurrent attempts report over a channel,
  so their results are consumed in an arbitrary order of arrival.
\<close>

section \<open>Candidates\<close>

datatype CandidateKind = Local | ServerReflexive

record NativeCandidate =
  nc_kind :: CandidateKind
  nc_address :: SocketAddr
  nc_priority :: u32

text \<open>\<open>probe\<close> is the local address of the connected probe socket, \<open>None\<close> when a socket call fails.\<close>

definition primary_ipv4_address :: "IpAddr option \<Rightarrow> IpAddr option" where
  "primary_ipv4_address probe =
     (case probe of
        Some (V4 a b c d) \<Rightarrow> if a \<noteq> 127 \<and> (a, b, c, d) \<noteq> (0, 0, 0, 0) then Some (V4 a b c d) else None
      | _ \<Rightarrow> None)"

fun dedupe_loop :: "(CandidateKind \<times> SocketAddr) set \<Rightarrow> NativeCandidate list \<Rightarrow> NativeCandidate list" where
  "dedupe_loop seen [] = []"
| "dedupe_loop seen (c # cs) =
     (let key = (nc_kind c, nc_address c) in
      if key \<in> seen then dedupe_loop seen cs else c # dedupe_loop (insert key seen) cs)"

definition dedupe_candidates :: "NativeCandidate list \<Rightarrow> NativeCandidate list" where
  "dedupe_candidates cs = dedupe_loop {} cs"

fun candidate_kind_rank :: "CandidateKind \<Rightarrow> nat" where
  "candidate_kind_rank Local = 0"
| "candidate_kind_rank ServerReflexive = 1"

definition candidate_key :: "NativeCandidate \<Rightarrow> int \<times> nat \<times> SocketAddr" where
  "candidate_key c = (- uint (nc_priority c), candidate_kind_rank (nc_kind c), nc_address c)"

definition sort_candidates :: "NativeCandidate list \<Rightarrow> NativeCandidate list" where
  "sort_candidates cs = sort_key candidate_key cs"

definition local_candidates :: "IpAddr option \<Rightarrow> u16 \<Rightarrow> NativeCandidate list native_result" where
  "local_candidates probe native_port =
     (if native_port = 0 then Inl (Transport ''native candidate port must be greater than zero'')
      else
        let loopback = \<lparr>nc_kind = Local, nc_address = SockV4 127 0 0 1 native_port, nc_priority = 100\<rparr>;
            primary = (case primary_ipv4_address probe of
              Some address \<Rightarrow> [\<lparr>nc_kind = Local, nc_address = socket_addr_new address native_port, nc_priority = 90\<rparr>]
            | None \<Rightarrow> [])
        in Inr (sort_candidates (dedupe_candidates (loopback # primary))))"

text \<open>The STUN client is asked server by server; \<open>net i\<close> and \<open>tid i\<close> are the network and the random
  transaction id of the \<open>i\<close>-th exchange. A failing server is skipped.\<close>

definition stun_results :: "(nat \<Rightarrow> StunNet) \<Rightarrow> (nat \<Rightarrow> bytes) \<Rightarrow> SocketAddr list \<Rightarrow> u16 \<Rightarrow> NativeCandidate list" where
  "stun_results net tid servers native_port =
     concat (map (\<lambda>(i, server). case discover_server_reflexive_candidate (net i) (tid i) server native_port of
         Inr address \<Rightarrow> [\<lparr>nc_kind = ServerReflexive, nc_address = address, nc_priority = 80\<rparr>]
       | Inl _ \<Rightarrow> []) (enumerate 0 servers))"

definition gather_candidates :: "IpAddr option \<Rightarrow> (nat \<Rightarrow> StunNet) \<Rightarrow> (nat \<Rightarrow> bytes) \<Rightarrow> u16 \<Rightarrow> SocketAddr list
    \<Rightarrow> NativeCandidate list native_result" where
  "gather_candidates probe net tid native_port stun_servers =
     res_bind (local_candidates probe native_port) (\<lambda>candidates.
       Inr (sort_candidates (dedupe_candidates (candidates @ stun_results net tid stun_servers native_port))))"

section \<open>Candidate pairs\<close>

record CandidatePair =
  cp_local :: NativeCandidate
  cp_remote :: NativeCandidate
  cp_priority :: u64

definition combined_priority :: "u32 \<Rightarrow> u32 \<Rightarrow> u64" where
  "combined_priority l r = push_bit 32 (ucast l) OR ucast r"

definition pair_key :: "CandidatePair \<Rightarrow> int \<times> SocketAddr" where
  "pair_key p = (- uint (cp_priority p), nc_address (cp_remote p))"

definition candidate_pairs :: "NativeCandidate list \<Rightarrow> NativeCandidate list \<Rightarrow> CandidatePair list" where
  "candidate_pairs locals remotes =
     sort_key pair_key (concat (map (\<lambda>l. map (\<lambda>r. \<lparr>cp_local = l, cp_remote = r,
         cp_priority = combined_priority (nc_priority l) (nc_priority r)\<rparr>) remotes) locals))"

fun kind_debug :: "CandidateKind \<Rightarrow> string" where
  "kind_debug Local = ''Local''"
| "kind_debug ServerReflexive = ''ServerReflexive''"

definition describe_pair :: "CandidatePair \<Rightarrow> string" where
  "describe_pair p = kind_debug (nc_kind (cp_local p)) @ '' '' @ show_socket_addr (nc_address (cp_local p)) @ '' -> ''
     @ kind_debug (nc_kind (cp_remote p)) @ '' '' @ show_socket_addr (nc_address (cp_remote p))"

section \<open>Dialing\<close>

record PunchDiagnostics =
  pd_attempted_pairs :: "string list"
  pd_last_error :: "string option"

record ('p, 'c) DialedCandidateConnection =
  dc_endpoint :: 'p
  dc_connection :: 'c
  dc_diagnostics :: PunchDiagnostics

fun native_display :: "NativeError \<Rightarrow> string" where
  "native_display (Io e) = ''io: '' @ io_display e"
| "native_display (Json m) = ''json: '' @ m"
| "native_display (Crypto m) = ''crypto: '' @ m"
| "native_display (Protocol m) = ''protocol: '' @ m"
| "native_display (Transport m) = ''transport: '' @ m"
| "native_display (NoDirectPath pairs hint last_error) =
     ''no direct WAN path to peer; '' @ hint @ '' attempted_pairs=['' @ join_with '', '' (map str_debug pairs) @ '']''"
| "native_display (Manifest m) = ''manifest: '' @ m"

record 'i ClientSetup =
  cs_expected_certificate_fingerprint :: string
  cs_alpn_protocols :: "bytes list"
  cs_transport :: "'i QuinnTransport"

text \<open>Quinn and rustls as the dialer uses them: the conversion of the TLS configuration, the idle
  timeout conversion, binding, and dialing with a timeout (\<open>None\<close> is a timeout).\<close>

record ('p, 'c, 'i) Dialer =
  dl_quic_crypto :: "string \<Rightarrow> string + unit"
  dl_idle :: "u64 \<Rightarrow> string + 'i"
  dl_disable_gso :: bool
  dl_client :: "SocketAddr \<Rightarrow> 'i ClientSetup \<Rightarrow> IoError + 'p"
  dl_connect :: "'p \<Rightarrow> SocketAddr \<Rightarrow> string \<Rightarrow> string + (string + 'c) option"

definition native_client_endpoint :: "('p, 'c, 'i) Dialer \<Rightarrow> SocketAddr \<Rightarrow> string \<Rightarrow> 'p native_result" where
  "native_client_endpoint D local_addr trust =
     res_bind (case dl_quic_crypto D trust of Inl error \<Rightarrow> Inl (Transport error) | Inr x \<Rightarrow> Inr x) (\<lambda>_.
     res_bind (build_quinn_transport_config (dl_idle D) (dl_disable_gso D) default_transport_config) (\<lambda>transport.
     case dl_client D local_addr \<lparr>cs_expected_certificate_fingerprint = trust, cs_alpn_protocols = [NATIVE_ALPN],
         cs_transport = transport\<rparr> of
       Inl e \<Rightarrow> Inl (Io e)
     | Inr endpoint \<Rightarrow> Inr endpoint))"

definition dial_pair :: "('p, 'c, 'i) Dialer \<Rightarrow> CandidatePair \<Rightarrow> string \<Rightarrow> ('p \<times> 'c) native_result" where
  "dial_pair D pair trust =
     res_bind (native_client_endpoint D (nc_address (cp_local pair)) trust) (\<lambda>endpoint.
     case dl_connect D endpoint (nc_address (cp_remote pair)) ''localhost'' of
       Inl error \<Rightarrow> Inl (Transport error)
     | Inr None \<Rightarrow> Inl (Transport ''candidate dial timed out'')
     | Inr (Some (Inl error)) \<Rightarrow> Inl (Transport error)
     | Inr (Some (Inr connection)) \<Rightarrow> Inr (endpoint, connection))"

definition no_direct_path_error :: "string list \<Rightarrow> bool \<Rightarrow> string option \<Rightarrow> NativeError" where
  "no_direct_path_error attempted_pairs only_server_reflexive_failed last_error =
     NoDirectPath attempted_pairs
       (if only_server_reflexive_failed
        then ''symmetric NAT or firewall likely. Relay is not available in the open-base v1 build.''
        else ''firewall or routing policy likely. Relay is not available in the open-base v1 build.'')
       last_error"

definition only_server_reflexive_remote_candidates :: "CandidatePair list \<Rightarrow> bool" where
  "only_server_reflexive_remote_candidates pairs \<longleftrightarrow>
     pairs \<noteq> [] \<and> list_all (\<lambda>p. nc_kind (cp_remote p) = ServerReflexive) pairs"

fun dial_wait :: "string option \<Rightarrow> ('p \<times> 'c) native_result list \<Rightarrow> string option + ('p \<times> 'c) \<times> string option" where
  "dial_wait last_error [] = Inl last_error"
| "dial_wait last_error (Inr won # _) = Inr (won, last_error)"
| "dial_wait last_error (Inl error # rest) = dial_wait (Some (native_display error)) rest"

text \<open>\<open>D i\<close> is what the network answers to the attempt on the \<open>i\<close>-th pair, and \<open>arrival\<close> the order in
  which the attempts report.\<close>

definition dial_candidates :: "(nat \<Rightarrow> ('p, 'c, 'i) Dialer) \<Rightarrow> nat list \<Rightarrow> NativeCandidate list \<Rightarrow> NativeCandidate list
    \<Rightarrow> string \<Rightarrow> ('p, 'c) DialedCandidateConnection native_result" where
  "dial_candidates D arrival locals remotes trust =
     (let pairs = candidate_pairs locals remotes in
      if pairs = [] then Inl (no_direct_path_error [] False None)
      else
        let attempted_pairs = map describe_pair pairs in
        case dial_wait None (map (\<lambda>i. dial_pair (D i) (pairs ! i) trust) arrival) of
          Inr ((endpoint, connection), last_error) \<Rightarrow>
            Inr \<lparr>dc_endpoint = endpoint, dc_connection = connection,
                 dc_diagnostics = \<lparr>pd_attempted_pairs = attempted_pairs, pd_last_error = last_error\<rparr>\<rparr>
        | Inl last_error \<Rightarrow>
            Inl (no_direct_path_error attempted_pairs (only_server_reflexive_remote_candidates pairs) last_error))"

section \<open>Lemmas\<close>

lemma dedupe_loop_set:
  "set (map (\<lambda>c. (nc_kind c, nc_address c)) (dedupe_loop seen cs)) = set (map (\<lambda>c. (nc_kind c, nc_address c)) cs) - seen"
  by (induction seen cs rule: dedupe_loop.induct) (auto simp: Let_def)

lemma dedupe_loop_distinct: "distinct (map (\<lambda>c. (nc_kind c, nc_address c)) (dedupe_loop seen cs))"
proof (induction seen cs rule: dedupe_loop.induct)
  case (2 seen c cs)
  then show ?case using dedupe_loop_set [of "insert (nc_kind c, nc_address c) seen" cs] by (auto simp: Let_def)
qed simp

lemma dedupe_loop_sub: "set (dedupe_loop seen cs) \<subseteq> set cs"
  by (induction seen cs rule: dedupe_loop.induct) (auto simp: Let_def)

lemma unat_combined_priority: "unat (combined_priority l r) = unat l * 2 ^ 32 + unat r"
proof -
  have "push_bit 32 (ucast l :: u64) AND ucast r = 0"
    by (rule bit_word_eqI) (auto simp: bit_simps dest: bit_imp_le_length)
  then have "combined_priority l r = push_bit 32 (ucast l) + ucast r"
    by (simp add: combined_priority_def disjunctive_add_eq_or)
  moreover have "unat (push_bit 32 (ucast l :: u64) + ucast r) = unat l * 2 ^ 32 + unat r"
    using unat_lt_u32 [of l] unat_lt_u32 [of r]
    by (simp add: push_bit_eq_mult unat_word_ariths unsigned_ucast_eq take_bit_eq_mod)
  ultimately show ?thesis by simp
qed

lemma combined_priority_less:
  "combined_priority l r < combined_priority l' r' \<longleftrightarrow> l < l' \<or> l = l' \<and> r < r'"
  using unat_lt_u32 [of r] unat_lt_u32 [of r']
  by (auto simp: word_less_nat_alt unat_combined_priority word_unat_eq_iff)

lemma dial_wait_spec:
  "(\<exists>won e. dial_wait le rs = Inr (won, e) \<and> Inr won \<in> set rs)
   \<or> (\<exists>e. dial_wait le rs = Inl e \<and> (\<forall>r \<in> set rs. \<not> is_ok r) \<and> (rs \<noteq> [] \<longrightarrow> e \<noteq> None))"
proof (induction le rs rule: dial_wait.induct)
  case (3 le error rest)
  then show ?case by (cases rest) auto
qed auto

lemma set_candidate_pairs:
  "set (candidate_pairs ls rs) = {\<lparr>cp_local = l, cp_remote = r,
     cp_priority = combined_priority (nc_priority l) (nc_priority r)\<rparr> | l r. l \<in> set ls \<and> r \<in> set rs}"
  by (auto simp: candidate_pairs_def)

lemma candidate_pairs_Nil: "candidate_pairs ls rs = [] \<longleftrightarrow> ls = [] \<or> rs = []"
proof -
  have "candidate_pairs ls rs = [] \<longleftrightarrow> set (candidate_pairs ls rs) = {}" by simp
  also have "\<dots> \<longleftrightarrow> ls = [] \<or> rs = []" unfolding set_candidate_pairs by (cases ls; cases rs) auto
  finally show ?thesis .
qed

lemma sorted_pairs: "sorted (map pair_key (candidate_pairs ls rs))"
  by (simp add: candidate_pairs_def)

section \<open>Properties\<close>

text \<open>C35. Candidate pairs: every local candidate is paired with every remote one, as often as they are
  listed, and with nothing else, under their combined priority; and no pair precedes one with a better priority. Packing
  two 32-bit priorities into one word loses nothing: pairs are in descending order of the local priority first and
  the remote one second, ties in ascending order of the remote address.\<close>

theorem candidate_pairs_complete_and_ordered:
  "mset (map (\<lambda>p. (cp_local p, cp_remote p)) (candidate_pairs ls rs)) = mset (List.product ls rs)
   \<and> map cp_priority (candidate_pairs ls rs)
       = map (\<lambda>p. combined_priority (nc_priority (cp_local p)) (nc_priority (cp_remote p))) (candidate_pairs ls rs)
   \<and> sorted_wrt (\<lambda>p q. nc_priority (cp_local q) < nc_priority (cp_local p)
       \<or> nc_priority (cp_local q) = nc_priority (cp_local p) \<and>
         (nc_priority (cp_remote q) < nc_priority (cp_remote p)
          \<or> nc_priority (cp_remote q) = nc_priority (cp_remote p) \<and> nc_address (cp_remote p) \<le> nc_address (cp_remote q)))
       (candidate_pairs ls rs)"
proof (intro conjI)
  have pri: "cp_priority x = combined_priority (nc_priority (cp_local x)) (nc_priority (cp_remote x))"
    if "x \<in> set (candidate_pairs ls rs)" for x using that unfolding set_candidate_pairs by auto
  show "map cp_priority (candidate_pairs ls rs)
      = map (\<lambda>p. combined_priority (nc_priority (cp_local p)) (nc_priority (cp_remote p))) (candidate_pairs ls rs)"
    by (rule map_cong [OF refl pri])
  have prods: "map (\<lambda>p. (cp_local p, cp_remote p)) (concat (map (\<lambda>l. map (\<lambda>r. \<lparr>cp_local = l, cp_remote = r,
      cp_priority = combined_priority (nc_priority l) (nc_priority r)\<rparr>) rs) ls)) = List.product ls rs"
    by (induction ls) (simp_all add: comp_def)
  show "mset (map (\<lambda>p. (cp_local p, cp_remote p)) (candidate_pairs ls rs)) = mset (List.product ls rs)"
    unfolding prods [symmetric] candidate_pairs_def mset_map mset_sort by (rule refl)
  have "sorted_wrt (\<lambda>p q. pair_key p \<le> pair_key q) (candidate_pairs ls rs)"
    using sorted_pairs [of ls rs] by (simp add: sorted_wrt_map)
  then show "sorted_wrt (\<lambda>p q. nc_priority (cp_local q) < nc_priority (cp_local p)
       \<or> nc_priority (cp_local q) = nc_priority (cp_local p) \<and>
         (nc_priority (cp_remote q) < nc_priority (cp_remote p)
          \<or> nc_priority (cp_remote q) = nc_priority (cp_remote p) \<and> nc_address (cp_remote p) \<le> nc_address (cp_remote q)))
       (candidate_pairs ls rs)"
  proof (rule sorted_wrt_mono_rel [rotated])
    fix p q assume mem: "p \<in> set (candidate_pairs ls rs)" "q \<in> set (candidate_pairs ls rs)" and le: "pair_key p \<le> pair_key q"
    from le have "cp_priority q < cp_priority p \<or> cp_priority q = cp_priority p \<and> nc_address (cp_remote p) \<le> nc_address (cp_remote q)"
      by (auto simp: pair_key_def less_eq_prod_def word_less_def intro: unsigned_word_eqI)
    then show "nc_priority (cp_local q) < nc_priority (cp_local p)
       \<or> nc_priority (cp_local q) = nc_priority (cp_local p) \<and>
         (nc_priority (cp_remote q) < nc_priority (cp_remote p)
          \<or> nc_priority (cp_remote q) = nc_priority (cp_remote p) \<and> nc_address (cp_remote p) \<le> nc_address (cp_remote q))"
      unfolding pri [OF mem(1)] pri [OF mem(2)] using combined_priority_less
      by (metis less_irrefl neqE)
  qed
qed

definition demo_candidate :: "u8 \<Rightarrow> u32 \<Rightarrow> NativeCandidate" where
  "demo_candidate a p = \<lparr>nc_kind = Local, nc_address = SockV4 a 0 0 1 9, nc_priority = p\<rparr>"

text \<open>C24. Dialing: whatever the order in which the concurrent attempts report, dialing succeeds exactly
  when one of the pairs can be dialed, and then returns the connection of such a pair; otherwise it
  fails with \<open>NoDirectPath\<close>, which lists every pair in order of priority, has the last error, and hints
  at symmetric NAT exactly when all remote candidates are server reflexive.\<close>

theorem dial_candidates_outcome:
  assumes "mset arrival = mset [0..<length (candidate_pairs ls rs)]"
  defines "pairs \<equiv> candidate_pairs ls rs"
  shows "case dial_candidates D arrival ls rs trust of
      Inr d \<Rightarrow> (\<exists>i < length pairs. dial_pair (D i) (pairs ! i) trust = Inr (dc_endpoint d, dc_connection d))
        \<and> pd_attempted_pairs (dc_diagnostics d) = map describe_pair pairs
    | Inl e \<Rightarrow> (\<forall>i < length pairs. \<not> is_ok (dial_pair (D i) (pairs ! i) trust))
        \<and> (\<exists>last_error. e = no_direct_path_error (map describe_pair pairs)
              (rs \<noteq> [] \<and> ls \<noteq> [] \<and> (\<forall>r \<in> set rs. nc_kind r = ServerReflexive)) last_error
            \<and> (last_error = None \<longleftrightarrow> pairs = []))"
proof (cases "pairs = []")
  case True
  then show ?thesis using candidate_pairs_Nil [of ls rs]
    by (auto simp: dial_candidates_def pairs_def [symmetric] Let_def)
next
  case False
  have ne: "ls \<noteq> []" "rs \<noteq> []" using False candidate_pairs_Nil [of ls rs] by (auto simp: pairs_def)
  have arr: "set arrival = {..<length pairs}"
    using mset_eq_setD [OF assms(1)] unfolding pairs_def set_upt atLeast0LessThan .
  let ?rs = "map (\<lambda>i. dial_pair (D i) (pairs ! i) trust) arrival"
  have "arrival \<noteq> []" using False arr by (metis lessThan_iff length_greater_0_conv empty_iff empty_set)
  then have "?rs \<noteq> []" by simp
  have only: "only_server_reflexive_remote_candidates pairs \<longleftrightarrow> (\<forall>r \<in> set rs. nc_kind r = ServerReflexive)"
  proof -
    have "cp_remote ` set pairs = set rs" using ne(1)
      by (simp add: pairs_def candidate_pairs_def image_UN image_image)
    from this [symmetric] show ?thesis
      using False by (simp add: only_server_reflexive_remote_candidates_def list_all_iff)
  qed
  have dial: "dial_candidates D arrival ls rs trust = (case dial_wait None ?rs of
      Inr ((ep, c), le) \<Rightarrow> Inr \<lparr>dc_endpoint = ep, dc_connection = c,
        dc_diagnostics = \<lparr>pd_attempted_pairs = map describe_pair pairs, pd_last_error = le\<rparr>\<rparr>
    | Inl le \<Rightarrow> Inl (no_direct_path_error (map describe_pair pairs) (\<forall>r \<in> set rs. nc_kind r = ServerReflexive) le))"
    unfolding only [symmetric] using False by (simp add: dial_candidates_def pairs_def [symmetric] Let_def)
  consider (won) w e where "dial_wait None ?rs = Inr (w, e)" "Inr w \<in> set ?rs"
    | (lost) e where "dial_wait None ?rs = Inl e" "\<forall>r \<in> set ?rs. \<not> is_ok r" "e \<noteq> None"
    using dial_wait_spec [of None ?rs] \<open>?rs \<noteq> []\<close> by blast
  then show ?thesis
  proof cases
    case won
    then show ?thesis using arr unfolding dial by (cases w) (force simp: image_iff)
  next
    case lost
    then show ?thesis using arr False ne unfolding dial by (fastforce simp: image_iff)
  qed
qed

definition demo_dialer :: "(unit, u16, unit) Dialer" where
  "demo_dialer = \<lparr>dl_quic_crypto = (\<lambda>_. Inr ()), dl_idle = (\<lambda>_. Inr ()), dl_disable_gso = False,
     dl_client = (\<lambda>_ _. Inr ()), dl_connect = (\<lambda>_ a _. Inr (if sock_port a = 9 then None else Some (Inr (sock_port a))))\<rparr>"

theorem dial_candidates_outcome_witness:
  "\<exists>e. dial_candidates (\<lambda>_. demo_dialer) [1, 0] [demo_candidate 1 10, demo_candidate 2 30] [demo_candidate 3 20] ''ab''
     = Inl (no_direct_path_error
         (map describe_pair (candidate_pairs [demo_candidate 1 10, demo_candidate 2 30] [demo_candidate 3 20])) False (Some e))"
proof -
  let ?d = "dial_candidates (\<lambda>_. demo_dialer) [1, 0] [demo_candidate 1 10, demo_candidate 2 30] [demo_candidate 3 20] ''ab''"
  have len: "length (candidate_pairs [demo_candidate 1 10, demo_candidate 2 30] [demo_candidate 3 20]) = 2"
    by (simp add: candidate_pairs_def)
  then have "mset [1, 0] = mset [0..<length (candidate_pairs [demo_candidate 1 10, demo_candidate 2 30] [demo_candidate 3 20])]"
    by (simp add: upt_rec)
  note o = dial_candidates_outcome [OF this, of "\<lambda>_. demo_dialer" "''ab''"]
  have "\<not> is_ok ?d" by code_simp
  then obtain e where "?d = Inl e" by (auto simp: is_ok_def split: sum.splits)
  then show ?thesis using o len by (auto simp: demo_candidate_def)
qed

end
