(* ===== verification/Native_Session.thy ===== *)
theory Native_Session
  imports Transfer_End Framing Chunk_Frame Pairing Candidates
begin

text \<open>
  One native transfer over a QUIC connection, both ends: the sender of
  \<open>protocol-native-v1/src/client.rs\<close> and the receiver of \<open>daemon/src/main.rs\<close>
  (\<open>handle_native_connection\<close> and what it calls). Each end is a program over the bytes it has
  received so far, the bytes it has sent and its own world; the two are composed by giving each the
  bytes the other has sent. QUIC itself is a parameter: whether the connection and the stream come up,
  the exported channel binding, and closing the stream.
\<close>

section \<open>The two ends of a connection\<close>

record QuicConnection =
  qc_established :: "string + unit"        \<comment> \<open>awaiting the incoming connection\<close>
  qc_bi :: "string + unit"                 \<comment> \<open>\<open>open_bi\<close> and \<open>accept_bi\<close>\<close>
  qc_binding :: "bytes native_result"      \<comment> \<open>\<open>connection_channel_binding\<close>\<close>
  qc_finish :: "string + unit"             \<comment> \<open>\<open>finish\<close> of the send half\<close>

text \<open>\<open>anyhow\<close> errors: the cause and the contexts around it. \<open>SeUnexpected\<close> is a message of the form
  \<open>text: {other:?}\<close>, kept as the text and the message it prints.\<close>

datatype SessionError =
    SeNative NativeError
  | SeCore CoreError
  | SeQuic string
  | SeContext string SessionError
  | SeUnexpected string ControlMessage
  | SeBail string
  | SePanic string

record Conn =
  cn_in :: bytes
  cn_out :: bytes
  cn_world :: World

type_synonym 'a session = "(Conn, SessionError, 'a) sr"

definition se_result :: "('e \<Rightarrow> SessionError) \<Rightarrow> 'e + 'a \<Rightarrow> 'a session" where
  "se_result ctx r = sr_gets (\<lambda>_. case r of Inl e \<Rightarrow> Inl (ctx e) | Inr x \<Rightarrow> Inr x)"

definition conn_send :: "(NativeError \<Rightarrow> SessionError) \<Rightarrow> bytes native_result \<Rightarrow> unit session" where
  "conn_send ctx r = (\<lambda>s. case r of Inl e \<Rightarrow> (Inl (ctx e), s) | Inr bs \<Rightarrow> (Inr (), s\<lparr>cn_out := cn_out s @ bs\<rparr>))"

definition conn_recv :: "(NativeError \<Rightarrow> SessionError) \<Rightarrow> (bytes \<Rightarrow> ('a \<times> bytes) native_result) \<Rightarrow> 'a session" where
  "conn_recv ctx dec = (\<lambda>s. case dec (cn_in s) of
     Inl e \<Rightarrow> (Inl (ctx e), s) | Inr (x, rest) \<Rightarrow> (Inr x, s\<lparr>cn_in := rest\<rparr>))"

definition conn_io :: "(NativeError \<Rightarrow> SessionError) \<Rightarrow> 'a io \<Rightarrow> 'a session" where
  "conn_io ctx m = (\<lambda>s. case m (cn_world s) of
     (Inl e, w) \<Rightarrow> (Inl (ctx e), s\<lparr>cn_world := w\<rparr>) | (Inr x, w) \<Rightarrow> (Inr x, s\<lparr>cn_world := w\<rparr>))"

abbreviation native_context :: "string \<Rightarrow> NativeError \<Rightarrow> SessionError" where
  "native_context text \<equiv> (\<lambda>e. SeContext text (SeNative e))"

definition sr_context :: "string \<Rightarrow> 'a session \<Rightarrow> 'a session" where
  "sr_context text m = (\<lambda>s. case m s of (Inl e, s') \<Rightarrow> (Inl (SeContext text e), s') | (Inr x, s') \<Rightarrow> (Inr x, s'))"

section \<open>The sender\<close>

definition native_socket_addr :: "string \<Rightarrow> SessionError + SocketAddr" where
  "native_socket_addr url =
     (case strip_prefix ''quic://'' url of
        None \<Rightarrow> Inl (SeBail ''native --url must start with quic://'')
      | Some address \<Rightarrow> ok_or (SeContext ''native --url must be a quic://host:port socket address''
          (SeBail ''invalid socket address syntax'')) (parse_socket_addr address))"

definition send_chunk :: "(bytes \<Rightarrow> string) \<Rightarrow> path \<Rightarrow> string \<Rightarrow> ChunkRange \<Rightarrow> unit session" where
  "send_chunk H file file_id r =
     sr_bind (conn_io SeNative (of_fs (fs_read_at file (cr_offset r) (cr_length r)))) (\<lambda>bs.
     conn_send SeNative (write_chunk_frame H
       \<lparr>tc_file_id = file_id, tc_offset = cr_offset r, tc_blake3 = H bs, tc_bytes = bs\<rparr>))"

definition send_file_chunks :: "(bytes \<Rightarrow> string) \<Rightarrow> path \<Rightarrow> string \<Rightarrow> u64 \<Rightarrow> u64 \<Rightarrow> unit session" where
  "send_file_chunks H p file_id file_size chunk_size =
     sr_bind (conn_io SeNative (of_fs (fs_open_read p))) (\<lambda>file.
     sr_bind (se_result SeNative (plan_chunks file_size chunk_size)) (\<lambda>ranges.
     sr_iter (send_chunk H file file_id) ranges))"

definition send_prepared_native_files :: "(bytes \<Rightarrow> string) \<Rightarrow> ControlJson \<Rightarrow> Ed25519 \<Rightarrow> QuicConnection \<Rightarrow> RequestTransfer
    \<Rightarrow> path list \<Rightarrow> Keypair \<Rightarrow> unit session" where
  "send_prepared_native_files H J E connection request paths keypair =
     sr_bind (se_result SeQuic (qc_bi connection)) (\<lambda>_.
     sr_bind (se_result SeNative (qc_binding connection)) (\<lambda>channel_binding.
     let hello = build_authenticated_hello E keypair ''night-bridge'' (str_bytes (rt_transfer_id request))
                   default_extensions channel_binding in
     sr_bind (conn_send SeNative (write_control J (MHello hello))) (\<lambda>_.
     sr_bind (conn_recv SeNative (read_control J)) (\<lambda>response.
     sr_bind (case response of
         MHelloAck _ \<Rightarrow> sr_return ()
       | other \<Rightarrow> sr_fail (SeUnexpected ''native peer returned unexpected hello response'' other)) (\<lambda>_.
     sr_bind (conn_send SeNative (write_control J (MRequestTransfer request))) (\<lambda>_.
     sr_bind (conn_recv SeNative (read_control J)) (\<lambda>response.
     let unexpected = sr_fail (SeUnexpected ''native peer returned unexpected transfer response'' response) in
     sr_bind (case response of
         MAccept accepted \<Rightarrow> if at_transfer_id accepted = rt_transfer_id request then sr_return accepted else unexpected
       | _ \<Rightarrow> unexpected) (\<lambda>accepted.
     sr_bind (sr_iter (\<lambda>(file, p). send_file_chunks H p (fo_file_id file) (fo_size file) (at_chunk_size accepted))
         (zip (rt_files request) paths)) (\<lambda>_.
     let done_msg = \<lparr>dt_transfer_id = rt_transfer_id request\<rparr> in
     sr_bind (conn_send SeNative (write_control J (MDone done_msg))) (\<lambda>_.
     sr_bind (conn_recv SeNative (read_control J)) (\<lambda>response.
     let unexpected = sr_fail (SeUnexpected ''native peer returned unexpected completion response'' response) in
     sr_bind (case response of
         MDone ack \<Rightarrow> if dt_transfer_id ack = dt_transfer_id done_msg then sr_return () else unexpected
       | _ \<Rightarrow> unexpected) (\<lambda>_.
     se_result SeQuic (qc_finish connection)))))))))))))"

text \<open>\<open>native_client_endpoint\<close> of \<open>client.rs\<close>: the dialer of the hole-punching module with an
  unspecified local address and the error conversions of \<open>anyhow\<close>.\<close>

definition client_endpoint :: "('p, 'c, 'i) Dialer \<Rightarrow> string \<Rightarrow> SessionError + 'p" where
  "client_endpoint D expected =
     res_bind (case dl_quic_crypto D expected of Inl error \<Rightarrow> Inl (SeQuic error) | Inr x \<Rightarrow> Inr x) (\<lambda>_.
     case build_quinn_transport_config (dl_idle D) (dl_disable_gso D) default_transport_config of
       Inl e \<Rightarrow> Inl (SeNative e)
     | Inr transport \<Rightarrow>
        (case dl_client D (SockV4 0 0 0 0 0) \<lparr>cs_expected_certificate_fingerprint = expected,
             cs_alpn_protocols = [NATIVE_ALPN], cs_transport = transport\<rparr> of
           Inl e \<Rightarrow> Inl (SeNative (Io e))
         | Inr endpoint \<Rightarrow> Inr endpoint))"

text \<open>\<open>conn_to\<close> is \<open>Endpoint::connect\<close> and awaiting what it returns.\<close>

definition send_native_files :: "(bytes \<Rightarrow> string) \<Rightarrow> (nat \<Rightarrow> string) \<Rightarrow> ControlJson \<Rightarrow> Ed25519 \<Rightarrow> ('p, 'c, 'i) Dialer
    \<Rightarrow> ('p \<Rightarrow> SocketAddr \<Rightarrow> string \<Rightarrow> string + QuicConnection) \<Rightarrow> SocketAddr \<Rightarrow> path list \<Rightarrow> Keypair \<Rightarrow> string \<Rightarrow> unit session" where
  "send_native_files H U J E D conn_to target paths keypair expected =
     sr_bind (conn_io (native_context ''preparing native transfer'') (prepare_request H U paths)) (\<lambda>request.
     sr_bind (se_result id (client_endpoint D expected)) (\<lambda>endpoint.
     sr_bind (se_result SeQuic (conn_to endpoint target ''localhost'')) (\<lambda>connection.
     send_prepared_native_files H J E connection request paths keypair)))"

definition send_native_files_over_connection :: "(bytes \<Rightarrow> string) \<Rightarrow> (nat \<Rightarrow> string) \<Rightarrow> ControlJson \<Rightarrow> Ed25519
    \<Rightarrow> QuicConnection \<Rightarrow> path list \<Rightarrow> Keypair \<Rightarrow> unit session" where
  "send_native_files_over_connection H U J E connection paths keypair =
     sr_bind (conn_io (native_context ''preparing native transfer'') (prepare_request H U paths)) (\<lambda>request.
     send_prepared_native_files H J E connection request paths keypair)"

definition path_is_file :: "path \<Rightarrow> fs \<Rightarrow> bool" where
  "path_is_file p fs = (case fs_metadata p fs of Inr (File _) \<Rightarrow> True | _ \<Rightarrow> False)"

fun check_files :: "path list \<Rightarrow> unit session" where
  "check_files [] = sr_return ()"
| "check_files (p # ps) =
     sr_bind (sr_gets (\<lambda>s. Inr (path_is_file p (w_fs (cn_world s))))) (\<lambda>is_file.
     if \<not> is_file then sr_fail (SeBail (''native send file does not exist: '' @ path_display p))
     else check_files ps)"

definition send_files_to_url :: "(bytes \<Rightarrow> string) \<Rightarrow> (nat \<Rightarrow> string) \<Rightarrow> ControlJson \<Rightarrow> Ed25519 \<Rightarrow> ('p, 'c, 'i) Dialer
    \<Rightarrow> ('p \<Rightarrow> SocketAddr \<Rightarrow> string \<Rightarrow> string + QuicConnection) \<Rightarrow> string \<Rightarrow> path list \<Rightarrow> Keypair \<Rightarrow> string \<Rightarrow> unit session" where
  "send_files_to_url H U J E D conn_to url paths keypair expected =
     sr_bind (se_result id (native_socket_addr url)) (\<lambda>target.
     sr_bind (check_files paths) (\<lambda>_.
     sr_context ''sending native files'' (send_native_files H U J E D conn_to target paths keypair expected)))"

definition send_files_to_candidates :: "(bytes \<Rightarrow> string) \<Rightarrow> (nat \<Rightarrow> string) \<Rightarrow> ControlJson \<Rightarrow> Ed25519
    \<Rightarrow> (nat \<Rightarrow> ('p, QuicConnection, 'i) Dialer) \<Rightarrow> nat list \<Rightarrow> NativeCandidate list \<Rightarrow> path list \<Rightarrow> Keypair \<Rightarrow> string \<Rightarrow> unit session" where
  "send_files_to_candidates H U J E D arrival remote_candidates paths keypair expected =
     sr_bind (check_files paths) (\<lambda>_.
     let locals = [\<lparr>nc_kind = Local, nc_address = SockV4 0 0 0 0 0, nc_priority = 100\<rparr>] in
     sr_bind (se_result (native_context ''dialing native WAN candidates'')
         (dial_candidates D arrival locals remote_candidates expected)) (\<lambda>dialed.
     send_native_files_over_connection H U J E (dc_connection dialed) paths keypair))"

section \<open>The receiver\<close>

text \<open>What the listener hands to every connection, with the outcomes of opening the two databases.\<close>

record NativeDaemon =
  nd_alias :: string
  nd_pubkey :: bytes
  nd_inbox_dir :: path
  nd_trust_db_path :: path
  nd_trust_db :: "TrustStore core_result"
  nd_manifest_path :: path
  nd_manifest :: "unit native_result"

definition ensure_native_peer_trusted :: "NativeDaemon \<Rightarrow> NativePeerInfo \<Rightarrow> SessionError + unit" where
  "ensure_native_peer_trusted D peer =
     (case fingerprint_from_str (np_fingerprint peer) of
        Inl e \<Rightarrow> Inl (SeContext (''invalid native peer fingerprint '' @ np_fingerprint peer) (SeCore e))
      | Inr fingerprint \<Rightarrow>
     (case nd_trust_db D of
        Inl e \<Rightarrow> Inl (SeContext (''failed to open trust store '' @ path_display (nd_trust_db_path D)) (SeCore e))
      | Inr store \<Rightarrow>
     (case trust_get store fingerprint of
        Inl e \<Rightarrow> Inl (SeCore e)
      | Inr None \<Rightarrow> Inl (SeBail (''native peer is not trusted: '' @ np_fingerprint peer))
      | Inr (Some trusted) \<Rightarrow>
     (case pe_policy trusted of
        AutoAccept \<Rightarrow> Inr ()
      | Prompt \<Rightarrow> Inl (SeBail (''native peer requires prompt before receive: '' @ np_fingerprint peer))
      | Block \<Rightarrow> Inl (SeBail (''native peer is blocked: '' @ np_fingerprint peer))))))"

definition MAX_NATIVE_TRANSFER_BYTES :: u64 where
  "MAX_NATIVE_TRANSFER_BYTES = 64 * 1024 * 1024 * 1024"

fun sum_sizes :: "u64 \<Rightarrow> FileOffer list \<Rightarrow> u64 option" where
  "sum_sizes acc [] = Some acc"
| "sum_sizes acc (file # files) = Option.bind (checked_add acc (fo_size file)) (\<lambda>acc. sum_sizes acc files)"

definition checked_declared_transfer_bytes :: "RequestTransfer \<Rightarrow> SessionError + u64" where
  "checked_declared_transfer_bytes request =
     res_bind (ok_or (SeBail ''native transfer declared size overflows u64'') (sum_sizes 0 (rt_files request))) (\<lambda>total.
     if total > MAX_NATIVE_TRANSFER_BYTES
     then Inl (SeBail (''native transfer declared size '' @ show_nat (unat total) @ '' exceeds maximum ''
            @ show_nat (unat MAX_NATIVE_TRANSFER_BYTES)))
     else Inr total)"

text \<open>The sum wraps as in a release build; below the cap on the declared sizes it does not.\<close>

definition expected_chunk_count :: "RequestTransfer \<Rightarrow> u64 \<Rightarrow> SessionError + u64" where
  "expected_chunk_count request chunk_size =
     (if chunk_size = 0 \<and> list_ex (\<lambda>file. fo_size file \<noteq> 0) (rt_files request)
      then Inl (SePanic ''attempt to divide by zero'')
      else Inr (sum_list (map (\<lambda>file. if fo_size file = 0 then 0 else div_ceil (fo_size file) chunk_size) (rt_files request))))"

definition receive_one_chunk :: "(bytes \<Rightarrow> string) \<Rightarrow> (nat \<Rightarrow> string) \<Rightarrow> int \<Rightarrow> NativeTransferReceiver \<Rightarrow> string \<Rightarrow> unit session" where
  "receive_one_chunk H U now receiver tid =
     sr_bind (conn_recv (native_context ''failed to read native chunk'') (read_chunk_frame H)) (\<lambda>chunk.
     conn_io (native_context ''failed to receive native chunk'')
       (receive_chunk_with_hash H U now receiver tid (tc_file_id chunk) (tc_offset chunk) (tc_bytes chunk) (tc_blake3 chunk)))"

definition receive_native_transfer :: "(bytes \<Rightarrow> string) \<Rightarrow> (nat \<Rightarrow> string) \<Rightarrow> ControlJson \<Rightarrow> int \<Rightarrow> NativeDaemon
    \<Rightarrow> NativePeerInfo \<Rightarrow> RequestTransfer \<Rightarrow> unit session" where
  "receive_native_transfer H U J now D peer request =
     sr_bind (se_result (native_context (''failed to open native manifest '' @ path_display (nd_manifest_path D))) (nd_manifest D)) (\<lambda>_.
     sr_bind (se_result id (checked_declared_transfer_bytes request)) (\<lambda>_.
     let receiver = receiver_trusted (nd_inbox_dir D) (np_fingerprint peer) in
     sr_bind (conn_io (native_context ''failed to accept native transfer'') (accept_transfer U now receiver peer request)) (\<lambda>accepted.
     sr_bind (conn_send (native_context ''failed to write native transfer acceptance'') (write_control J (MAccept accepted))) (\<lambda>_.
     sr_bind (se_result id (expected_chunk_count request (at_chunk_size accepted))) (\<lambda>expected_chunks.
     sr_bind (sr_iter (\<lambda>_. receive_one_chunk H U now receiver (rt_transfer_id request)) [0..<unat expected_chunks]) (\<lambda>_.
     sr_bind (conn_recv (native_context ''failed to read native transfer completion'') (read_control J)) (\<lambda>message.
     let unfinished = sr_fail (SeBail ''native transfer did not finish with Done'') in
     sr_bind (case message of
         MDone done_msg \<Rightarrow> if dt_transfer_id done_msg = rt_transfer_id request then sr_return done_msg else unfinished
       | _ \<Rightarrow> unfinished) (\<lambda>done_msg.
     sr_bind (conn_io (native_context ''failed to publish native files'') (finish_transfer H U now receiver (rt_transfer_id request))) (\<lambda>_.
     conn_send (native_context ''failed to write native completion ack'') (write_control J (MDone done_msg)))))))))))"

definition handle_native_connection :: "(bytes \<Rightarrow> bytes) \<Rightarrow> (bytes \<Rightarrow> string) \<Rightarrow> (nat \<Rightarrow> string) \<Rightarrow> ControlJson \<Rightarrow> Ed25519 \<Rightarrow> int
    \<Rightarrow> bytes \<Rightarrow> NativeDaemon \<Rightarrow> QuicConnection \<Rightarrow> unit session" where
  "handle_native_connection sha256 H U J E now nonce D connection =
     sr_bind (se_result (\<lambda>e. SeContext ''failed to accept native QUIC connection'' (SeQuic e)) (qc_established connection)) (\<lambda>_.
     sr_bind (se_result (\<lambda>e. native_context ''failed to accept native control stream'' (Transport e)) (qc_bi connection)) (\<lambda>_.
     sr_bind (conn_recv (native_context ''failed to read native control message'') (read_control J)) (\<lambda>message.
     case message of
       MHello hello \<Rightarrow>
         sr_bind (se_result (native_context ''failed to derive native channel binding'') (qc_binding connection)) (\<lambda>channel_binding.
         sr_bind (se_result (native_context ''native peer failed identity proof of possession'')
             (authenticate_hello E hello channel_binding)) (\<lambda>_.
         let peer = \<lparr>np_alias = h_alias hello,
               np_fingerprint = fingerprint_to_string (fingerprint_from_pubkey sha256 (h_pubkey hello)),
               np_pubkey = h_pubkey hello, np_quic_port = 0, np_native_certificate_fingerprint = None,
               np_extensions = h_extensions hello\<rparr> in
         sr_bind (se_result id (ensure_native_peer_trusted D peer)) (\<lambda>_.
         let ack = \<lparr>ha_protocol_version = PROTOCOL_VERSION, ha_alias = nd_alias D, ha_pubkey = nd_pubkey D, ha_nonce = nonce,
               ha_accepted_extensions = negotiate_extensions default_extensions (h_extensions hello)\<rparr> in
         sr_bind (conn_send (native_context ''failed to write native hello ack'') (write_control J (MHelloAck ack))) (\<lambda>_.
         sr_bind (conn_recv (native_context ''failed to read native transfer request'') (read_control J)) (\<lambda>message.
         case message of
           MRequestTransfer request \<Rightarrow>
             sr_bind (receive_native_transfer H U J now D peer request) (\<lambda>_.
             se_result (\<lambda>e. SeContext ''failed to finish native stream'' (SeQuic e)) (qc_finish connection))
         | _ \<Rightarrow> sr_return ())))))
     | _ \<Rightarrow> sr_return ())))"

text \<open>
  The two ends together. An end is a function of the bytes that have reached it; \<open>exchange\<close> is what has
  been sent in each direction after \<open>k\<close> rounds, in which each end sees what the other had sent in the
  round before. An end that waits for bytes that have not come has sent what it sent before waiting.
\<close>

type_synonym endpoint_run = "bytes \<Rightarrow> (SessionError + unit) \<times> Conn"

definition run_end :: "unit session \<Rightarrow> World \<Rightarrow> endpoint_run" where
  "run_end m w input = m \<lparr>cn_in = input, cn_out = [], cn_world = w\<rparr>"

fun exchange :: "endpoint_run \<Rightarrow> endpoint_run \<Rightarrow> nat \<Rightarrow> bytes \<times> bytes" where
  "exchange client server 0 = ([], [])"
| "exchange client server (Suc k) =
     (let (a, b) = exchange client server k in (cn_out (snd (client b)), cn_out (snd (server a))))"

section \<open>The operations of an end\<close>

lemma se_result_apply [simp]:
  "se_result ctx (Inr x) s = (Inr x, s)" "se_result ctx (Inl e) s = (Inl (ctx e), s)"
  by (simp_all add: se_result_def)

lemma conn_send_Inr [simp]: "r = Inr bs \<Longrightarrow> conn_send ctx r s = (Inr (), s\<lparr>cn_out := cn_out s @ bs\<rparr>)"
  by (simp add: conn_send_def)

lemma conn_recv_apply [simp]:
  "dec (cn_in s) = Inr (x, rest) \<Longrightarrow> conn_recv ctx dec s = (Inr x, s\<lparr>cn_in := rest\<rparr>)"
  "dec (cn_in s) = Inl e \<Longrightarrow> conn_recv ctx dec s = (Inl (ctx e), s)"
  by (simp_all add: conn_recv_def)

lemma conn_io_Inr [simp]: "m (cn_world s) = (Inr x, w) \<Longrightarrow> conn_io ctx m s = (Inr x, s\<lparr>cn_world := w\<rparr>)"
  by (simp add: conn_io_def)

lemma sr_iter_append: "sr_iter act (xs @ ys) = sr_bind (sr_iter act xs) (\<lambda>_. sr_iter act ys)"
  by (induction xs) (auto simp: fun_eq_iff sr_bind_def split: prod.splits sum.splits)

lemma sr_iter_map: "sr_iter act (map g xs) = sr_iter (\<lambda>x. act (g x)) xs"
  by (induction xs) simp_all

lemma sr_iter_concat: "sr_iter act (concat xss) = sr_iter (sr_iter act) xss"
  by (induction xss) (simp_all add: sr_iter_append)

section \<open>The chunks of a transfer\<close>

definition chunk_of :: "(bytes \<Rightarrow> string) \<Rightarrow> string \<Rightarrow> bytes \<Rightarrow> ResumeRange \<Rightarrow> TransferChunk" where
  "chunk_of H fid b r = \<lparr>tc_file_id = fid, tc_offset = rr_offset r, tc_blake3 = H (chunk_bytes b r), tc_bytes = chunk_bytes b r\<rparr>"

definition file_chunks :: "(bytes \<Rightarrow> string) \<Rightarrow> u64 \<Rightarrow> FileOffer \<times> bytes \<Rightarrow> TransferChunk list" where
  "file_chunks H chunk_size x = map (chunk_of H (fo_file_id (fst x)) (snd x)) (file_plan chunk_size (snd x))"

definition chunk_stream :: "TransferChunk list \<Rightarrow> bytes" where
  "chunk_stream cs = concat (map chunk_frame_bytes cs)"

lemma chunk_stream_simps [simp]:
  "chunk_stream [] = []" "chunk_stream (c # cs) = chunk_frame_bytes c @ chunk_stream cs"
  "chunk_stream (cs @ ds) = chunk_stream cs @ chunk_stream ds"
  by (simp_all add: chunk_stream_def)

text \<open>The documented shape of the hash text: 64 hex digits.\<close>

definition blake3_ok :: "(bytes \<Rightarrow> string) \<Rightarrow> bool" where
  "blake3_ok H \<longleftrightarrow> (\<forall>bs. length (H bs) = 64 \<and> list_all is_ascii_hexdigit (H bs))"

definition sendable_id :: "string \<Rightarrow> bool" where
  "sendable_id fid \<longleftrightarrow> \<not> blank fid \<and> utf8_valid fid \<and> length fid < 2 ^ 16"

lemma plan_in_file:
  "r \<in> set (file_plan c b) \<Longrightarrow> length b < 2 ^ 63 \<Longrightarrow> rr_length r \<noteq> 0 \<and> unat (rr_offset r) + unat (rr_length r) \<le> length b"
  using plan_of_chunk_in_file [of r "of_nat (length b)" c 0]
  by (auto simp: file_plan_def resume_in_file_def resume_wf_def resume_iv_def unat_of_nat)

lemma plan_chunk_bound: "r \<in> set (plan_chunks_loop n c off) \<Longrightarrow> cr_length r \<le> c"
proof (induction n c off rule: plan_chunks_loop.induct)
  case (1 n c off)
  then show ?case
    by (cases "c = 0 \<or> \<not> off < n") (auto simp: plan_chunks_loop.simps [of n c off] Let_def)
qed

lemma file_chunks_good:
  assumes "blake3_ok H" "sendable_id (fo_file_id (fst x))" "length (snd x) < 2 ^ 63" "c \<in> set (file_chunks H DEFAULT_CHUNK_SIZE x)"
  shows "chunk_frame_ok H c" "chunk_frame_good c"
proof -
  obtain r where r: "c = chunk_of H (fo_file_id (fst x)) (snd x) r" "r \<in> set (file_plan DEFAULT_CHUNK_SIZE (snd x))"
    using assms(4) by (auto simp: file_chunks_def)
  have "rr_length r \<le> DEFAULT_CHUNK_SIZE" using r(2) plan_chunk_bound by (auto simp: file_plan_def)
  then have "unat (rr_length r) \<le> 2 ^ 20" by (simp add: word_le_nat_alt DEFAULT_CHUNK_SIZE_def)
  then have len: "length (tc_bytes c) \<le> 2 ^ 20" by (simp add: r(1) chunk_of_def)
  have "rr_length r \<noteq> 0" "unat (rr_offset r) + unat (rr_length r) \<le> length (snd x)"
    using plan_in_file [OF r(2) assms(3)] by auto
  moreover from this have "0 < unat (rr_length r)" by (simp add: unat_gt_0)
  ultimately have "tc_bytes c \<noteq> []" by (simp add: r(1) chunk_of_def)
  then show "chunk_frame_ok H c"
    using assms(1,2) len by (simp add: chunk_frame_ok_def r(1) chunk_of_def blake3_ok_def sendable_id_def chunk_frame_len_def)
  show "chunk_frame_good c"
    using assms(2) len by (simp add: chunk_frame_good_def r(1) chunk_of_def sendable_id_def chunk_frame_len_def MAX_CHUNK_FRAME_BYTES_def)
qed

section \<open>Sending and receiving chunks\<close>

lemma send_chunk_ok:
  assumes "w_fs (cn_world s) p = Some (File b)" "length b < 2 ^ 63" "unat (cr_offset r) + unat (cr_length r) \<le> length b"
    "chunk_frame_ok H (chunk_of H fid b (of_chunk r))"
  shows "send_chunk H p fid r s = (Inr (), s\<lparr>cn_out := cn_out s @ chunk_frame_bytes (chunk_of H fid b (of_chunk r))\<rparr>)"
proof -
  have "fs_read_at p (cr_offset r) (cr_length r) (w_fs (cn_world s)) = Inr (chunk_bytes b (of_chunk r))"
    using assms(1-3) by (simp add: fs_read_at_def)
  moreover have "write_chunk_frame H (chunk_of H fid b (of_chunk r)) = Inr (chunk_frame_bytes (chunk_of H fid b (of_chunk r)))"
    using assms(4) by (simp add: write_chunk_frame_Inr_iff)
  ultimately show ?thesis by (simp add: send_chunk_def chunk_of_def)
qed

lemma send_chunks_ok:
  assumes "w_fs (cn_world s) p = Some (File b)" "length b < 2 ^ 63"
    "\<forall>r \<in> set rs. unat (cr_offset r) + unat (cr_length r) \<le> length b \<and> chunk_frame_ok H (chunk_of H fid b (of_chunk r))"
  shows "sr_iter (send_chunk H p fid) rs s =
    (Inr (), s\<lparr>cn_out := cn_out s @ chunk_stream (map (chunk_of H fid b) (map of_chunk rs))\<rparr>)"
  using assms
proof (induction rs arbitrary: s)
  case (Cons r rs)
  then show ?case using send_chunk_ok [of s p b r H fid] by simp
qed simp

lemma send_file_chunks_ok:
  assumes "w_fs (cn_world s) p = Some (File b)" "fs_open_read p (w_fs (cn_world s)) = Inr p" "length b < 2 ^ 63"
    "blake3_ok H" "sendable_id (fo_file_id f)" "fo_size f = of_nat (length b)"
  shows "send_file_chunks H p (fo_file_id f) (fo_size f) DEFAULT_CHUNK_SIZE s =
    (Inr (), s\<lparr>cn_out := cn_out s @ chunk_stream (file_chunks H DEFAULT_CHUNK_SIZE (f, b))\<rparr>)"
proof -
  let ?rs = "plan_chunks_loop (of_nat (length b)) DEFAULT_CHUNK_SIZE 0"
  have plan: "plan_chunks (fo_size f) DEFAULT_CHUNK_SIZE = Inr ?rs"
    using plan_chunks_Inr [of DEFAULT_CHUNK_SIZE] assms(6) by (simp add: DEFAULT_CHUNK_SIZE_def)
  have "unat (cr_offset r) + unat (cr_length r) \<le> length b \<and> chunk_frame_ok H (chunk_of H (fo_file_id f) b (of_chunk r))"
    if r: "r \<in> set ?rs" for r
    using file_chunks_good(1) [of H "(f, b)" "chunk_of H (fo_file_id f) b (of_chunk r)"] assms r
      plan_in_file [of "of_chunk r" DEFAULT_CHUNK_SIZE b] by (auto simp: file_chunks_def file_plan_def)
  then have "sr_iter (send_chunk H p (fo_file_id f)) ?rs s =
      (Inr (), s\<lparr>cn_out := cn_out s @ chunk_stream (file_chunks H DEFAULT_CHUNK_SIZE (f, b))\<rparr>)"
    using send_chunks_ok [OF assms(1,3), of ?rs H "fo_file_id f"] by (simp add: file_chunks_def file_plan_def)
  then show ?thesis using assms(2) plan by (simp add: send_file_chunks_def)
qed

definition take_chunk :: "(bytes \<Rightarrow> string) \<Rightarrow> (nat \<Rightarrow> string) \<Rightarrow> int \<Rightarrow> NativeTransferReceiver \<Rightarrow> string \<Rightarrow> TransferChunk \<Rightarrow> unit io" where
  "take_chunk H U now rcv tid c = receive_chunk_with_hash H U now rcv tid (tc_file_id c) (tc_offset c) (tc_bytes c) (tc_blake3 c)"

lemma receive_chunks_ok:
  assumes "\<forall>c \<in> set cs. chunk_frame_ok H c \<and> chunk_frame_good c" "length ks = length cs"
    "sr_iter (take_chunk H U now rcv tid) cs (cn_world s) = (Inr (), w')" "cn_in s = chunk_stream cs @ rest"
  shows "sr_iter (\<lambda>_. receive_one_chunk H U now rcv tid) ks s = (Inr (), s\<lparr>cn_in := rest, cn_world := w'\<rparr>)"
  using assms
proof (induction cs arbitrary: ks s)
  case (Cons c cs)
  obtain k ks' where ks: "ks = k # ks'" "length ks' = length cs" using Cons.prems(2) by (cases ks) auto
  obtain w where w: "take_chunk H U now rcv tid c (cn_world s) = (Inr (), w)" "sr_iter (take_chunk H U now rcv tid) cs w = (Inr (), w')"
    using Cons.prems(3) by (auto simp: sr_iffs)
  have "read_chunk_frame H (cn_in s) = Inr (c, chunk_stream cs @ rest)"
    using read_write_chunk_frame [of c H "chunk_frame_bytes c" "chunk_stream cs @ rest"] Cons.prems(1,4)
    by (simp add: write_chunk_frame_Inr_iff)
  then have "receive_one_chunk H U now rcv tid s = (Inr (), s\<lparr>cn_in := chunk_stream cs @ rest, cn_world := w\<rparr>)"
    using w(1) by (simp add: receive_one_chunk_def take_chunk_def)
  then show ?case
    using Cons.IH [OF _ ks(2), of "s\<lparr>cn_in := chunk_stream cs @ rest, cn_world := w\<rparr>"] Cons.prems(1) w(2) by (simp add: ks(1))
next
  case Nil
  then show ?case by simp
qed

text \<open>The second way to deliver files: over the stream. It needs nothing of the receiver's file system.\<close>

interpretation over_stream: file_delivery rcv tid "\<lambda>x. sr_iter (take_chunk H U now rcv tid) (file_chunks H (rv_chunk_size rcv) x)"
    fst snd "\<lambda>_ _. True" for H U now rcv tid
proof
  fix w and x :: "FileOffer \<times> bytes"
  assume pre: "rv_chunk_size rcv \<noteq> 0" "inbox_ok (rv_inbox_dir rcv)" "cleaned tid \<noteq> []" "sendable rcv tid w" "offer_ready rcv tid w (fst x) (snd x)"
  let ?act = "\<lambda>r. take_chunk H U now rcv tid (chunk_of H (fo_file_id (fst x)) (snd x) r)"
  have "sr_iter (take_chunk H U now rcv tid) (file_chunks H (rv_chunk_size rcv) x) = sr_iter ?act (file_plan (rv_chunk_size rcv) (snd x))"
    by (simp add: file_chunks_def sr_iter_map)
  then show "\<exists>m. sr_iter (take_chunk H U now rcv tid) (file_chunks H (rv_chunk_size rcv) x) w =
      (Inr (), w\<lparr>w_fs := (w_fs w)(offer_part rcv tid (fst x) \<mapsto> File (snd x)), w_manifest := m\<rparr>)
      \<and> verified_bytes m tid (fo_file_id (fst x)) = {0..<length (snd x)}
      \<and> same_elsewhere tid (fo_file_id (fst x)) (w_manifest w) m \<and> manifest_inv m"
    using recv_one_file_ok [OF pre, of "\<lambda>_. True" ?act H U now] by (simp add: take_chunk_def chunk_of_def)
qed simp

end
