(* ===== verification/Session_Delivery.thy ===== *)
theory Session_Delivery
  imports Native_Session
begin

text \<open>
  A transfer over a connection, from end to end: the number of chunks the receiver waits for is the
  number the sender sends, each end makes progress on what the other has sent, and the exchange ends
  with the files published.
\<close>

section \<open>Counting chunks\<close>

lemma default_chunk_nonzero [simp]: "DEFAULT_CHUNK_SIZE \<noteq> 0"
  by (simp add: DEFAULT_CHUNK_SIZE_def)

lemma ceil_div_step:
  fixes d c :: nat
  assumes "0 < c" "0 < d"
  shows "Suc ((d - min c d + (c - 1)) div c) = (d + (c - 1)) div c"
proof (cases "c \<le> d")
  case True
  then have "d - min c d + (c - 1) + c = d + (c - 1)" using assms by simp
  then show ?thesis using assms div_add_self2 [of c "d - min c d + (c - 1)"] by simp
next
  case False
  then have "(d + (c - 1)) div c = 1" using assms by (intro div_nat_eqI) auto
  then show ?thesis using False assms by simp
qed

lemma plan_length:
  "c \<noteq> 0 \<Longrightarrow> off \<le> n \<Longrightarrow> length (plan_chunks_loop n c off) = (unat n - unat off + (unat c - 1)) div unat c"
proof (induction n c off rule: plan_chunks_loop.induct)
  case (1 n c off)
  show ?case
  proof (cases "off < n")
    case False
    then have "off = n" using 1(3) by simp
    then show ?thesis using 1(2) unat_gt_0 [of c] plan_chunks_loop.simps [of n c n] by simp
  next
    case True
    let ?len = "min c (n - off)"
    have plan: "plan_chunks_loop n c off = mk_chunk off ?len # plan_chunks_loop n c (off + ?len)"
      using True 1(2) by (subst plan_chunks_loop.simps) (simp add: Let_def)
    have add: "unat (off + ?len) = unat off + min (unat c) (unat n - unat off)" by (rule plan_step_unat [OF True])
    have lt: "unat off < unat n" using True by (simp add: word_less_nat_alt)
    then have le: "off + ?len \<le> n" using add by (simp add: word_le_nat_alt)
    have cond: "\<not> (c = 0 \<or> \<not> off < n)" using True 1(2) by simp
    have "length (plan_chunks_loop n c (off + ?len)) = (unat n - unat (off + ?len) + (unat c - 1)) div unat c"
      using 1(1) [OF cond refl 1(2) le] .
    also have "unat n - unat (off + ?len) = (unat n - unat off) - min (unat c) (unat n - unat off)" using add by simp
    finally show ?thesis
      using ceil_div_step [of "unat c" "unat n - unat off"] 1(2) lt unat_gt_0 [of c] unfolding plan by simp
  qed
qed

lemma ceil_div_nat:
  fixes n c :: nat
  assumes "0 < c"
  shows "(n + (c - 1)) div c = (if n mod c = 0 then n div c else n div c + 1)"
proof -
  have n: "n = n div c * c + n mod c" by simp
  show ?thesis
  proof (cases "n mod c = 0")
    case True
    then have "(n + (c - 1)) div c = n div c"
      using assms div_mult_self3 [of c "n div c" "c - 1"] n by (simp add: div_less)
    with True show ?thesis by simp
  next
    case False
    have "n + (c - 1) = (n mod c - 1) + (n div c * c + c)" using n False assms by linarith
    then have "n + (c - 1) = (n mod c - 1) + (n div c + 1) * c" by simp
    moreover have "(n mod c - 1) div c = 0" using assms mod_less_divisor [OF assms, of n] by simp
    ultimately have "(n + (c - 1)) div c = n div c + 1"
      using assms div_mult_self1 [of c "n mod c - 1" "n div c + 1"] by simp
    with False show ?thesis by simp
  qed
qed

lemma unat_div_ceil:
  fixes n c :: u64
  assumes "c \<noteq> 0"
  shows "unat (div_ceil n c) = (unat n + (unat c - 1)) div unat c"
proof (cases "n mod c = 0")
  case True
  then have "unat n mod unat c = 0" by (metis unat_0 unat_mod)
  then show ?thesis using True ceil_div_nat [of "unat c" "unat n"] assms by (simp add: div_ceil_def unat_div unat_gt_0)
next
  case False
  then have m: "unat n mod unat c \<noteq> 0" by (metis unat_mod unat_eq_zero)
  then have "unat c \<noteq> 1" "unat n \<noteq> 0" by (metis mod_by_1, metis mod_0)
  moreover have "unat c \<noteq> 0" using assms by (simp add: unat_eq_zero)
  ultimately have "unat n div unat c < unat n" by (intro div_less_dividend) auto
  then have "unat (n div c + 1) = unat n div unat c + 1"
    using unat_lt_u64 [of n] by (simp add: unat_word_ariths unat_div)
  then show ?thesis using False m ceil_div_nat [of "unat c" "unat n"] assms by (simp add: div_ceil_def unat_gt_0)
qed

lemma unat_sum_list:
  fixes ws :: "u64 list"
  assumes "sum_list (map unat ws) < 2 ^ 64"
  shows "unat (sum_list ws) = sum_list (map unat ws)"
  using assms
proof (induction ws)
  case (Cons w ws)
  then show ?case by (simp add: unat_word_ariths)
qed simp

definition session_offers :: "(bytes \<Rightarrow> string) \<Rightarrow> (path \<times> bytes) list \<Rightarrow> (FileOffer \<times> bytes) list" where
  "session_offers H xs = zip (mk_offers H 0 xs) (map snd xs)"

definition session_chunks :: "(bytes \<Rightarrow> string) \<Rightarrow> (path \<times> bytes) list \<Rightarrow> TransferChunk list" where
  "session_chunks H xs = concat (map (file_chunks H DEFAULT_CHUNK_SIZE) (session_offers H xs))"

definition total_bytes :: "(path \<times> bytes) list \<Rightarrow> nat" where
  "total_bytes xs = sum_list (map (\<lambda>x. length (snd x)) xs)"

lemma session_offers_nth: "i < length xs \<Longrightarrow> session_offers H xs ! i = (mk_offers H 0 xs ! i, snd (xs ! i))"
  by (simp add: session_offers_def)

lemma length_session_offers [simp]: "length (session_offers H xs) = length xs"
  by (simp add: session_offers_def)

lemma item_le_total: "x \<in> set xs \<Longrightarrow> length (snd x) \<le> total_bytes xs"
  unfolding total_bytes_def by (rule member_le_sum_list) (auto intro: image_eqI)

lemma length_file_chunks:
  assumes "length b < 2 ^ 64" "fo_size f = of_nat (length b)"
  shows "length (file_chunks H DEFAULT_CHUNK_SIZE (f, b)) =
      unat (if fo_size f = 0 then 0 else div_ceil (fo_size f) DEFAULT_CHUNK_SIZE)"
    "length (file_chunks H DEFAULT_CHUNK_SIZE (f, b)) \<le> length b"
proof -
  let ?c = "unat DEFAULT_CHUNK_SIZE"
  have c: "DEFAULT_CHUNK_SIZE \<noteq> 0" "1 < ?c" by (simp_all add: DEFAULT_CHUNK_SIZE_def)
  have n: "unat (fo_size f) = length b" using assms by (simp add: unat_of_nat)
  have len: "length (file_chunks H DEFAULT_CHUNK_SIZE (f, b)) = (length b + (?c - 1)) div ?c"
    using plan_length [OF c(1), of 0 "of_nat (length b)"] assms(1) by (simp add: file_chunks_def file_plan_def unat_of_nat)
  show "length (file_chunks H DEFAULT_CHUNK_SIZE (f, b)) = unat (if fo_size f = 0 then 0 else div_ceil (fo_size f) DEFAULT_CHUNK_SIZE)"
  proof (cases "fo_size f = 0")
    case True
    then have "length b = 0" using n by simp
    then show ?thesis using len True c(2) by simp
  next
    case False
    then show ?thesis using len unat_div_ceil [OF c(1), of "fo_size f"] n by simp
  qed
  have m: "length b \<le> length b * ?c" using c(2) by simp
  have "length b + (?c - 1) < Suc (length b) * ?c" using m c(2) unfolding mult_Suc by linarith
  then show "length (file_chunks H DEFAULT_CHUNK_SIZE (f, b)) \<le> length b"
    unfolding len using less_mult_imp_div_less [of "length b + (?c - 1)" "Suc (length b)" ?c] by simp
qed

lemma session_offers_sizes:
  assumes "total_bytes xs < 2 ^ 64" "x \<in> set (session_offers H xs)"
  shows "length (snd x) < 2 ^ 64" "fo_size (fst x) = of_nat (length (snd x))"
proof -
  obtain i where i: "i < length xs" "x = (mk_offers H 0 xs ! i, snd (xs ! i))"
    using assms(2) by (auto simp: in_set_conv_nth session_offers_nth)
  show "length (snd x) < 2 ^ 64" using item_le_total [of "xs ! i" xs] assms(1) i by simp
  show "fo_size (fst x) = of_nat (length (snd x))" using i by (simp add: nth_mk_offers)
qed

lemma session_chunks_count:
  assumes "total_bytes xs < 2 ^ 64"
  shows "expected_chunk_count \<lparr>rt_transfer_id = tid, rt_files = mk_offers H 0 xs\<rparr> DEFAULT_CHUNK_SIZE =
    Inr (of_nat (length (session_chunks H xs)))" "length (session_chunks H xs) < 2 ^ 64"
proof -
  let ?g = "\<lambda>f. if fo_size f = 0 then 0 else div_ceil (fo_size f) DEFAULT_CHUNK_SIZE"
  let ?ws = "map ?g (mk_offers H 0 xs)"
  have fst: "mk_offers H 0 xs = map fst (session_offers H xs)" by (simp add: session_offers_def)
  note sz = session_offers_sizes [OF assms]
  have each: "length (file_chunks H DEFAULT_CHUNK_SIZE x) = unat (?g (fst x))"
    "length (file_chunks H DEFAULT_CHUNK_SIZE x) \<le> length (snd x)" if "x \<in> set (session_offers H xs)" for x
    using length_file_chunks [OF sz [OF that], of H] by simp_all
  have len: "length (session_chunks H xs) = sum_list (map (\<lambda>x. length (file_chunks H DEFAULT_CHUNK_SIZE x)) (session_offers H xs))"
    by (simp add: session_chunks_def length_concat comp_def)
  also have "\<dots> \<le> sum_list (map (\<lambda>x. length (snd x)) (session_offers H xs))" by (rule sum_list_mono) (rule each(2))
  also have "map (\<lambda>x. length (snd x)) (session_offers H xs) = map (\<lambda>x. length (snd x)) xs"
    by (rule nth_equalityI) (simp_all add: session_offers_nth)
  finally show lt: "length (session_chunks H xs) < 2 ^ 64" using assms by (simp add: total_bytes_def)
  have "length (session_chunks H xs) = sum_list (map unat ?ws)"
    unfolding len fst map_map comp_def using each(1) by (intro arg_cong [of _ _ sum_list] map_cong) auto
  then have u: "unat (sum_list ?ws) = length (session_chunks H xs)" using unat_sum_list [of ?ws] lt by simp
  have "sum_list ?ws = of_nat (length (session_chunks H xs))" unfolding u [symmetric] by (rule word_nat_cases) simp
  then show "expected_chunk_count \<lparr>rt_transfer_id = tid, rt_files = mk_offers H 0 xs\<rparr> DEFAULT_CHUNK_SIZE =
      Inr (of_nat (length (session_chunks H xs)))"
    by (simp add: expected_chunk_count_def)
qed

lemma sum_sizes_offers:
  "unat acc + total_bytes xs < 2 ^ 64 \<Longrightarrow> sum_sizes acc (mk_offers H k xs) = Some (acc + of_nat (total_bytes xs))"
proof (induction H k xs arbitrary: acc rule: mk_offers.induct)
  case (2 H k p b xs)
  have t: "total_bytes ((p, b) # xs) = length b + total_bytes xs" by (simp add: total_bytes_def)
  then have lt: "unat acc + length b + total_bytes xs < 2 ^ 64" using 2(2) by (simp only: add.assoc)
  then have n: "unat (of_nat (length b) :: u64) = length b" by (intro unat_of_nat_u64) linarith
  have sum: "unat (acc + of_nat (length b)) = unat acc + length b"
    using lt unfolding unat_word_ariths(1) n by simp
  have step: "checked_add acc (of_nat (length b)) = Some (acc + of_nat (length b))"
    using lt unfolding checked_add_def n by simp
  have "unat (acc + of_nat (length b)) + total_bytes xs < 2 ^ 64" using lt unfolding sum .
  from 2(1) [OF this] show ?case unfolding t by (simp add: step add.assoc)
qed (simp add: total_bytes_def)

lemma declared_ok:
  assumes "total_bytes xs \<le> unat MAX_NATIVE_TRANSFER_BYTES"
  shows "checked_declared_transfer_bytes \<lparr>rt_transfer_id = tid, rt_files = mk_offers H 0 xs\<rparr> = Inr (of_nat (total_bytes xs))"
proof -
  have lt: "total_bytes xs < 2 ^ 64" using assms unat_lt_u64 [of MAX_NATIVE_TRANSFER_BYTES] by simp
  have "(of_nat (total_bytes xs) :: u64) \<le> MAX_NATIVE_TRANSFER_BYTES" using assms lt by (simp add: word_le_nat_alt unat_of_nat)
  then show ?thesis using sum_sizes_offers [of 0 xs H 0] lt by (simp add: checked_declared_transfer_bytes_def)
qed

section \<open>Identity and trust\<close>

lemma hello_authenticates:
  "ed25519_ok E \<Longrightarrow> authenticate_hello E (build_authenticated_hello E kp alias_text nonce exts b) b = Inr ()"
  by (simp add: authenticate_hello_def build_authenticated_hello_def verify_identity_proof_def sign_identity_proof_def
    keypair_sign_def public_bytes_def ed25519_ok_def)

lemma ensure_trusted_Inr_iff:
  "ensure_native_peer_trusted D peer = Inr u \<longleftrightarrow> (\<exists>fp st p. fingerprint_from_str (np_fingerprint peer) = Inr fp
     \<and> nd_trust_db D = Inr st \<and> trust_get st fp = Inr (Some p) \<and> pe_policy p = AutoAccept)"
  by (auto simp: ensure_native_peer_trusted_def split: sum.splits option.splits PeerPolicy.splits)

lemma hex_digit_safe: "d < 16 \<Longrightarrow> safe_char (hex_digit d)"
  by (cases "d < 10") (simp_all add: hex_digit_def safe_char_def is_ascii_alphanumeric_def is_ascii_digit_def less_eq_char_def)

lemma fingerprint_text_not_blank: "length fp = 8 \<Longrightarrow> \<not> blank (fingerprint_to_string fp)"
proof -
  assume "length fp = 8"
  then obtain b bs where "fp = b # bs" by (cases fp) auto
  moreover have "unat b div 16 < 16" for b :: u8 using unat_lt_u8 [of b] by simp
  then have "safe_char (hex_digit (unat b div 16))" for b :: u8 by (rule hex_digit_safe)
  ultimately show ?thesis by (simp add: fingerprint_to_string_def hex_byte_def safe_char_not_blank)
qed

section \<open>The sender's side\<close>

definition qc_up :: "QuicConnection \<Rightarrow> bytes \<Rightarrow> bool" where
  "qc_up C b \<longleftrightarrow> qc_established C = Inr () \<and> qc_bi C = Inr () \<and> qc_binding C = Inr b \<and> qc_finish C = Inr ()"

definition hello_of :: "Ed25519 \<Rightarrow> Keypair \<Rightarrow> string \<Rightarrow> bytes \<Rightarrow> Hello" where
  "hello_of E kp tid b = build_authenticated_hello E kp ''night-bridge'' (str_bytes tid) default_extensions b"

definition ack_of :: "NativeDaemon \<Rightarrow> bytes \<Rightarrow> HelloAck" where
  "ack_of D nonce = \<lparr>ha_protocol_version = PROTOCOL_VERSION, ha_alias = nd_alias D, ha_pubkey = nd_pubkey D, ha_nonce = nonce,
     ha_accepted_extensions = negotiate_extensions default_extensions default_extensions\<rparr>"

abbreviation accept_of :: "string \<Rightarrow> AcceptTransfer" where
  "accept_of tid \<equiv> \<lparr>at_transfer_id = tid, at_chunk_size = DEFAULT_CHUNK_SIZE\<rparr>"

text \<open>The bytes \<open>bs\<close> are the frame of a message that is read back from any stream it starts.\<close>

definition frame_of :: "ControlJson \<Rightarrow> ControlMessage \<Rightarrow> bytes \<Rightarrow> bool" where
  "frame_of J m bs \<longleftrightarrow> write_control J m = Inr bs \<and> (\<forall>rest. read_control J (bs @ rest) = Inr (m, rest))"

lemma frame_ofD:
  assumes "frame_of J m bs"
  shows "write_control J m = Inr bs" "read_control J (bs @ rest) = Inr (m, rest)" "read_control J bs = Inr (m, [])"
  using assms by (simp_all add: frame_of_def) (metis append_Nil2)

lemma frame_of_exists: "json_ok J m \<Longrightarrow> is_ok (write_control J m) \<Longrightarrow> \<exists>bs. frame_of J m bs"
  using read_write_control by (auto simp: frame_of_def is_ok_iff)

lemma read_control_Nil: "\<exists>e. read_control J [] = Inl e"
  by (simp add: read_control_def read_exact_def)

lemma client_run:
  assumes up: "qc_up C b" and rq: "rt_transfer_id request = tid"
    and fr: "frame_of J (MHello (hello_of E kp tid b)) hb" "frame_of J (MHelloAck ack) ab" "frame_of J (MRequestTransfer request) rb"
      "frame_of J (MAccept (accept_of tid)) cb" "frame_of J (MDone \<lparr>dt_transfer_id = tid\<rparr>) db"
    and send: "\<And>s'. cn_world s' = cn_world s \<Longrightarrow>
      sr_iter (\<lambda>(file, p). send_file_chunks H p (fo_file_id file) (fo_size file) DEFAULT_CHUNK_SIZE) (zip (rt_files request) paths) s' =
        (Inr (), s'\<lparr>cn_out := cn_out s' @ ch\<rparr>)"
  shows "cn_in s = [] \<Longrightarrow> cn_out (snd (send_prepared_native_files H J E C request paths kp s)) = cn_out s @ hb"
    "cn_in s = ab \<Longrightarrow> cn_out (snd (send_prepared_native_files H J E C request paths kp s)) = cn_out s @ hb @ rb"
    "cn_in s = ab @ cb \<Longrightarrow> cn_out (snd (send_prepared_native_files H J E C request paths kp s)) = cn_out s @ hb @ rb @ ch @ db"
    "cn_in s = ab @ cb @ db \<Longrightarrow> send_prepared_native_files H J E C request paths kp s =
       (Inr (), s\<lparr>cn_in := [], cn_out := cn_out s @ hb @ rb @ ch @ db\<rparr>)"
proof -
  obtain e where e: "read_control J [] = Inl e" using read_control_Nil by blast
  note run = send_prepared_native_files_def Let_def rq up [unfolded qc_up_def] hello_of_def [symmetric] send e
    frame_ofD [OF fr(1)] frame_ofD [OF fr(2)] frame_ofD [OF fr(3)] frame_ofD [OF fr(4)] frame_ofD [OF fr(5)]
  show "cn_in s = [] \<Longrightarrow> cn_out (snd (send_prepared_native_files H J E C request paths kp s)) = cn_out s @ hb"
    by (simp add: run)
  show "cn_in s = ab \<Longrightarrow> cn_out (snd (send_prepared_native_files H J E C request paths kp s)) = cn_out s @ hb @ rb"
    by (simp add: run)
  show "cn_in s = ab @ cb \<Longrightarrow> cn_out (snd (send_prepared_native_files H J E C request paths kp s)) = cn_out s @ hb @ rb @ ch @ db"
    by (simp add: run)
  show "cn_in s = ab @ cb @ db \<Longrightarrow> send_prepared_native_files H J E C request paths kp s =
       (Inr (), s\<lparr>cn_in := [], cn_out := cn_out s @ hb @ rb @ ch @ db\<rparr>)"
    by (simp add: run)
qed

section \<open>The receiver's side\<close>

lemma receive_nothing: "0 < n \<Longrightarrow> cn_in s = [] \<Longrightarrow> sr_iter (\<lambda>_. receive_one_chunk H U now rcv tid) [0..<n] s =
    (Inl (native_context ''failed to read native chunk'' (Io UnexpectedEof)), s)"
proof -
  assume n: "0 < n" and s: "cn_in s = []"
  have "read_chunk_frame H [] = Inl (Io UnexpectedEof)" by (simp add: read_chunk_frame_def read_exact_def)
  then have "receive_one_chunk H U now rcv tid s = (Inl (native_context ''failed to read native chunk'' (Io UnexpectedEof)), s)"
    using s by (simp add: receive_one_chunk_def)
  then show ?thesis using n by (simp add: upt_conv_Cons)
qed

lemma server_run:
  assumes up: "qc_up C b" and rq: "rt_transfer_id request = tid"
    and fp: "fp = fingerprint_to_string (fingerprint_from_pubkey sha256 (public_bytes E kp))"
    and peer: "peer = \<lparr>np_alias = ''night-bridge'', np_fingerprint = fp,
      np_pubkey = public_bytes E kp, np_quic_port = 0, np_native_certificate_fingerprint = None, np_extensions = default_extensions\<rparr>"
    and fr: "frame_of J (MHello (hello_of E kp tid b)) hb" "frame_of J (MHelloAck (ack_of D nonce)) ab" "frame_of J (MRequestTransfer request) rb"
      "frame_of J (MAccept (accept_of tid)) cb" "frame_of J (MDone \<lparr>dt_transfer_id = tid\<rparr>) db"
    and ok: "authenticate_hello E (hello_of E kp tid b) b = Inr ()" "ensure_native_peer_trusted D peer = Inr ()" "nd_manifest D = Inr ()"
      "checked_declared_transfer_bytes request = Inr declared" "expected_chunk_count request DEFAULT_CHUNK_SIZE = Inr n" "0 < unat n"
    and rcv: "rcv = receiver_trusted (nd_inbox_dir D) fp"
    and acc: "accept_transfer U now rcv peer request (cn_world s) = (Inr (accept_of tid), w2)"
    and recv: "\<forall>s' rest. cn_world s' = w2 \<longrightarrow> cn_in s' = ch @ rest \<longrightarrow>
      sr_iter (\<lambda>_. receive_one_chunk H U now rcv tid) [0..<unat n] s' = (Inr (), s'\<lparr>cn_in := rest, cn_world := w3\<rparr>)"
    and fin: "finish_transfer H U now rcv tid w3 = (Inr (), w')"
  shows "cn_in s = [] \<Longrightarrow> cn_out (snd (handle_native_connection sha256 H U J E now nonce D C s)) = cn_out s"
    "cn_in s = hb \<Longrightarrow> cn_out (snd (handle_native_connection sha256 H U J E now nonce D C s)) = cn_out s @ ab"
    "cn_in s = hb @ rb \<Longrightarrow> cn_out (snd (handle_native_connection sha256 H U J E now nonce D C s)) = cn_out s @ ab @ cb"
    "cn_in s = hb @ rb @ ch @ db \<Longrightarrow> handle_native_connection sha256 H U J E now nonce D C s =
       (Inr (), s\<lparr>cn_in := [], cn_out := cn_out s @ ab @ cb @ db, cn_world := w'\<rparr>)"
proof -
  obtain e where e: "read_control J [] = Inl e" using read_control_Nil by blast
  have hello: "h_alias (hello_of E kp tid b) = ''night-bridge''" "h_pubkey (hello_of E kp tid b) = public_bytes E kp"
    "h_extensions (hello_of E kp tid b) = default_extensions"
    by (simp_all add: hello_of_def build_authenticated_hello_def)
  have np: "np_fingerprint peer = fp" by (simp add: peer)
  note run = handle_native_connection_def Let_def rq up [unfolded qc_up_def] e hello np fp [symmetric] peer [symmetric] ack_of_def [symmetric] ok(1-5)
    frame_ofD [OF fr(1)] frame_ofD [OF fr(2)] frame_ofD [OF fr(3)] frame_ofD [OF fr(4)] frame_ofD [OF fr(5)]
    receive_native_transfer_def rcv [symmetric] acc
  show "cn_in s = [] \<Longrightarrow> cn_out (snd (handle_native_connection sha256 H U J E now nonce D C s)) = cn_out s"
    by (simp add: run)
  show "cn_in s = hb \<Longrightarrow> cn_out (snd (handle_native_connection sha256 H U J E now nonce D C s)) = cn_out s @ ab"
    by (simp add: run)
  show "cn_in s = hb @ rb \<Longrightarrow> cn_out (snd (handle_native_connection sha256 H U J E now nonce D C s)) = cn_out s @ ab @ cb"
    by (simp add: run receive_nothing [OF ok(6)])
  show "cn_in s = hb @ rb @ ch @ db \<Longrightarrow> handle_native_connection sha256 H U J E now nonce D C s =
       (Inr (), s\<lparr>cn_in := [], cn_out := cn_out s @ ab @ cb @ db, cn_world := w'\<rparr>)"
    by (simp add: run recv [rule_format] fin)
qed

section \<open>From end to end\<close>

text \<open>A source on the sender: a regular file with an acceptable name that can be reached, with its content.\<close>

definition readable_source :: "fs \<Rightarrow> path \<times> bytes \<Rightarrow> bool" where
  "readable_source fs x \<longleftrightarrow> fst x \<noteq> [] \<and> list_all normal_name (fst x) \<and> fs (fst x) = Some (File (snd x)) \<and> sound_item x"

lemma readable_good_source:
  assumes "\<forall>x \<in> set xs. readable_source fs x"
  obtains inbox where "\<forall>x \<in> set xs. good_source inbox fs x"
proof -
  let ?n = "sum_list (map (\<lambda>x. length (fst x)) xs)"
  have n: "length (fst x) \<le> ?n" if "x \<in> set xs" for x
    using that by (intro member_le_sum_list) (auto intro: image_eqI)
  have "\<not> prefix (staging (replicate ?n [])) (fst x)" if "x \<in> set xs" for x
    using n [OF that] by (auto simp: staging_def dest!: prefix_length_le)
  then show ?thesis
    using assms that [of "replicate ?n []"]
    by (auto simp: readable_source_def good_source_def source_file_def sound_item_def)
qed

lemma readable_walk:
  assumes "fs_wf fs" "readable_source fs x"
  shows "walk fs [] (fst x) = Inr (fst x)"
proof -
  have "\<forall>y \<in> set [x]. readable_source fs y" using assms(2) by simp
  then obtain inbox where "\<forall>y \<in> set [x]. good_source inbox fs y" by (rule readable_good_source)
  then show ?thesis using source_file_walk [OF assms(1)] by (auto simp: good_source_def)
qed

lemma check_files_ok:
  assumes "fs_wf (w_fs (cn_world s))" "\<forall>x \<in> set xs. readable_source (w_fs (cn_world s)) x"
  shows "check_files (map fst xs) s = (Inr (), s)"
  using assms(2)
proof (induction xs)
  case (Cons x xs)
  then have "path_is_file (fst x) (w_fs (cn_world s))"
    using readable_walk [OF assms(1), of x] by (simp add: path_is_file_def fs_metadata_def readable_source_def)
  then show ?case using Cons by simp
qed simp

lemma file_id_sendable: "i < 10 ^ 5 \<Longrightarrow> sendable_id (''file-'' @ show_nat i)"
proof -
  assume i: "i < 10 ^ 5"
  have "length (show_nat i) \<le> 5" using show_nat_bound [of i 4] i by simp
  moreover have "is_ascii c" if c: "c \<in> set (show_nat i)" for c
  proof -
    have "is_ascii_digit c" using show_nat_digits [of i] c by (simp add: list_all_iff)
    then show ?thesis by (simp add: is_ascii_digit_def is_ascii_def less_eq_char_def)
  qed
  then have "utf8_valid (''file-'' @ show_nat i)"
    by (intro utf8_valid_ascii) (simp add: list_all_iff is_ascii_def)
  ultimately show ?thesis using safe_name_not_blank [OF file_id_safe] by (simp add: sendable_id_def)
qed

lemma send_all_ok:
  assumes "fs_wf (w_fs (cn_world s))" "blake3_ok H" "\<forall>x \<in> set xs. readable_source (w_fs (cn_world s)) x" "k + length xs \<le> 10 ^ 5"
  shows "sr_iter (\<lambda>(file, p). send_file_chunks H p (fo_file_id file) (fo_size file) DEFAULT_CHUNK_SIZE)
      (zip (mk_offers H k xs) (map fst xs)) s =
    (Inr (), s\<lparr>cn_out := cn_out s @ chunk_stream (concat (map (file_chunks H DEFAULT_CHUNK_SIZE) (zip (mk_offers H k xs) (map snd xs))))\<rparr>)"
  using assms
proof (induction H k xs arbitrary: s rule: mk_offers.induct)
  case (2 H k p b xs)
  let ?f = "\<lparr>fo_file_id = ''file-'' @ show_nat k, fo_file_name = last p, fo_size = of_nat (length b), fo_blake3 = Some (H b)\<rparr>"
  let ?s = "s\<lparr>cn_out := cn_out s @ chunk_stream (file_chunks H DEFAULT_CHUNK_SIZE (?f, b))\<rparr>"
  have r: "readable_source (w_fs (cn_world s)) (p, b)" using 2(4) by simp
  have "fs_open_read p (w_fs (cn_world s)) = Inr p"
    using readable_walk [OF 2(2) r] r by (simp add: fs_open_read_def readable_source_def)
  moreover have "w_fs (cn_world s) p = Some (File b)" "length b < 2 ^ 63" using r by (auto simp: readable_source_def sound_item_def)
  moreover have "sendable_id (''file-'' @ show_nat k)" using 2(5) by (intro file_id_sendable) simp
  ultimately have "send_file_chunks H p (fo_file_id ?f) (fo_size ?f) DEFAULT_CHUNK_SIZE s = (Inr (), ?s)"
    using 2(3) by (intro send_file_chunks_ok) simp_all
  moreover have "sr_iter (\<lambda>(file, p). send_file_chunks H p (fo_file_id file) (fo_size file) DEFAULT_CHUNK_SIZE)
      (zip (mk_offers H (Suc k) xs) (map fst xs)) ?s = (Inr (), ?s\<lparr>cn_out := cn_out ?s @
        chunk_stream (concat (map (file_chunks H DEFAULT_CHUNK_SIZE) (zip (mk_offers H (Suc k) xs) (map snd xs))))\<rparr>)"
    using 2 by (intro 2(1)) simp_all
  ultimately show ?case by simp
qed simp

lemma session_chunks_good:
  assumes "blake3_ok H" "\<forall>x \<in> set xs. sound_item x" "length xs \<le> 10 ^ 5" "c \<in> set (session_chunks H xs)"
  shows "chunk_frame_ok H c \<and> chunk_frame_good c"
proof -
  obtain x where x: "x \<in> set (session_offers H xs)" "c \<in> set (file_chunks H DEFAULT_CHUNK_SIZE x)"
    using assms(4) by (auto simp: session_chunks_def)
  obtain i where i: "i < length xs" "x = (mk_offers H 0 xs ! i, snd (xs ! i))"
    using x(1) by (auto simp: in_set_conv_nth session_offers_nth)
  have "sendable_id (fo_file_id (fst x))" using i assms(3) file_id_sendable [of i] by (simp add: nth_mk_offers)
  moreover have "length (snd x) < 2 ^ 63" using i assms(2) by (auto simp: sound_item_def dest!: nth_mem)
  ultimately show ?thesis using file_chunks_good [OF assms(1) _ _ x(2)] by blast
qed

lemma session_chunks_nonempty:
  assumes "xs \<noteq> []" "\<forall>x \<in> set xs. sound_item x"
  shows "session_chunks H xs \<noteq> []"
proof -
  obtain x ys where x: "xs = x # ys" using assms(1) by (cases xs) auto
  have b: "snd x \<noteq> []" "length (snd x) < 2 ^ 63" using assms(2) x by (auto simp: sound_item_def)
  then have "(0 :: u64) < of_nat (length (snd x))" by (simp add: word_less_nat_alt unat_of_nat)
  then have "plan_chunks_loop (of_nat (length (snd x))) DEFAULT_CHUNK_SIZE 0 \<noteq> []"
    by (subst plan_chunks_loop.simps) (simp add: Let_def)
  then show ?thesis
    by (cases x) (simp add: x session_chunks_def session_offers_def file_chunks_def file_plan_def)
qed

lemma exchange_settles:
  assumes "\<And>i. cn_out (snd (client i)) = f i" "\<And>i. cn_out (snd (server i)) = g i"
    "f [] = hb" "f ab = hb @ rb" "f (ab @ cb) = x" "f (ab @ cb @ db) = x"
    "g [] = []" "g hb = ab" "g (hb @ rb) = ab @ cb" "g x = ab @ cb @ db"
  shows "6 \<le> k \<Longrightarrow> exchange client server k = (x, ab @ cb @ db)"
proof (induction k rule: nat_induct_at_least)
  case base
  then show ?case using assms by (simp add: eval_nat_numeral)
next
  case (Suc k)
  then show ?case using assms by simp
qed

definition connects :: "('p, 'c, 'i) Dialer \<Rightarrow> ('p \<Rightarrow> SocketAddr \<Rightarrow> string \<Rightarrow> string + QuicConnection) \<Rightarrow> string \<Rightarrow> string
    \<Rightarrow> QuicConnection \<Rightarrow> bool" where
  "connects D conn_to url expected C \<longleftrightarrow> (\<exists>target endpoint. native_socket_addr url = Inr target \<and>
     client_endpoint D expected = Inr endpoint \<and> conn_to endpoint target ''localhost'' = Inr C)"

definition peer_trusted :: "(bytes \<Rightarrow> bytes) \<Rightarrow> NativeDaemon \<Rightarrow> bytes \<Rightarrow> bool" where
  "peer_trusted sha256 N pk \<longleftrightarrow> (\<exists>st p. nd_trust_db N = Inr st \<and>
     trust_get st (fingerprint_from_pubkey sha256 pk) = Inr (Some p) \<and> pe_policy p = AutoAccept)"

definition session_messages :: "(bytes \<Rightarrow> string) \<Rightarrow> Ed25519 \<Rightarrow> Keypair \<Rightarrow> NativeDaemon \<Rightarrow> bytes \<Rightarrow> bytes \<Rightarrow> string
    \<Rightarrow> (path \<times> bytes) list \<Rightarrow> ControlMessage list" where
  "session_messages H E kp N b nonce tid xs = [MHello (hello_of E kp tid b), MHelloAck (ack_of N nonce),
     MRequestTransfer \<lparr>rt_transfer_id = tid, rt_files = mk_offers H 0 xs\<rparr>, MAccept (accept_of tid), MDone \<lparr>dt_transfer_id = tid\<rparr>]"

lemma client_start:
  assumes "connects D conn_to url expected C" "fs_wf (w_fs w)" "\<forall>x \<in> set xs. readable_source (w_fs w) x" "cn_world s = w"
  shows "send_files_to_url H U J E D conn_to url (map fst xs) kp expected s =
    sr_context ''sending native files''
      (send_prepared_native_files H J E C \<lparr>rt_transfer_id = U (w_uuid w), rt_files = mk_offers H 0 xs\<rparr> (map fst xs) kp)
      (s\<lparr>cn_world := w\<lparr>w_uuid := Suc (w_uuid w)\<rparr>\<rparr>)"
proof -
  obtain target endpoint where c: "native_socket_addr url = Inr target" "client_endpoint D expected = Inr endpoint"
    "conn_to endpoint target ''localhost'' = Inr C" using assms(1) by (auto simp: connects_def)
  obtain inbox where g: "\<forall>x \<in> set xs. good_source inbox (w_fs w) x" using assms(3) by (rule readable_good_source)
  have "prepare_request H U (map fst xs) w =
      (Inr \<lparr>rt_transfer_id = U (w_uuid w), rt_files = mk_offers H 0 xs\<rparr>, w\<lparr>w_uuid := Suc (w_uuid w)\<rparr>)"
    using prepare_offers_ok [OF assms(2) g] by (simp add: prepare_request_def new_v4_def)
  moreover have "check_files (map fst xs) s = (Inr (), s)" using check_files_ok assms(2-4) by blast
  ultimately show ?thesis using c assms(4) by (simp add: send_files_to_url_def send_native_files_def sr_context_def)
qed

lemma sr_context_apply [simp]:
  "m s = (Inr x, s') \<Longrightarrow> sr_context text m s = (Inr x, s')" "snd (sr_context text m s) = snd (m s)"
  by (auto simp: sr_context_def split: prod.splits sum.splits)

lemma client_outputs:
  assumes con: "connects D conn_to url expected C" "qc_up C b"
    and src: "fs_wf (w_fs w)" "\<forall>x \<in> set xs. readable_source (w_fs w) x" "length xs \<le> 10 ^ 5" and H: "blake3_ok H"
    and tid: "tid = U (w_uuid w)"
    and fr: "frame_of J (MHello (hello_of E kp tid b)) hb" "frame_of J (MHelloAck ack) ab"
      "frame_of J (MRequestTransfer \<lparr>rt_transfer_id = tid, rt_files = mk_offers H 0 xs\<rparr>) rb"
      "frame_of J (MAccept (accept_of tid)) cb" "frame_of J (MDone \<lparr>dt_transfer_id = tid\<rparr>) db"
    and run: "client = run_end (send_files_to_url H U J E D conn_to url (map fst xs) kp expected) w"
  shows "cn_out (snd (client [])) = hb" "cn_out (snd (client ab)) = hb @ rb"
    "cn_out (snd (client (ab @ cb))) = hb @ rb @ chunk_stream (session_chunks H xs) @ db"
    "cn_out (snd (client (ab @ cb @ db))) = hb @ rb @ chunk_stream (session_chunks H xs) @ db" "fst (client (ab @ cb @ db)) = Inr ()"
proof -
  let ?s = "\<lambda>i. \<lparr>cn_in = i, cn_out = [], cn_world = w\<lparr>w_uuid := Suc (w_uuid w)\<rparr>\<rparr>"
  let ?rq = "\<lparr>rt_transfer_id = tid, rt_files = mk_offers H 0 xs\<rparr>"
  have start: "client i = sr_context ''sending native files'' (send_prepared_native_files H J E C ?rq (map fst xs) kp) (?s i)" for i
    using client_start [OF con(1) src(1,2), of "\<lparr>cn_in = i, cn_out = [], cn_world = w\<rparr>"] by (simp add: run run_end_def tid)
  have send: "sr_iter (\<lambda>(file, p). send_file_chunks H p (fo_file_id file) (fo_size file) DEFAULT_CHUNK_SIZE) (zip (rt_files ?rq) (map fst xs)) s' =
      (Inr (), s'\<lparr>cn_out := cn_out s' @ chunk_stream (session_chunks H xs)\<rparr>)" if "cn_world s' = cn_world (?s i)" for s' i
    using send_all_ok [of s' H xs 0] that src H by (simp add: session_chunks_def session_offers_def)
  have rq: "rt_transfer_id ?rq = tid" by simp
  note c = client_run [OF con(2) rq fr send]
  show "cn_out (snd (client [])) = hb" unfolding start using c(1) [of "?s []"] by simp
  show "cn_out (snd (client ab)) = hb @ rb" unfolding start using c(2) [of "?s ab"] by simp
  show "cn_out (snd (client (ab @ cb))) = hb @ rb @ chunk_stream (session_chunks H xs) @ db"
    unfolding start using c(3) [of "?s (ab @ cb)"] by simp
  show "cn_out (snd (client (ab @ cb @ db))) = hb @ rb @ chunk_stream (session_chunks H xs) @ db" "fst (client (ab @ cb @ db)) = Inr ()"
    unfolding start using c(4) [of "?s (ab @ cb @ db)"] by simp_all
qed

lemma receiver_takes_all:
  assumes rcv: "rcv = receiver_trusted inbox fp" and rd: "receiver_ready rcv tid w" and fp: "np_fingerprint peer = fp" "\<not> blank fp"
    and src: "xs \<noteq> []" "\<forall>x \<in> set xs. sound_item x"
    and free: "finite (inbox_names inbox (w_fs w))" "card (inbox_names inbox (w_fs w)) + length xs < 9999"
  obtains w2 w3 w' target where "accept_transfer U now rcv peer \<lparr>rt_transfer_id = tid, rt_files = mk_offers H 0 xs\<rparr> w = (Inr (accept_of tid), w2)"
    "sr_iter (take_chunk H U now rcv tid) (session_chunks H xs) w2 = (Inr (), w3)"
    "finish_transfer H U now rcv tid w3 = (Inr (), w')" "published rcv tid xs w w' target"
proof -
  have sel: "rv_chunk_size rcv = DEFAULT_CHUNK_SIZE" "rv_inbox_dir rcv = inbox" "\<not> rv_blocked rcv"
    "rv_trusted_peer_fingerprint rcv = Some (np_fingerprint peer)" "\<not> blank (np_fingerprint peer)"
    using rcv fp by (simp_all add: receiver_trusted_def)
  obtain w2 where acc: "accept_transfer U now rcv peer \<lparr>rt_transfer_id = tid, rt_files = mk_offers H 0 xs\<rparr> w = (Inr (accept_of tid), w2)"
    "accepted_state H rcv tid xs w w2"
    using accept_transfer_ok [OF rd src sel(3-5), of U now H] unfolding sel(1) .
  have cs: "rv_chunk_size rcv \<noteq> 0" using sel(1) by simp
  have items: "map fst (session_offers H xs) = mk_offers H 0 xs" "map snd (session_offers H xs) = map snd xs" "\<forall>x \<in> set (session_offers H xs). True"
    by (simp_all add: session_offers_def)
  obtain w3 where w3: "sr_iter (\<lambda>x. sr_iter (take_chunk H U now rcv tid) (file_chunks H (rv_chunk_size rcv) x)) (session_offers H xs) w2 = (Inr (), w3)"
    "all_delivered H rcv tid xs w2 w3"
    using over_stream.delivers_all [OF cs rd acc(2) items] by blast
  have loop: "sr_iter (take_chunk H U now rcv tid) (session_chunks H xs) w2 = (Inr (), w3)"
    using w3(1) unfolding session_chunks_def sr_iter_concat sr_iter_map sel(1) .
  obtain w' where fin: "finish_transfer H U now rcv tid w3 = (Inr (), w')"
    using delivered_finishes [OF rd acc(2) w3(2) src] free sel(2) by auto
  obtain target where "published rcv tid xs w w' target"
    using delivered_published [OF rd acc(2) w3(2) src fin] by blast
  with acc(1) loop fin show ?thesis by (rule that)
qed

lemma server_outputs:
  assumes up: "qc_up C b" and ok: "ed25519_ok E" "sha256_ok sha256" "blake3_ok H" "peer_trusted sha256 N (public_bytes E kp)" "nd_manifest N = Inr ()"
    and rcv: "rcv = receiver_trusted (nd_inbox_dir N) (fingerprint_to_string (fingerprint_from_pubkey sha256 (public_bytes E kp)))"
    and rd: "receiver_ready rcv tid w" and src: "xs \<noteq> []" "\<forall>x \<in> set xs. sound_item x" "length xs \<le> 10 ^ 5"
    and sz: "total_bytes xs \<le> unat MAX_NATIVE_TRANSFER_BYTES"
    and free: "finite (inbox_names (nd_inbox_dir N) (w_fs w))" "card (inbox_names (nd_inbox_dir N) (w_fs w)) + length xs < 9999"
    and fr: "frame_of J (MHello (hello_of E kp tid b)) hb" "frame_of J (MHelloAck (ack_of N nonce)) ab"
      "frame_of J (MRequestTransfer \<lparr>rt_transfer_id = tid, rt_files = mk_offers H 0 xs\<rparr>) rb"
      "frame_of J (MAccept (accept_of tid)) cb" "frame_of J (MDone \<lparr>dt_transfer_id = tid\<rparr>) db"
    and run: "server = run_end (handle_native_connection sha256 H U J E now nonce N C) w"
  shows "cn_out (snd (server [])) = []" "cn_out (snd (server hb)) = ab" "cn_out (snd (server (hb @ rb))) = ab @ cb"
    "\<exists>w' target. server (hb @ rb @ chunk_stream (session_chunks H xs) @ db) = (Inr (), \<lparr>cn_in = [], cn_out = ab @ cb @ db, cn_world = w'\<rparr>)
      \<and> published rcv tid xs w w' target"
proof -
  let ?fp = "fingerprint_to_string (fingerprint_from_pubkey sha256 (public_bytes E kp))"
  let ?peer = "\<lparr>np_alias = ''night-bridge'', np_fingerprint = ?fp, np_pubkey = public_bytes E kp, np_quic_port = 0,
      np_native_certificate_fingerprint = None, np_extensions = default_extensions\<rparr>"
  let ?rq = "\<lparr>rt_transfer_id = tid, rt_files = mk_offers H 0 xs\<rparr>" and ?cs = "session_chunks H xs"
  let ?n = "of_nat (length (session_chunks H xs)) :: u64"
  let ?s = "\<lambda>i. \<lparr>cn_in = i, cn_out = [], cn_world = w\<rparr>"
  have fp8: "length (fingerprint_from_pubkey sha256 (public_bytes E kp)) = 8" using fingerprint_length [OF ok(2)] .
  have trusted: "ensure_native_peer_trusted N ?peer = Inr ()"
    using ok(4) fingerprint_round_trip [OF fp8] by (auto simp: ensure_trusted_Inr_iff peer_trusted_def)
  have auth: "authenticate_hello E (hello_of E kp tid b) b = Inr ()"
    unfolding hello_of_def by (rule hello_authenticates [OF ok(1)])
  have lt: "total_bytes xs < 2 ^ 64" using sz unat_lt_u64 [of MAX_NATIVE_TRANSFER_BYTES] by simp
  have n: "unat ?n = length ?cs" using session_chunks_count(2) [OF lt] by (rule unat_of_nat_u64)
  then have pos: "0 < unat ?n" using session_chunks_nonempty [OF src(1,2)] by simp
  have np: "np_fingerprint ?peer = ?fp" by simp
  obtain w2 w3 w' target where t: "accept_transfer U now rcv ?peer ?rq w = (Inr (accept_of tid), w2)"
    "sr_iter (take_chunk H U now rcv tid) ?cs w2 = (Inr (), w3)"
    "finish_transfer H U now rcv tid w3 = (Inr (), w')" "published rcv tid xs w w' target"
    using receiver_takes_all [OF rcv rd np fingerprint_text_not_blank [OF fp8] src(1,2) free, of U now H] .
  have good: "\<forall>c \<in> set ?cs. chunk_frame_ok H c \<and> chunk_frame_good c" using session_chunks_good [OF ok(3) src(2,3)] by blast
  have recv: "\<forall>s' rest. cn_world s' = w2 \<longrightarrow> cn_in s' = chunk_stream ?cs @ rest \<longrightarrow>
      sr_iter (\<lambda>_. receive_one_chunk H U now rcv tid) [0..<unat ?n] s' = (Inr (), s'\<lparr>cn_in := rest, cn_world := w3\<rparr>)"
    using receive_chunks_ok [OF good, of "[0..<unat ?n]" U now rcv tid] t(2) n by simp
  have acc: "accept_transfer U now rcv ?peer ?rq (cn_world (?s i)) = (Inr (accept_of tid), w2)" for i using t(1) by simp
  have rq: "rt_transfer_id ?rq = tid" by simp
  note s = server_run [OF up rq refl refl fr auth trusted ok(5) declared_ok [OF sz] session_chunks_count(1) [OF lt] pos rcv acc recv t(3)]
  show "cn_out (snd (server [])) = []" using s(1) [of "[]"] by (simp add: run run_end_def)
  show "cn_out (snd (server hb)) = ab" using s(2) [of hb] by (simp add: run run_end_def)
  show "cn_out (snd (server (hb @ rb))) = ab @ cb" using s(3) [of "hb @ rb"] by (simp add: run run_end_def)
  show "\<exists>w' target. server (hb @ rb @ chunk_stream ?cs @ db) = (Inr (), \<lparr>cn_in = [], cn_out = ab @ cb @ db, cn_world = w'\<rparr>)
      \<and> published rcv tid xs w w' target"
    using s(4) [of "hb @ rb @ chunk_stream ?cs @ db"] t(4) by (auto simp: run run_end_def)
qed

text \<open>
  C1. A transfer over a connection is delivered. The sender runs \<open>send_files_to_url\<close> and the daemon
  \<open>handle_native_connection\<close> on the two ends of a connection with the same channel binding. If the sources
  are readable, nonempty regular files with acceptable names and at most 64 GiB together, the daemon's trust
  store has the sender's key with the automatic policy, the transfer id is fresh and the inbox has room, and
  the five control messages can be encoded, then after six rounds nothing more is sent, both ends have returned
  without an error, and every source has its own new file in the daemon's inbox that holds exactly its bytes.
\<close>
theorem native_session_delivers:
  assumes "connects D conn_to url expected Cc" "qc_up Cc b" "qc_up Cs b"
    "fs_wf (w_fs wc)" "xs \<noteq> []" "\<forall>x \<in> set xs. readable_source (w_fs wc) x" "total_bytes xs \<le> unat MAX_NATIVE_TRANSFER_BYTES"
    "ed25519_ok E" "sha256_ok sha256" "blake3_ok H" "peer_trusted sha256 N (public_bytes E kp)" "nd_manifest N = Inr ()"
    "rcv = receiver_trusted (nd_inbox_dir N) (fingerprint_to_string (fingerprint_from_pubkey sha256 (public_bytes E kp)))"
    "receiver_ready rcv (U (w_uuid wc)) ws"
    "finite (inbox_names (nd_inbox_dir N) (w_fs ws))" "card (inbox_names (nd_inbox_dir N) (w_fs ws)) + length xs < 9999"
    "\<forall>m \<in> set (session_messages H E kp N b nonce (U (w_uuid wc)) xs). json_ok J m \<and> is_ok (write_control J m)"
    "client = run_end (send_files_to_url H U J E D conn_to url (map fst xs) kp expected) wc"
    "server = run_end (handle_native_connection sha256 H U' J E now nonce N Cs) ws"
  shows "\<exists>sent received target. (\<forall>k \<ge> 6. exchange client server k = (sent, received)) \<and>
    fst (client received) = Inr () \<and> fst (server sent) = Inr () \<and>
    published rcv (U (w_uuid wc)) xs ws (cn_world (snd (server sent))) target"
proof -
  let ?tid = "U (w_uuid wc)" and ?ch = "chunk_stream (session_chunks H xs)"
  have sound: "\<forall>x \<in> set xs. sound_item x" using assms(6) by (simp add: readable_source_def)
  have len: "length xs \<le> 10 ^ 5" using assms(16) by simp
  obtain hb ab rb cb db where fr: "frame_of J (MHello (hello_of E kp ?tid b)) hb" "frame_of J (MHelloAck (ack_of N nonce)) ab"
    "frame_of J (MRequestTransfer \<lparr>rt_transfer_id = ?tid, rt_files = mk_offers H 0 xs\<rparr>) rb"
    "frame_of J (MAccept (accept_of ?tid)) cb" "frame_of J (MDone \<lparr>dt_transfer_id = ?tid\<rparr>) db"
    using assms(17) frame_of_exists [of J] unfolding session_messages_def by (metis list.set_intros)
  note c = client_outputs [OF assms(1,2,4,6) len assms(10) refl fr assms(18)]
  note s = server_outputs [OF assms(3,8-14,5) sound len assms(7,15,16) fr assms(19)]
  obtain w' target where t: "server (hb @ rb @ ?ch @ db) = (Inr (), \<lparr>cn_in = [], cn_out = ab @ cb @ db, cn_world = w'\<rparr>)"
    "published rcv ?tid xs ws w' target" using s(4) by blast
  have "exchange client server k = (hb @ rb @ ?ch @ db, ab @ cb @ db)" if "6 \<le> k" for k
    using exchange_settles [OF refl refl c(1-4) s(1-3) _ that] t(1) by simp
  then show ?thesis using c(5) t by (intro exI [of _ "hb @ rb @ ?ch @ db"] exI [of _ "ab @ cb @ db"]) auto
qed

text \<open>A concrete session: one file of three bytes between two file systems, encoders that know the five messages.\<close>

definition demo_link :: QuicConnection where
  "demo_link = \<lparr>qc_established = Inr (), qc_bi = Inr (), qc_binding = Inr [9], qc_finish = Inr ()\<rparr>"

definition demo_key :: Keypair where "demo_key = \<lparr>kp_signing = replicate 32 1\<rparr>"

definition demo_hash :: "bytes \<Rightarrow> string" where "demo_hash = (\<lambda>_. replicate 64 (CHR ''a''))"

definition demo_sha :: "bytes \<Rightarrow> bytes" where "demo_sha = (\<lambda>_. replicate 32 0)"

definition demo_daemon :: NativeDaemon where
  "demo_daemon = \<lparr>nd_alias = ''n'', nd_pubkey = [], nd_inbox_dir = [''inbox''], nd_trust_db_path = [''t''],
     nd_trust_db = Inr (snd (trust_peer demo_sha 0 (replicate 32 1) ''l'' AutoAccept trust_open_in_memory)),
     nd_manifest_path = [''m''], nd_manifest = Inr ()\<rparr>"

definition demo_session_json :: ControlJson where
  "demo_session_json = \<lparr>
     hello_to_vec = (\<lambda>_. Inr []), hello_from_slice = (\<lambda>_. Inr (hello_of demo_ed demo_key ''t'' [9])),
     hello_ack_to_vec = (\<lambda>_. Inr []), hello_ack_from_slice = (\<lambda>_. Inr (ack_of demo_daemon [3])),
     request_to_vec = (\<lambda>_. Inr []), request_from_slice =
       (\<lambda>_. Inr \<lparr>rt_transfer_id = ''t'', rt_files = mk_offers demo_hash 0 [([''a.txt''], [1, 2, 3])]\<rparr>),
     accept_to_vec = (\<lambda>_. Inr []), accept_from_slice = (\<lambda>_. Inr (accept_of ''t'')),
     chunk_ack_to_vec = (\<lambda>_. Inl (Json [])), chunk_ack_from_slice = (\<lambda>_. Inl (Json [])),
     cancel_to_vec = (\<lambda>_. Inl (Json [])), cancel_from_slice = (\<lambda>_. Inl (Json [])),
     done_to_vec = (\<lambda>_. Inr []), done_from_slice = (\<lambda>_. Inr \<lparr>dt_transfer_id = ''t''\<rparr>),
     resume_to_vec = (\<lambda>_. Inl (Json [])), resume_from_slice = (\<lambda>_. Inl (Json []))\<rparr>"

definition demo_url :: string where "demo_url = ''quic://'' @ show_socket_addr (SockV4 127 0 0 1 53317)"

definition demo_client :: endpoint_run where
  "demo_client = run_end (send_files_to_url demo_hash (\<lambda>_. ''t'') demo_session_json demo_ed demo_dialer (\<lambda>_ _ _. Inr demo_link)
     demo_url [[''a.txt'']] demo_key ''ab'') demo_world"

definition demo_listener :: endpoint_run where
  "demo_listener = run_end (handle_native_connection demo_sha demo_hash (\<lambda>_. ''u'') demo_session_json demo_ed 0 [3] demo_daemon demo_link) demo_world"

lemma demo_messages:
  "\<forall>m \<in> set (session_messages demo_hash demo_ed demo_key demo_daemon [9] [3] ''t'' [([''a.txt''], [1, 2, 3])]).
     json_ok demo_session_json m \<and> is_ok (write_control demo_session_json m)"
  by (simp add: session_messages_def demo_session_json_def write_control_def MAX_CONTROL_FRAME_BYTES_def is_ok_def)

lemma demo_connects: "connects demo_dialer (\<lambda>_ _ _. Inr demo_link) demo_url ''ab'' demo_link"
proof -
  have "native_socket_addr demo_url = Inr (SockV4 127 0 0 1 53317)"
    unfolding native_socket_addr_def demo_url_def strip_prefix_append option.case parse_show_v4 by simp
  moreover have "client_endpoint demo_dialer ''ab'' = Inr ()"
    by (simp add: client_endpoint_def demo_dialer_def build_quinn_transport_config_def validate_transport_def default_transport_config_def NATIVE_ALPN_def str_bytes_def)
  ultimately show ?thesis by (simp add: connects_def)
qed

lemma demo_peer_trusted: "peer_trusted demo_sha demo_daemon (public_bytes demo_ed demo_key)"
proof -
  have "public_bytes demo_ed demo_key = replicate 32 1" by code_simp
  moreover have "map_sum id (map_option pe_policy) (trust_get (snd (trust_peer demo_sha 0 (replicate 32 1) ''l'' AutoAccept trust_open_in_memory))
      (fingerprint_from_pubkey demo_sha (replicate 32 1))) = Inr (Some AutoAccept)" by code_simp
  ultimately show ?thesis
    by (cases "trust_get (snd (trust_peer demo_sha 0 (replicate 32 1) ''l'' AutoAccept trust_open_in_memory))
      (fingerprint_from_pubkey demo_sha (replicate 32 1))") (auto simp: peer_trusted_def demo_daemon_def)
qed

theorem native_session_delivers_witness:
  "\<exists>sent received. exchange demo_client demo_listener 6 = (sent, received) \<and>
    fst (demo_client received) = Inr () \<and> fst (demo_listener sent) = Inr () \<and>
    (\<exists>n. w_fs (cn_world (snd (demo_listener sent))) [''inbox'', n] = Some (File [1, 2, 3]))"
proof -
  let ?xs = "[([''a.txt''], [1 :: u8, 2, 3])]"
  let ?rcv = "receiver_trusted [''inbox''] (fingerprint_to_string (fingerprint_from_pubkey demo_sha (public_bytes demo_ed demo_key)))"
  have up: "qc_up demo_link [9]" by (simp add: qc_up_def demo_link_def)
  have rd: "receiver_ready ?rcv ''t'' demo_world" using demo_ready by (simp add: receiver_ready_def receiver_trusted_def)
  have wf: "fs_wf (w_fs demo_world)" using rd by (simp add: receiver_ready_def)
  have src: "\<forall>x \<in> set ?xs. readable_source (w_fs demo_world) x"
    using demo_source good_source_sound [OF demo_source] by (simp add: readable_source_def good_source_def source_file_def demo_world_def)
  have small: "total_bytes ?xs \<le> unat MAX_NATIVE_TRANSFER_BYTES" by (simp add: total_bytes_def MAX_NATIVE_TRANSFER_BYTES_def)
  have ok: "sha256_ok demo_sha" "blake3_ok demo_hash"
    by (simp_all add: sha256_ok_def demo_sha_def blake3_ok_def demo_hash_def is_ascii_hexdigit_def less_eq_char_def list_all_iff)
  have dm: "nd_manifest demo_daemon = Inr ()" "nd_inbox_dir demo_daemon = [''inbox'']" by (simp_all add: demo_daemon_def)
  have free: "finite (inbox_names (nd_inbox_dir demo_daemon) (w_fs demo_world))"
    "card (inbox_names (nd_inbox_dir demo_daemon) (w_fs demo_world)) + length ?xs < 9999"
    using demo_names by (simp_all add: dm demo_world_def)
  obtain sent received target where t: "\<forall>k \<ge> 6. exchange demo_client demo_listener k = (sent, received)"
    "fst (demo_client received) = Inr ()" "fst (demo_listener sent) = Inr ()"
    "published ?rcv ''t'' ?xs demo_world (cn_world (snd (demo_listener sent))) target"
    using native_session_delivers [OF demo_connects up up wf _ src small demo_ed_ok ok demo_peer_trusted dm(1), of ?rcv "\<lambda>_. ''t''" demo_world
        "[3]" demo_session_json demo_client demo_listener "\<lambda>_. ''u''" 0] rd free demo_messages
    by (auto simp: dm demo_client_def demo_listener_def)
  have "\<exists>n. w_fs (cn_world (snd (demo_listener sent))) [''inbox'', n] = Some (File [1, 2, 3])"
    using t(4) by (auto simp: published_def receiver_trusted_def)
  then show ?thesis using t(1-3) by auto
qed

end
