(* ===== verification/Session_Gate.thy ===== *)
theory Session_Gate
  imports Session_Delivery Transfer_Safety
begin

text \<open>
  What a native connection can do to the daemon, for arbitrary bytes on the stream: the world stays as it is
  until the hello, its proof, the trust store and the declared sizes have been checked, and changes after that
  are confined to the inbox.
\<close>

section \<open>What any connection can do\<close>

abbreviation conn_confined :: "path \<Rightarrow> Conn \<Rightarrow> Conn \<Rightarrow> bool" where
  "conn_confined inbox s s' \<equiv> confined inbox (cn_world s) (cn_world s')"

lemma conn_keeps_bind:
  "sr_keeps (conn_confined inbox) m \<Longrightarrow> (\<And>x. sr_keeps (conn_confined inbox) (f x)) \<Longrightarrow> sr_keeps (conn_confined inbox) (sr_bind m f)"
  by (rule sr_keeps_bind [of "conn_confined inbox"]) (rule confined_trans)

lemma conn_keeps_basic:
  "sr_keeps (conn_confined inbox) (sr_return x)" "sr_keeps (conn_confined inbox) (sr_fail e)"
  "sr_keeps (conn_confined inbox) (se_result wrap r)" "sr_keeps (conn_confined inbox) (conn_send ctx r')"
  "sr_keeps (conn_confined inbox) (conn_recv ctx dec)"
  by (auto simp: sr_keeps_def se_result_def conn_send_def conn_recv_def split: sum.splits prod.splits)

lemma conn_keeps_io: "(\<And>w. confined inbox w (snd (m w))) \<Longrightarrow> sr_keeps (conn_confined inbox) (conn_io ctx m)"
  unfolding sr_keeps_def
proof
  fix s :: Conn
  assume m: "\<And>w. confined inbox w (snd (m w))"
  obtain r w where "m (cn_world s) = (r, w)" by fastforce
  then show "conn_confined inbox s (snd (conn_io ctx m s))" using m [of "cn_world s"] by (cases r) (simp_all add: conn_io_def)
qed

lemma conn_keeps_iter: "(\<And>x. sr_keeps (conn_confined inbox) (act x)) \<Longrightarrow> sr_keeps (conn_confined inbox) (sr_iter act xs)"
  by (induction xs) (auto intro: conn_keeps_basic conn_keeps_bind)

lemma rv_inbox_trusted [simp]: "rv_inbox_dir (receiver_trusted inbox fp) = inbox"
  by (simp add: receiver_trusted_def)

lemma receive_native_transfer_confined:
  assumes "uuid_supply U" "inbox_ok (nd_inbox_dir N)"
  shows "sr_keeps (conn_confined (nd_inbox_dir N)) (receive_native_transfer H U J now N peer request)"
proof -
  let ?rcv = "receiver_trusted (nd_inbox_dir N) (np_fingerprint peer)"
  have ib: "inbox_ok (rv_inbox_dir ?rcv)" using assms(2) by simp
  have one: "sr_keeps (conn_confined (nd_inbox_dir N)) (receive_one_chunk H U now ?rcv tid)" for tid
    unfolding receive_one_chunk_def
    using receive_chunk_confined [OF assms(1) ib] by (auto intro!: conn_keeps_bind conn_keeps_basic conn_keeps_io)
  have acc: "sr_keeps (conn_confined (nd_inbox_dir N)) (conn_io ctx (accept_transfer U now ?rcv peer request))" for ctx
    using accept_transfer_confined [OF assms(1) ib] by (intro conn_keeps_io) simp
  have fin: "sr_keeps (conn_confined (nd_inbox_dir N)) (conn_io ctx (finish_transfer H U now ?rcv tid))" for ctx tid
    using finish_transfer_confined [OF assms(1) ib] by (intro conn_keeps_io) simp
  show ?thesis
    unfolding receive_native_transfer_def Let_def
    by (intro conn_keeps_bind conn_keeps_basic acc fin conn_keeps_iter one)
      (auto intro: conn_keeps_basic split: ControlMessage.splits)
qed

lemma sr_bind_same:
  assumes "\<And>e s'. m s = (Inl e, s') \<Longrightarrow> P s'" "\<And>x s'. m s = (Inr x, s') \<Longrightarrow> P (snd (f x s'))"
  shows "P (snd (sr_bind m f s))"
proof -
  obtain r s' where "m s = (r, s')" by fastforce
  then show ?thesis using assms by (cases r) auto
qed

lemma receive_native_transfer_gate:
  "cn_world (snd (receive_native_transfer H U J now N peer request s)) = cn_world s \<or> is_ok (checked_declared_transfer_bytes request)"
  unfolding receive_native_transfer_def Let_def
  by (intro sr_bind_same [where P = "\<lambda>s'. cn_world s' = cn_world s \<or> is_ok (checked_declared_transfer_bytes request)"])
    (auto simp: se_result_def is_ok_def split: sum.splits)

lemma declared_bytes_bounded:
  assumes "checked_declared_transfer_bytes request = Inr t"
  shows "sum_list (map (\<lambda>f. unat (fo_size f)) (rt_files request)) = unat t" "unat t \<le> unat MAX_NATIVE_TRANSFER_BYTES"
proof -
  have sum: "sum_sizes acc fs = Some t' \<Longrightarrow> unat t' = unat acc + sum_list (map (\<lambda>f. unat (fo_size f)) fs)" for acc fs t'
  proof (induction acc fs rule: sum_sizes.induct)
    case (2 acc f fs)
    then obtain acc' where a: "checked_add acc (fo_size f) = Some acc'" "sum_sizes acc' fs = Some t'"
      by (auto split: Option.bind_splits)
    then have "unat acc' = unat acc + unat (fo_size f)" by (auto simp: checked_add_Some_iff intro!: unat_add_no_wrap)
    then show ?case using 2(1) [OF a] by simp
  qed simp
  show "sum_list (map (\<lambda>f. unat (fo_size f)) (rt_files request)) = unat t" "unat t \<le> unat MAX_NATIVE_TRANSFER_BYTES"
    using assms sum [of 0 "rt_files request" t]
    by (auto simp: checked_declared_transfer_bytes_def res_iffs word_le_nat_alt not_less split: if_splits)
qed

text \<open>What the first two messages of a stream have to be before anything is stored.\<close>

definition stream_admitted :: "(bytes \<Rightarrow> bytes) \<Rightarrow> ControlJson \<Rightarrow> Ed25519 \<Rightarrow> NativeDaemon \<Rightarrow> QuicConnection \<Rightarrow> bytes \<Rightarrow> bool" where
  "stream_admitted sha256 J E N C input \<longleftrightarrow> (\<exists>hello rest b request rest'.
     read_control J input = Inr (MHello hello, rest) \<and> qc_binding C = Inr b \<and> authenticate_hello E hello b = Inr () \<and>
     peer_trusted sha256 N (h_pubkey hello) \<and> read_control J rest = Inr (MRequestTransfer request, rest') \<and>
     sum_list (map (\<lambda>f. unat (fo_size f)) (rt_files request)) \<le> unat MAX_NATIVE_TRANSFER_BYTES)"

lemma gate_result:
  "cn_world s = w \<Longrightarrow> (\<And>x. r = Inr x \<Longrightarrow> cn_world (snd (f x s)) = w) \<Longrightarrow> cn_world (snd (sr_bind (se_result ctx r) f s)) = w"
  by (cases r) simp_all

lemma gate_send:
  "cn_world s = w \<Longrightarrow> (\<And>out. cn_world (snd (f () (s\<lparr>cn_out := out\<rparr>))) = w) \<Longrightarrow> cn_world (snd (sr_bind (conn_send ctx r) f s)) = w"
  by (cases r) (simp_all add: conn_send_def sr_bind_def)

lemma gate_recv:
  "cn_world s = w \<Longrightarrow> (\<And>x rest. dec (cn_in s) = Inr (x, rest) \<Longrightarrow> cn_world (snd (f x (s\<lparr>cn_in := rest\<rparr>))) = w)
    \<Longrightarrow> cn_world (snd (sr_bind (conn_recv ctx dec) f s)) = w"
  by (cases "dec (cn_in s)") (auto simp: conn_recv_def sr_bind_def)

lemmas gates = gate_result gate_send gate_recv

lemma handle_native_connection_gate:
  assumes "sha256_ok sha256"
  shows "cn_world (snd (handle_native_connection sha256 H U J E now nonce N C s)) = cn_world s \<or> stream_admitted sha256 J E N C (cn_in s)"
proof (cases "stream_admitted sha256 J E N C (cn_in s)")
  case False
  let ?P = "\<lambda>s'. cn_world s' = cn_world s"
  have tail: "?P (snd (sr_bind (receive_native_transfer H U J now N peer request) (\<lambda>_. se_result ctx r) u))"
    if "cn_world u = cn_world s" "\<not> is_ok (checked_declared_transfer_bytes request)" for peer request u and ctx :: "string \<Rightarrow> SessionError" and r
    using receive_native_transfer_gate [of H U J now N peer request u] that
    by (intro sr_bind_same [of _ _ ?P]) (auto simp: se_result_def)
  have over: "\<not> is_ok (checked_declared_transfer_bytes request)"
    if "read_control J (cn_in s) = Inr (MHello hello, rest)" "qc_binding C = Inr b" "authenticate_hello E hello b = Inr ()"
      "ensure_native_peer_trusted N peer = Inr ()" "np_fingerprint peer = fingerprint_to_string (fingerprint_from_pubkey sha256 (h_pubkey hello))"
      "read_control J rest = Inr (MRequestTransfer request, rest')" for hello rest b peer request rest'
  proof
    assume "is_ok (checked_declared_transfer_bytes request)"
    then have "sum_list (map (\<lambda>f. unat (fo_size f)) (rt_files request)) \<le> unat MAX_NATIVE_TRANSFER_BYTES"
      using declared_bytes_bounded by (auto simp: is_ok_iff)
    moreover have "peer_trusted sha256 N (h_pubkey hello)"
      using that(4,5) fingerprint_round_trip [OF fingerprint_length [OF assms]] by (auto simp: ensure_trusted_Inr_iff peer_trusted_def)
    ultimately show False using that False unfolding stream_admitted_def by blast
  qed
  have second: "?P (snd ((case message of
        MRequestTransfer request \<Rightarrow> sr_bind (receive_native_transfer H U J now N peer request) (\<lambda>_. se_result ctx r)
      | _ \<Rightarrow> sr_return ()) u))"
    if "cn_world u = cn_world s" "\<And>request. message = MRequestTransfer request \<Longrightarrow> \<not> is_ok (checked_declared_transfer_bytes request)"
    for message peer u and ctx :: "string \<Rightarrow> SessionError" and r
    using that tail by (cases message) simp_all
  have "?P (snd (handle_native_connection sha256 H U J E now nonce N C s))"
    unfolding handle_native_connection_def Let_def
  proof (intro gates refl, goal_cases)
    case (1 _ _ message rest)
    then show ?case
    proof (cases message)
      case (MHello hello)
      show ?thesis
        unfolding MHello ControlMessage.case
        using 1 MHello by (intro gates second) (simp_all add: over)
    qed simp_all
  qed
  then show ?thesis by blast
qed simp

text \<open>
  C2. What a connection can do to the daemon. Whatever bytes arrive and however the handler ends, only paths of
  the inbox change, no file outside the staging area is overwritten or removed, and nothing changes at all
  unless the stream starts with a hello whose identity proof verifies for this connection, whose key the trust
  store holds with the automatic policy, followed by a request that declares at most 64 GiB.
\<close>
theorem connection_changes_only_for_trusted:
  assumes "uuid_supply U" "inbox_ok (nd_inbox_dir N)" "sha256_ok sha256"
    "handle_native_connection sha256 H U J E now nonce N C s = (r, s')"
  shows "confined (nd_inbox_dir N) (cn_world s) (cn_world s') \<and>
    (cn_world s' = cn_world s \<or> stream_admitted sha256 J E N C (cn_in s))"
proof -
  have "sr_keeps (conn_confined (nd_inbox_dir N)) (handle_native_connection sha256 H U J E now nonce N C)"
    unfolding handle_native_connection_def Let_def
    by (intro conn_keeps_bind conn_keeps_basic)
      (auto intro!: conn_keeps_bind conn_keeps_basic receive_native_transfer_confined [OF assms(1,2)] split: ControlMessage.splits)
  then have "conn_confined (nd_inbox_dir N) s (snd (handle_native_connection sha256 H U J E now nonce N C s))"
    unfolding sr_keeps_def by (rule spec)
  then show ?thesis
    using handle_native_connection_gate [OF assms(3), of H U J E now nonce N C s] assms(4) by simp
qed

definition demo_stranger :: NativeDaemon where
  "demo_stranger = demo_daemon\<lparr>nd_trust_db := Inr trust_open_in_memory\<rparr>"

theorem connection_changes_only_for_trusted_witness:
  "cn_world (snd (handle_native_connection demo_sha demo_hash (\<lambda>_. ''u'') demo_session_json demo_ed 0 [3] demo_stranger demo_link
     \<lparr>cn_in = [0, 0, 0, 1, 1], cn_out = [], cn_world = demo_world\<rparr>)) = demo_world"
proof -
  let ?s = "\<lparr>cn_in = [0, 0, 0, 1, 1], cn_out = [], cn_world = demo_world\<rparr>"
  have "uuid_supply (\<lambda>_. ''u'')" by (simp add: uuid_supply_def safe_name_def safe_char_def is_ascii_alphanumeric_def less_eq_char_def)
  moreover have "inbox_ok (nd_inbox_dir demo_stranger)"
    by (simp add: demo_stranger_def demo_daemon_def inbox_ok_def normal_name_def has_nul_def)
  moreover have "sha256_ok demo_sha" by (simp add: sha256_ok_def demo_sha_def)
  moreover have "\<not> stream_admitted demo_sha demo_session_json demo_ed demo_stranger demo_link (cn_in ?s)"
    by (auto simp: stream_admitted_def peer_trusted_def demo_stranger_def trust_get_def query_row_def trust_open_in_memory_def)
  ultimately show ?thesis
    using connection_changes_only_for_trusted [of "\<lambda>_. ''u''" demo_stranger demo_sha demo_hash demo_session_json demo_ed 0 "[3]" demo_link ?s]
    by (metis Conn.select_convs(3) prod.collapse)
qed

end
