(* ===== verification/NB_Trim.thy ===== *)
theory NB_Trim
  imports Identity
begin

text \<open>Trimming of strings: it is idempotent, and on ASCII text it only looks at the first and the last
  byte. Shared by the components that trim what they parse.\<close>

fun utf8_segs :: "string list \<Rightarrow> bool" where
  "utf8_segs [] \<longleftrightarrow> True"
| "utf8_segs [x] \<longleftrightarrow> x \<noteq> [] \<and> list_all is_cont (tl x)"
| "utf8_segs (x # y # r) \<longleftrightarrow> x \<noteq> [] \<and> list_all is_cont (tl x) \<and> y \<noteq> [] \<and> \<not> is_cont (hd y) \<and> utf8_segs (y # r)"

lemma utf8_segs_chars: "utf8_segs (utf8_chars s)"
proof (induction s rule: utf8_chars.induct)
  case (2 c cs)
  have tk: "list_all is_cont (takeWhile is_cont cs)" by (auto simp: list_all_iff dest: set_takeWhileD)
  show ?case
  proof (cases "dropWhile is_cont cs")
    case Nil
    then show ?thesis using tk by (simp del: dropWhile_eq_Nil_conv)
  next
    case (Cons d ds)
    then have "\<not> is_cont d" using hd_dropWhile [of is_cont cs] by auto
    then show ?thesis using 2 tk Cons by simp
  qed
qed simp

lemma utf8_chars_concat: "utf8_segs xs \<Longrightarrow> utf8_chars (concat xs) = xs"
proof (induction xs rule: utf8_segs.induct)
  case (2 x)
  then obtain c cs where x: "x = c # cs" by (cases x) auto
  then have "takeWhile is_cont cs = cs" "dropWhile is_cont cs = []" using 2 by (auto simp: list_all_iff)
  then show ?case by (simp add: x del: dropWhile_eq_Nil_conv)
next
  case (3 x y r)
  obtain c cs d ds where x: "x = c # cs" "y = d # ds" using 3(2) by (cases x; cases y) auto
  have "takeWhile is_cont (cs @ d # t) = cs" "dropWhile is_cont (cs @ d # t) = d # t" for t
    using 3(2) by (auto simp: x list_all_iff)
  then show ?case using 3 by (simp add: x)
qed simp

lemma utf8_segs_append: "utf8_segs (xs @ ys) \<Longrightarrow> utf8_segs xs \<and> utf8_segs ys"
proof (induction xs rule: utf8_segs.induct)
  case (2 x)
  then show ?case by (cases ys) auto
qed auto

lemma trim_ends_infix: "\<exists>a b. xs = a @ trim_ends P xs @ b"
proof -
  have "xs = takeWhile P xs @ dropWhile P xs" by simp
  moreover have "dropWhile P xs = rev (dropWhile P (rev (dropWhile P xs))) @ rev (takeWhile P (rev (dropWhile P xs)))"
    by (metis rev_append rev_rev_ident takeWhile_dropWhile_id)
  ultimately show ?thesis unfolding trim_ends_def by metis
qed

lemma trim_ends_keep: "xs = [] \<or> \<not> P (hd xs) \<and> \<not> P (last xs) \<Longrightarrow> trim_ends P xs = xs"
proof -
  have dw: "ys = [] \<or> \<not> P (hd ys) \<Longrightarrow> dropWhile P ys = ys" for ys by (cases ys) auto
  assume "xs = [] \<or> \<not> P (hd xs) \<and> \<not> P (last xs)"
  then show ?thesis using dw [of xs] dw [of "rev xs"] by (auto simp: trim_ends_def hd_rev)
qed

lemma trim_ends_ends: "trim_ends P xs = [] \<or> \<not> P (hd (trim_ends P xs)) \<and> \<not> P (last (trim_ends P xs))"
proof (cases "trim_ends P xs = []")
  case False
  let ?d = "dropWhile P xs"
  have ne: "dropWhile P (rev ?d) \<noteq> []" using False by (simp add: trim_ends_def)
  then have "\<not> P (hd (dropWhile P (rev ?d)))" by (rule hd_dropWhile)
  then have l: "\<not> P (last (trim_ends P xs))" using ne by (simp add: trim_ends_def last_rev)
  obtain b where "?d = trim_ends P xs @ b"
    unfolding trim_ends_def by (metis rev_append rev_rev_ident takeWhile_dropWhile_id)
  then have "hd ?d = hd (trim_ends P xs)" "?d \<noteq> []" using False by (auto simp: hd_append)
  then show ?thesis using l hd_dropWhile [of P xs] by auto
qed simp

lemma utf8_chars_trim: "utf8_chars (rs_trim s) = trim_ends is_whitespace (utf8_chars s)"
proof -
  obtain a b where "utf8_chars s = a @ trim_ends is_whitespace (utf8_chars s) @ b" using trim_ends_infix by blast
  then have "utf8_segs (trim_ends is_whitespace (utf8_chars s))" using utf8_segs_chars [of s] utf8_segs_append by metis
  then show ?thesis unfolding rs_trim_def by (rule utf8_chars_concat)
qed

lemma rs_trim_idem [simp]: "rs_trim (rs_trim s) = rs_trim s"
proof -
  have "trim_ends is_whitespace (trim_ends is_whitespace (utf8_chars s)) = trim_ends is_whitespace (utf8_chars s)"
    using trim_ends_ends by (rule trim_ends_keep)
  then show ?thesis using utf8_chars_trim [of s] by (metis concat_utf8_chars rs_trim_def)
qed

lemma blank_trim [simp]: "blank (rs_trim s) \<longleftrightarrow> blank s"
  by (simp add: blank_def)

lemma rs_trim_ascii:
  assumes "list_all is_ascii s" "s \<noteq> []"
  shows "rs_trim s = s \<longleftrightarrow> \<not> is_whitespace [hd s] \<and> \<not> is_whitespace [last s]"
proof
  have u: "utf8_chars s = map (\<lambda>c. [c]) s" by (rule utf8_chars_ascii [OF assms(1)])
  assume "rs_trim s = s"
  then have "trim_ends is_whitespace (map (\<lambda>c. [c]) s) = map (\<lambda>c. [c]) s" using utf8_chars_trim [of s] u by simp
  then show "\<not> is_whitespace [hd s] \<and> \<not> is_whitespace [last s]"
    using trim_ends_ends [of is_whitespace "map (\<lambda>c. [c]) s"] assms(2) by (simp add: hd_map last_map)
next
  assume "\<not> is_whitespace [hd s] \<and> \<not> is_whitespace [last s]"
  then have "trim_ends is_whitespace (utf8_chars s) = utf8_chars s"
    unfolding utf8_chars_ascii [OF assms(1)] using assms(2) by (intro trim_ends_keep) (simp add: hd_map last_map)
  then show "rs_trim s = s" by (simp add: rs_trim_def)
qed

lemma trimmed_not_blank: "rs_trim s = s \<Longrightarrow> blank s \<longleftrightarrow> s = []"
  by (simp add: blank_def)

end
