(* ===== verification/Native_Discovery.thy ===== *)
theory Native_Discovery
  imports NB_Trim NB_Net Dto "HOL-Library.Multiset" "HOL-Library.AList"
begin

text \<open>
  mDNS discovery of the native protocol, \<open>protocol-native-v1/src/discovery.rs\<close>. A \<open>HashMap\<close> of TXT
  properties is the list of its entries in iteration order, which is arbitrary: building a map from a
  sequence keeps the last value of a key. The mDNS daemon is a parameter: it constructs the service
  record and gives, for each turn of a receive loop, the time and the event or nothing.
\<close>

section \<open>TXT properties\<close>

definition NATIVE_MDNS_SERVICE_TYPE :: string where
  "NATIVE_MDNS_SERVICE_TYPE = ''_lsi-native._udp.local.''"

definition TXT_ALIAS :: string where "TXT_ALIAS = ''alias''"
definition TXT_FINGERPRINT :: string where "TXT_FINGERPRINT = ''fingerprint''"
definition TXT_PUBKEY :: string where "TXT_PUBKEY = ''pubkey''"
definition TXT_QUIC_PORT :: string where "TXT_QUIC_PORT = ''quic_port''"
definition TXT_NATIVE_CERTIFICATE_FINGERPRINT :: string where "TXT_NATIVE_CERTIFICATE_FINGERPRINT = ''native_cert_fp''"
definition TXT_EXTENSIONS :: string where "TXT_EXTENSIONS = ''extensions''"

lemmas txt_keys = TXT_ALIAS_def TXT_FINGERPRINT_def TXT_PUBKEY_def TXT_QUIC_PORT_def
  TXT_NATIVE_CERTIFICATE_FINGERPRINT_def TXT_EXTENSIONS_def

record ResolvedNativePeer =
  rn_info :: NativePeerInfo
  rn_address :: IpAddr

definition discovery_error :: "string \<Rightarrow> NativeError" where
  "discovery_error message = Protocol message"

definition validate_txt_value :: "string \<Rightarrow> string \<Rightarrow> unit native_result" where
  "validate_txt_value field value =
     (let value = rs_trim value in
      if value = [] then Inl (discovery_error (field @ '' is required''))
      else if \<not> list_all is_ascii value then Inl (discovery_error (field @ '' must be ASCII''))
      else if length value > 255 then Inl (discovery_error (field @ '' must fit in one TXT record''))
      else Inr ())"

definition validate_quic_port :: "u16 \<Rightarrow> unit native_result" where
  "validate_quic_port port = (if port = 0 then Inl (discovery_error ''quic_port must be non-zero'') else Inr ())"

definition is_ascii_uppercase :: "char \<Rightarrow> bool" where
  "is_ascii_uppercase c \<longleftrightarrow> CHR ''A'' \<le> c \<and> c \<le> CHR ''Z''"

definition validate_txt_certificate_fingerprint :: "string \<Rightarrow> unit native_result" where
  "validate_txt_certificate_fingerprint value =
     (if length value = 64 \<and> list_all (\<lambda>c. is_ascii_hexdigit c \<and> \<not> is_ascii_uppercase c) value then Inr ()
      else Inl (discovery_error ''native certificate fingerprint must be 64 lowercase hex characters''))"

fun validate_extensions :: "string list \<Rightarrow> unit native_result" where
  "validate_extensions [] = Inr ()"
| "validate_extensions (e # es) =
     (let extension = rs_trim e in
      if extension = [] then Inl (discovery_error ''extension value is required'')
      else if \<not> list_all is_ascii extension \<or> CHR '','' \<in> set extension \<or> length extension > 64
        then Inl (discovery_error (''invalid extension: '' @ extension))
      else validate_extensions es)"

definition validate_peer_info :: "NativePeerInfo \<Rightarrow> unit native_result" where
  "validate_peer_info info =
     res_bind (validate_txt_value TXT_ALIAS (np_alias info)) (\<lambda>_.
     res_bind (validate_txt_value TXT_FINGERPRINT (np_fingerprint info)) (\<lambda>_.
     res_bind (validate_quic_port (np_quic_port info)) (\<lambda>_.
     validate_extensions (np_extensions info))))"

definition parse_extensions :: "string \<Rightarrow> string list native_result" where
  "parse_extensions value =
     (let extensions = filter (\<lambda>e. e \<noteq> []) (map rs_trim (split_on (CHR '','') value)) in
      res_map (\<lambda>_. extensions) (validate_extensions extensions))"

definition decode_quic_port :: "string \<Rightarrow> u16 native_result" where
  "decode_quic_port value =
     res_bind (ok_or (discovery_error (''quic_port is invalid: '' @ value)) (parse_unsigned 16 value)) (\<lambda>port.
     res_map (\<lambda>_. of_nat port) (validate_quic_port (of_nat port)))"

definition hex_nibble :: "char \<Rightarrow> u8 native_result" where
  "hex_nibble c = (let n = of_char c :: nat in
     if 48 \<le> n \<and> n \<le> 57 then Inr (of_nat (n - 48))
     else if 97 \<le> n \<and> n \<le> 102 then Inr (of_nat (n - 97 + 10))
     else if 65 \<le> n \<and> n \<le> 70 then Inr (of_nat (n - 65 + 10))
     else Inl (discovery_error ''pubkey contains non-hex characters''))"

fun decode_pairs :: "string \<Rightarrow> bytes native_result" where
  "decode_pairs (a # b # rest) =
     res_bind (hex_nibble a) (\<lambda>high. res_bind (hex_nibble b) (\<lambda>low.
     res_map (\<lambda>bs. (push_bit 4 high OR low) # bs) (decode_pairs rest)))"
| "decode_pairs _ = Inr []"

definition decode_pubkey :: "string \<Rightarrow> bytes native_result" where
  "decode_pubkey value =
     (if length value \<noteq> 64 then Inl (discovery_error ''pubkey must be 64 hex characters'') else decode_pairs value)"

definition HEX :: string where "HEX = ''0123456789abcdef''"

definition encode_hex :: "bytes \<Rightarrow> string" where
  "encode_hex bs = concat (map (\<lambda>b. [HEX ! unat (drop_bit 4 b), HEX ! unat (b AND 0x0f)]) bs)"

definition peer_info_to_txt_properties :: "NativePeerInfo \<Rightarrow> (string \<times> string) list native_result" where
  "peer_info_to_txt_properties info =
     res_bind (validate_peer_info info) (\<lambda>_.
     let properties = [(TXT_ALIAS, rs_trim (np_alias info)), (TXT_FINGERPRINT, rs_trim (np_fingerprint info)),
           (TXT_PUBKEY, encode_hex (np_pubkey info)), (TXT_QUIC_PORT, show_nat (unat (np_quic_port info)))] in
     res_bind (case np_native_certificate_fingerprint info of
         None \<Rightarrow> Inr properties
       | Some fingerprint \<Rightarrow> res_map (\<lambda>_. properties @ [(TXT_NATIVE_CERTIFICATE_FINGERPRINT, fingerprint)])
           (validate_txt_certificate_fingerprint fingerprint)) (\<lambda>properties.
     Inr (properties @ [(TXT_EXTENSIONS, join_with '','' (np_extensions info))])))"

definition normalized_properties :: "(string \<times> string) list \<Rightarrow> (string \<rightharpoonup> string)" where
  "normalized_properties properties =
     map_of (rev (map (\<lambda>(key, value). (to_ascii_lowercase key, rs_trim value)) properties))"

definition required_property :: "(string \<rightharpoonup> string) \<Rightarrow> string \<Rightarrow> string native_result" where
  "required_property properties key =
     (case properties key of
        Some value \<Rightarrow> if blank value then Inl (discovery_error (key @ '' is required'')) else Inr value
      | None \<Rightarrow> Inl (discovery_error (key @ '' is required'')))"

definition peer_info_from_txt_properties :: "(string \<times> string) list \<Rightarrow> NativePeerInfo native_result" where
  "peer_info_from_txt_properties properties =
     (let properties = normalized_properties properties in
      res_bind (required_property properties TXT_ALIAS) (\<lambda>alias.
      res_bind (validate_txt_value TXT_ALIAS alias) (\<lambda>_.
      res_bind (required_property properties TXT_FINGERPRINT) (\<lambda>fingerprint.
      res_bind (validate_txt_value TXT_FINGERPRINT fingerprint) (\<lambda>_.
      res_bind (res_bind (required_property properties TXT_PUBKEY) decode_pubkey) (\<lambda>pubkey.
      res_bind (res_bind (required_property properties TXT_QUIC_PORT) decode_quic_port) (\<lambda>quic_port.
      res_bind (case properties TXT_NATIVE_CERTIFICATE_FINGERPRINT of
          None \<Rightarrow> Inr None
        | Some value \<Rightarrow> res_map (\<lambda>_. Some value) (validate_txt_certificate_fingerprint value)) (\<lambda>cert.
      res_bind (res_bind (required_property properties TXT_EXTENSIONS) parse_extensions) (\<lambda>extensions.
      Inr \<lparr>np_alias = alias, np_fingerprint = fingerprint, np_pubkey = pubkey, np_quic_port = quic_port,
           np_native_certificate_fingerprint = cert, np_extensions = extensions\<rparr>)))))))))"

section \<open>Services\<close>

record ResolvedService =
  sv_ty_domain :: string
  sv_properties :: "(string \<times> string) list"
  sv_addresses :: "IpAddr list"

datatype ServiceEvent = ServiceResolved ResolvedService | OtherServiceEvent

definition txt_properties_to_map :: "(string \<times> string) list \<Rightarrow> (string \<times> string) list" where
  "txt_properties_to_map properties = AList.clearjunk (rev properties)"

definition peer_info_from_mdns_txt :: "(string \<times> string) list \<Rightarrow> NativePeerInfo native_result" where
  "peer_info_from_mdns_txt properties = peer_info_from_txt_properties (txt_properties_to_map properties)"

definition peer_info_from_resolved_service :: "ResolvedService \<Rightarrow> NativePeerInfo option native_result" where
  "peer_info_from_resolved_service service =
     (if sv_ty_domain service \<noteq> NATIVE_MDNS_SERVICE_TYPE then Inr None
      else res_map Some (peer_info_from_mdns_txt (sv_properties service)))"

definition resolved_peer_from_resolved_service :: "ResolvedService \<Rightarrow> ResolvedNativePeer option native_result" where
  "resolved_peer_from_resolved_service service =
     res_bind (peer_info_from_resolved_service service) (\<lambda>found. case found of
       None \<Rightarrow> Inr None
     | Some info \<Rightarrow> (case sv_addresses service of
         [] \<Rightarrow> Inr None
       | address # _ \<Rightarrow> Inr (Some \<lparr>rn_info = info, rn_address = address\<rparr>)))"

definition mdns_error :: "string \<Rightarrow> NativeError" where
  "mdns_error error = Transport (''mdns discovery: '' @ error)"

definition service_info_for_peer :: "(string \<Rightarrow> string \<Rightarrow> string \<Rightarrow> IpAddr \<Rightarrow> u16 \<Rightarrow> (string \<times> string) list \<Rightarrow> string + 's)
    \<Rightarrow> NativePeerInfo \<Rightarrow> string \<Rightarrow> string \<Rightarrow> IpAddr \<Rightarrow> 's native_result" where
  "service_info_for_peer service_info_new info instance_name host_name ip =
     (if blank instance_name then Inl (discovery_error ''instance_name is required'')
      else if blank host_name then Inl (discovery_error ''host_name is required'')
      else res_bind (peer_info_to_txt_properties info) (\<lambda>properties.
        case service_info_new NATIVE_MDNS_SERVICE_TYPE instance_name host_name ip (np_quic_port info) properties of
          Inl error \<Rightarrow> Inl (mdns_error error)
        | Inr service \<Rightarrow> Inr service))"

text \<open>The turns of a receive loop: the time at the top of the loop, and what the channel gives within
  the remaining time (\<open>None\<close> for a timeout or a closed channel). When the list ends, the deadline is
  reached.\<close>

fun recv_resolved_timeout :: "int \<Rightarrow> (int \<times> ServiceEvent option) list \<Rightarrow> ResolvedNativePeer option native_result" where
  "recv_resolved_timeout deadline [] = Inr None"
| "recv_resolved_timeout deadline ((now, event) # turns) =
     (if now \<ge> deadline then Inr None
      else case event of
        None \<Rightarrow> Inr None
      | Some (ServiceResolved service) \<Rightarrow>
          res_bind (resolved_peer_from_resolved_service service) (\<lambda>found. case found of
            Some peer \<Rightarrow> Inr (Some peer)
          | None \<Rightarrow> recv_resolved_timeout deadline turns)
      | Some OtherServiceEvent \<Rightarrow> recv_resolved_timeout deadline turns)"

definition recv_timeout :: "int \<Rightarrow> (int \<times> ServiceEvent option) list \<Rightarrow> NativePeerInfo option native_result" where
  "recv_timeout deadline turns = res_map (map_option rn_info) (recv_resolved_timeout deadline turns)"

fun recv_resolved_loop :: "int \<Rightarrow> ResolvedNativePeer list \<Rightarrow> (int \<times> ServiceEvent option) list
    \<Rightarrow> ResolvedNativePeer list native_result" where
  "recv_resolved_loop deadline peers [] = Inr peers"
| "recv_resolved_loop deadline peers ((now, event) # turns) =
     (if now \<ge> deadline then Inr peers
      else case event of
        None \<Rightarrow> Inr peers
      | Some (ServiceResolved service) \<Rightarrow>
          res_bind (resolved_peer_from_resolved_service service) (\<lambda>found. case found of
            Some peer \<Rightarrow> recv_resolved_loop deadline (peers @ [peer]) turns
          | None \<Rightarrow> recv_resolved_loop deadline peers turns)
      | Some OtherServiceEvent \<Rightarrow> recv_resolved_loop deadline peers turns)"

definition recv_resolved_all :: "int \<Rightarrow> (int \<times> ServiceEvent option) list \<Rightarrow> ResolvedNativePeer list native_result" where
  "recv_resolved_all deadline turns = recv_resolved_loop deadline [] turns"

section \<open>Lemmas\<close>

lemma HEX_nth: "n < 16 \<Longrightarrow> HEX ! n = hex_digit n"
proof -
  have "\<forall>n \<in> {0..<16}. HEX ! n = hex_digit n" unfolding HEX_def hex_digit_def by code_simp
  then show "n < 16 \<Longrightarrow> HEX ! n = hex_digit n" by simp
qed

lemma nibbles: "unat (drop_bit 4 b) = unat b div 16" "unat (b AND 0x0f) = unat b mod 16" for b :: u8
proof -
  show "unat (drop_bit 4 b) = unat b div 16" by (simp add: drop_bit_eq_div unat_div)
  have "b AND 0x0f = take_bit 4 b" using take_bit_eq_mask [of 4 b] by (simp add: mask_eq_exp_minus_1)
  then show "unat (b AND 0x0f) = unat b mod 16" by (simp add: take_bit_eq_mod unat_mod)
qed

lemma encode_hex_eq: "encode_hex bs = concat (map hex_byte bs)"
proof -
  have "[HEX ! unat (drop_bit 4 b), HEX ! unat (b AND 0x0f)] = hex_byte b" for b
    using unat_lt_u8 [of b] HEX_nth [of "unat b div 16"] HEX_nth [of "unat b mod 16"]
    unfolding nibbles hex_byte_def by simp
  then show ?thesis by (simp add: encode_hex_def)
qed

lemma hex_nibble_digit: "n < 16 \<Longrightarrow> hex_nibble (hex_digit n) = Inr (of_nat n)"
  by (auto simp: hex_nibble_def hex_digit_def)

lemma join_nibbles: "push_bit 4 (of_nat (unat b div 16)) OR of_nat (unat b mod 16) = b" for b :: u8
proof -
  have "of_nat (unat b div 16) = drop_bit 4 b" "of_nat (unat b mod 16) = b AND 0x0f"
    unfolding nibbles [symmetric] by simp_all
  moreover have "b AND 0x0f = take_bit 4 b" using take_bit_eq_mask [of 4 b] by (simp add: mask_eq_exp_minus_1)
  moreover have "push_bit 4 (drop_bit 4 b) OR take_bit 4 b = b"
    by (rule bit_word_eqI) (auto simp: bit_simps)
  ultimately show ?thesis by simp
qed

lemma decode_pairs_hex: "decode_pairs (concat (map hex_byte bs)) = Inr bs"
proof (induction bs)
  case (Cons b bs)
  have "unat b div 16 < 16" using unat_lt_u8 [of b] by simp
  then show ?case
    using Cons hex_nibble_digit [of "unat b div 16"] hex_nibble_digit [of "unat b mod 16"] join_nibbles [of b]
    by (simp add: hex_byte_def [of b])
qed simp

lemma decode_encode_pubkey: "length key = 32 \<Longrightarrow> decode_pubkey (encode_hex key) = Inr key"
  by (simp add: decode_pubkey_def encode_hex_eq length_hex_bytes decode_pairs_hex)

text \<open>The extension list: joining trimmed names gives a trimmed text that splits into them.\<close>

lemma validate_extensions_iff:
  "validate_extensions es = Inr () \<longleftrightarrow>
     (\<forall>e \<in> set es. let x = rs_trim e in x \<noteq> [] \<and> list_all is_ascii x \<and> CHR '','' \<notin> set x \<and> length x \<le> 64)"
  by (induction es) (auto simp: Let_def)

lemma join_with_ends:
  assumes "es \<noteq> []" "\<forall>e \<in> set es. e \<noteq> []"
  shows "join_with d es \<noteq> []" "hd (join_with d es) = hd (hd es)" "last (join_with d es) = last (last es)"
  using assms by (induction d es rule: join_with.induct) auto

lemma join_with_all: "list_all P d \<Longrightarrow> \<forall>e \<in> set es. list_all P e \<Longrightarrow> list_all P (join_with d es)"
  by (induction d es rule: join_with.induct) auto

lemma parse_join_extensions:
  assumes "validate_extensions es = Inr ()" "\<forall>e \<in> set es. rs_trim e = e" "es \<noteq> []"
  shows "rs_trim (join_with '','' es) = join_with '','' es" "join_with '','' es \<noteq> []"
    "parse_extensions (join_with '','' es) = Inr es"
proof -
  have e: "\<forall>e \<in> set es. e \<noteq> [] \<and> list_all is_ascii e \<and> CHR '','' \<notin> set e"
    using assms(1,2) by (simp add: validate_extensions_iff Let_def)
  note j = join_with_ends [OF assms(3), of "'',''"]
  show ne: "join_with '','' es \<noteq> []" using j(1) e by blast
  have asc: "list_all is_ascii (join_with '','' es)" using e by (intro join_with_all) (auto simp: is_ascii_def)
  have ends: "\<not> is_whitespace [hd e] \<and> \<not> is_whitespace [last e]" if "e \<in> set es" for e
    using rs_trim_ascii [of e] e assms(2) that by auto
  have "\<not> is_whitespace [hd (join_with '','' es)] \<and> \<not> is_whitespace [last (join_with '','' es)]"
    using j(2,3) e ends [OF hd_in_set [OF assms(3)]] ends [OF last_in_set [OF assms(3)]] by simp
  then show "rs_trim (join_with '','' es) = join_with '','' es" using rs_trim_ascii [OF asc ne] by simp
  have "map rs_trim es = es" using assms(2) by (simp add: map_idI)
  moreover have "filter (\<lambda>e. e \<noteq> []) es = es" using e by (simp add: filter_id_conv)
  moreover have "split_on (CHR '','') (join_with '','' es) = es" using e assms(3) by (intro split_join) auto
  ultimately show "parse_extensions (join_with '','' es) = Inr es" using assms(1) by (simp add: parse_extensions_def)
qed

lemma map_of_any_order:
  assumes "distinct (map fst ps)" "mset qs = mset ps"
  shows "map_of (rev qs) = map_of ps"
proof -
  have "distinct (map fst (rev qs))" using assms by (metis distinct_rev mset_eq_imp_distinct_iff mset_map rev_map)
  then show ?thesis using assms mset_eq_setD [OF assms(2)] by (subst map_of_inject_set) auto
qed

lemma keys_lower: "to_ascii_lowercase k = k" if "k \<in> {TXT_ALIAS, TXT_FINGERPRINT, TXT_PUBKEY, TXT_QUIC_PORT,
    TXT_NATIVE_CERTIFICATE_FINGERPRINT, TXT_EXTENSIONS}"
  using that by (auto simp: txt_keys to_ascii_lowercase_def ascii_lower_def less_eq_char_def)

lemma plain_text_trimmed: "list_all is_ascii_alphanumeric s \<Longrightarrow> rs_trim s = s"
proof (rule rs_trim_id)
  have a: "is_ascii c \<and> \<not> is_whitespace [c]" if "is_ascii_alphanumeric c" for c
    using that by (auto simp: is_ascii_alphanumeric_def is_ascii_def is_whitespace_def less_eq_char_def is_ascii_digit_def)
  assume "list_all is_ascii_alphanumeric s"
  then show "list_all is_ascii s" "list_all (\<lambda>c. \<not> is_whitespace [c]) s" using a by (auto simp: list_all_iff)
qed

lemma hexdigit_alphanumeric: "is_ascii_hexdigit c \<Longrightarrow> is_ascii_alphanumeric c"
  by (auto simp: is_ascii_hexdigit_def is_ascii_alphanumeric_def less_eq_char_def)

lemma hex_byte_alphanumeric: "list_all is_ascii_alphanumeric (hex_byte b)"
proof -
  have "is_ascii_alphanumeric (hex_digit n)" if "n < 16" for n
    using that by (auto simp: hex_digit_def is_ascii_alphanumeric_def is_ascii_digit_def less_eq_char_def)
  then show ?thesis using unat_lt_u8 [of b] by (simp add: hex_byte_def)
qed

lemma encoded_values_trimmed:
  "rs_trim (encode_hex bs) = encode_hex bs" "rs_trim (show_nat n) = show_nat n"
  "validate_txt_certificate_fingerprint f = Inr () \<Longrightarrow> rs_trim f = f"
proof -
  show "rs_trim (encode_hex bs) = encode_hex bs"
    unfolding encode_hex_eq using hex_byte_alphanumeric by (intro plain_text_trimmed) (auto simp: list_all_iff)
  show "rs_trim (show_nat n) = show_nat n"
    using show_nat_digits [of n] by (intro plain_text_trimmed) (auto simp: list_all_iff is_ascii_alphanumeric_def)
  show "validate_txt_certificate_fingerprint f = Inr () \<Longrightarrow> rs_trim f = f"
    using hexdigit_alphanumeric by (intro plain_text_trimmed) (auto simp: validate_txt_certificate_fingerprint_def list_all_iff split: if_splits)
qed

definition txt_list :: "NativePeerInfo \<Rightarrow> (string \<times> string) list" where
  "txt_list info = [(TXT_ALIAS, rs_trim (np_alias info)), (TXT_FINGERPRINT, rs_trim (np_fingerprint info)),
     (TXT_PUBKEY, encode_hex (np_pubkey info)), (TXT_QUIC_PORT, show_nat (unat (np_quic_port info)))]
   @ (case np_native_certificate_fingerprint info of None \<Rightarrow> [] | Some f \<Rightarrow> [(TXT_NATIVE_CERTIFICATE_FINGERPRINT, f)])
   @ [(TXT_EXTENSIONS, join_with '','' (np_extensions info))]"

lemma to_txt_Inr:
  "peer_info_to_txt_properties info = Inr props \<longleftrightarrow>
     validate_peer_info info = Inr () \<and> pred_option (\<lambda>f. validate_txt_certificate_fingerprint f = Inr ()) (np_native_certificate_fingerprint info)
     \<and> props = txt_list info"
  by (cases "np_native_certificate_fingerprint info")
    (auto simp: peer_info_to_txt_properties_def txt_list_def res_iffs Let_def)

lemma txt_list_distinct: "distinct (map fst (txt_list info))"
  by (simp add: txt_list_def txt_keys split: option.splits)

lemma txt_list_lower: "map (\<lambda>(k, v). (to_ascii_lowercase k, rs_trim v)) (txt_list info) = map (apsnd rs_trim) (txt_list info)"
  using keys_lower by (auto simp: txt_list_def split: option.splits)

lemma normalized_any_order:
  assumes "mset txt = mset (txt_list info)"
  shows "normalized_properties txt = map_of (map (apsnd rs_trim) (txt_list info))"
proof -
  have "mset (map (\<lambda>(k, v). (to_ascii_lowercase k, rs_trim v)) txt) = mset (map (apsnd rs_trim) (txt_list info))"
    using arg_cong [OF assms, of "image_mset (\<lambda>(k, v). (to_ascii_lowercase k, rs_trim v))"] txt_list_lower [of info] by (metis mset_map)
  then show ?thesis unfolding normalized_properties_def
    by (intro map_of_any_order) (use txt_list_distinct in \<open>simp_all add: comp_def\<close>)
qed

lemma from_txt_any_order:
  assumes ok: "peer_info_to_txt_properties info = Inr props" and order: "mset txt = mset props"
    and key: "length (np_pubkey info) = 32" and ext: "\<forall>e \<in> set (np_extensions info). rs_trim e = e"
  shows "peer_info_from_txt_properties txt =
    (if np_extensions info = [] then Inl (discovery_error ''extensions is required'')
     else Inr (info\<lparr>np_alias := rs_trim (np_alias info), np_fingerprint := rs_trim (np_fingerprint info)\<rparr>))"
proof -
  note t = ok [unfolded to_txt_Inr]
  have v: "validate_txt_value TXT_ALIAS (np_alias info) = Inr ()" "validate_txt_value TXT_FINGERPRINT (np_fingerprint info) = Inr ()"
    "validate_quic_port (np_quic_port info) = Inr ()" "validate_extensions (np_extensions info) = Inr ()"
    using t by (auto simp: validate_peer_info_def res_iffs)
  have nb: "\<not> blank (np_alias info)" "\<not> blank (np_fingerprint info)"
    using v(1,2) by (auto simp: validate_txt_value_def blank_def Let_def split: if_splits)
  have tv: "validate_txt_value f (rs_trim a) = validate_txt_value f a" for f a by (simp add: validate_txt_value_def)
  have port: "decode_quic_port (show_nat (unat (np_quic_port info))) = Inr (np_quic_port info)"
    using v(3) unat_lt_u16 [of "np_quic_port info"] by (simp add: decode_quic_port_def parse_unsigned_show)
  have ne: "encode_hex (np_pubkey info) \<noteq> []"
    using key length_hex_bytes [of "np_pubkey info"] unfolding encode_hex_eq by (metis list.size(3) mult_is_0 zero_neq_numeral)
  let ?m = "normalized_properties txt"
  have look: "?m TXT_ALIAS = Some (rs_trim (np_alias info))" "?m TXT_FINGERPRINT = Some (rs_trim (np_fingerprint info))"
    "?m TXT_PUBKEY = Some (encode_hex (np_pubkey info))" "?m TXT_QUIC_PORT = Some (show_nat (unat (np_quic_port info)))"
    "?m TXT_NATIVE_CERTIFICATE_FINGERPRINT = np_native_certificate_fingerprint info"
    "?m TXT_EXTENSIONS = Some (rs_trim (join_with '','' (np_extensions info)))"
    using normalized_any_order [of "txt" info] order t encoded_values_trimmed
    by (auto simp: txt_list_def txt_keys split: option.splits)
  have req: "required_property ?m TXT_ALIAS = Inr (rs_trim (np_alias info))"
    "required_property ?m TXT_FINGERPRINT = Inr (rs_trim (np_fingerprint info))"
    "required_property ?m TXT_PUBKEY = Inr (encode_hex (np_pubkey info))"
    "required_property ?m TXT_QUIC_PORT = Inr (show_nat (unat (np_quic_port info)))"
    using look nb ne trimmed_not_blank [OF encoded_values_trimmed(1)] trimmed_not_blank [OF encoded_values_trimmed(2)]
    by (simp_all add: required_property_def)
  have cert: "(case np_native_certificate_fingerprint info of None \<Rightarrow> Inr None
      | Some value \<Rightarrow> res_map (\<lambda>_. Some value) (validate_txt_certificate_fingerprint value)) = Inr (np_native_certificate_fingerprint info)"
    using t by (auto split: option.splits)
  have exts: "res_bind (required_property ?m TXT_EXTENSIONS) parse_extensions =
      (if np_extensions info = [] then Inl (discovery_error ''extensions is required'') else Inr (np_extensions info))"
    using parse_join_extensions [OF v(4) ext] look(6) trimmed_not_blank [of "join_with '','' (np_extensions info)"]
      blank_Nil by (auto simp: required_property_def TXT_EXTENSIONS_def blank_def)
  show ?thesis
    unfolding peer_info_from_txt_properties_def Let_def req look(5) exts
    by (simp add: tv v port cert decode_encode_pubkey [OF key])
qed

section \<open>Properties\<close>

text \<open>C36. Advertising and resolving a peer. Whatever order the TXT entries come back in, a peer that
  could be advertised is resolved to the same information (alias and identity fingerprint trimmed) at
  the first address of the service; only a peer that advertises no extension is not resolved at all:
  the resolver requires a nonempty list, which the advertiser does not.\<close>

theorem advertised_peer_resolves:
  assumes "peer_info_to_txt_properties info = Inr props" "mset txt = mset props"
    "length (np_pubkey info) = 32" "\<forall>e \<in> set (np_extensions info). rs_trim e = e"
  shows "resolved_peer_from_resolved_service
      \<lparr>sv_ty_domain = NATIVE_MDNS_SERVICE_TYPE, sv_properties = txt, sv_addresses = address # others\<rparr> =
    (if np_extensions info = [] then Inl (discovery_error ''extensions is required'')
     else Inr (Some \<lparr>rn_info = info\<lparr>np_alias := rs_trim (np_alias info), np_fingerprint := rs_trim (np_fingerprint info)\<rparr>,
                     rn_address = address\<rparr>))"
proof -
  have d: "distinct (map fst txt)"
    using assms(1,2) txt_list_distinct [of info] by (metis mset_eq_imp_distinct_iff mset_map to_txt_Inr)
  then have "AList.clearjunk (rev txt) = rev txt" by (simp add: distinct_clearjunk_id rev_map [symmetric])
  then have "mset (txt_properties_to_map txt) = mset props" using assms(2) by (simp add: txt_properties_to_map_def)
  from from_txt_any_order [OF assms(1) this assms(3,4)] show ?thesis
    by (simp add: resolved_peer_from_resolved_service_def peer_info_from_resolved_service_def peer_info_from_mdns_txt_def)
qed

definition demo_info :: "string list \<Rightarrow> NativePeerInfo" where
  "demo_info exts = \<lparr>np_alias = ''desk '', np_fingerprint = ''ab'', np_pubkey = replicate 32 7, np_quic_port = 9,
     np_native_certificate_fingerprint = None, np_extensions = exts\<rparr>"

theorem advertised_peer_resolves_witness:
  "(\<exists>info address. resolved_peer_from_resolved_service \<lparr>sv_ty_domain = NATIVE_MDNS_SERVICE_TYPE,
     sv_properties = rev (txt_list (demo_info [''resume-v1''])), sv_addresses = [V4 10 0 0 1]\<rparr>
     = Inr (Some \<lparr>rn_info = info, rn_address = address\<rparr>))
   \<and> resolved_peer_from_resolved_service \<lparr>sv_ty_domain = NATIVE_MDNS_SERVICE_TYPE,
     sv_properties = rev (txt_list (demo_info [])), sv_addresses = [V4 10 0 0 1]\<rparr> = Inl (discovery_error ''extensions is required'')"
proof -
  have "validate_peer_info (demo_info [''resume-v1'']) = Inr ()" "validate_peer_info (demo_info []) = Inr ()"
    "rs_trim ''resume-v1'' = ''resume-v1''" by code_simp+
  moreover have "np_native_certificate_fingerprint (demo_info e) = None" "length (np_pubkey (demo_info e)) = 32"
    "np_extensions (demo_info e) = e" for e
    by (simp_all add: demo_info_def)
  ultimately show ?thesis
    using advertised_peer_resolves [of "demo_info [''resume-v1'']" "txt_list (demo_info [''resume-v1''])"
        "rev (txt_list (demo_info [''resume-v1'']))" "V4 10 0 0 1" "[]"]
      advertised_peer_resolves [of "demo_info []" "txt_list (demo_info [])" "rev (txt_list (demo_info []))" "V4 10 0 0 1" "[]"]
    by (simp add: to_txt_Inr)
qed

end
