(* ===== verification/Rendezvous_Registry.thy ===== *)
theory Rendezvous_Registry
  imports NB_Net "HOL-Library.AList"
begin

text \<open>
  The rendezvous protocol and its registry, \<open>protocol.rs\<close> and \<open>registry.rs\<close> of \<open>rendezvous/src\<close>.
  Instants and durations are nanoseconds since an arbitrary origin; a \<open>HashMap\<close> is an association list
  with distinct keys whose order is never observed. The locale \<open>expiring_store\<close> is what a table with
  expiring entries promises; the registry and the LocalSend session manager are instances.
\<close>

section \<open>Tables with expiring entries\<close>

locale expiring_store =
  fixes live :: "'s \<Rightarrow> nat \<Rightarrow> 'k \<Rightarrow> 'v option" and prune :: "nat \<Rightarrow> 's \<Rightarrow> 's" and inv :: "'s \<Rightarrow> bool"
  assumes prune_inv: "inv s \<Longrightarrow> inv (prune t s)"
    and live_prune: "inv s \<Longrightarrow> t \<le> t' \<Longrightarrow> live (prune t s) t' k = live s t' k"
    and live_mono: "inv s \<Longrightarrow> t \<le> t' \<Longrightarrow> live s t' k = Some v \<Longrightarrow> live s t k = Some v"
begin

lemma prune_many_inv: "inv s \<Longrightarrow> inv (fold prune ts s)"
  by (induction ts arbitrary: s) (auto intro: prune_inv)

text \<open>However often a table is pruned, what is live later stays the same.\<close>

lemma live_after_prunes: "inv s \<Longrightarrow> \<forall>u \<in> set ts. u \<le> t \<Longrightarrow> live (fold prune ts s) t k = live s t k"
proof (induction ts arbitrary: s)
  case (Cons u us)
  then show ?case using live_prune [of s u t k] prune_inv [of s u] by simp
qed simp

lemma expired_stays_expired: "inv s \<Longrightarrow> t \<le> t' \<Longrightarrow> live s t k = None \<Longrightarrow> live s t' k = None"
  using live_mono [of s t t' k] by (cases "live s t' k") auto

end

text \<open>The table both components have: entries kept in a list, each with its expiry time.\<close>

definition table_live :: "('v \<Rightarrow> nat) \<Rightarrow> ('k \<times> 'v) list \<Rightarrow> nat \<Rightarrow> 'k \<Rightarrow> 'v option" where
  "table_live expires xs t k = (case map_of xs k of Some v \<Rightarrow> if expires v > t then Some v else None | None \<Rightarrow> None)"

definition table_retain :: "('v \<Rightarrow> nat) \<Rightarrow> nat \<Rightarrow> ('k \<times> 'v) list \<Rightarrow> ('k \<times> 'v) list" where
  "table_retain expires t xs = filter (\<lambda>(k, v). expires v > t) xs"

lemma map_of_filter_distinct:
  "distinct (map fst xs) \<Longrightarrow> map_of (filter P xs) k = (case map_of xs k of Some v \<Rightarrow> if P (k, v) then Some v else None | None \<Rightarrow> None)"
proof (induction xs)
  case (Cons x xs)
  obtain a v where x: "x = (a, v)" by fastforce
  have "map_of xs a = None" using Cons.prems x by (simp add: map_of_eq_None_iff)
  then show ?case using Cons x by auto
qed simp

lemma map_of_retain: "distinct (map fst xs) \<Longrightarrow> map_of (table_retain expires t xs) k = table_live expires xs t k"
  by (simp add: table_retain_def table_live_def map_of_filter_distinct split: option.splits)

lemma distinct_retain: "distinct (map fst xs) \<Longrightarrow> distinct (map fst (table_retain expires t xs))"
  by (simp add: table_retain_def distinct_map_filter)

lemma table_live_retain:
  "distinct (map fst xs) \<Longrightarrow> t \<le> t' \<Longrightarrow> table_live expires (table_retain expires t xs) t' k = table_live expires xs t' k"
  unfolding table_live_def [of expires "table_retain expires t xs"] map_of_retain
  by (auto simp: table_live_def split: option.splits)

lemma table_live_mono: "t \<le> t' \<Longrightarrow> table_live expires xs t' k = Some v \<Longrightarrow> table_live expires xs t k = Some v"
  by (auto simp: table_live_def split: option.splits if_splits)

interpretation expiring_table: expiring_store "table_live expires" "table_retain expires" "\<lambda>xs. distinct (map fst xs)"
  for expires :: "'v \<Rightarrow> nat"
  by unfold_locales (auto intro: distinct_retain table_live_retain table_live_mono)

section \<open>Protocol\<close>

datatype ProtocolError = Required string | EmptyCandidates | InvalidTtl | InvalidCandidateAddress | InvalidCandidatePort

datatype RvCandidateKind = RvLocal | RvServerReflexive

record Candidate =
  ca_kind :: RvCandidateKind
  ca_address :: string
  ca_priority :: u32

record RegisterRequest =
  rr_alias :: string
  rr_pubkey :: bytes
  rr_candidates :: "Candidate list"
  rr_ttl_seconds :: u64

record LookupRequest =
  lr_requester_pubkey :: bytes
  lr_target_pubkey :: bytes

record NotifyRequest =
  nr_requester_pubkey :: bytes
  nr_target_pubkey :: bytes

record RegisteredResponse =
  rd_ttl_seconds :: u64
  rd_expires_at_unix_seconds :: u64

record LookupPeer =
  lup_alias :: string
  lup_pubkey :: bytes
  lup_candidates :: "Candidate list"
  lup_last_seen_unix_seconds :: u64

record ErrorResponse =
  er_code :: string
  er_message :: string

datatype ClientMessage = Register RegisterRequest | Lookup LookupRequest | Notify NotifyRequest | Ping

text \<open>The responses with one field are the field: a lookup response its optional peer, a queued
  notification the key of its target, a notification the key of its requester.\<close>

datatype ServerMessage =
    Registered RegisteredResponse
  | LookupResult "LookupPeer option"
  | NotifyQueued bytes
  | PeerNotification bytes
  | Pong
  | ErrorMessage ErrorResponse

definition rv_require_nonblank :: "string \<Rightarrow> string \<Rightarrow> ProtocolError + unit" where
  "rv_require_nonblank name value = (if blank value then Inl (Required name) else Inr ())"

definition candidate_validate :: "Candidate \<Rightarrow> ProtocolError + unit" where
  "candidate_validate c =
     res_bind (ok_or InvalidCandidateAddress (parse_socket_addr (ca_address c))) (\<lambda>address.
       if sock_port address = 0 then Inl InvalidCandidatePort else Inr ())"

fun candidates_validate :: "Candidate list \<Rightarrow> ProtocolError + unit" where
  "candidates_validate [] = Inr ()"
| "candidates_validate (c # cs) = res_bind (candidate_validate c) (\<lambda>_. candidates_validate cs)"

definition register_validate :: "RegisterRequest \<Rightarrow> ProtocolError + unit" where
  "register_validate r =
     res_bind (rv_require_nonblank ''alias'' (rr_alias r)) (\<lambda>_.
       if rr_candidates r = [] then Inl EmptyCandidates
       else if rr_ttl_seconds r = 0 then Inl InvalidTtl
       else candidates_validate (rr_candidates r))"

fun protocol_display :: "ProtocolError \<Rightarrow> string" where
  "protocol_display (Required f) = f @ '' is required''"
| "protocol_display EmptyCandidates = ''register request must include at least one candidate''"
| "protocol_display InvalidTtl = ''ttl_seconds must be greater than zero''"
| "protocol_display InvalidCandidateAddress = ''candidate address must be host:port''"
| "protocol_display InvalidCandidatePort = ''candidate port must be greater than zero''"

section \<open>Registry\<close>

datatype RegistryError = RegistryProtocol ProtocolError | TargetNotRegistered

fun registry_display :: "RegistryError \<Rightarrow> string" where
  "registry_display (RegistryProtocol e) = protocol_display e"
| "registry_display TargetNotRegistered = ''target peer is not registered''"

record RegistryEntry =
  re_alias :: string
  re_pubkey :: bytes
  re_candidates :: "Candidate list"
  re_registered_at :: nat
  re_expires_at :: nat
  re_last_seen :: nat

record Registry =
  rg_max_ttl :: nat
  rg_entries :: "(bytes \<times> RegistryEntry) list"
  rg_notifications :: "(bytes \<times> bytes list) list"

definition nanos :: nat where "nanos = 1000000000"

definition as_secs :: "nat \<Rightarrow> u64" where "as_secs d = of_nat (d div nanos)"

definition registry_new :: "nat \<Rightarrow> Registry" where
  "registry_new max_ttl = \<lparr>rg_max_ttl = max_ttl, rg_entries = [], rg_notifications = []\<rparr>"

definition capped_ttl :: "Registry \<Rightarrow> u64 \<Rightarrow> nat" where
  "capped_ttl r requested_seconds = min (unat requested_seconds * nanos) (rg_max_ttl r)"

definition to_lookup_peer :: "RegistryEntry \<Rightarrow> LookupPeer" where
  "to_lookup_peer e = \<lparr>lup_alias = re_alias e, lup_pubkey = re_pubkey e, lup_candidates = re_candidates e,
     lup_last_seen_unix_seconds = as_secs (re_last_seen e - re_registered_at e)\<rparr>"

definition register :: "nat \<Rightarrow> RegisterRequest \<Rightarrow> Registry \<Rightarrow> (RegistryError + RegisteredResponse) \<times> Registry" where
  "register now request r =
     (case register_validate request of
        Inl e \<Rightarrow> (Inl (RegistryProtocol e), r)
      | Inr _ \<Rightarrow>
          let ttl = capped_ttl r (rr_ttl_seconds request);
              ttl_seconds = as_secs ttl;
              expires_at = now + ttl;
              entry = \<lparr>re_alias = rr_alias request, re_pubkey = rr_pubkey request, re_candidates = rr_candidates request,
                re_registered_at = now, re_expires_at = expires_at, re_last_seen = now\<rparr>
          in (Inr \<lparr>rd_ttl_seconds = ttl_seconds, rd_expires_at_unix_seconds = ttl_seconds\<rparr>,
              r\<lparr>rg_entries := AList.update (re_pubkey entry) entry (rg_entries r)\<rparr>))"

definition prune_expired :: "nat \<Rightarrow> Registry \<Rightarrow> nat \<times> Registry" where
  "prune_expired now r =
     (let before = length (rg_entries r);
          gone = map fst (filter (\<lambda>(k, e). \<not> re_expires_at e > now) (rg_entries r));
          entries = table_retain re_expires_at now (rg_entries r);
          notifications = filter (\<lambda>(k, _). k \<notin> set gone) (rg_notifications r)
      in (before - length entries, r\<lparr>rg_entries := entries, rg_notifications := notifications\<rparr>))"

definition lookup :: "nat \<Rightarrow> bytes \<Rightarrow> Registry \<Rightarrow> LookupPeer option \<times> Registry" where
  "lookup now pubkey r =
     (let r = snd (prune_expired now r) in
      case map_of (rg_entries r) pubkey of
        None \<Rightarrow> (None, r)
      | Some entry \<Rightarrow>
          let entry = entry\<lparr>re_last_seen := now\<rparr>
          in (Some (to_lookup_peer entry), r\<lparr>rg_entries := AList.update pubkey entry (rg_entries r)\<rparr>))"

definition lookup_request :: "nat \<Rightarrow> LookupRequest \<Rightarrow> Registry \<Rightarrow> (RegistryError + LookupPeer option) \<times> Registry" where
  "lookup_request now request r = (let (peer, r) = lookup now (lr_target_pubkey request) r in (Inr peer, r))"

definition queue_notify :: "nat \<Rightarrow> NotifyRequest \<Rightarrow> Registry \<Rightarrow> (RegistryError + bytes) \<times> Registry" where
  "queue_notify now request r =
     (let (found, r) = lookup now (nr_target_pubkey request) r;
          target = nr_target_pubkey request in
      if found = None then (Inl TargetNotRegistered, r)
      else
        let queued = (case map_of (rg_notifications r) target of Some ns \<Rightarrow> ns | None \<Rightarrow> [])
        in (Inr target, r\<lparr>rg_notifications := AList.update target (queued @ [nr_requester_pubkey request]) (rg_notifications r)\<rparr>))"

definition drain_notifications :: "nat \<Rightarrow> bytes \<Rightarrow> Registry \<Rightarrow> bytes list \<times> Registry" where
  "drain_notifications now target r =
     (let (found, r) = lookup now target r in
      if found = None then ([], r)
      else (case map_of (rg_notifications r) target of Some ns \<Rightarrow> ns | None \<Rightarrow> [],
            r\<lparr>rg_notifications := AList.delete target (rg_notifications r)\<rparr>))"

section \<open>Lemmas\<close>

lemma prune_entries: "rg_entries (snd (prune_expired now r)) = table_retain re_expires_at now (rg_entries r)"
  "rg_max_ttl (snd (prune_expired now r)) = rg_max_ttl r"
  by (simp_all add: prune_expired_def Let_def)

lemma lookup_entries:
  assumes "distinct (map fst (rg_entries r))"
  shows "lookup now k r = (case table_live re_expires_at (rg_entries r) now k of
      None \<Rightarrow> (None, snd (prune_expired now r))
    | Some e \<Rightarrow> (Some (to_lookup_peer (e\<lparr>re_last_seen := now\<rparr>)),
        (snd (prune_expired now r))\<lparr>rg_entries := AList.update k (e\<lparr>re_last_seen := now\<rparr>)
           (table_retain re_expires_at now (rg_entries r))\<rparr>))"
  by (simp add: lookup_def Let_def prune_entries map_of_retain [OF assms] split: option.splits)

text \<open>A registered target can be notified, and draining returns the requesters in order.\<close>

lemma drain_after_notify:
  assumes "distinct (map fst (rg_entries r))" "queue_notify now q r = (Inr target, r')"
  shows "fst (drain_notifications now target r') =
    (case map_of (rg_notifications (snd (prune_expired now r))) target of Some ns \<Rightarrow> ns | None \<Rightarrow> []) @ [nr_requester_pubkey q]"
proof -
  let ?p = "snd (prune_expired now r)"
  obtain e where e: "table_live re_expires_at (rg_entries r) now (nr_target_pubkey q) = Some e"
    and t: "target = nr_target_pubkey q"
    and r': "r' = ?p\<lparr>rg_entries := AList.update target (e\<lparr>re_last_seen := now\<rparr>) (table_retain re_expires_at now (rg_entries r)),
      rg_notifications := AList.update target ((case map_of (rg_notifications ?p) target of Some ns \<Rightarrow> ns | None \<Rightarrow> [])
        @ [nr_requester_pubkey q]) (rg_notifications ?p)\<rparr>"
    using assms(2) unfolding queue_notify_def lookup_entries [OF assms(1)]
    by (auto simp: Let_def split: option.splits)
  have exp: "re_expires_at e > now" using e by (auto simp: table_live_def split: option.splits if_splits)
  have d: "distinct (map fst (rg_entries r'))" using distinct_retain [OF assms(1)] by (simp add: r' distinct_update)
  have ent: "map_of (rg_entries r') k = ((table_live re_expires_at (rg_entries r) now)(target \<mapsto> e\<lparr>re_last_seen := now\<rparr>)) k" for k
    by (simp add: r' update_conv' map_of_retain [OF assms(1)] fun_upd_def)
  have keep: "table_live re_expires_at (rg_entries r') now target = Some (e\<lparr>re_last_seen := now\<rparr>)"
    using exp by (simp add: table_live_def ent)
  have "map_of (rg_notifications (snd (prune_expired now r'))) target = map_of (rg_notifications r') target"
  proof -
    have live: "re_expires_at x > now" if "(k, x) \<in> set (rg_entries r')" for k x
    proof -
      have "map_of (rg_entries r') k = Some x" using that d by simp
      then show ?thesis using exp unfolding ent by (auto simp: table_live_def split: if_splits option.splits)
    qed
    then have "map fst (filter (\<lambda>(k, e). \<not> re_expires_at e > now) (rg_entries r')) = []"
      by (auto simp: filter_empty_conv)
    then show ?thesis by (simp add: prune_expired_def Let_def)
  qed
  then show ?thesis unfolding drain_notifications_def lookup_entries [OF d] keep by (simp add: r' update_conv')
qed

end
