(* ===== verification/Rendezvous_Service.thy ===== *)
theory Rendezvous_Service
  imports Rendezvous_Registry NB_Fs
begin

text \<open>
  The rendezvous server and client, \<open>server.rs\<close> and \<open>client.rs\<close> of \<open>rendezvous/src\<close>: length-delimited
  JSON frames, the message handler over the shared registry, the request streams of a client. The JSON
  codec is a parameter. An error is the text of its outermost context. Each stream locks the registry
  once, so a server run is a sequence of handled messages and prune ticks at the times of its clock.
\<close>

section \<open>Frames\<close>

definition MAX_FRAME_BYTES :: nat where "MAX_FRAME_BYTES = 1024 * 1024"

definition read_frame :: "bytes \<Rightarrow> string + bytes \<times> bytes" where
  "read_frame s =
     res_bind (read_exact (\<lambda>_. ''read rendezvous frame length'') 4 s) (\<lambda>(len, s).
       let len = unat (u32_from_be len) in
       if len > MAX_FRAME_BYTES then Inl (''rendezvous frame exceeds '' @ show_nat MAX_FRAME_BYTES @ '' bytes'')
       else read_exact (\<lambda>_. ''read rendezvous frame body'') len s)"

definition write_frame :: "bytes \<Rightarrow> string + bytes" where
  "write_frame bs =
     (if length bs > MAX_FRAME_BYTES then Inl (''rendezvous frame exceeds '' @ show_nat MAX_FRAME_BYTES @ '' bytes'')
      else Inr (u32_to_be (of_nat (length bs)) @ bs))"

record RvJson =
  rj_client_to_vec :: "ClientMessage \<Rightarrow> string + bytes"
  rj_client_from_slice :: "bytes \<Rightarrow> string + ClientMessage"
  rj_server_to_vec :: "ServerMessage \<Rightarrow> string + bytes"
  rj_server_from_slice :: "bytes \<Rightarrow> string + ServerMessage"

definition with_context :: "string \<Rightarrow> string + 'a \<Rightarrow> string + 'a" where
  "with_context msg r = (case r of Inl _ \<Rightarrow> Inl msg | Inr x \<Rightarrow> Inr x)"

definition read_client_message :: "RvJson \<Rightarrow> bytes \<Rightarrow> string + ClientMessage \<times> bytes" where
  "read_client_message J s =
     res_bind (read_frame s) (\<lambda>(bs, s).
     res_map (\<lambda>m. (m, s)) (with_context ''decode rendezvous client message'' (rj_client_from_slice J bs)))"

definition write_server_message :: "RvJson \<Rightarrow> ServerMessage \<Rightarrow> string + bytes" where
  "write_server_message J message =
     res_bind (with_context ''encode rendezvous server message'' (rj_server_to_vec J message)) write_frame"

definition write_client_message :: "RvJson \<Rightarrow> ClientMessage \<Rightarrow> string + bytes" where
  "write_client_message J message =
     res_bind (with_context ''encode rendezvous client message'' (rj_client_to_vec J message)) write_frame"

definition read_server_message :: "RvJson \<Rightarrow> bytes \<Rightarrow> string + ServerMessage \<times> bytes" where
  "read_server_message J s =
     res_bind (read_frame s) (\<lambda>(bs, s).
     res_map (\<lambda>m. (m, s)) (with_context ''decode rendezvous server message'' (rj_server_from_slice J bs)))"

section \<open>Server\<close>

definition registry_error_response :: "RegistryError \<Rightarrow> ServerMessage" where
  "registry_error_response e = ErrorMessage \<lparr>er_code = ''registry_error'', er_message = registry_display e\<rparr>"

text \<open>The source reads the clock before it waits for the registry. Two requests that overtake each other between the two
  reach the registry with their times out of order; the properties are about requests in the order of their times.\<close>

fun handle_message :: "nat \<Rightarrow> ClientMessage \<Rightarrow> Registry \<Rightarrow> ServerMessage \<times> Registry" where
  "handle_message now (Register request) r =
     (let (res, r) = register now request r in
      (case res of Inr response \<Rightarrow> Registered response | Inl e \<Rightarrow> registry_error_response e, r))"
| "handle_message now (Lookup request) r =
     (let (res, r) = lookup_request now request r in
      (case res of Inr response \<Rightarrow> LookupResult response | Inl e \<Rightarrow> registry_error_response e, r))"
| "handle_message now (Notify request) r =
     (let (res, r) = queue_notify now request r in
      (case res of Inr response \<Rightarrow> NotifyQueued response | Inl e \<Rightarrow> registry_error_response e, r))"
| "handle_message now Ping r = (Pong, r)"

text \<open>One bidirectional stream: what the client wrote, what it reads back. A response that cannot be
  encoded is dropped and the stream finished empty.\<close>

definition handle_stream :: "RvJson \<Rightarrow> nat \<Rightarrow> bytes \<Rightarrow> Registry \<Rightarrow> bytes \<times> Registry" where
  "handle_stream J now input r =
     (let (response, r) = (case read_client_message J input of
          Inr (message, _) \<Rightarrow> handle_message now message r
        | Inl error \<Rightarrow> (ErrorMessage \<lparr>er_code = ''bad_request'', er_message = error\<rparr>, r))
      in (case write_server_message J response of Inr bs \<Rightarrow> bs | Inl _ \<Rightarrow> [], r))"

datatype RegistryEvent = Handled nat ClientMessage | PruneTick nat

fun event_time :: "RegistryEvent \<Rightarrow> nat" where
  "event_time (Handled t m) = t"
| "event_time (PruneTick t) = t"

fun server_step :: "RegistryEvent \<Rightarrow> Registry \<Rightarrow> Registry" where
  "server_step (Handled now m) r = snd (handle_message now m r)"
| "server_step (PruneTick now) r = snd (prune_expired now r)"

definition server_run :: "nat \<Rightarrow> RegistryEvent list \<Rightarrow> Registry" where
  "server_run max_ttl events = fold server_step events (registry_new max_ttl)"

section \<open>Client\<close>

definition parse_rendezvous_url :: "string \<Rightarrow> string + SocketAddr" where
  "parse_rendezvous_url url =
     (case strip_prefix ''quic://'' url of
        None \<Rightarrow> Inl ''rendezvous URL must start with quic://''
      | Some address \<Rightarrow> ok_or ''rendezvous URL must be quic://host:port'' (parse_socket_addr address))"

text \<open>\<open>exchange\<close> carries one stream: it fails, or gives the bytes the server wrote, and changes the
  state \<open>'s\<close> of the world it runs in.\<close>

definition client_request :: "RvJson \<Rightarrow> (bytes \<Rightarrow> 's \<Rightarrow> (string + bytes) \<times> 's) \<Rightarrow> ClientMessage \<Rightarrow> (('s, string, ServerMessage) sr)" where
  "client_request J exchange message =
     sr_bind (sr_gets (\<lambda>_. write_client_message J message)) (\<lambda>bs.
     sr_bind (exchange bs) (\<lambda>answer. sr_gets (\<lambda>_. res_map fst (read_server_message J answer))))"

definition server_error :: "ErrorResponse \<Rightarrow> string" where
  "server_error e = ''rendezvous server error '' @ er_code e @ '': '' @ er_message e"

definition client_register :: "RvJson \<Rightarrow> (bytes \<Rightarrow> 's \<Rightarrow> (string + bytes) \<times> 's) \<Rightarrow> (ServerMessage \<Rightarrow> string)
    \<Rightarrow> RegisterRequest \<Rightarrow> ('s, string, RegisteredResponse) sr" where
  "client_register J exchange debug request =
     sr_bind (client_request J exchange (Register request)) (\<lambda>answer. sr_gets (\<lambda>_. case answer of
       Registered response \<Rightarrow> Inr response
     | ErrorMessage error \<Rightarrow> Inl (server_error error)
     | other \<Rightarrow> Inl (''unexpected rendezvous register response: '' @ debug other)))"

definition client_lookup :: "RvJson \<Rightarrow> (bytes \<Rightarrow> 's \<Rightarrow> (string + bytes) \<times> 's) \<Rightarrow> (ServerMessage \<Rightarrow> string)
    \<Rightarrow> LookupRequest \<Rightarrow> ('s, string, LookupPeer option) sr" where
  "client_lookup J exchange debug request =
     sr_bind (client_request J exchange (Lookup request)) (\<lambda>answer. sr_gets (\<lambda>_. case answer of
       LookupResult response \<Rightarrow> Inr response
     | ErrorMessage error \<Rightarrow> Inl (server_error error)
     | other \<Rightarrow> Inl (''unexpected rendezvous lookup response: '' @ debug other)))"

definition client_notify :: "RvJson \<Rightarrow> (bytes \<Rightarrow> 's \<Rightarrow> (string + bytes) \<times> 's) \<Rightarrow> (ServerMessage \<Rightarrow> string)
    \<Rightarrow> NotifyRequest \<Rightarrow> ('s, string, bytes) sr" where
  "client_notify J exchange debug request =
     sr_bind (client_request J exchange (Notify request)) (\<lambda>answer. sr_gets (\<lambda>_. case answer of
       NotifyQueued response \<Rightarrow> Inr response
     | ErrorMessage error \<Rightarrow> Inl (server_error error)
     | other \<Rightarrow> Inl (''unexpected rendezvous notify response: '' @ debug other)))"

section \<open>Frames round trip\<close>

lemma read_write_frame: "write_frame bs = Inr out \<Longrightarrow> read_frame (out @ rest) = Inr (bs, rest)"
proof -
  assume w: "write_frame bs = Inr out"
  then have len: "length bs \<le> 1048576" and out: "out = u32_to_be (of_nat (length bs)) @ bs"
    by (auto simp: write_frame_def MAX_FRAME_BYTES_def split: if_splits)
  have "unat (of_nat (length bs) :: u32) = length bs" using len by (intro unat_of_nat_u32) simp
  then show ?thesis using len by (simp add: read_frame_def out MAX_FRAME_BYTES_def)
qed

lemma with_context_Inr_iff [simp]: "with_context c r = Inr x \<longleftrightarrow> r = Inr x"
  by (cases r) (auto simp: with_context_def)

lemma with_context_Inr [simp]: "with_context c (Inr x) = Inr x"
  by (simp add: with_context_def)

lemma write_frame_nonempty: "write_frame p = Inr bs \<Longrightarrow> bs \<noteq> []"
proof -
  assume w: "write_frame p = Inr bs"
  then have "length bs = 4 + length p" by (auto simp: write_frame_def split: if_splits)
  then show "bs \<noteq> []" by auto
qed

definition client_json_ok :: "RvJson \<Rightarrow> ClientMessage \<Rightarrow> bool" where
  "client_json_ok J m \<longleftrightarrow> (\<forall>p. rj_client_to_vec J m = Inr p \<longrightarrow> rj_client_from_slice J p = Inr m)"

definition server_json_ok :: "RvJson \<Rightarrow> ServerMessage \<Rightarrow> bool" where
  "server_json_ok J m \<longleftrightarrow> (\<forall>p. rj_server_to_vec J m = Inr p \<longrightarrow> rj_server_from_slice J p = Inr m)"

interpretation rv_client: frame_codec "write_client_message J" "read_client_message J" "client_json_ok J" for J
proof
  fix m bs rest assume "client_json_ok J m" "write_client_message J m = Inr bs"
  then show "read_client_message J (bs @ rest) = Inr (m, rest)"
    by (auto simp: write_client_message_def read_client_message_def res_iffs read_write_frame client_json_ok_def)
qed (auto simp: write_client_message_def res_iffs dest: write_frame_nonempty)

interpretation rv_server: frame_codec "write_server_message J" "read_server_message J" "server_json_ok J" for J
proof
  fix m bs rest assume "server_json_ok J m" "write_server_message J m = Inr bs"
  then show "read_server_message J (bs @ rest) = Inr (m, rest)"
    by (auto simp: write_server_message_def read_server_message_def res_iffs read_write_frame server_json_ok_def)
qed (auto simp: write_server_message_def res_iffs dest: write_frame_nonempty)

section \<open>The registry as a function of the history\<close>

text \<open>What the registry promises, without tables, pruning or notifications: a key is bound to its last
  valid registration until that expires.\<close>

fun lease_update :: "RegistryEvent \<Rightarrow> (bytes \<rightharpoonup> nat \<times> RegisterRequest) \<Rightarrow> (bytes \<rightharpoonup> nat \<times> RegisterRequest)" where
  "lease_update (Handled t (Register req)) m =
     (if register_validate req = Inr () then m(rr_pubkey req \<mapsto> (t, req)) else m)"
| "lease_update _ m = m"

definition leases :: "RegistryEvent list \<Rightarrow> (bytes \<rightharpoonup> nat \<times> RegisterRequest)" where
  "leases events = fold lease_update events Map.empty"

definition lease_end :: "nat \<Rightarrow> nat \<Rightarrow> RegisterRequest \<Rightarrow> nat" where
  "lease_end max_ttl t req = t + min (unat (rr_ttl_seconds req) * nanos) max_ttl"

definition lease_answer :: "nat \<Rightarrow> (bytes \<rightharpoonup> nat \<times> RegisterRequest) \<Rightarrow> nat \<Rightarrow> bytes \<Rightarrow> LookupPeer option" where
  "lease_answer max_ttl M now k =
     (case M k of
        Some (t, req) \<Rightarrow> if now < lease_end max_ttl t req
          then Some \<lparr>lup_alias = rr_alias req, lup_pubkey = rr_pubkey req, lup_candidates = rr_candidates req,
                     lup_last_seen_unix_seconds = as_secs (now - t)\<rparr>
          else None
      | None \<Rightarrow> None)"

text \<open>The simulation relation: at time \<open>T\<close> the table holds only the last leases, and all of those that
  have not expired.\<close>

definition entry_for :: "nat \<Rightarrow> nat \<times> RegisterRequest \<Rightarrow> RegistryEntry \<Rightarrow> bool" where
  "entry_for max_ttl = (\<lambda>(t, req) e. re_alias e = rr_alias req \<and> re_pubkey e = rr_pubkey req
     \<and> re_candidates e = rr_candidates req \<and> re_registered_at e = t \<and> re_expires_at e = lease_end max_ttl t req)"

definition holds_leases :: "nat \<Rightarrow> nat \<Rightarrow> (bytes \<rightharpoonup> nat \<times> RegisterRequest) \<Rightarrow> Registry \<Rightarrow> bool" where
  "holds_leases max_ttl T M r \<longleftrightarrow> rg_max_ttl r = max_ttl \<and> distinct (map fst (rg_entries r))
     \<and> (\<forall>k e. map_of (rg_entries r) k = Some e \<longrightarrow> (\<exists>l. M k = Some l \<and> entry_for max_ttl l e))
     \<and> (\<forall>k t req. M k = Some (t, req) \<longrightarrow> T < lease_end max_ttl t req \<longrightarrow> map_of (rg_entries r) k \<noteq> None)"

lemma holds_live:
  assumes "holds_leases max_ttl T M r" "T \<le> now"
  shows "(case table_live re_expires_at (rg_entries r) now k of
      Some e \<Rightarrow> \<exists>t req. M k = Some (t, req) \<and> entry_for max_ttl (t, req) e \<and> now < lease_end max_ttl t req
    | None \<Rightarrow> \<forall>t req. M k = Some (t, req) \<longrightarrow> \<not> now < lease_end max_ttl t req)"
proof (cases "map_of (rg_entries r) k")
  case None
  then show ?thesis using assms unfolding holds_leases_def by (force simp: table_live_def)
next
  case (Some e)
  then obtain t req where "M k = Some (t, req)" "entry_for max_ttl (t, req) e"
    using assms(1) unfolding holds_leases_def by fastforce
  then show ?thesis using Some by (auto simp: table_live_def entry_for_def)
qed

lemma holds_prune:
  assumes "holds_leases max_ttl T M r" "T \<le> now"
  shows "holds_leases max_ttl now M (snd (prune_expired now r))"
proof -
  have d: "distinct (map fst (rg_entries r))" "rg_max_ttl r = max_ttl" using assms(1) by (simp_all add: holds_leases_def)
  show ?thesis
    unfolding holds_leases_def prune_entries map_of_retain [OF d(1)]
  proof (intro conjI allI impI)
    fix k e assume "table_live re_expires_at (rg_entries r) now k = Some e"
    then show "\<exists>l. M k = Some l \<and> entry_for max_ttl l e" using holds_live [OF assms, of k] by auto
  next
    fix k t req assume "M k = Some (t, req)" "now < lease_end max_ttl t req"
    then show "table_live re_expires_at (rg_entries r) now k \<noteq> None"
      using holds_live [OF assms, of k] by (auto split: option.splits)
  qed (use d distinct_retain in auto)
qed

lemma holds_update:
  assumes "holds_leases max_ttl T M r" "M k = Some l" "entry_for max_ttl l e"
  shows "holds_leases max_ttl T M (r\<lparr>rg_entries := AList.update k e (rg_entries r)\<rparr>)"
  using assms unfolding holds_leases_def by (cases l) (auto simp: update_conv' distinct_update)

lemma holds_notifications [simp]: "holds_leases m T M (r\<lparr>rg_notifications := ns\<rparr>) = holds_leases m T M r"
  by (simp add: holds_leases_def)

lemma holds_lookup:
  assumes "holds_leases max_ttl T M r" "T \<le> now"
  shows "fst (lookup now k r) = lease_answer max_ttl M now k" "holds_leases max_ttl now M (snd (lookup now k r))"
proof -
  have d: "distinct (map fst (rg_entries r))" using assms(1) by (simp add: holds_leases_def)
  note lv = holds_live [OF assms, of k] and pr = holds_prune [OF assms]
  show "fst (lookup now k r) = lease_answer max_ttl M now k"
    using lv unfolding lookup_entries [OF d]
    by (auto simp: lease_answer_def to_lookup_peer_def entry_for_def split: option.splits)
  show "holds_leases max_ttl now M (snd (lookup now k r))"
  proof (cases "table_live re_expires_at (rg_entries r) now k")
    case None
    then show ?thesis using pr unfolding lookup_entries [OF d] by simp
  next
    case (Some e)
    then obtain l where "M k = Some l" "entry_for max_ttl l (e\<lparr>re_last_seen := now\<rparr>)"
      using lv by (auto simp: entry_for_def)
    from holds_update [OF pr this] show ?thesis
      unfolding lookup_entries [OF d] Some by (simp add: prune_entries)
  qed
qed

lemma holds_step:
  assumes "holds_leases max_ttl T M r" "T \<le> event_time ev"
  shows "holds_leases max_ttl (event_time ev) (lease_update ev M) (server_step ev r)"
proof (cases ev)
  case (PruneTick now)
  then show ?thesis using holds_prune [OF assms(1)] assms(2) by simp
next
  case (Handled now m)
  have le: "T \<le> now" using assms(2) Handled by simp
  have keep: "holds_leases max_ttl now M r" using assms(1) le unfolding holds_leases_def by fastforce
  show ?thesis
  proof (cases m)
    case (Register req)
    show ?thesis
    proof (cases "register_validate req")
      case (Inl e)
      then show ?thesis using keep by (simp add: Handled Register register_def)
    next
      case (Inr u)
      then show ?thesis using keep
        by (auto simp: Handled Register register_def Let_def holds_leases_def update_conv' distinct_update
          entry_for_def lease_end_def capped_ttl_def)
    qed
  next
    case (Lookup req)
    then show ?thesis using holds_lookup(2) [OF assms(1) le, of "lr_target_pubkey req"]
      by (auto simp: Handled lookup_request_def split: prod.splits)
  next
    case (Notify req)
    obtain found r' where l: "lookup now (nr_target_pubkey req) r = (found, r')" by fastforce
    then show ?thesis using holds_lookup(2) [OF assms(1) le, of "nr_target_pubkey req"]
      by (simp add: Handled Notify queue_notify_def Let_def)
  next
    case Ping
    then show ?thesis using keep by (simp add: Handled)
  qed
qed

lemma holds_run:
  assumes "sorted (map event_time events)" "\<forall>e \<in> set events. event_time e \<le> now"
  shows "holds_leases max_ttl now (leases events) (server_run max_ttl events)"
proof -
  have "holds_leases max_ttl (last (0 # map event_time events)) (leases events) (server_run max_ttl events)"
    using assms(1)
  proof (induction events rule: rev_induct)
    case Nil
    then show ?case by (simp add: leases_def server_run_def holds_leases_def registry_new_def)
  next
    case (snoc e es)
    have srt: "sorted (map event_time es)" and le: "last (0 # map event_time es) \<le> event_time e"
      using snoc.prems by (auto simp: sorted_append last_map)
    from holds_step [OF snoc.IH [OF srt] le] show ?case by (simp add: leases_def server_run_def)
  qed
  moreover have "last (0 # map event_time events) \<le> now"
    using assms(2) by (cases events rule: rev_cases) auto
  ultimately show ?thesis unfolding holds_leases_def by (meson le_less_trans)
qed

section \<open>Properties\<close>

lemma lookup_after_run:
  assumes "sorted (map event_time events)" "\<forall>e \<in> set events. event_time e \<le> now"
  shows "handle_message now (Lookup q) (server_run max_ttl events) =
    (LookupResult (lease_answer max_ttl (leases events) now (lr_target_pubkey q)),
     server_run max_ttl (events @ [Handled now (Lookup q)]))"
  using holds_lookup(1) [OF holds_run [OF assms, of max_ttl] order_refl, of "lr_target_pubkey q"]
  by (auto simp: server_run_def lookup_request_def split: prod.splits)

text \<open>C11. The rendezvous service implements a table of leases. After any run of the server, whatever
  registrations, lookups, notifications and prune ticks it has handled, a client's lookup over the wire
  returns the peer of the last valid registration under the target key if it has not expired, with the
  time to live the client asked for capped by the server's maximum, and nothing otherwise; and the
  lookup is one more handled message of the run.\<close>

theorem rendezvous_lookup_refines_leases:
  assumes "sorted (map event_time events)" "\<forall>e \<in> set events. event_time e \<le> now"
    and "answer = lease_answer max_ttl (leases events) now (lr_target_pubkey q)"
    and "client_json_ok J (Lookup q)" "write_client_message J (Lookup q) = Inr sent"
    and "server_json_ok J (LookupResult answer)" "write_server_message J (LookupResult answer) = Inr received"
  shows "client_lookup J (\<lambda>bs r. let (out, r') = handle_stream J now bs r in (Inr out, r')) debug q (server_run max_ttl events)
    = (Inr answer, server_run max_ttl (events @ [Handled now (Lookup q)]))"
proof -
  have "read_client_message J sent = Inr (Lookup q, [])"
    using rv_client.dec_enc [OF assms(4,5), of "[]"] by simp
  moreover have "read_server_message J received = Inr (LookupResult answer, [])"
    using rv_server.dec_enc [OF assms(6,7), of "[]"] by simp
  ultimately show ?thesis
    using lookup_after_run [OF assms(1,2), of q max_ttl] assms(3,5,7)
    by (simp add: client_lookup_def client_request_def handle_stream_def sr_bind_def)
qed

definition demo_register :: RegisterRequest where
  "demo_register = \<lparr>rr_alias = ''desk'', rr_pubkey = [1], rr_candidates =
     [\<lparr>ca_kind = RvLocal, ca_address = show_socket_addr (SockV4 10 0 0 1 9), ca_priority = 100\<rparr>], rr_ttl_seconds = 60\<rparr>"

definition demo_query :: LookupRequest where
  "demo_query = \<lparr>lr_requester_pubkey = [2], lr_target_pubkey = [1]\<rparr>"

definition demo_found :: LookupPeer where
  "demo_found = \<lparr>lup_alias = ''desk'', lup_pubkey = [1], lup_candidates = rr_candidates demo_register, lup_last_seen_unix_seconds = 2\<rparr>"

definition demo_rv :: RvJson where
  "demo_rv = \<lparr>rj_client_to_vec = (\<lambda>_. Inr [0]), rj_client_from_slice = (\<lambda>_. Inr (Lookup demo_query)),
     rj_server_to_vec = (\<lambda>_. Inr [1]), rj_server_from_slice = (\<lambda>_. Inr (LookupResult (Some demo_found)))\<rparr>"

theorem rendezvous_lookup_refines_leases_witness:
  "fst (client_lookup demo_rv (\<lambda>bs r. let (out, r') = handle_stream demo_rv 5000000000 bs r in (Inr out, r')) (\<lambda>_. [])
     demo_query (server_run 300000000000 [Handled 3000000000 (Register demo_register), PruneTick 4000000000]))
   = Inr (Some demo_found)"
proof -
  have "\<not> blank ''desk''" by code_simp
  then have "register_validate demo_register = Inr ()"
    using parse_show_v4 [of 10 0 0 1 9] by (simp add: register_validate_def demo_register_def rv_require_nonblank_def
      candidate_validate_def del: show_socket_addr.simps)
  moreover have "as_secs 2000000000 = 2" by (simp add: as_secs_def nanos_def)
  ultimately have a: "lease_answer 300000000000 (leases [Handled 3000000000 (Register demo_register), PruneTick 4000000000])
      5000000000 (lr_target_pubkey demo_query) = Some demo_found"
    by (simp add: lease_answer_def leases_def [of "[_, _]"] demo_register_def demo_query_def demo_found_def lease_end_def nanos_def)
  show ?thesis
    using rendezvous_lookup_refines_leases [of "[Handled 3000000000 (Register demo_register), PruneTick 4000000000]"
        5000000000 "Some demo_found" 300000000000 demo_query demo_rv _ _ "\<lambda>_. []"] a
    by (simp add: client_json_ok_def server_json_ok_def demo_rv_def write_client_message_def write_server_message_def
      write_frame_def MAX_FRAME_BYTES_def)
qed

end
