(* ===== verification/Core_Config.thy ===== *)
theory Core_Config
  imports Identity NB_Net
begin

text \<open>
  Configuration, directories and hook events of the core crate (\<open>config.rs\<close>, \<open>paths.rs\<close>, \<open>hooks.rs\<close>),
  and how the daemon turns them into settings (\<open>load_daemon_config\<close>, \<open>localsend_receive_policy\<close> of
  \<open>daemon/src/main.rs\<close>). The TOML parser and the platform directories are parameters.
\<close>

section \<open>Configuration\<close>

datatype HookConfig =
    Webhook string string u8     \<comment> \<open>url, secret, max attempts\<close>
  | Exec string u64              \<comment> \<open>command, timeout in seconds\<close>

record MetricsConfig =
  mc_enabled :: bool
  mc_host :: string
  mc_port :: u16

record LoggingConfig =
  lc_format :: string
  lc_level :: string

record WanConfig =
  wc_enabled :: bool
  wc_rendezvous_url :: "string option"
  wc_register_interval_seconds :: u64
  wc_stun_servers :: "string list"

record LocalSendConfig =
  lsc_receive_policy :: string
  lsc_inbox_dir :: "string option"
  lsc_trusted_fingerprints :: "string list"
  lsc_trusted_fingerprints_file :: "string option"

record AppConfig =
  ac_hooks :: "HookConfig list"
  ac_metrics :: MetricsConfig
  ac_logging :: LoggingConfig
  ac_wan :: WanConfig
  ac_localsend :: LocalSendConfig

definition default_metrics :: MetricsConfig where
  "default_metrics = \<lparr>mc_enabled = False, mc_host = ''127.0.0.1'', mc_port = 53502\<rparr>"

definition default_logging :: LoggingConfig where
  "default_logging = \<lparr>lc_format = ''json'', lc_level = ''info''\<rparr>"

definition default_wan :: WanConfig where
  "default_wan = \<lparr>wc_enabled = False, wc_rendezvous_url = None, wc_register_interval_seconds = 60, wc_stun_servers = []\<rparr>"

definition default_localsend :: LocalSendConfig where
  "default_localsend = \<lparr>lsc_receive_policy = ''prompt'', lsc_inbox_dir = None, lsc_trusted_fingerprints = [],
     lsc_trusted_fingerprints_file = None\<rparr>"

definition default_config :: AppConfig where
  "default_config = \<lparr>ac_hooks = [], ac_metrics = default_metrics, ac_logging = default_logging, ac_wan = default_wan,
     ac_localsend = default_localsend\<rparr>"

definition config_nonblank :: "string \<Rightarrow> string \<Rightarrow> unit core_result" where
  "config_nonblank name value = (if blank value then Inl (ConfigError (name @ '' is required'')) else Inr ())"

fun all_nonblank :: "string \<Rightarrow> string list \<Rightarrow> unit core_result" where
  "all_nonblank name [] = Inr ()"
| "all_nonblank name (v # vs) = res_bind (config_nonblank name v) (\<lambda>_. all_nonblank name vs)"

definition opt_nonblank :: "string \<Rightarrow> string option \<Rightarrow> unit core_result" where
  "opt_nonblank name v = (case v of None \<Rightarrow> Inr () | Some x \<Rightarrow> config_nonblank name x)"

fun hook_validate :: "HookConfig \<Rightarrow> unit core_result" where
  "hook_validate (Webhook url secret max_attempts) =
     res_bind (config_nonblank ''webhook url'' url) (\<lambda>_.
     res_bind (config_nonblank ''webhook secret'' secret) (\<lambda>_.
     if max_attempts = 0 then Inl (ConfigError ''webhook max_attempts must be greater than zero'') else Inr ()))"
| "hook_validate (Exec command timeout_seconds) =
     res_bind (config_nonblank ''exec command'' command) (\<lambda>_.
     if timeout_seconds = 0 then Inl (ConfigError ''exec timeout_seconds must be greater than zero'') else Inr ())"

fun hooks_validate :: "HookConfig list \<Rightarrow> unit core_result" where
  "hooks_validate [] = Inr ()"
| "hooks_validate (h # hs) = res_bind (hook_validate h) (\<lambda>_. hooks_validate hs)"

definition metrics_validate :: "MetricsConfig \<Rightarrow> unit core_result" where
  "metrics_validate c = config_nonblank ''metrics host'' (mc_host c)"

definition logging_validate :: "LoggingConfig \<Rightarrow> unit core_result" where
  "logging_validate c =
     res_bind (config_nonblank ''logging level'' (lc_level c)) (\<lambda>_.
       if lc_format c \<in> {''json'', ''pretty'', ''compact''} then Inr ()
       else Inl (ConfigError (''unsupported logging format '' @ str_debug (lc_format c)
              @ ''; expected json, pretty, or compact'')))"

definition wan_validate :: "WanConfig \<Rightarrow> unit core_result" where
  "wan_validate c =
     res_bind (if wc_enabled c
       then (case wc_rendezvous_url c of
               Some url \<Rightarrow> config_nonblank ''rendezvous_url'' url
             | None \<Rightarrow> Inl (ConfigError ''rendezvous_url is required''))
       else Inr ()) (\<lambda>_.
     res_bind (opt_nonblank ''rendezvous_url'' (wc_rendezvous_url c)) (\<lambda>_.
       if wc_register_interval_seconds c = 0
       then Inl (ConfigError ''wan register_interval_seconds must be greater than zero'')
       else all_nonblank ''stun server'' (wc_stun_servers c)))"

definition localsend_validate :: "LocalSendConfig \<Rightarrow> unit core_result" where
  "localsend_validate c =
     (if lsc_receive_policy c \<in> {''prompt'', ''trusted'', ''auto''} then
        res_bind (opt_nonblank ''localsend inbox_dir'' (lsc_inbox_dir c)) (\<lambda>_.
        res_bind (all_nonblank ''trusted LocalSend fingerprint'' (lsc_trusted_fingerprints c)) (\<lambda>_.
        opt_nonblank ''trusted LocalSend fingerprints file'' (lsc_trusted_fingerprints_file c)))
      else Inl (ConfigError (''unsupported localsend receive_policy '' @ str_debug (lsc_receive_policy c)
             @ ''; expected prompt, trusted, or auto'')))"

definition config_validate :: "AppConfig \<Rightarrow> unit core_result" where
  "config_validate c =
     res_bind (hooks_validate (ac_hooks c)) (\<lambda>_.
     res_bind (metrics_validate (ac_metrics c)) (\<lambda>_.
     res_bind (logging_validate (ac_logging c)) (\<lambda>_.
     res_bind (wan_validate (ac_wan c)) (\<lambda>_.
     localsend_validate (ac_localsend c)))))"

definition load_config :: "(string \<Rightarrow> string + AppConfig) \<Rightarrow> path \<Rightarrow> fs \<Rightarrow> AppConfig core_result" where
  "load_config toml p fs =
     res_bind (core_fs (fs_read p fs)) (\<lambda>bs.
     res_bind (ok_or (CoreIo InvalidData) (string_from_utf8 bs)) (\<lambda>contents.
     res_bind (case toml contents of Inl e \<Rightarrow> Inl (ConfigError e) | Inr c \<Rightarrow> Inr c) (\<lambda>config.
     res_map (\<lambda>_. config) (config_validate config))))"

definition load_config_or_default :: "(string \<Rightarrow> string + AppConfig) \<Rightarrow> path \<Rightarrow> fs \<Rightarrow> AppConfig core_result" where
  "load_config_or_default toml p fs =
     (case load_config toml p fs of
        Inl (CoreIo NotFound) \<Rightarrow> Inr default_config
      | r \<Rightarrow> r)"

section \<open>Directories\<close>

record PlatformDirs =
  pf_config_dir :: "path option"
  pf_data_dir :: "path option"
  pf_download_dir :: "path option"

definition APP_DIR_NAME :: string where "APP_DIR_NAME = ''night-bridge''"

definition config_dir :: "PlatformDirs \<Rightarrow> path" where
  "config_dir P = (case pf_config_dir P of Some d \<Rightarrow> d | None \<Rightarrow> [''etc'', APP_DIR_NAME])"

definition state_dir :: "PlatformDirs \<Rightarrow> path" where
  "state_dir P = (case pf_data_dir P of Some d \<Rightarrow> d | None \<Rightarrow> [''var'', ''lib'', APP_DIR_NAME])"

definition default_inbox :: "PlatformDirs \<Rightarrow> path" where
  "default_inbox P =
     (case pf_download_dir P of
        Some downloads \<Rightarrow> downloads @ [APP_DIR_NAME]
      | None \<Rightarrow> (case pf_data_dir P of
          Some d \<Rightarrow> d @ [''inbox'']
        | None \<Rightarrow> [''var'', ''lib'', APP_DIR_NAME, ''inbox'']))"

definition identity_file :: "PlatformDirs \<Rightarrow> path" where "identity_file P = config_dir P @ [''identity.key'']"
definition api_token_file :: "PlatformDirs \<Rightarrow> path" where "api_token_file P = config_dir P @ [''api.token'']"
definition trust_db_file :: "PlatformDirs \<Rightarrow> path" where "trust_db_file P = state_dir P @ [''trust.db'']"

section \<open>Hook events\<close>

datatype HookEventType =
  DaemonStarted | TransferStarted | TransferProgress | TransferCompleted | TransferFailed | InboxChanged | PeerSeen

fun event_type_as_str :: "HookEventType \<Rightarrow> string" where
  "event_type_as_str DaemonStarted = ''daemon_started''"
| "event_type_as_str TransferStarted = ''transfer_started''"
| "event_type_as_str TransferProgress = ''transfer_progress''"
| "event_type_as_str TransferCompleted = ''transfer_completed''"
| "event_type_as_str TransferFailed = ''transfer_failed''"
| "event_type_as_str InboxChanged = ''inbox_changed''"
| "event_type_as_str PeerSeen = ''peer_seen''"

record 'v HookEvent =
  he_event_id :: string
  he_event_type :: HookEventType
  he_occurred_at_unix_seconds :: int
  he_payload :: 'v

section \<open>Settings of the daemon\<close>

datatype LocalSendReceivePolicy = PolicyPrompt | PolicyTrusted | PolicyAuto

definition config_path :: "PlatformDirs \<Rightarrow> path option \<Rightarrow> path" where
  "config_path P arg = (case arg of Some p \<Rightarrow> p | None \<Rightarrow> config_dir P @ [''config.toml''])"

definition load_daemon_config :: "(string \<Rightarrow> string + AppConfig) \<Rightarrow> path \<Rightarrow> string option \<Rightarrow> fs \<Rightarrow> AppConfig core_result" where
  "load_daemon_config toml p rendezvous_arg fs =
     res_bind (load_config_or_default toml p fs) (\<lambda>config.
       case rendezvous_arg of
         None \<Rightarrow> Inr config
       | Some url \<Rightarrow>
           let config = config\<lparr>ac_wan := (ac_wan config)\<lparr>wc_enabled := True, wc_rendezvous_url := Some url\<rparr>\<rparr>
           in res_map (\<lambda>_. config) (config_validate config))"

definition localsend_receive_policy :: "LocalSendReceivePolicy option \<Rightarrow> LocalSendConfig \<Rightarrow> string + LocalSendReceivePolicy" where
  "localsend_receive_policy args_policy config =
     (case args_policy of
        Some policy \<Rightarrow> Inr policy
      | None \<Rightarrow>
          if lsc_receive_policy config = ''prompt'' then Inr PolicyPrompt
          else if lsc_receive_policy config = ''trusted'' then Inr PolicyTrusted
          else if lsc_receive_policy config = ''auto'' then Inr PolicyAuto
          else Inl (''unsupported LocalSend receive policy '' @ str_debug (lsc_receive_policy config)))"

section \<open>Lemmas\<close>

lemma config_nonblank_Inr [simp]: "config_nonblank n v = Inr () \<longleftrightarrow> \<not> blank v"
  by (simp add: config_nonblank_def)

lemma all_nonblank_Inr [simp]: "all_nonblank n vs = Inr () \<longleftrightarrow> (\<forall>v \<in> set vs. \<not> blank v)"
  by (induction vs) (auto simp: res_iffs)

lemma opt_nonblank_Inr [simp]: "opt_nonblank n v = Inr () \<longleftrightarrow> (\<forall>x. v = Some x \<longrightarrow> \<not> blank x)"
  by (auto simp: opt_nonblank_def split: option.splits)

lemma hooks_validate_Inr: "hooks_validate hs = Inr () \<longleftrightarrow> (\<forall>h \<in> set hs. hook_validate h = Inr ())"
  by (induction hs) (auto simp: res_iffs)

lemma default_config_valid: "config_validate default_config = Inr ()"
proof -
  have "\<not> blank ''127.0.0.1''" "\<not> blank ''info''" by code_simp+
  then show ?thesis
    by (simp add: config_validate_def default_config_def metrics_validate_def default_metrics_def logging_validate_def
      default_logging_def wan_validate_def default_wan_def localsend_validate_def default_localsend_def opt_nonblank_def
      config_nonblank_def)
qed

lemma loaded_config_valid: "load_config_or_default toml p fs = Inr c \<Longrightarrow> config_validate c = Inr ()"
proof -
  assume l: "load_config_or_default toml p fs = Inr c"
  have "load_config toml p fs = Inr c \<Longrightarrow> config_validate c = Inr ()"
    by (auto simp: load_config_def res_iffs)
  then show ?thesis using l default_config_valid
    by (auto simp: load_config_or_default_def split: sum.splits CoreError.splits IoError.splits)
qed

lemma daemon_config_valid: "load_daemon_config toml p arg fs = Inr c \<Longrightarrow> config_validate c = Inr ()"
  using loaded_config_valid by (auto simp: load_daemon_config_def res_iffs Let_def split: option.splits)

section \<open>Properties\<close>

text \<open>C37. A configuration the daemon starts with is usable. Whatever the file and the command line, a
  configuration that loads names a rendezvous server when WAN is enabled, has a positive refresh
  interval, positive limits and nonblank targets for every hook, and a receive policy the daemon
  knows; a missing file gives the defaults, and any other read error is reported.\<close>

theorem loaded_config_usable:
  assumes "load_daemon_config toml p arg fs = Inr c"
  shows "(wc_enabled (ac_wan c) \<longrightarrow> (\<exists>url. wc_rendezvous_url (ac_wan c) = Some url \<and> \<not> blank url))
    \<and> 0 < wc_register_interval_seconds (ac_wan c)
    \<and> (\<forall>h \<in> set (ac_hooks c). case h of
          Webhook url secret n \<Rightarrow> \<not> blank url \<and> \<not> blank secret \<and> 0 < n
        | Exec command t \<Rightarrow> \<not> blank command \<and> 0 < t)
    \<and> is_ok (localsend_receive_policy args_policy (ac_localsend c))
    \<and> (fs_read p fs = Inl NotFound \<longrightarrow> arg = None \<longrightarrow> c = default_config)
    \<and> (\<forall>e. fs_read p fs = Inl e \<longrightarrow> e = NotFound)"
proof -
  have v: "config_validate c = Inr ()" using daemon_config_valid [OF assms] .
  then have w: "wan_validate (ac_wan c) = Inr ()" and ls: "localsend_validate (ac_localsend c) = Inr ()"
    and hk: "\<forall>h \<in> set (ac_hooks c). hook_validate h = Inr ()"
    by (auto simp: config_validate_def res_iffs hooks_validate_Inr)
  have "\<forall>h \<in> set (ac_hooks c). case h of Webhook url secret n \<Rightarrow> \<not> blank url \<and> \<not> blank secret \<and> 0 < n
      | Exec command t \<Rightarrow> \<not> blank command \<and> 0 < t"
    using hk by (force simp: res_iffs word_gt_0 split: HookConfig.splits if_splits)
  moreover have "is_ok (localsend_receive_policy args_policy (ac_localsend c))"
    using ls by (auto simp: localsend_validate_def localsend_receive_policy_def split: option.splits if_splits)
  moreover have "(wc_enabled (ac_wan c) \<longrightarrow> (\<exists>url. wc_rendezvous_url (ac_wan c) = Some url \<and> \<not> blank url))
    \<and> 0 < wc_register_interval_seconds (ac_wan c)"
    using w by (auto simp: wan_validate_def res_iffs word_gt_0 split: option.splits if_splits)
  moreover have "fs_read p fs = Inl e \<Longrightarrow> e = NotFound \<and> (arg = None \<longrightarrow> c = default_config)" for e
    using assms by (cases e) (auto simp: load_daemon_config_def load_config_or_default_def load_config_def core_fs_def)
  ultimately show ?thesis by blast
qed

theorem loaded_config_usable_witness:
  "\<exists>c. load_daemon_config (\<lambda>_. Inl ''bad'') [''config.toml''] (Some ''quic://192.0.2.1:53410'') demo_root = Inr c
     \<and> wc_rendezvous_url (ac_wan c) \<noteq> None \<and> 0 < wc_register_interval_seconds (ac_wan c)"
proof -
  have "is_ok (load_daemon_config (\<lambda>_. Inl ''bad'') [''config.toml''] (Some ''quic://192.0.2.1:53410'') demo_root)" by code_simp
  then obtain c where c: "load_daemon_config (\<lambda>_. Inl ''bad'') [''config.toml''] (Some ''quic://192.0.2.1:53410'') demo_root = Inr c"
    by (auto simp: is_ok_iff)
  then have "wc_enabled (ac_wan c)" by (auto simp: load_daemon_config_def res_iffs Let_def)
  then show ?thesis using loaded_config_usable [OF c, of None] c by auto
qed

end
