(* ===== verification/Daemon_Wan.thy ===== *)
theory Daemon_Wan
  imports Rendezvous_Service Core_Config Candidates
begin

text \<open>
  WAN registration of the daemon, \<open>daemon/src/wan.rs\<close>: candidates are gathered, converted to the
  rendezvous protocol and registered in a loop; a peer's candidates are looked up and converted back.
  Name resolution and the connection to the rendezvous server are parameters.
\<close>

section \<open>Conversions\<close>

fun kind_to_rendezvous :: "CandidateKind \<Rightarrow> RvCandidateKind" where
  "kind_to_rendezvous Local = RvLocal"
| "kind_to_rendezvous ServerReflexive = RvServerReflexive"

fun kind_from_rendezvous :: "RvCandidateKind \<Rightarrow> CandidateKind" where
  "kind_from_rendezvous RvLocal = Local"
| "kind_from_rendezvous RvServerReflexive = ServerReflexive"

definition candidate_to_rendezvous :: "NativeCandidate \<Rightarrow> Candidate" where
  "candidate_to_rendezvous c = \<lparr>ca_kind = kind_to_rendezvous (nc_kind c), ca_address = show_socket_addr (nc_address c),
     ca_priority = nc_priority c\<rparr>"

definition candidate_from_rendezvous :: "Candidate \<Rightarrow> string + NativeCandidate" where
  "candidate_from_rendezvous c =
     res_map (\<lambda>address. \<lparr>nc_kind = kind_from_rendezvous (ca_kind c), nc_address = address, nc_priority = ca_priority c\<rparr>)
       (ok_or (''invalid rendezvous candidate address '' @ ca_address c) (parse_socket_addr (ca_address c)))"

definition build_register_request :: "string \<Rightarrow> bytes \<Rightarrow> NativeCandidate list \<Rightarrow> u64 \<Rightarrow> RegisterRequest" where
  "build_register_request alias pubkey candidates ttl_seconds =
     \<lparr>rr_alias = alias, rr_pubkey = pubkey, rr_candidates = map candidate_to_rendezvous candidates,
      rr_ttl_seconds = ttl_seconds\<rparr>"

definition registration_ttl_seconds :: "u64 \<Rightarrow> u64" where
  "registration_ttl_seconds register_interval_seconds = max (saturating_mul register_interval_seconds 3) 1"

section \<open>The registration loop\<close>

fun resolve_stun_servers :: "(string \<Rightarrow> string + SocketAddr list) \<Rightarrow> string list \<Rightarrow> string + SocketAddr list" where
  "resolve_stun_servers lookup_host [] = Inr []"
| "resolve_stun_servers lookup_host (server # servers) =
     res_bind (with_context (''failed to resolve STUN server '' @ server) (lookup_host server)) (\<lambda>addrs.
       if addrs = [] then Inl (''STUN server resolved no addresses: '' @ server)
       else res_map (\<lambda>rest. addrs @ rest) (resolve_stun_servers lookup_host servers))"

record WanLoop =
  wl_rendezvous_url :: string
  wl_stun_servers :: "SocketAddr list"
  wl_register_interval :: nat
  wl_ttl_seconds :: u64

definition start_wan_runtime :: "(string \<Rightarrow> string + SocketAddr list) \<Rightarrow> WanConfig \<Rightarrow> string + WanLoop option" where
  "start_wan_runtime lookup_host wan =
     (if \<not> wc_enabled wan then Inr None
      else
        res_bind (ok_or ''rendezvous_url is required when WAN is enabled'' (wc_rendezvous_url wan)) (\<lambda>rendezvous_url.
        res_map (\<lambda>stun_servers. Some \<lparr>wl_rendezvous_url = rendezvous_url, wl_stun_servers = stun_servers,
            wl_register_interval = unat (wc_register_interval_seconds wan) * nanos,
            wl_ttl_seconds = registration_ttl_seconds (wc_register_interval_seconds wan)\<rparr>)
          (resolve_stun_servers lookup_host (wc_stun_servers wan))))"

text \<open>A turn of the loop: the shutdown flag at its top, the candidates gathered, what the rendezvous
  server answers, and whether the wait ended in a shutdown. The loop returns its result and the
  requests it made.\<close>

record RegisterTurn =
  rn_shutdown :: bool
  rn_candidates :: "NativeCandidate list native_result"
  rn_response :: "string + RegisteredResponse"
  rn_stopped :: bool

fun run_register_loop :: "string \<Rightarrow> bytes \<Rightarrow> u64 \<Rightarrow> RegisterTurn list \<Rightarrow> (string + unit) \<times> RegisterRequest list" where
  "run_register_loop alias pubkey ttl_seconds [] = (Inr (), [])"
| "run_register_loop alias pubkey ttl_seconds (turn # turns) =
     (if rn_shutdown turn then (Inr (), [])
      else case rn_candidates turn of
        Inl error \<Rightarrow> (Inl (native_display error), [])
      | Inr candidates \<Rightarrow>
          let request = build_register_request alias pubkey candidates ttl_seconds in
          if rn_stopped turn then (Inr (), [request])
          else let (result, requests) = run_register_loop alias pubkey ttl_seconds turns in (result, request # requests))"

section \<open>Lookups\<close>

definition connect_client :: "(SocketAddr \<Rightarrow> string + unit) \<Rightarrow> WanConfig \<Rightarrow> string + unit" where
  "connect_client dial config =
     res_bind (ok_or ''rendezvous_url is required for WAN lookup'' (wc_rendezvous_url config)) (\<lambda>url.
     res_bind (parse_rendezvous_url url) dial)"

definition lookup_peer_candidates :: "RvJson \<Rightarrow> (SocketAddr \<Rightarrow> string + unit) \<Rightarrow> (bytes \<Rightarrow> 's \<Rightarrow> (string + bytes) \<times> 's)
    \<Rightarrow> (ServerMessage \<Rightarrow> string) \<Rightarrow> WanConfig \<Rightarrow> bytes \<Rightarrow> bytes \<Rightarrow> ('s, string, NativeCandidate list) sr" where
  "lookup_peer_candidates J dial exchange debug config own_pubkey target_pubkey =
     sr_bind (sr_gets (\<lambda>_. connect_client dial config)) (\<lambda>_.
     sr_bind (client_lookup J exchange debug \<lparr>lr_requester_pubkey = own_pubkey, lr_target_pubkey = target_pubkey\<rparr>) (\<lambda>response.
     sr_gets (\<lambda>_. res_bind (ok_or ''WAN peer is not registered with rendezvous'' response) (\<lambda>peer.
       res_mapM candidate_from_rendezvous (lup_candidates peer)))))"

definition notify_peer :: "RvJson \<Rightarrow> (SocketAddr \<Rightarrow> string + unit) \<Rightarrow> (bytes \<Rightarrow> 's \<Rightarrow> (string + bytes) \<times> 's)
    \<Rightarrow> (ServerMessage \<Rightarrow> string) \<Rightarrow> WanConfig \<Rightarrow> bytes \<Rightarrow> bytes \<Rightarrow> ('s, string, unit) sr" where
  "notify_peer J dial exchange debug config own_pubkey target_pubkey =
     sr_bind (sr_gets (\<lambda>_. connect_client dial config)) (\<lambda>_.
     sr_bind (client_notify J exchange debug \<lparr>nr_requester_pubkey = own_pubkey, nr_target_pubkey = target_pubkey\<rparr>) (\<lambda>_.
     sr_return ()))"

section \<open>Lemmas\<close>

definition is_v4 :: "SocketAddr \<Rightarrow> bool" where
  "is_v4 a \<longleftrightarrow> (\<exists>x y z w p. a = SockV4 x y z w p)"

lemma kind_round_trip [simp]: "kind_from_rendezvous (kind_to_rendezvous k) = k"
  by (cases k) simp_all

lemma parse_show_is_v4: "is_v4 a \<Longrightarrow> parse_socket_addr (show_socket_addr a) = Some a"
  using parse_show_v4 by (auto simp: is_v4_def simp del: show_socket_addr.simps)

lemma candidate_round_trip: "is_v4 (nc_address c) \<Longrightarrow> candidate_from_rendezvous (candidate_to_rendezvous c) = Inr c"
  by (simp add: candidate_from_rendezvous_def candidate_to_rendezvous_def parse_show_is_v4)

lemma candidates_round_trip:
  "\<forall>c \<in> set cs. is_v4 (nc_address c) \<Longrightarrow> res_mapM candidate_from_rendezvous (map candidate_to_rendezvous cs) = Inr cs"
  by (induction cs) (auto simp: candidate_round_trip)

lemma candidates_validate_v4:
  "\<forall>c \<in> set cs. is_v4 (nc_address c) \<Longrightarrow>
    candidates_validate (map candidate_to_rendezvous cs) = Inr () \<longleftrightarrow> (\<forall>c \<in> set cs. sock_port (nc_address c) \<noteq> 0)"
  by (induction cs) (auto simp: candidate_validate_def candidate_to_rendezvous_def parse_show_is_v4 res_iffs)

text \<open>Registrations of one key after the last one: none.\<close>

definition registers :: "bytes \<Rightarrow> RegistryEvent \<Rightarrow> bool" where
  "registers k e = (case e of Handled _ (Register req) \<Rightarrow> rr_pubkey req = k | _ \<Rightarrow> False)"

lemma leases_keep: "\<forall>e \<in> set es. \<not> registers k e \<Longrightarrow> fold lease_update es M k = M k"
proof (induction es arbitrary: M)
  case (Cons e es)
  have "lease_update e M k = M k" using Cons.prems by (cases e; cases "case e of Handled _ m \<Rightarrow> m | _ \<Rightarrow> Ping") (auto simp: registers_def)
  then show ?case using Cons by simp
qed simp

lemma leases_last:
  assumes "register_validate req = Inr ()" "\<forall>e \<in> set later. \<not> registers (rr_pubkey req) e"
  shows "leases (earlier @ Handled t (Register req) # later) (rr_pubkey req) = Some (t, req)"
  using leases_keep [OF assms(2)] assms(1) by (simp add: leases_def)

lemma unat_saturating_mul: "unat (saturating_mul x y) = min (unat x * unat y) (2 ^ LENGTH('a) - 1)" for x y :: "'a::len word"
proof (cases "unat x * unat y < 2 ^ LENGTH('a)")
  case True
  then have "unat x * unat y \<le> 2 ^ LENGTH('a) - 1" by linarith
  then show ?thesis using True by (simp add: saturating_mul_def unat_word_ariths min_absorb1)
next
  case False
  then show ?thesis by (simp add: saturating_mul_def unsigned_minus_1_eq_mask mask_eq_exp_minus_1 min_absorb2)
qed

lemma lookup_over_wire:
  assumes "sorted (map event_time events)" "\<forall>e \<in> set events. event_time e \<le> now"
    and "answer = lease_answer max_ttl (leases events) now (lr_target_pubkey q)"
    and "client_json_ok J (Lookup q)" "write_client_message J (Lookup q) = Inr sent"
    and "server_json_ok J (LookupResult answer)" "write_server_message J (LookupResult answer) = Inr received"
  shows "fst (client_lookup J (\<lambda>bs r. let (out, r') = handle_stream J now bs r in (Inr out, r')) debug q (server_run max_ttl events))
    = Inr answer"
proof -
  have "read_client_message J sent = Inr (Lookup q, [])" "read_server_message J received = Inr (LookupResult answer, [])"
    using rv_client.dec_enc [OF assms(4,5), of "[]"] rv_server.dec_enc [OF assms(6,7), of "[]"] by simp_all
  then show ?thesis
    using lookup_after_run [OF assms(1,2), of q max_ttl] assms(3,5,7)
    by (simp add: client_lookup_def client_request_def handle_stream_def sr_bind_def)
qed

section \<open>Properties\<close>

text \<open>C25. WAN registration and lookup fit together. When the last registration of a key is the one the
  daemon builds from its gathered candidates and its refresh interval, a peer that looks the key up
  within three intervals (or the server's cap) gets exactly the daemon's candidates back, kinds,
  addresses and priorities; a registration with a candidate whose port is zero, as a STUN server may
  report, would be refused as a whole.\<close>

theorem wan_lookup_returns_registered_candidates:
  fixes name key cs interval
  defines "req \<equiv> build_register_request name key cs (registration_ttl_seconds interval)"
    and "answer \<equiv> \<lambda>now t. Some \<lparr>lup_alias = name, lup_pubkey = key, lup_candidates = map candidate_to_rendezvous cs,
            lup_last_seen_unix_seconds = as_secs (now - t)\<rparr>"
  assumes "events = earlier @ Handled t (Register req) # later" "\<forall>e \<in> set later. \<not> registers key e"
    and "sorted (map event_time events)" "\<forall>e \<in> set events. event_time e \<le> now"
    and "\<not> blank name" "cs \<noteq> []" "\<forall>c \<in> set cs. is_v4 (nc_address c)"
    and "interval \<noteq> 0" "unat interval * 3 < 2 ^ 64" "now < t + min (3 * unat interval * nanos) max_ttl"
    and "wc_rendezvous_url config = Some url" "parse_rendezvous_url url = Inr addr" "dial addr = Inr ()"
    and "client_json_ok J (Lookup q)" "write_client_message J (Lookup q) = Inr sent"
    and "server_json_ok J (LookupResult (answer now t))" "write_server_message J (LookupResult (answer now t)) = Inr received"
    and "q = \<lparr>lr_requester_pubkey = own, lr_target_pubkey = key\<rparr>"
  shows "if \<forall>c \<in> set cs. sock_port (nc_address c) \<noteq> 0
    then fst (lookup_peer_candidates J dial (\<lambda>bs r. let (out, r') = handle_stream J now bs r in (Inr out, r')) debug
        config own key (server_run max_ttl events)) = Inr cs
    else register_validate req = Inl InvalidCandidatePort"
proof (cases "\<forall>c \<in> set cs. sock_port (nc_address c) \<noteq> 0")
  case True
  have ttl: "unat (registration_ttl_seconds interval) = 3 * unat interval"
    using assms(10,11) unat_gt_0 [of interval]
    by (simp add: registration_ttl_seconds_def unat_max unat_saturating_mul)
  then have nz: "registration_ttl_seconds interval \<noteq> 0" using assms(10) by (metis mult_is_0 unat_eq_zero zero_neq_numeral)
  have v: "register_validate req = Inr ()"
    using True assms(7-9) nz candidates_validate_v4 [OF assms(9)]
    by (simp add: register_validate_def req_def build_register_request_def rv_require_nonblank_def)
  have "leases events key = Some (t, req)"
    using leases_last [OF v, of later earlier t] assms(3,4) by (simp add: req_def build_register_request_def)
  then have "lease_answer max_ttl (leases events) now (lr_target_pubkey q) = answer now t"
    using assms(12,20) ttl by (simp add: lease_answer_def lease_end_def answer_def req_def build_register_request_def)
  from lookup_over_wire [OF assms(5,6) this [symmetric] assms(16-19), of debug] show ?thesis
    using True assms(13-15) candidates_round_trip [OF assms(9)]
    by (auto simp: lookup_peer_candidates_def connect_client_def sr_bind_def answer_def assms(20) split: prod.splits sum.splits)
next
  case False
  have "\<exists>e. candidates_validate (map candidate_to_rendezvous cs) = Inl e" using False candidates_validate_v4 [OF assms(9)]
    by (metis old.unit.exhaust sum.exhaust)
  moreover have "candidates_validate (map candidate_to_rendezvous ds) = Inl e \<Longrightarrow> \<forall>c \<in> set ds. is_v4 (nc_address c) \<Longrightarrow> e = InvalidCandidatePort" for ds e
    by (induction ds) (auto simp: candidate_validate_def candidate_to_rendezvous_def parse_show_is_v4 res_iffs split: if_splits)
  ultimately have "candidates_validate (map candidate_to_rendezvous cs) = Inl InvalidCandidatePort" using assms(9) by blast
  moreover have "registration_ttl_seconds interval \<noteq> 0"
  proof
    assume "registration_ttl_seconds interval = 0"
    then have "(1 :: u64) \<le> 0" unfolding registration_ttl_seconds_def by (metis max.cobounded2)
    then show False by simp
  qed
  ultimately have "register_validate req = Inl InvalidCandidatePort"
    using assms(7,8) by (simp add: register_validate_def req_def build_register_request_def rv_require_nonblank_def)
  then show ?thesis unfolding if_not_P [OF False] .
qed

definition demo_wan_request :: RegisterRequest where
  "demo_wan_request = build_register_request ''desk'' [1] [demo_candidate 10 100] (registration_ttl_seconds 20)"

definition demo_wan_query :: LookupRequest where
  "demo_wan_query = \<lparr>lr_requester_pubkey = [2], lr_target_pubkey = [1]\<rparr>"

definition demo_wan_json :: RvJson where
  "demo_wan_json = \<lparr>rj_client_to_vec = (\<lambda>_. Inr [0]), rj_client_from_slice = (\<lambda>_. Inr (Lookup demo_wan_query)),
     rj_server_to_vec = (\<lambda>_. Inr [1]), rj_server_from_slice = (\<lambda>_. Inr (LookupResult (Some
       \<lparr>lup_alias = ''desk'', lup_pubkey = [1], lup_candidates = map candidate_to_rendezvous [demo_candidate 10 100],
        lup_last_seen_unix_seconds = as_secs (5000000000 - 3000000000)\<rparr>)))\<rparr>"

definition demo_wan_config :: WanConfig where
  "demo_wan_config = default_wan\<lparr>wc_rendezvous_url := Some (''quic://'' @ show_socket_addr (SockV4 192 0 2 1 9))\<rparr>"

theorem wan_lookup_returns_registered_candidates_witness:
  "fst (lookup_peer_candidates demo_wan_json (\<lambda>_. Inr ())
      (\<lambda>bs r. let (out, r') = handle_stream demo_wan_json 5000000000 bs r in (Inr out, r')) (\<lambda>_. []) demo_wan_config [2] [1]
      (server_run 300000000000 [Handled 3000000000 (Register demo_wan_request), PruneTick 4000000000]))
   = Inr [demo_candidate 10 100]"
proof -
  have b: "\<not> blank ''desk''" by code_simp
  have u: "parse_rendezvous_url (''quic://'' @ show_socket_addr (SockV4 192 0 2 1 9)) = Inr (SockV4 192 0 2 1 9)"
    using parse_show_v4 [of 192 0 2 1 9] by (simp add: parse_rendezvous_url_def del: show_socket_addr.simps append.simps)
  have w: "write_client_message demo_wan_json m = Inr (u32_to_be 1 @ [0])" "write_server_message demo_wan_json n = Inr (u32_to_be 1 @ [1])"
    for m n by (simp_all add: demo_wan_json_def write_client_message_def write_server_message_def write_frame_def MAX_FRAME_BYTES_def)
  have v4: "is_v4 (nc_address (demo_candidate 10 100))" "sock_port (nc_address (demo_candidate 10 100)) \<noteq> 0"
    by (auto simp: is_v4_def demo_candidate_def)
  have j: "client_json_ok demo_wan_json (Lookup demo_wan_query)"
    "server_json_ok demo_wan_json (LookupResult (Some \<lparr>lup_alias = ''desk'', lup_pubkey = [1],
       lup_candidates = map candidate_to_rendezvous [demo_candidate 10 100], lup_last_seen_unix_seconds = as_secs (5000000000 - 3000000000)\<rparr>))"
    by (simp_all add: client_json_ok_def server_json_ok_def demo_wan_json_def)
  have url: "wc_rendezvous_url demo_wan_config = Some (''quic://'' @ show_socket_addr (SockV4 192 0 2 1 9))"
    by (simp add: demo_wan_config_def del: show_socket_addr.simps append.simps)
  have ev: "[Handled 3000000000 (Register demo_wan_request), PruneTick 4000000000] =
      [] @ Handled 3000000000 (Register (build_register_request ''desk'' [1] [demo_candidate 10 100] (registration_ttl_seconds 20)))
        # [PruneTick 4000000000]"
    by (simp add: demo_wan_request_def)
  have rest: "\<forall>e \<in> set [PruneTick 4000000000]. \<not> registers [1] e"
    "sorted (map event_time [Handled 3000000000 (Register demo_wan_request), PruneTick 4000000000])"
    "\<forall>e \<in> set [Handled 3000000000 (Register demo_wan_request), PruneTick 4000000000]. event_time e \<le> 5000000000"
    "[demo_candidate 10 100] \<noteq> []" "\<forall>c \<in> set [demo_candidate 10 100]. is_v4 (nc_address c)"
    "(20 :: u64) \<noteq> 0" "unat (20 :: u64) * 3 < 2 ^ 64" "5000000000 < 3000000000 + min (3 * unat (20 :: u64) * nanos) 300000000000"
    using v4(1) by (simp_all add: registers_def nanos_def)
  have ports: "\<forall>c \<in> set [demo_candidate 10 100]. sock_port (nc_address c) \<noteq> 0" using v4(2) by simp
  show ?thesis
    using wan_lookup_returns_registered_candidates [OF ev rest(1-3) b rest(4-8) url u _ j(1) w(1) j(2) w(2) demo_wan_query_def,
        where dial = "\<lambda>_. Inr ()" and debug = "\<lambda>_. []", OF refl]
    unfolding if_P [OF ports] .
qed

end
