(* ===== verification/LocalSend_Session.thy ===== *)
theory LocalSend_Session
  imports Rendezvous_Registry Tls_Vault Trust_Store
begin

text \<open>
  LocalSend v2, \<open>protocol-localsend-v2/src\<close>: the error type, the messages (\<open>dto.rs\<close>), the TLS identity
  (\<open>tls.rs\<close>), the pinning verifier (\<open>verifier.rs\<close>) and the upload sessions (\<open>session.rs\<close>). A \<open>BTreeMap\<close>
  is an association list in ascending order of its keys. Random UUIDs are a supply \<open>U\<close> indexed by how
  many have been drawn. The session lock is never poisoned, since no holder of it can panic.
\<close>

section \<open>Errors and messages\<close>

datatype LocalSendError = LsIo IoError | LsJson string | LsHttp string | LsSession string | LsCrypto string

type_synonym 'a ls_result = "LocalSendError + 'a"

record DeviceInfo =
  di_alias :: string
  di_version :: string
  di_device_model :: "string option"
  di_device_type :: "string option"
  di_fingerprint :: string
  di_port :: u16
  di_protocol :: string
  di_download :: bool

text \<open>The free-form metadata of a file is carried and never looked at; its JSON values are \<open>'j\<close>.\<close>

record 'j FileMeta =
  fm_id :: string
  fm_file_name :: string
  fm_size :: u64
  fm_file_type :: "string option"
  fm_sha256 :: "string option"
  fm_preview :: "string option"
  fm_metadata :: "(string \<times> 'j) list option"

record 'j PrepareUploadRequest =
  pu_info :: DeviceInfo
  pu_files :: "(string \<times> 'j FileMeta) list"

record PrepareUploadResponse =
  pr_session_id :: string
  pr_files :: "(string \<times> string) list"

section \<open>TLS identity and pinning\<close>

definition CERT_FILE :: string where "CERT_FILE = ''localsend-v2.cert.der''"
definition KEY_FILE :: string where "KEY_FILE = ''localsend-v2.key.der''"

definition ls_tls_load :: "path \<Rightarrow> fs \<Rightarrow> TlsIdentity option ls_result" where
  "ls_tls_load config_dir =
     tls_load LsIo (LsCrypto ''incomplete LocalSend v2 TLS identity on disk'') (config_dir @ [CERT_FILE]) (config_dir @ [KEY_FILE])"

definition ls_tls_save :: "path \<Rightarrow> TlsIdentity \<Rightarrow> (fs, LocalSendError, unit) sr" where
  "ls_tls_save config_dir = tls_save LsIo config_dir (config_dir @ [CERT_FILE]) (config_dir @ [KEY_FILE])"

definition ls_tls_load_or_generate :: "path \<Rightarrow> TlsIdentity ls_result \<Rightarrow> (fs, LocalSendError, TlsIdentity) sr" where
  "ls_tls_load_or_generate config_dir generated = load_or_generate (ls_tls_load config_dir) (ls_tls_save config_dir) generated"

definition ls_fingerprint_sha256_hex :: "(bytes \<Rightarrow> bytes) \<Rightarrow> TlsIdentity \<Rightarrow> string" where
  "ls_fingerprint_sha256_hex sha256 i = concat (map hex_byte (sha256 (cert_der i)))"

definition pin_normalize_fingerprint :: "(string \<Rightarrow> string) \<Rightarrow> string \<Rightarrow> string" where
  "pin_normalize_fingerprint lc fingerprint =
     concat (map (char_to_lowercase lc) (filter (\<lambda>ch. ch \<noteq> '':'' \<and> ch \<noteq> ''-'') (utf8_chars fingerprint)))"

definition check_fingerprint :: "(bytes \<Rightarrow> bytes) \<Rightarrow> string \<Rightarrow> bytes \<Rightarrow> string + unit" where
  "check_fingerprint sha256 expected cert =
     (let actual = concat (map hex_byte (sha256 cert)) in
      if actual = expected then Inr ()
      else Inl (''LocalSend peer certificate fingerprint mismatch: expected '' @ expected @ '', got '' @ actual))"

definition pinned_verify :: "(string \<Rightarrow> string) \<Rightarrow> (bytes \<Rightarrow> bytes) \<Rightarrow> string \<Rightarrow> bytes \<Rightarrow> string + unit" where
  "pinned_verify lc sha256 expected cert = check_fingerprint sha256 (pin_normalize_fingerprint lc expected) cert"

section \<open>Ordered maps\<close>

fun bt_insert :: "'k::linorder \<Rightarrow> 'v \<Rightarrow> ('k \<times> 'v) list \<Rightarrow> ('k \<times> 'v) list" where
  "bt_insert k v [] = [(k, v)]"
| "bt_insert k v ((a, b) # xs) =
     (if k < a then (k, v) # (a, b) # xs else if k = a then (k, v) # xs else (a, b) # bt_insert k v xs)"

definition bt_ok :: "('k::linorder \<times> 'v) list \<Rightarrow> bool" where
  "bt_ok xs \<longleftrightarrow> sorted (map fst xs) \<and> distinct (map fst xs)"

lemma map_of_bt_insert [simp]: "map_of (bt_insert k v xs) = (map_of xs)(k \<mapsto> v)"
  by (induction k v xs rule: bt_insert.induct) auto

lemma set_bt_insert: "fst ` set (bt_insert k v xs) = insert k (fst ` set xs)"
  by (induction k v xs rule: bt_insert.induct) auto

lemma bt_insert_ok [simp]: "bt_ok xs \<Longrightarrow> bt_ok (bt_insert k v xs)"
proof (induction k v xs rule: bt_insert.induct)
  case (2 k v a b xs)
  then show ?case using set_bt_insert [of k v xs] by (fastforce simp: bt_ok_def)
qed (simp add: bt_ok_def)

lemma bt_ok_Nil [simp]: "bt_ok []"
  by (simp add: bt_ok_def)

section \<open>Sessions\<close>

record 'j SessionFile =
  sf_token :: string
  sf_meta :: "'j FileMeta"
  sf_uploaded :: bool

record 'j Session =
  ss_expires_at :: nat
  ss_files :: "(string \<times> 'j SessionFile) list"

record 'j SessionManager =
  sm_ttl :: nat
  sm_sessions :: "(string \<times> 'j Session) list"

record PreparedSession =
  ps_session_id :: string
  ps_files :: "(string \<times> string) list"

record 'j AuthorizedUpload =
  au_session_id :: string
  au_file_id :: string
  au_token :: string
  au_meta :: "'j FileMeta"

definition session_manager_new :: "nat \<Rightarrow> 'j SessionManager" where
  "session_manager_new ttl = \<lparr>sm_ttl = ttl, sm_sessions = []\<rparr>"

definition session_error :: "string \<Rightarrow> LocalSendError" where
  "session_error message = LsSession message"

fun validate_file_ids_loop :: "string set \<Rightarrow> (string \<times> 'j FileMeta) list \<Rightarrow> unit ls_result" where
  "validate_file_ids_loop seen [] = Inr ()"
| "validate_file_ids_loop seen ((file_id, meta) # files) =
     (if file_id \<noteq> fm_id meta then Inl (session_error ''file id does not match map key'')
      else if fm_id meta \<in> seen then Inl (session_error ''duplicate file id'')
      else validate_file_ids_loop (insert (fm_id meta) seen) files)"

definition validate_file_ids :: "'j PrepareUploadRequest \<Rightarrow> unit ls_result" where
  "validate_file_ids request = validate_file_ids_loop {} (pu_files request)"

text \<open>One fresh token per file, drawn in the order of the map; the index of the next UUID is threaded.\<close>

fun prepare_files :: "(nat \<Rightarrow> string) \<Rightarrow> nat \<Rightarrow> (string \<times> 'j FileMeta) list
    \<Rightarrow> (string \<times> string) list \<times> (string \<times> 'j SessionFile) list \<Rightarrow> (string \<times> string) list \<times> (string \<times> 'j SessionFile) list" where
  "prepare_files U n [] acc = acc"
| "prepare_files U n ((file_id, meta) # files) (prepared, session) =
     prepare_files U (Suc n) files
       (bt_insert file_id (U n) prepared,
        bt_insert file_id \<lparr>sf_token = U n, sf_meta = meta, sf_uploaded = False\<rparr> session)"

definition session_prepare :: "(nat \<Rightarrow> string) \<Rightarrow> nat \<Rightarrow> 'j PrepareUploadRequest \<Rightarrow> nat \<Rightarrow> 'j SessionManager
    \<Rightarrow> PreparedSession ls_result \<times> nat \<times> 'j SessionManager" where
  "session_prepare U now request n m =
     (case validate_file_ids request of
        Inl e \<Rightarrow> (Inl e, n, m)
      | Inr _ \<Rightarrow>
          let session_id = U n;
              (prepared_files, session_files) = prepare_files U (Suc n) (pu_files request) ([], []);
              session = \<lparr>ss_expires_at = now + sm_ttl m, ss_files = session_files\<rparr>
          in (Inr \<lparr>ps_session_id = session_id, ps_files = prepared_files\<rparr>, Suc n + length (pu_files request),
              m\<lparr>sm_sessions := bt_insert session_id session (sm_sessions m)\<rparr>))"

definition prune_expired_locked :: "nat \<Rightarrow> 'j SessionManager \<Rightarrow> nat \<times> 'j SessionManager" where
  "prune_expired_locked now m =
     (let sessions = table_retain ss_expires_at now (sm_sessions m)
      in (length (sm_sessions m) - length sessions, m\<lparr>sm_sessions := sessions\<rparr>))"

definition authorize_upload :: "nat \<Rightarrow> string \<Rightarrow> string \<Rightarrow> string \<Rightarrow> 'j SessionManager
    \<Rightarrow> 'j AuthorizedUpload ls_result \<times> 'j SessionManager" where
  "authorize_upload now session_id file_id token m =
     (let m = snd (prune_expired_locked now m) in
      (res_bind (ok_or (session_error ''unknown session'') (map_of (sm_sessions m) session_id)) (\<lambda>session.
       res_bind (ok_or (session_error ''unknown file'') (map_of (ss_files session) file_id)) (\<lambda>file.
         if sf_uploaded file then Inl (session_error ''file already uploaded'')
         else if sf_token file \<noteq> token then Inl (session_error ''invalid upload token'')
         else Inr \<lparr>au_session_id = session_id, au_file_id = file_id, au_token = token, au_meta = sf_meta file\<rparr>)), m))"

definition mark_uploaded :: "nat \<Rightarrow> string \<Rightarrow> string \<Rightarrow> 'j SessionManager \<Rightarrow> unit ls_result \<times> 'j SessionManager" where
  "mark_uploaded now session_id file_id m =
     (let m = snd (prune_expired_locked now m) in
      case map_of (sm_sessions m) session_id of
        None \<Rightarrow> (Inl (session_error ''unknown session''), m)
      | Some session \<Rightarrow> (case map_of (ss_files session) file_id of
          None \<Rightarrow> (Inl (session_error ''unknown file''), m)
        | Some file \<Rightarrow> (Inr (), m\<lparr>sm_sessions := AList.update session_id
            (session\<lparr>ss_files := AList.update file_id (file\<lparr>sf_uploaded := True\<rparr>) (ss_files session)\<rparr>) (sm_sessions m)\<rparr>)))"

definition session_cancel :: "nat \<Rightarrow> string \<Rightarrow> 'j SessionManager \<Rightarrow> bool ls_result \<times> 'j SessionManager" where
  "session_cancel now session_id m =
     (let m = snd (prune_expired_locked now m) in
      (Inr (map_of (sm_sessions m) session_id \<noteq> None), m\<lparr>sm_sessions := AList.delete session_id (sm_sessions m)\<rparr>))"

definition session_id_for_file :: "nat \<Rightarrow> string \<Rightarrow> 'j SessionManager \<Rightarrow> string option ls_result \<times> 'j SessionManager" where
  "session_id_for_file now file_id m =
     (let m = snd (prune_expired_locked now m) in
      (Inr (map_option fst (find (\<lambda>(_, session). map_of (ss_files session) file_id \<noteq> None) (sm_sessions m))), m))"

definition cancel_all :: "'j SessionManager \<Rightarrow> nat ls_result \<times> 'j SessionManager" where
  "cancel_all m = (Inr (length (sm_sessions m)), m\<lparr>sm_sessions := []\<rparr>)"

section \<open>Open upload slots\<close>

text \<open>What the manager promises, without sessions, expiry of tables or flags: a slot per session and
  file, with its deadline, token and metadata, open from the prepare request until the upload is
  marked, the session cancelled or the deadline reached.\<close>

type_synonym 'j slots = "string \<times> string \<rightharpoonup> nat \<times> string \<times> 'j FileMeta"

datatype 'j SessionEvent =
    EvPrepare nat "'j PrepareUploadRequest"
  | EvAuthorize nat string string string
  | EvMark nat string string
  | EvCancel nat string
  | EvFind nat string
  | EvCancelAll nat
  | EvPrune nat

fun session_event_time :: "'j SessionEvent \<Rightarrow> nat" where
  "session_event_time (EvPrepare t _) = t"
| "session_event_time (EvAuthorize t _ _ _) = t"
| "session_event_time (EvMark t _ _) = t"
| "session_event_time (EvCancel t _) = t"
| "session_event_time (EvFind t _) = t"
| "session_event_time (EvCancelAll t) = t"
| "session_event_time (EvPrune t) = t"

fun session_step :: "(nat \<Rightarrow> string) \<Rightarrow> 'j SessionEvent \<Rightarrow> nat \<times> 'j SessionManager \<Rightarrow> nat \<times> 'j SessionManager" where
  "session_step U (EvPrepare t req) (n, m) = snd (session_prepare U t req n m)"
| "session_step U (EvAuthorize t sid fid tok) (n, m) = (n, snd (authorize_upload t sid fid tok m))"
| "session_step U (EvMark t sid fid) (n, m) = (n, snd (mark_uploaded t sid fid m))"
| "session_step U (EvCancel t sid) (n, m) = (n, snd (session_cancel t sid m))"
| "session_step U (EvFind t fid) (n, m) = (n, snd (session_id_for_file t fid m))"
| "session_step U (EvCancelAll t) (n, m) = (n, snd (cancel_all m))"
| "session_step U (EvPrune t) (n, m) = (n, snd (prune_expired_locked t m))"

definition session_run :: "(nat \<Rightarrow> string) \<Rightarrow> nat \<Rightarrow> 'j SessionEvent list \<Rightarrow> nat \<times> 'j SessionManager" where
  "session_run U ttl events = fold (session_step U) events (0, session_manager_new ttl)"

fun fresh_tokens :: "(nat \<Rightarrow> string) \<Rightarrow> nat \<Rightarrow> (string \<times> 'j FileMeta) list \<Rightarrow> (string \<times> string \<times> 'j FileMeta) list" where
  "fresh_tokens U n [] = []"
| "fresh_tokens U n ((file_id, meta) # files) = (file_id, U n, meta) # fresh_tokens U (Suc n) files"

fun slots_step :: "(nat \<Rightarrow> string) \<Rightarrow> nat \<Rightarrow> 'j SessionEvent \<Rightarrow> nat \<times> 'j slots \<Rightarrow> nat \<times> 'j slots" where
  "slots_step U ttl (EvPrepare t req) (n, M) =
     (if validate_file_ids req = Inr ()
      then (Suc n + length (pu_files req),
            \<lambda>(sid, fid). if sid = U n then map_option (Pair (t + ttl)) (map_of (fresh_tokens U (Suc n) (pu_files req)) fid)
              else M (sid, fid))
      else (n, M))"
| "slots_step U ttl (EvMark t sid fid) (n, M) = (n, M((sid, fid) := None))"
| "slots_step U ttl (EvCancel t sid) (n, M) = (n, \<lambda>(s, f). if s = sid then None else M (s, f))"
| "slots_step U ttl (EvCancelAll t) (n, M) = (n, Map.empty)"
| "slots_step U ttl _ (n, M) = (n, M)"

definition open_slots :: "(nat \<Rightarrow> string) \<Rightarrow> nat \<Rightarrow> 'j SessionEvent list \<Rightarrow> 'j slots" where
  "open_slots U ttl events = snd (fold (slots_step U ttl) events (0, Map.empty))"

section \<open>The manager implements the slots\<close>

definition slot :: "'j SessionManager \<Rightarrow> 'j slots" where
  "slot m = (\<lambda>(sid, fid). Option.bind (map_of (sm_sessions m) sid) (\<lambda>s. Option.bind (map_of (ss_files s) fid) (\<lambda>f.
     if sf_uploaded f then None else Some (ss_expires_at s, sf_token f, sf_meta f))))"

definition sessions_ok :: "nat \<Rightarrow> 'j SessionManager \<Rightarrow> bool" where
  "sessions_ok ttl m \<longleftrightarrow> sm_ttl m = ttl \<and> bt_ok (sm_sessions m)"

definition holds_slots :: "nat \<Rightarrow> nat \<Rightarrow> nat \<times> 'j slots \<Rightarrow> nat \<times> 'j SessionManager \<Rightarrow> bool" where
  "holds_slots ttl T = (\<lambda>(n', M) (n, m). n' = n \<and> sessions_ok ttl m
     \<and> (\<forall>p x. slot m p = Some x \<longrightarrow> M p = Some x)
     \<and> (\<forall>p d x. M p = Some (d, x) \<longrightarrow> (T < d \<longrightarrow> slot m p = Some (d, x))))"

lemma slot_eq:
  "slot m (sid, fid) = Option.bind (map_of (sm_sessions m) sid) (\<lambda>s. Option.bind (map_of (ss_files s) fid) (\<lambda>f.
     if sf_uploaded f then None else Some (ss_expires_at s, sf_token f, sf_meta f)))"
  by (simp add: slot_def)

lemma prune_fields [simp]:
  "sm_sessions (snd (prune_expired_locked now m)) = table_retain ss_expires_at now (sm_sessions m)"
  "sm_ttl (snd (prune_expired_locked now m)) = sm_ttl m"
  by (simp_all add: prune_expired_locked_def Let_def)

lemma slot_prune:
  assumes "sessions_ok ttl m"
  shows "slot (snd (prune_expired_locked now m)) p = (case slot m p of Some (d, x) \<Rightarrow> if now < d then Some (d, x) else None | None \<Rightarrow> None)"
proof -
  have "distinct (map fst (sm_sessions m))" using assms by (simp add: sessions_ok_def bt_ok_def)
  then show ?thesis
    by (cases p; cases "map_of (sm_sessions m) (fst p)"; cases "map_of (ss_files (the (map_of (sm_sessions m) (fst p)))) (snd p)")
      (simp_all add: slot_eq map_of_retain table_live_def del: map_of_eq_Some_iff)
qed

lemma prune_sessions_ok: "sessions_ok ttl m \<Longrightarrow> sessions_ok ttl (snd (prune_expired_locked now m))"
  by (auto simp: sessions_ok_def bt_ok_def table_retain_def distinct_map_filter sorted_filter)

lemma holds_slotsD:
  assumes "holds_slots ttl T (n', M) (n, m)"
  shows "n' = n" "sessions_ok ttl m" "slot m p = Some x \<Longrightarrow> M p = Some x"
    "M p = Some (d, y) \<Longrightarrow> T < d \<Longrightarrow> slot m p = Some (d, y)"
  using assms unfolding holds_slots_def prod.case by blast+

lemma holds_slotsI:
  assumes "sessions_ok ttl m" "\<And>p x. slot m p = Some x \<Longrightarrow> M p = Some x"
    "\<And>p d y. M p = Some (d, y) \<Longrightarrow> T < d \<Longrightarrow> slot m p = Some (d, y)"
  shows "holds_slots ttl T (n, M) (n, m)"
  using assms unfolding holds_slots_def prod.case by blast

text \<open>A later clock reading only shrinks what has to be in the table.\<close>

lemma holds_slots_shrink:
  assumes h: "holds_slots ttl T (n, M) (n, m)" and le: "T \<le> now" and ok: "sessions_ok ttl m'"
    and sl: "\<And>p. slot m' p = (case slot m p of Some (d, x) \<Rightarrow> if now < d then Some (d, x) else None | None \<Rightarrow> None)"
  shows "holds_slots ttl now (n, M) (n, m')"
proof -
  have down: "slot m p = Some x" if "slot m' p = Some x" for p x
    using that unfolding sl by (simp split: option.splits prod.splits if_splits)
  have up: "slot m' p = Some (d, x)" if "slot m p = Some (d, x)" "now < d" for p d x
    using that unfolding sl by simp
  have T: "T < d" if "now < d" for d using that le by simp
  show ?thesis
    by (rule holds_slotsI [OF ok]) (blast dest: down holds_slotsD(3) [OF h] intro: up holds_slotsD(4) [OF h] T)+
qed

lemma holds_slots_prune:
  assumes h: "holds_slots ttl T (n, M) (n, m)" and le: "T \<le> now"
  shows "holds_slots ttl now (n, M) (n, snd (prune_expired_locked now m))"
proof -
  note ok = holds_slotsD(2) [OF h]
  show ?thesis by (rule holds_slots_shrink [OF h le prune_sessions_ok [OF ok] slot_prune [OF ok]])
qed

lemma fresh_map: "map fst (fresh_tokens U n files) = map fst files"
  by (induction U n files rule: fresh_tokens.induct) auto

lemma prepare_files_map:
  "distinct (map fst files) \<Longrightarrow> map_of (snd (prepare_files U n files acc)) fid =
     (case map_of (fresh_tokens U n files) fid of
        Some (tok, meta) \<Rightarrow> Some \<lparr>sf_token = tok, sf_meta = meta, sf_uploaded = False\<rparr>
      | None \<Rightarrow> map_of (snd acc) fid)"
proof (induction U n files acc rule: prepare_files.induct)
  case (2 U n file_id meta files prepared session)
  have "map_of (fresh_tokens U (Suc n) files) file_id = None"
    using 2(2) by (simp add: map_of_eq_None_iff flip: fresh_map [of U "Suc n" files] set_map)
  then show ?case using 2 by (auto split: option.splits)
qed simp

lemma validate_distinct_gen:
  "validate_file_ids_loop seen files = Inr () \<Longrightarrow> distinct (map fst files) \<and> fst ` set files \<inter> seen = {}"
  by (induction seen files rule: validate_file_ids_loop.induct) (auto split: if_splits)

lemma validate_distinct: "validate_file_ids req = Inr () \<Longrightarrow> distinct (map fst (pu_files req))"
  using validate_distinct_gen unfolding validate_file_ids_def by blast

lemma slot_prepare:
  assumes "validate_file_ids req = Inr ()" "session_prepare U t req n m = (r, n', m')" "sm_ttl m = ttl"
  shows "slot m' (sid, fid) = (if sid = U n then map_option (Pair (t + ttl)) (map_of (fresh_tokens U (Suc n) (pu_files req)) fid)
      else slot m (sid, fid))" "n' = Suc n + length (pu_files req)"
proof -
  note pf = prepare_files_map [OF validate_distinct [OF assms(1)], of U "Suc n" "([], [])"]
  have m': "map_of (sm_sessions m') = (map_of (sm_sessions m))(U n \<mapsto>
      \<lparr>ss_expires_at = t + ttl, ss_files = snd (prepare_files U (Suc n) (pu_files req) ([], []))\<rparr>)"
    "n' = Suc n + length (pu_files req)"
    using assms by (auto simp: session_prepare_def Let_def split: prod.splits)
  show "slot m' (sid, fid) = (if sid = U n then map_option (Pair (t + ttl)) (map_of (fresh_tokens U (Suc n) (pu_files req)) fid)
      else slot m (sid, fid))"
    by (simp add: slot_eq m' pf split: option.splits)
  show "n' = Suc n + length (pu_files req)" by (rule m')
qed

lemma prepare_sessions_ok:
  assumes "session_prepare U t req n m = (r, n', m')" "sessions_ok ttl m"
  shows "sessions_ok ttl m'"
proof (cases "validate_file_ids req")
  case (Inr u)
  then have "m' = m\<lparr>sm_sessions := bt_insert (U n) \<lparr>ss_expires_at = t + sm_ttl m,
      ss_files = snd (prepare_files U (Suc n) (pu_files req) ([], []))\<rparr> (sm_sessions m)\<rparr>" "n < n'"
    using assms(1) by (auto simp: session_prepare_def Let_def split: prod.splits)
  then show ?thesis using assms(2) by (simp add: sessions_ok_def)
qed (use assms in \<open>simp add: session_prepare_def\<close>)

lemma mark_slots:
  "slot (snd (mark_uploaded now sid fid m)) = (slot (snd (prune_expired_locked now m)))((sid, fid) := None)"
  by (rule ext, rename_tac p, case_tac p)
    (auto simp: mark_uploaded_def Let_def slot_eq update_conv' bind_eq_Some_conv split: option.splits cong: if_cong)

lemma mark_sessions_ok: "sessions_ok ttl m \<Longrightarrow> sessions_ok ttl (snd (mark_uploaded now sid fid m))"
proof -
  assume "sessions_ok ttl m"
  then have ok: "sessions_ok ttl (snd (prune_expired_locked now m))" by (rule prune_sessions_ok)
  have upd: "sessions_ok ttl (p\<lparr>sm_sessions := AList.update s x (sm_sessions p)\<rparr>)"
    if "sessions_ok ttl p" "map_of (sm_sessions p) s = Some y" for p s x y
  proof -
    have "s \<in> set (map fst (sm_sessions p))" using map_of_SomeD [OF that(2)] by force
    then have "map fst (AList.update s x (sm_sessions p)) = map fst (sm_sessions p)" by (simp add: update_keys)
    then show ?thesis using that(1) by (simp add: sessions_ok_def bt_ok_def flip: set_map)
  qed
  show ?thesis using ok upd [OF ok] by (simp add: mark_uploaded_def Let_def split: option.splits)
qed

lemma cancel_slots:
  "slot (snd (session_cancel now sid m)) = (\<lambda>(s, f). if s = sid then None else slot (snd (prune_expired_locked now m)) (s, f))"
  by (auto simp: session_cancel_def Let_def slot_eq delete_conv' fun_eq_iff)

lemma cancel_sessions_ok: "sessions_ok ttl m \<Longrightarrow> sessions_ok ttl (snd (session_cancel now sid m))"
  using prune_sessions_ok [of ttl m now]
  by (auto simp: sessions_ok_def session_cancel_def Let_def bt_ok_def AList.delete_eq distinct_map_filter sorted_filter)

lemma slots_step_prepare:
  assumes h: "holds_slots ttl T (n, M) (n, m)" and le: "T \<le> t"
  shows "holds_slots ttl t (slots_step U ttl (EvPrepare t req) (n, M)) (session_step U (EvPrepare t req) (n, m))"
proof (cases "validate_file_ids req = Inr ()")
  case True
  obtain r n' m' where pr: "session_prepare U t req n m = (r, n', m')" by (cases "session_prepare U t req n m")
  note ok = holds_slotsD(2) [OF h]
  have "sm_ttl m = ttl" using ok by (simp add: sessions_ok_def)
  note sl = slot_prepare [OF True pr this]
  have "holds_slots ttl t (n', \<lambda>(sid, fid). if sid = U n then map_option (Pair (t + ttl)) (map_of (fresh_tokens U (Suc n) (pu_files req)) fid)
      else M (sid, fid)) (n', m')" (is "holds_slots _ _ (_, ?M) _")
  proof (rule holds_slotsI [OF prepare_sessions_ok [OF pr ok]])
    fix p x assume "slot m' p = Some x"
    then show "?M p = Some x" using holds_slotsD(3) [OF h] by (cases p) (auto simp: sl split: if_splits)
  next
    fix p d y assume M: "?M p = Some (d, y)"
    show "slot m' p = Some (d, y)" if "t < d"
      using M that le holds_slotsD(4) [OF h, of p d y] by (cases p) (auto simp: sl split: if_splits)
  qed
  then show ?thesis by (simp only: slots_step.simps session_step.simps pr True sl(2) snd_conv if_True refl)
next
  case False
  then have "session_step U (EvPrepare t req) (n, m) = (n, m)"
    by (cases "validate_file_ids req") (simp_all add: session_prepare_def)
  moreover have "holds_slots ttl t (n, M) (n, m)"
    by (rule holds_slotsI [OF holds_slotsD(2) [OF h] holds_slotsD(3) [OF h]], assumption)
      (rule holds_slotsD(4) [OF h], assumption, erule le_less_trans [OF le])
  ultimately show ?thesis using False by (simp only: slots_step.simps if_False)
qed

lemma slots_step_remove:
  assumes h: "holds_slots ttl T (n, M) (n, m)" and ok: "sessions_ok ttl m'"
    and s: "\<And>p. slot m' p = (if P p then None else slot m p)" and M': "\<And>p. M' p = (if P p then None else M p)"
  shows "holds_slots ttl T (n, M') (n, m')"
proof (rule holds_slotsI [OF ok])
  fix p x assume "slot m' p = Some x"
  then show "M' p = Some x" using holds_slotsD(3) [OF h, of p x] by (simp add: s M' split: if_splits)
next
  fix p d y assume "M' p = Some (d, y)" "T < d"
  then show "slot m' p = Some (d, y)" using holds_slotsD(4) [OF h, of p d y] by (simp add: s M' split: if_splits)
qed

lemma session_step_slots:
  assumes h: "holds_slots ttl T (n, M) (n, m)" and le: "T \<le> session_event_time ev"
  shows "holds_slots ttl (session_event_time ev) (slots_step U ttl ev (n, M)) (session_step U ev (n, m))"
proof (cases ev)
  case (EvPrepare t req)
  then show ?thesis using slots_step_prepare [OF h, of t U req] le by (simp only: session_event_time.simps)
next
  case (EvMark t sid fid)
  then have "holds_slots ttl t (n, M) (n, snd (prune_expired_locked t m))" using holds_slots_prune [OF h] le by simp
  from slots_step_remove [OF this mark_sessions_ok [OF holds_slotsD(2) [OF h]], where P = "\<lambda>p. p = (sid, fid)"]
  show ?thesis by (simp add: EvMark mark_slots)
next
  case (EvCancel t sid)
  then have "holds_slots ttl t (n, M) (n, snd (prune_expired_locked t m))" using holds_slots_prune [OF h] le by simp
  from slots_step_remove [OF this cancel_sessions_ok [OF holds_slotsD(2) [OF h]], where P = "\<lambda>p. fst p = sid"]
  show ?thesis by (simp add: EvCancel cancel_slots case_prod_unfold)
next
  case (EvCancelAll t)
  then show ?thesis using holds_slotsD(2) [OF h]
    by (simp add: holds_slots_def cancel_all_def slot_def sessions_ok_def case_prod_unfold)
next
  case (EvAuthorize t sid fid tok)
  then show ?thesis using holds_slots_prune [OF h] le by (simp add: authorize_upload_def Let_def)
next
  case (EvFind t fid)
  then show ?thesis using holds_slots_prune [OF h] le by (simp add: session_id_for_file_def Let_def)
next
  case (EvPrune t)
  then show ?thesis using holds_slots_prune [OF h] le by simp
qed

lemma session_run_slots:
  assumes "sorted_wrt (\<le>) (T # map session_event_time events)" "holds_slots ttl T (n, M) (n, m)"
  shows "\<exists>T' \<le> last (T # map session_event_time events).
    holds_slots ttl T' (fold (slots_step U ttl) events (n, M)) (fold (session_step U) events (n, m))"
  using assms
proof (induction events arbitrary: T n M m)
  case (Cons ev events)
  obtain n1 M1 where s1: "slots_step U ttl ev (n, M) = (n1, M1)" by fastforce
  obtain n2 m2 where s2: "session_step U ev (n, m) = (n2, m2)" by fastforce
  have h: "holds_slots ttl (session_event_time ev) (n1, M1) (n2, m2)"
    using session_step_slots [OF Cons.prems(2), of ev U] Cons.prems(1) by (simp add: s1 s2)
  have "n1 = n2" using holds_slotsD(1) [OF h] .
  then show ?case using Cons.IH [of "session_event_time ev" n1 M1 m2] h Cons.prems(1) by (auto simp: s1 s2)
qed auto

lemma authorize_slot:
  assumes "sessions_ok ttl m"
  shows "fst (authorize_upload now sid fid tok m) = Inr u \<longleftrightarrow>
    (\<exists>d. slot m (sid, fid) = Some (d, tok, au_meta u) \<and> now < d) \<and> au_session_id u = sid \<and> au_file_id u = fid \<and> au_token u = tok"
proof -
  have "fst (authorize_upload now sid fid tok m) = Inr u \<longleftrightarrow>
    (\<exists>d. slot (snd (prune_expired_locked now m)) (sid, fid) = Some (d, tok, au_meta u)) \<and> au_session_id u = sid \<and> au_file_id u = fid \<and> au_token u = tok"
    by (cases u) (auto simp: authorize_upload_def Let_def slot_eq bind_eq_Some_conv res_iffs split: if_splits)
  also have "\<dots> \<longleftrightarrow> (\<exists>d. slot m (sid, fid) = Some (d, tok, au_meta u) \<and> now < d) \<and> au_session_id u = sid \<and> au_file_id u = fid \<and> au_token u = tok"
    unfolding slot_prune [OF assms] by (auto split: option.splits if_splits)
  finally show ?thesis .
qed

text \<open>C19. The upload session manager implements open upload slots. After any sequence of manager
  operations with a non-decreasing clock, an upload is authorised exactly
  when the slot of its session and file is open, the clock has not reached the deadline fixed at
  prepare time and the token presented is the slot's; the metadata returned is that of the prepare
  request. In particular a slot is used once: marking the upload, cancelling the session or
  cancelling everything closes it for good.\<close>

theorem authorize_upload_refines_slots:
  fixes events :: "'j SessionEvent list"
  assumes "sorted (map session_event_time events @ [now])"
  shows "fst (authorize_upload now sid fid tok (snd (session_run U ttl events))) = Inr u \<longleftrightarrow>
    (\<exists>deadline. open_slots U ttl events (sid, fid) = Some (deadline, tok, au_meta u) \<and> now < deadline)
    \<and> au_session_id u = sid \<and> au_file_id u = fid \<and> au_token u = tok"
proof -
  obtain n m where m: "session_run U ttl events = (n, m)" by fastforce
  obtain n' M where M: "fold (slots_step U ttl) events (0, Map.empty) = (n', M)" by fastforce
  have "holds_slots ttl 0 (0, Map.empty) (0, session_manager_new ttl)"
    by (simp add: holds_slots_def session_manager_new_def slot_def sessions_ok_def case_prod_unfold)
  moreover have "sorted_wrt (\<le>) (0 # map session_event_time events)" using assms by (simp add: sorted_append)
  ultimately obtain T where T: "T \<le> last (0 # map session_event_time events)" "holds_slots ttl T (n', M) (n, m)"
    using session_run_slots [of 0 events ttl 0 Map.empty "session_manager_new ttl" U] m M
    unfolding session_run_def by auto
  have "last (0 # map session_event_time events) \<le> now" using assms by (auto simp: sorted_append last_map)
  then have "slot m (sid, fid) = Some (d, x) \<and> now < d \<longleftrightarrow> M (sid, fid) = Some (d, x) \<and> now < d" for d x
    using holds_slotsD(3,4) [OF T(2)] T(1) by (meson le_trans le_less_trans)
  then show ?thesis using authorize_slot [OF holds_slotsD(2) [OF T(2)], of now sid fid tok u]
    by (simp add: m M open_slots_def)
qed

definition demo_device :: DeviceInfo where
  "demo_device = \<lparr>di_alias = ''Phone'', di_version = ''2.0'', di_device_model = None, di_device_type = None,
     di_fingerprint = ''abc'', di_port = 53317, di_protocol = ''https'', di_download = True\<rparr>"

definition demo_file :: "string \<Rightarrow> unit FileMeta" where
  "demo_file i = \<lparr>fm_id = i, fm_file_name = i @ ''.txt'', fm_size = 3, fm_file_type = None, fm_sha256 = None,
     fm_preview = None, fm_metadata = None\<rparr>"

definition demo_prepare :: "unit PrepareUploadRequest" where
  "demo_prepare = \<lparr>pu_info = demo_device, pu_files = [(''a'', demo_file ''a''), (''b'', demo_file ''b'')]\<rparr>"

definition demo_uuid :: "nat \<Rightarrow> string" where
  "demo_uuid n = ''id'' @ replicate n CHR ''x''"

definition demo_session_events :: "unit SessionEvent list" where
  "demo_session_events = [EvPrepare 0 demo_prepare, EvMark 5 (demo_uuid 0) ''b'', EvAuthorize 6 (demo_uuid 0) ''b'' ''no'']"

lemma demo_session_slot: "open_slots demo_uuid 10 demo_session_events (demo_uuid 0, ''a'') = Some (10, demo_uuid 1, demo_file ''a'')"
  by code_simp

theorem authorize_upload_refines_slots_witness:
  "sorted (map session_event_time demo_session_events @ [7]) \<and>
   fst (authorize_upload 7 (demo_uuid 0) ''a'' (demo_uuid 1) (snd (session_run demo_uuid 10 demo_session_events))) =
     Inr \<lparr>au_session_id = demo_uuid 0, au_file_id = ''a'', au_token = demo_uuid 1, au_meta = demo_file ''a''\<rparr>"
proof -
  have s: "sorted (map session_event_time demo_session_events @ [7])" by (simp add: demo_session_events_def)
  show ?thesis
    by (rule conjI [OF s], subst authorize_upload_refines_slots [OF s]) (simp add: demo_session_slot)
qed

end
