(* ===== verification/LocalSend_Inbox.thy ===== *)
theory LocalSend_Inbox
  imports LocalSend_Session Transfer_Names
begin

text \<open>
  The inbox writer of LocalSend v2 (\<open>protocol-localsend-v2/src/inbox.rs\<close>): an authorised upload is
  streamed into \<open>.incoming\<close>, checked against its declared size and digest and renamed to a free name
  of the inbox. A reader is the list of what its successive reads deliver; the search for a free
  name has no bound in the code and is a partial function. \<open>fresh\<close> are the identifiers drawn for empty
  session and file ids.
\<close>

section \<open>Reading and writing streams\<close>

type_synonym reader = "(IoError + bytes) list"

definition read_buffer :: "nat \<Rightarrow> reader \<Rightarrow> (IoError + bytes) \<times> reader" where
  "read_buffer n rs =
     (case rs of
        [] \<Rightarrow> (Inr [], [])
      | Inl e # rs' \<Rightarrow> (Inl e, rs')
      | Inr bs # rs' \<Rightarrow> (Inr (take n bs), if length bs \<le> n then rs' else Inr (drop n bs) # rs'))"

text \<open>\<open>File::create\<close> truncates; \<open>write_all\<close> goes to the end of what the handle has written.\<close>

definition fs_create :: "path \<Rightarrow> fs \<Rightarrow> IoError + path \<times> fs" where
  "fs_create p fs = res_bind (walk fs [] p) (\<lambda>q. if fs q = Some Dir then Inl IsADirectory else Inr (q, fs(q \<mapsto> File [])))"

definition fs_write_all :: "path \<Rightarrow> bytes \<Rightarrow> fs \<Rightarrow> IoError + fs" where
  "fs_write_all q bs fs = (case fs q of Some (File old) \<Rightarrow> Inr (fs(q \<mapsto> File (old @ bs))) | _ \<Rightarrow> Inl NotFound)"

definition fs_try_exists :: "path \<Rightarrow> fs \<Rightarrow> IoError + bool" where
  "fs_try_exists p fs = (case fs_metadata p fs of Inr _ \<Rightarrow> Inr True | Inl NotFound \<Rightarrow> Inr False | Inl e \<Rightarrow> Inl e)"

datatype Component = RootDir | CurDir | ParentDir | NormalComponent string

text \<open>\<open>Path::components\<close> on a path without a prefix: empty parts vanish, and so does \<open>.\<close> unless it comes first.\<close>

definition path_components :: "string \<Rightarrow> Component list" where
  "path_components s =
     (let parts = split_on (CHR ''/'') s;
          comp = (\<lambda>c. if c = ''..'' then ParentDir else NormalComponent c);
          body = map comp (filter (\<lambda>c. c \<noteq> [] \<and> c \<noteq> ''.'') parts)
      in if s \<noteq> [] \<and> hd s = CHR ''/'' then RootDir # body
         else if parts \<noteq> [] \<and> hd parts = ''.'' then CurDir # body else body)"

section \<open>The writer\<close>

record WrittenUpload =
  wu_path :: path
  wu_bytes_written :: u64
  wu_sha256 :: string

definition inbox_error :: "string \<Rightarrow> LocalSendError" where
  "inbox_error message = LsHttp (''inbox: '' @ message)"

definition validate_file_name :: "string \<Rightarrow> string ls_result" where
  "validate_file_name file_name =
     (if file_name = [] \<or> CHR ''/'' \<in> set file_name \<or> CHR 0x5C \<in> set file_name
      then Inl (inbox_error ''invalid upload filename'')
      else if hd file_name = CHR ''/'' then Inl (inbox_error ''invalid upload filename'')
      else case path_components file_name of
        [NormalComponent name] \<Rightarrow> if name \<noteq> [] then Inr file_name else Inl (inbox_error ''invalid upload filename'')
      | _ \<Rightarrow> Inl (inbox_error ''invalid upload filename''))"

definition safe_identifier :: "string \<Rightarrow> string \<Rightarrow> string" where
  "safe_identifier fresh value =
     (let sanitized = map (\<lambda>ch. case ch of [c] \<Rightarrow> if is_ascii_alphanumeric c \<or> c = CHR ''-'' \<or> c = CHR ''_'' then c else CHR ''-''
                              | _ \<Rightarrow> CHR ''-'') (utf8_chars value)
      in if sanitized = [] then fresh else sanitized)"

definition incoming_file_name :: "string \<times> string \<Rightarrow> 'j AuthorizedUpload \<Rightarrow> string" where
  "incoming_file_name fresh upload =
     safe_identifier (fst fresh) (au_session_id upload) @ ''-'' @ safe_identifier (snd fresh) (au_file_id upload) @ ''.part''"

definition inbox_candidate :: "string \<Rightarrow> nat \<Rightarrow> string" where
  "inbox_candidate file_name number =
     (let stem = (case file_stem file_name of Some s \<Rightarrow> s | None \<Rightarrow> file_name) in
      case path_extension file_name of
        Some extension \<Rightarrow> stem @ '' ('' @ show_nat number @ '').'' @ extension
      | None \<Rightarrow> stem @ '' ('' @ show_nat number @ '')'')"

definition path_exists :: "path \<Rightarrow> fs \<Rightarrow> bool ls_result" where
  "path_exists p fs = map_sum LsIo id (fs_try_exists p fs)"

partial_function (option) inbox_search :: "fs \<Rightarrow> path \<Rightarrow> string \<Rightarrow> u32 \<Rightarrow> path ls_result option" where
  "inbox_search fs inbox file_name number =
     (case path_exists (inbox @ [inbox_candidate file_name (unat number)]) fs of
        Inl e \<Rightarrow> Some (Inl e)
      | Inr present \<Rightarrow> if \<not> present then Some (Inr (inbox @ [inbox_candidate file_name (unat number)]))
          else inbox_search fs inbox file_name (number + 1))"

definition next_available_target :: "path \<Rightarrow> string \<Rightarrow> fs \<Rightarrow> path ls_result option" where
  "next_available_target inbox file_name fs =
     (case path_exists (inbox @ [file_name]) fs of
        Inl e \<Rightarrow> Some (Inl e)
      | Inr present \<Rightarrow> if \<not> present then Some (Inr (inbox @ [file_name])) else inbox_search fs inbox file_name 1)"

definition hex_digest :: "bytes \<Rightarrow> string" where
  "hex_digest bs = fold (\<lambda>b hex. hex @ hex_byte b) bs []"

definition reader_weight :: "reader \<Rightarrow> nat" where
  "reader_weight rs = sum_list (map (\<lambda>r. case r of Inl _ \<Rightarrow> 1 | Inr bs \<Rightarrow> Suc (length bs)) rs)"

function write_loop :: "path \<Rightarrow> u64 \<Rightarrow> reader \<Rightarrow> u64 \<Rightarrow> bytes \<Rightarrow> (fs, LocalSendError, u64 \<times> bytes) sr" where
  "write_loop q sz rs bytes_written hashed =
     (case read_buffer 8192 rs of
        (Inl e, _) \<Rightarrow> sr_fail (LsIo e)
      | (Inr buffer, rs') \<Rightarrow>
          if buffer = [] then sr_return (bytes_written, hashed)
          else let bytes_written = bytes_written + of_nat (length buffer) in
            if bytes_written > sz
            then sr_fail (inbox_error (''upload exceeds declared size '' @ show_nat (unat sz)))
            else sr_bind (sr_modify (\<lambda>fs. map_sum LsIo id (fs_write_all q buffer fs))) (\<lambda>_.
              write_loop q sz rs' bytes_written (hashed @ buffer)))"
  by pat_completeness auto
termination
  by (relation "measure (\<lambda>(_, _, rs, _, _). reader_weight rs)")
    (auto simp: read_buffer_def reader_weight_def split: list.splits sum.splits if_splits)

declare write_loop.simps [simp del]

text \<open>Everything up to the verified part file, then the publication.\<close>

definition receive_upload :: "(bytes \<Rightarrow> bytes) \<Rightarrow> string \<times> string \<Rightarrow> path \<Rightarrow> 'j AuthorizedUpload \<Rightarrow> reader
    \<Rightarrow> (fs, LocalSendError, string \<times> path \<times> u64 \<times> string) sr" where
  "receive_upload sha256 fresh inbox_dir upload reader =
     sr_bind (sr_gets (\<lambda>_. validate_file_name (fm_file_name (au_meta upload)))) (\<lambda>file_name.
     let incoming_dir = inbox_dir @ [''.incoming''];
         incoming_path = incoming_dir @ [incoming_file_name fresh upload]
     in
     sr_bind (sr_modify (\<lambda>fs. map_sum LsIo id (create_dir_all incoming_dir fs))) (\<lambda>_.
     sr_bind (sr_modify (\<lambda>fs. map_sum LsIo id (create_dir_all inbox_dir fs))) (\<lambda>_.
     sr_bind (\<lambda>fs. case fs_create incoming_path fs of Inl e \<Rightarrow> (Inl (LsIo e), fs) | Inr (q, fs') \<Rightarrow> (Inr q, fs')) (\<lambda>q.
     sr_bind (write_loop q (fm_size (au_meta upload)) reader 0 []) (\<lambda>(bytes_written, hashed).
       if bytes_written \<noteq> fm_size (au_meta upload)
       then sr_fail (inbox_error (''upload size mismatch: expected '' @ show_nat (unat (fm_size (au_meta upload)))
              @ '', got '' @ show_nat (unat bytes_written)))
       else let digest = hex_digest (sha256 hashed) in
         if (case fm_sha256 (au_meta upload) of Some expected \<Rightarrow> \<not> eq_ignore_ascii_case expected digest | None \<Rightarrow> False)
         then sr_fail (LsCrypto ''upload sha256 mismatch'')
         else sr_return (file_name, incoming_path, bytes_written, digest))))))"

definition write_upload :: "(bytes \<Rightarrow> bytes) \<Rightarrow> string \<times> string \<Rightarrow> path \<Rightarrow> 'j AuthorizedUpload \<Rightarrow> reader
    \<Rightarrow> fs \<Rightarrow> (WrittenUpload ls_result \<times> fs) option" where
  "write_upload sha256 fresh inbox_dir upload reader fs =
     (case receive_upload sha256 fresh inbox_dir upload reader fs of
        (Inl e, fs') \<Rightarrow> Some (Inl e, fs')
      | (Inr (file_name, incoming_path, bytes_written, digest), fs') \<Rightarrow>
          (case next_available_target inbox_dir file_name fs' of
             None \<Rightarrow> None
           | Some (Inl e) \<Rightarrow> Some (Inl e, fs')
           | Some (Inr target_path) \<Rightarrow>
               (case fs_rename incoming_path target_path fs' of
                  Inl e \<Rightarrow> Some (Inl (LsIo e), fs')
                | Inr fs'' \<Rightarrow> Some (Inr \<lparr>wu_path = target_path, wu_bytes_written = bytes_written, wu_sha256 = digest\<rparr>, fs''))))"

section \<open>The stream\<close>

text \<open>What a reader delivers up to its end, if no read fails.\<close>

fun reader_body :: "reader \<Rightarrow> bytes option" where
  "reader_body [] = Some []"
| "reader_body (Inl e # rs) = None"
| "reader_body (Inr bs # rs) = (if bs = [] then Some [] else map_option ((@) bs) (reader_body rs))"

lemma read_buffer_body:
  assumes "read_buffer n rs = (r, rs')" "0 < n"
  shows "reader_body rs = (case r of Inl e \<Rightarrow> None | Inr b \<Rightarrow> if b = [] then Some [] else map_option ((@) b) (reader_body rs'))"
    "r = Inr b \<Longrightarrow> length b \<le> n"
proof -
  show "reader_body rs = (case r of Inl e \<Rightarrow> None | Inr b \<Rightarrow> if b = [] then Some [] else map_option ((@) b) (reader_body rs'))"
    using assms by (auto simp: read_buffer_def option.map_comp comp_def split: list.splits sum.splits if_splits)
      (simp_all flip: append_assoc)
  show "r = Inr b \<Longrightarrow> length b \<le> n"
    using assms by (auto simp: read_buffer_def split: list.splits sum.splits if_splits)
qed

lemma bytes_written_step:
  fixes sz :: u64
  assumes "length hashed \<le> unat sz" "unat sz + 8192 < 2 ^ 64" "length b \<le> 8192"
  shows "of_nat (length hashed) + of_nat (length b) > sz \<longleftrightarrow> length (hashed @ b) > unat sz"
proof -
  have "(of_nat (length hashed) + of_nat (length b) :: u64) = of_nat (length (hashed @ b))" by simp
  moreover have "unat (of_nat (length (hashed @ b)) :: u64) = length (hashed @ b)"
  proof -
    have "length (hashed @ b) < 2 ^ 64" using assms by simp
    then show ?thesis by (rule unat_of_nat_u64)
  qed
  ultimately show ?thesis by (simp add: word_less_nat_alt)
qed

lemma write_loop_effect:
  assumes "write_loop q sz rs (of_nat (length hashed)) hashed fs = (res, fs')" "fs q = Some (File old)"
    "length hashed \<le> unat sz" "unat sz + 8192 < 2 ^ 64"
  shows "\<exists>new. fs' = fs(q \<mapsto> File (old @ new)) \<and> (\<forall>r. res = Inr r \<longrightarrow> reader_body rs = Some new
    \<and> length (hashed @ new) \<le> unat sz \<and> r = (of_nat (length (hashed @ new)), hashed @ new))"
  using assms
proof (induction "reader_weight rs" arbitrary: rs hashed fs old rule: less_induct)
  case less
  obtain r rs' where rd: "read_buffer 8192 rs = (r, rs')" by fastforce
  note body = read_buffer_body [OF rd]
  show ?case
  proof (cases r)
    case (Inl e)
    then show ?thesis using less.prems(1,2) by (subst (asm) write_loop.simps) (auto simp: rd intro!: exI [of _ "[]"])
  next
    case (Inr b)
    consider "b = []" | "b \<noteq> []" "length (hashed @ b) > unat sz" | "b \<noteq> []" "length (hashed @ b) \<le> unat sz" by linarith
    then show ?thesis
    proof cases
      case 1
      then show ?thesis using less.prems(1-3) body Inr by (subst (asm) write_loop.simps) (auto simp: rd intro!: exI [of _ "[]"])
    next
      case 2
      then show ?thesis using less.prems bytes_written_step [OF less.prems(3,4)] body(2) Inr
        by (subst (asm) write_loop.simps) (auto simp: rd Let_def intro!: exI [of _ "[]"])
    next
      case 3
      let ?fs = "fs(q \<mapsto> File (old @ b))"
      have "write_loop q sz rs' (of_nat (length (hashed @ b))) (hashed @ b) ?fs = (res, fs')"
        using less.prems bytes_written_step [OF less.prems(3,4)] body(2) Inr 3
        by (subst (asm) write_loop.simps) (simp add: rd Let_def fs_write_all_def sr_modify_def sr_bind_def)
      moreover have "reader_weight rs' < reader_weight rs"
        using rd Inr 3(1) by (auto simp: read_buffer_def reader_weight_def split: list.splits sum.splits if_splits)
      ultimately obtain new where "fs' = ?fs(q \<mapsto> File ((old @ b) @ new))" "\<forall>r. res = Inr r \<longrightarrow> reader_body rs' = Some new
          \<and> length ((hashed @ b) @ new) \<le> unat sz \<and> r = (of_nat (length ((hashed @ b) @ new)), (hashed @ b) @ new)"
        using less.hyps [of rs' "hashed @ b" ?fs "old @ b"] less.prems(4) 3(2) by auto
      then show ?thesis using body(1) Inr 3(1) by (intro exI [of _ "b @ new"]) auto
    qed
  qed
qed

lemma write_loop_total:
  assumes "reader_body rs = Some body" "length (hashed @ body) \<le> unat sz" "fs q = Some (File old)" "unat sz + 8192 < 2 ^ 64"
  shows "\<exists>r. fst (write_loop q sz rs (of_nat (length hashed)) hashed fs) = Inr r"
  using assms
proof (induction "reader_weight rs" arbitrary: rs hashed fs old body rule: less_induct)
  case less
  obtain r rs' where rd: "read_buffer 8192 rs = (r, rs')" by fastforce
  note rb = read_buffer_body [OF rd]
  obtain b where b: "r = Inr b" using rb(1) less.prems(1) by (cases r) auto
  show ?case
  proof (cases "b = []")
    case True
    then show ?thesis by (subst write_loop.simps) (simp add: rd b)
  next
    case False
    then obtain rest where rest: "reader_body rs' = Some rest" "body = b @ rest" using rb(1) b less.prems(1) by (cases "reader_body rs'") auto
    have "reader_weight rs' < reader_weight rs"
      using rd b False by (auto simp: read_buffer_def reader_weight_def split: list.splits sum.splits if_splits)
    then have "\<exists>r. fst (write_loop q sz rs' (of_nat (length (hashed @ b))) (hashed @ b) (fs(q \<mapsto> File (old @ b)))) = Inr r"
      using less.hyps [of rs' rest "hashed @ b" "fs(q \<mapsto> File (old @ b))" "old @ b"] less.prems rest by simp
    moreover have "\<not> of_nat (length hashed) + of_nat (length b) > sz"
      using bytes_written_step [of hashed sz b] less.prems rb(2) b rest by simp
    ultimately show ?thesis
      using False less.prems(3) by (subst write_loop.simps) (simp add: rd b Let_def fs_write_all_def sr_modify_def sr_bind_def)
  qed
qed

section \<open>Names\<close>

lemma hex_digest_eq: "hex_digest bs = concat (map hex_byte bs)"
proof -
  have "fold (\<lambda>b hex. hex @ hex_byte b) bs acc = acc @ concat (map hex_byte bs)" for acc
    by (induction bs arbitrary: acc) auto
  then show ?thesis by (simp add: hex_digest_def)
qed

lemma validate_file_name_iff:
  "validate_file_name s = Inr t \<longleftrightarrow> t = s \<and> s \<noteq> [] \<and> s \<noteq> ''.'' \<and> s \<noteq> ''..'' \<and> CHR ''/'' \<notin> set s \<and> CHR 0x5C \<notin> set s"
proof (cases "s = [] \<or> CHR ''/'' \<in> set s \<or> CHR 0x5C \<in> set s")
  case False
  then have "hd s \<noteq> CHR ''/''" by (cases s) auto
  then show ?thesis using False split_on_free [of "CHR ''/''" s] by (auto simp: validate_file_name_def path_components_def Let_def)
qed (auto simp: validate_file_name_def)

lemma safe_identifier_no_nul: "\<not> has_nul fresh \<Longrightarrow> \<not> has_nul (safe_identifier fresh value)"
  by (auto simp: safe_identifier_def has_nul_def Let_def is_ascii_alphanumeric_def is_ascii_digit_def
      less_eq_char_def split: list.splits if_splits)

lemma incoming_file_name_normal:
  "\<not> has_nul (fst fresh) \<Longrightarrow> \<not> has_nul (snd fresh) \<Longrightarrow> normal_name (incoming_file_name fresh upload)"
  using safe_identifier_no_nul [of "fst fresh" "au_session_id upload"] safe_identifier_no_nul [of "snd fresh" "au_file_id upload"]
  by (auto simp: normal_name_def incoming_file_name_def has_nul_def append_eq_Cons_conv)

lemma inbox_candidate_set: "set (inbox_candidate s i) \<subseteq> set s \<union> set '' ().'' \<union> set (show_nat i)"
proof -
  have "set (case file_stem s of Some t \<Rightarrow> t | None \<Rightarrow> s) \<subseteq> set s"
    using file_stem_set [of s] by (cases "file_stem s") auto
  then show ?thesis
    using path_extension_set [of s] unfolding inbox_candidate_def Let_def by (cases "path_extension s") auto
qed

lemma inbox_candidate_normal: "\<not> has_nul s \<Longrightarrow> normal_name (inbox_candidate s i)"
proof -
  assume s: "\<not> has_nul s"
  have "CHR 0x00 \<notin> set (show_nat i)" by (rule show_nat_no_nul)
  then have "CHR 0x00 \<notin> set (inbox_candidate s i)"
    using inbox_candidate_set [of s i] s by (auto simp: has_nul_def)
  moreover have "CHR ''('' \<in> set (inbox_candidate s i)"
    unfolding inbox_candidate_def Let_def by (cases "path_extension s") auto
  ultimately show ?thesis by (auto simp: normal_name_def has_nul_def)
qed

interpretation inbox_numbers: numbered_names inbox_candidate
proof
  show "inbox_candidate s i = inbox_candidate s j \<Longrightarrow> i = j" for s i j
    unfolding inbox_candidate_def Let_def by (cases "path_extension s") auto
qed (rule inbox_candidate_normal)

lemma path_exists_dir:
  assumes "fs_wf fs" "list_all normal_name inbox" "fs inbox = Some Dir" "normal_name n"
  shows "path_exists (inbox @ [n]) fs = Inr (fs (inbox @ [n]) \<noteq> None)"
  using fs_metadata_wf [OF assms(1,2,4,3)] by (cases "fs (inbox @ [n])") (simp_all add: path_exists_def fs_try_exists_def)

lemma inbox_search_target:
  assumes "inbox_search fs inbox s i = Some (Inr t)"
  shows "\<exists>k. t = inbox @ [inbox_candidate s k] \<and> path_exists t fs = Inr False"
proof -
  have "\<forall>t. r = Inr t \<longrightarrow> (\<exists>k. t = inbox @ [inbox_candidate s k] \<and> path_exists t fs = Inr False)" if "inbox_search fs inbox s i = Some r" for r
    using that by (rule inbox_search.raw_induct [rotated]) (auto split: sum.splits if_splits)
  then show ?thesis using assms by blast
qed

lemma next_target_free:
  assumes "next_available_target inbox s fs = Some (Inr t)"
  shows "\<exists>n. t = inbox @ [n] \<and> \<not> is_ok (fs_metadata t fs) \<and> (n = s \<or> (\<exists>k. n = inbox_candidate s k))"
proof -
  have "\<exists>n. t = inbox @ [n] \<and> path_exists t fs = Inr False \<and> (n = s \<or> (\<exists>k. n = inbox_candidate s k))"
    using assms inbox_search_target [of fs inbox s 1 t] by (auto simp: next_available_target_def split: sum.splits if_splits)
  then show ?thesis by (auto simp: path_exists_def fs_try_exists_def is_ok_iff split: sum.splits IoError.splits)
qed

lemma inbox_search_total:
  assumes "fs_wf fs" "list_all normal_name inbox" "fs inbox = Some Dir" "\<not> has_nul s"
    "unat i \<le> j" "j < 2 ^ 32" "fs (inbox @ [inbox_candidate s j]) = None"
  shows "\<exists>t. inbox_search fs inbox s i = Some (Inr t)"
  using assms(5)
proof (induction "j - unat i" arbitrary: i)
  case 0
  then have "unat i = j" by simp
  then show ?case
    using path_exists_dir [OF assms(1-3) inbox_candidate_normal [OF assms(4)]] assms(7) by (subst inbox_search.simps) simp
next
  case (Suc k)
  then have "unat i + 1 < 2 ^ 32" using assms(6) by linarith
  then have "unat (i + 1) = Suc (unat i)" by (simp add: unat_word_ariths)
  then have "\<exists>t. inbox_search fs inbox s (i + 1) = Some (Inr t)" using Suc by (intro Suc.hyps(1)) simp_all
  then show ?case
    using path_exists_dir [OF assms(1-3) inbox_candidate_normal [OF assms(4)]] by (subst inbox_search.simps) auto
qed

lemma next_target_total:
  assumes "fs_wf fs" "list_all normal_name inbox" "fs inbox = Some Dir" "normal_name s"
    "finite (inbox_names inbox fs)" "card (inbox_names inbox fs) < 2 ^ 32 - 1"
  shows "\<exists>t. next_available_target inbox s fs = Some (Inr t)"
proof -
  have nul: "\<not> has_nul s" using assms(4) by (simp add: normal_name_def)
  obtain j where j: "1 \<le> j" "j \<le> 2 ^ 32 - 1" "\<not> is_ok (fs_metadata (inbox @ [inbox_candidate s j]) fs)"
    using inbox_numbers.free_index [OF assms(2) nul assms(5,6)] by auto
  have "fs (inbox @ [inbox_candidate s j]) = None"
    using j(3) fs_metadata_wf [OF assms(1,2) inbox_candidate_normal [OF nul] assms(3)] by (auto simp: is_ok_iff ok_or_Inr_iff)
  then have "\<exists>t. inbox_search fs inbox s 1 = Some (Inr t)"
    using j by (intro inbox_search_total [OF assms(1-3) nul]) auto
  then show ?thesis using path_exists_dir [OF assms(1-4)] by (auto simp: next_available_target_def)
qed

section \<open>Receiving and publishing\<close>

definition incoming_path :: "string \<times> string \<Rightarrow> path \<Rightarrow> 'j AuthorizedUpload \<Rightarrow> path" where
  "incoming_path fresh inbox upload = (inbox @ [''.incoming'']) @ [incoming_file_name fresh upload]"

definition with_incoming :: "path \<Rightarrow> fs \<Rightarrow> fs" where
  "with_incoming inbox fs = (\<lambda>q. if prefix q (inbox @ [''.incoming'']) then Some Dir else fs q)"

definition upload_verified :: "(bytes \<Rightarrow> bytes) \<Rightarrow> 'j FileMeta \<Rightarrow> bytes \<Rightarrow> bool" where
  "upload_verified sha256 meta body \<longleftrightarrow> length body = unat (fm_size meta)
     \<and> (case fm_sha256 meta of Some expected \<Rightarrow> eq_ignore_ascii_case expected (hex_digest (sha256 body)) | None \<Rightarrow> True)"

text \<open>A usable inbox, identifiers as UUIDs are printed, and a declared size a 64-bit counter can reach.\<close>

definition upload_setting :: "fs \<Rightarrow> path \<Rightarrow> string \<times> string \<Rightarrow> 'j AuthorizedUpload \<Rightarrow> bool" where
  "upload_setting fs inbox fresh upload \<longleftrightarrow> fs_wf fs \<and> list_all normal_name inbox
     \<and> \<not> has_nul (fst fresh) \<and> \<not> has_nul (snd fresh) \<and> unat (fm_size (au_meta upload)) + 8192 < 2 ^ 64"

lemma incoming_normal: "normal_name ''.incoming''"
  by (simp add: normal_name_def has_nul_def)

lemma with_incoming_dirs:
  assumes "fs_wf fs" "list_all normal_name inbox" "create_dir_all (inbox @ [''.incoming'']) fs = Inr fs1"
  shows "fs1 = with_incoming inbox fs" "fs_wf fs1" "fs1 inbox = Some Dir" "fs1 (inbox @ [''.incoming'']) = Some Dir"
    "create_dir_all inbox fs1 = Inr fs1"
proof -
  have n: "list_all normal_name (inbox @ [''.incoming''])" using assms(2) incoming_normal by simp
  show fs1: "fs1 = with_incoming inbox fs"
    using create_dir_all_Inr [OF assms(3) n] assms(1) by (simp add: with_incoming_def fs_wf_def)
  show wf: "fs_wf fs1" by (rule create_dir_all_wf [OF assms(3) n assms(1)])
  show d: "fs1 inbox = Some Dir" "fs1 (inbox @ [''.incoming'']) = Some Dir" by (simp_all add: fs1 with_incoming_def)
  show "create_dir_all inbox fs1 = Inr fs1" by (rule create_dir_all_id [OF wf assms(2) d(1)])
qed

lemma incoming_walk:
  assumes "upload_setting fs inbox fresh upload" "create_dir_all (inbox @ [''.incoming'']) fs = Inr fs1"
  shows "walk fs1 [] (incoming_path fresh inbox upload) = Inr (incoming_path fresh inbox upload)"
proof -
  note set = assms(1) [unfolded upload_setting_def]
  have "fs_wf fs" "list_all normal_name inbox" using set by auto
  note d = with_incoming_dirs [OF this assms(2)]
  show ?thesis unfolding incoming_path_def
    using set incoming_normal incoming_file_name_normal [of fresh upload] by (intro walk_wf [OF d(2) _ _ d(4)]) auto
qed

lemma receive_upload_steps:
  assumes "upload_setting fs inbox fresh upload" "create_dir_all (inbox @ [''.incoming'']) fs = Inr fs1"
    "validate_file_name (fm_file_name (au_meta upload)) = Inr n" "fs1 (incoming_path fresh inbox upload) \<noteq> Some Dir"
    "write_loop (incoming_path fresh inbox upload) (fm_size (au_meta upload)) reader 0 []
       (fs1(incoming_path fresh inbox upload \<mapsto> File [])) = (res, fs')"
  shows "receive_upload sha256 fresh inbox upload reader fs = (case res of Inl e \<Rightarrow> (Inl e, fs') | Inr (bytes_written, hashed) \<Rightarrow>
    if bytes_written \<noteq> fm_size (au_meta upload)
    then (Inl (inbox_error (''upload size mismatch: expected '' @ show_nat (unat (fm_size (au_meta upload)))
              @ '', got '' @ show_nat (unat bytes_written))), fs')
    else if (case fm_sha256 (au_meta upload) of Some expected \<Rightarrow> \<not> eq_ignore_ascii_case expected (hex_digest (sha256 hashed)) | None \<Rightarrow> False)
    then (Inl (LsCrypto ''upload sha256 mismatch''), fs')
    else (Inr (n, incoming_path fresh inbox upload, bytes_written, hex_digest (sha256 hashed)), fs'))"
proof -
  have "fs_wf fs" "list_all normal_name inbox" using assms(1) by (auto simp: upload_setting_def)
  note d = with_incoming_dirs [OF this assms(2)]
  have "fs_create (incoming_path fresh inbox upload) fs1 =
      Inr (incoming_path fresh inbox upload, fs1(incoming_path fresh inbox upload \<mapsto> File []))"
    using incoming_walk [OF assms(1,2)] assms(4) by (simp add: fs_create_def)
  then show ?thesis
    using assms(2,3,5) d(5) unfolding receive_upload_def incoming_path_def [symmetric] Let_def
    by (cases res) (auto simp: sr_bind_def sr_modify_def)
qed

lemma receive_upload_effect:
  assumes "upload_setting fs inbox fresh upload" "receive_upload sha256 fresh inbox upload reader fs = (res, fs')"
  shows "fs' \<in> {fs, with_incoming inbox fs} \<and> (\<forall>r. res \<noteq> Inr r) \<or>
    create_dir_all (inbox @ [''.incoming'']) fs = Inr (with_incoming inbox fs) \<and> with_incoming inbox fs (incoming_path fresh inbox upload) \<noteq> Some Dir \<and>
    (\<exists>new. fs' = (with_incoming inbox fs)(incoming_path fresh inbox upload \<mapsto> File new) \<and>
      (\<forall>r. res = Inr r \<longrightarrow> reader_body reader = Some new \<and> upload_verified sha256 (au_meta upload) new \<and>
        r = (fm_file_name (au_meta upload), incoming_path fresh inbox upload, fm_size (au_meta upload), hex_digest (sha256 new))))"
    (is "?untouched \<or> ?created")
proof (cases "validate_file_name (fm_file_name (au_meta upload))")
  case (Inl e)
  then show ?thesis using assms(2) by (intro disjI1) (auto simp: receive_upload_def)
next
  case (Inr n)
  have n: "n = fm_file_name (au_meta upload)" using Inr validate_file_name_iff by blast
  show ?thesis
  proof (cases "create_dir_all (inbox @ [''.incoming'']) fs")
    case (Inl e)
    then show ?thesis using assms(2) Inr by (intro disjI1) (auto simp: receive_upload_def Let_def sr_bind_def sr_modify_def)
  next
    case (Inr fs1)
    have set: "fs_wf fs" "list_all normal_name inbox" "unat (fm_size (au_meta upload)) + 8192 < 2 ^ 64"
      using assms(1) by (auto simp: upload_setting_def)
    note d = with_incoming_dirs [OF set(1,2) Inr]
    let ?q = "incoming_path fresh inbox upload"
    show ?thesis
    proof (cases "fs1 ?q = Some Dir")
      case True
      then have "fs_create ?q fs1 = Inl IsADirectory" using incoming_walk [OF assms(1) Inr] by (simp add: fs_create_def)
      then show ?thesis
        using assms(2) Inr d(1,5) \<open>validate_file_name _ = Inr n\<close> unfolding receive_upload_def incoming_path_def [symmetric] Let_def
        by (intro disjI1) (auto simp: sr_bind_def sr_modify_def)
    next
      case False
      obtain r2 fs2 where wl: "write_loop ?q (fm_size (au_meta upload)) reader 0 [] (fs1(?q \<mapsto> File [])) = (r2, fs2)" by fastforce
      obtain new where new: "fs2 = fs1(?q \<mapsto> File new)" "\<forall>r. r2 = Inr r \<longrightarrow> reader_body reader = Some new
          \<and> length new \<le> unat (fm_size (au_meta upload)) \<and> r = (of_nat (length new), new)"
        using write_loop_effect [of ?q "fm_size (au_meta upload)" reader "[]" "fs1(?q \<mapsto> File [])" r2 fs2 "[]"] wl set(3) by auto
      have len: "length new = unat (fm_size (au_meta upload))"
        if "of_nat (length new) = fm_size (au_meta upload)" "length new \<le> unat (fm_size (au_meta upload))"
        using that(2) set(3) unat_of_nat_u64 [of "length new"] unfolding that(1) by linarith
      show ?thesis
        using receive_upload_steps [OF assms(1) Inr \<open>validate_file_name _ = Inr n\<close> False wl, of sha256] assms(2) False Inr d(1) new n len
        by (intro disjI2) (auto simp: upload_verified_def split: sum.splits if_splits option.splits)
    qed
  qed
qed

lemma incoming_path_facts:
  "incoming_path fresh inbox upload \<noteq> inbox @ [n]" "incoming_path fresh inbox upload \<noteq> inbox"
  "\<not> prefix (incoming_path fresh inbox upload) (inbox @ [''.incoming''])"
  by (auto simp: incoming_path_def dest: prefix_length_le)

text \<open>The part file after a successful reception, and the directory tree around it.\<close>

lemma received_tree:
  assumes "upload_setting fs inbox fresh upload" "create_dir_all (inbox @ [''.incoming'']) fs = Inr (with_incoming inbox fs)"
    "with_incoming inbox fs (incoming_path fresh inbox upload) \<noteq> Some Dir"
    "fs' = (with_incoming inbox fs)(incoming_path fresh inbox upload \<mapsto> File body)"
  shows "fs_wf fs'" "fs' inbox = Some Dir" "walk fs' [] (incoming_path fresh inbox upload) = Inr (incoming_path fresh inbox upload)"
proof -
  have set: "fs_wf fs" "list_all normal_name inbox" using assms(1) by (auto simp: upload_setting_def)
  note d = with_incoming_dirs [OF set assms(2)]
  show wf: "fs_wf fs'"
    using fs_wf_put_file [OF d(2,4)] assms(3,4) unfolding incoming_path_def by simp
  show "fs' inbox = Some Dir" using d(3) incoming_path_facts(2) [of fresh inbox upload] by (simp add: assms(4))
  have "fs' (inbox @ [''.incoming'']) = Some Dir" using d(4) by (simp add: assms(4) incoming_path_def)
  then show "walk fs' [] (incoming_path fresh inbox upload) = Inr (incoming_path fresh inbox upload)"
    unfolding incoming_path_def
    using assms(1) incoming_normal incoming_file_name_normal [of fresh upload] by (intro walk_wf [OF wf]) (auto simp: upload_setting_def)
qed

lemma publish_upload:
  assumes "upload_setting fs inbox fresh upload" "create_dir_all (inbox @ [''.incoming'']) fs = Inr (with_incoming inbox fs)"
    "with_incoming inbox fs (incoming_path fresh inbox upload) \<noteq> Some Dir"
    "fs' = (with_incoming inbox fs)(incoming_path fresh inbox upload \<mapsto> File body)"
    "next_available_target inbox s fs' = Some (Inr t)" "fs_rename (incoming_path fresh inbox upload) t fs' = Inr fs''"
  shows "\<exists>name. t = inbox @ [name] \<and> normal_name name \<and> fs t = None \<and> name \<noteq> ''.incoming''
    \<and> fs'' = (fs'(incoming_path fresh inbox upload := None))(t \<mapsto> File body)"
proof -
  note tree = received_tree [OF assms(1-4)]
  have norm: "list_all normal_name inbox" using assms(1) by (simp add: upload_setting_def)
  obtain n where n: "t = inbox @ [n]" "\<not> is_ok (fs_metadata t fs')" using next_target_free [OF assms(5)] by blast
  obtain q where q: "walk fs' [] t = Inr q" using assms(6) by (auto simp: fs_rename_def res_iffs)
  have t: "q = t \<and> fs' t = None \<and> normal_name n" using target_fresh [OF tree(1) norm, of n q] n q by auto
  have "fs t = None" using t assms(4) by (auto simp: with_incoming_def split: if_splits)
  moreover have "n \<noteq> ''.incoming''" using t n(1) assms(4) by (auto simp: with_incoming_def split: if_splits)
  moreover have "fs'' = (fs'(incoming_path fresh inbox upload := None))(t \<mapsto> File body)"
    using assms(6) t q tree(3) by (simp add: fs_rename_def assms(4))
  ultimately show ?thesis using n(1) t by (intro exI [of _ n] conjI) simp_all
qed

lemma publish_total:
  assumes "upload_setting fs inbox fresh upload" "create_dir_all (inbox @ [''.incoming'']) fs = Inr (with_incoming inbox fs)"
    "with_incoming inbox fs (incoming_path fresh inbox upload) \<noteq> Some Dir"
    "fs' = (with_incoming inbox fs)(incoming_path fresh inbox upload \<mapsto> File body)"
    "normal_name s" "finite (inbox_names inbox fs)" "card (inbox_names inbox fs) < 2 ^ 32 - 2"
  shows "\<exists>t fs''. next_available_target inbox s fs' = Some (Inr t) \<and> fs_rename (incoming_path fresh inbox upload) t fs' = Inr fs''"
proof -
  note tree = received_tree [OF assms(1-4)]
  have norm: "list_all normal_name inbox" using assms(1) by (simp add: upload_setting_def)
  have names: "inbox_names inbox fs' \<subseteq> insert ''.incoming'' (inbox_names inbox fs)"
    using incoming_path_facts(1) [of fresh inbox upload, symmetric] by (auto simp: inbox_names_def assms(4) with_incoming_def split: if_splits)
  then have "card (inbox_names inbox fs') \<le> Suc (card (inbox_names inbox fs))"
    using card_mono [OF _ names] assms(6) card_insert_le_m1 by (simp add: card_insert_if split: if_splits)
  then obtain t where t: "next_available_target inbox s fs' = Some (Inr t)"
    using next_target_total [OF tree(1) norm tree(2) assms(5) finite_subset [OF names]] assms(6,7) by auto
  obtain n where n: "t = inbox @ [n]" "\<not> is_ok (fs_metadata t fs')" "n = s \<or> (\<exists>k. n = inbox_candidate s k)"
    using next_target_free [OF t] by blast
  have "normal_name n" using n(3) assms(5) inbox_candidate_normal [of s] by (auto simp: normal_name_def)
  then have "walk fs' [] t = Inr t" using walk_wf [OF tree(1) norm _ tree(2)] n(1) by simp
  moreover from this have "fs' t = None" using n(2) by (cases "fs' t") (auto simp: fs_metadata_def)
  ultimately show ?thesis using t tree(3) by (simp add: fs_rename_def assms(4))
qed

lemma upload_received:
  assumes "upload_setting fs inbox fresh upload" "reader_body reader = Some body" "upload_verified sha256 (au_meta upload) body"
    and "validate_file_name (fm_file_name (au_meta upload)) = Inr s" "\<not> has_nul s"
    and "\<forall>p b. prefix p (inbox @ [''.incoming'']) \<longrightarrow> fs p \<noteq> Some (File b)" "fs (incoming_path fresh inbox upload) \<noteq> Some Dir"
  shows "receive_upload sha256 fresh inbox upload reader fs = (Inr (s, incoming_path fresh inbox upload, fm_size (au_meta upload),
      hex_digest (sha256 body)), (with_incoming inbox fs)(incoming_path fresh inbox upload \<mapsto> File body))"
    "create_dir_all (inbox @ [''.incoming'']) fs = Inr (with_incoming inbox fs)"
    "with_incoming inbox fs (incoming_path fresh inbox upload) \<noteq> Some Dir" "normal_name s"
proof -
  have set: "fs_wf fs" "list_all normal_name inbox" "unat (fm_size (au_meta upload)) + 8192 < 2 ^ 64"
    using assms(1) by (auto simp: upload_setting_def)
  have "\<exists>fs1. create_dir_all (inbox @ [''.incoming'']) fs = Inr fs1"
    unfolding create_dir_all_def by (rule mkdirs_ok) (use set(2) incoming_normal assms(6) in auto)
  then show dirs: "create_dir_all (inbox @ [''.incoming'']) fs = Inr (with_incoming inbox fs)"
    using with_incoming_dirs(1) [OF set(1,2)] by auto
  let ?q = "incoming_path fresh inbox upload" and ?fs = "with_incoming inbox fs"
  show nd: "?fs ?q \<noteq> Some Dir" using assms(7) incoming_path_facts(3) [of fresh inbox upload] by (simp add: with_incoming_def)
  have len: "length body \<le> unat (fm_size (au_meta upload))" using assms(3) by (simp add: upload_verified_def)
  obtain x fs2 where wl: "write_loop ?q (fm_size (au_meta upload)) reader 0 [] (?fs(?q \<mapsto> File [])) = (Inr x, fs2)"
    using write_loop_total [OF assms(2), of "[]" "fm_size (au_meta upload)" "?fs(?q \<mapsto> File [])" ?q "[]"] len set(3)
    by (auto simp: fst_def split: prod.splits)
  have x: "fs2 = ?fs(?q \<mapsto> File body)" "x = (of_nat (length body), body)"
    using write_loop_effect [of ?q "fm_size (au_meta upload)" reader "[]" "?fs(?q \<mapsto> File [])" "Inr x" fs2 "[]"] wl set(3) assms(2) by auto
  have "of_nat (length body) = fm_size (au_meta upload)" using assms(3) by (simp add: upload_verified_def)
  then show "receive_upload sha256 fresh inbox upload reader fs = (Inr (s, ?q, fm_size (au_meta upload), hex_digest (sha256 body)), ?fs(?q \<mapsto> File body))"
    using receive_upload_steps [OF assms(1) dirs assms(4) nd wl, of sha256] assms(3) x by (auto simp: upload_verified_def split: option.splits)
  show "normal_name s" using assms(4,5) validate_file_name_iff by (auto simp: normal_name_def)
qed

text \<open>C20. What the inbox writer may do to the disk. Whatever the sender streams and however the upload
  ends, a path of the file system changes only if it is a directory created on the way to
  \<open>.incoming\<close>, the part file of this upload, or the published file. On success the published file is a
  new entry directly in the inbox, nothing was overwritten, the part file is gone, and the content is
  exactly the stream: as long as declared and with the declared SHA-256.\<close>

theorem write_upload_publishes_verified_body:
  assumes "upload_setting fs inbox fresh upload"
    and "write_upload sha256 fresh inbox upload reader fs = Some (res, fs')"
  shows "(\<forall>q. fs' q \<noteq> fs q \<longrightarrow> prefix q (inbox @ [''.incoming'']) \<and> fs' q = Some Dir \<or> q = incoming_path fresh inbox upload
      \<or> (\<exists>w. res = Inr w \<and> q = wu_path w))
    \<and> (\<forall>w. res = Inr w \<longrightarrow> (\<exists>name body. wu_path w = inbox @ [name] \<and> normal_name name \<and> fs (wu_path w) = None
        \<and> fs' (wu_path w) = Some (File body) \<and> fs' (incoming_path fresh inbox upload) = None
        \<and> reader_body reader = Some body \<and> upload_verified sha256 (au_meta upload) body
        \<and> wu_bytes_written w = fm_size (au_meta upload) \<and> wu_sha256 w = hex_digest (sha256 body)))"
proof -
  obtain r fs1 where r: "receive_upload sha256 fresh inbox upload reader fs = (r, fs1)" by fastforce
  from receive_upload_effect [OF assms(1) r] show ?thesis
  proof
    assume "fs1 \<in> {fs, with_incoming inbox fs} \<and> (\<forall>x. r \<noteq> Inr x)"
    moreover from this have "res = Inl (projl r)" "fs' = fs1"
      using assms(2) r by (cases r; auto simp: write_upload_def)+
    ultimately show ?thesis by (auto simp: with_incoming_def split: if_splits)
  next
    assume "create_dir_all (inbox @ [''.incoming'']) fs = Inr (with_incoming inbox fs) \<and> with_incoming inbox fs (incoming_path fresh inbox upload) \<noteq> Some Dir \<and>
      (\<exists>new. fs1 = (with_incoming inbox fs)(incoming_path fresh inbox upload \<mapsto> File new) \<and>
        (\<forall>x. r = Inr x \<longrightarrow> reader_body reader = Some new \<and> upload_verified sha256 (au_meta upload) new \<and>
          x = (fm_file_name (au_meta upload), incoming_path fresh inbox upload, fm_size (au_meta upload), hex_digest (sha256 new))))"
    then obtain body where b: "create_dir_all (inbox @ [''.incoming'']) fs = Inr (with_incoming inbox fs)"
        "with_incoming inbox fs (incoming_path fresh inbox upload) \<noteq> Some Dir"
        "fs1 = (with_incoming inbox fs)(incoming_path fresh inbox upload \<mapsto> File body)"
        "\<And>x. r = Inr x \<Longrightarrow> reader_body reader = Some body \<and> upload_verified sha256 (au_meta upload) body \<and>
          x = (fm_file_name (au_meta upload), incoming_path fresh inbox upload, fm_size (au_meta upload), hex_digest (sha256 body))"
      by blast
    show ?thesis
    proof (cases res)
      case (Inl e)
      then have "fs' = fs1" using assms(2) r
        by (auto simp: write_upload_def split: sum.splits option.splits)
      then show ?thesis using Inl b(3) by (auto simp: with_incoming_def split: if_splits)
    next
      case (Inr w)
      then obtain x where "r = Inr x" using assms(2) r by (cases r) (auto simp: write_upload_def)
      note x = b(4) [OF this] and rx = this
      have t: "next_available_target inbox (fm_file_name (au_meta upload)) fs1 = Some (Inr (wu_path w))"
        "fs_rename (incoming_path fresh inbox upload) (wu_path w) fs1 = Inr fs'"
        "wu_bytes_written w = fm_size (au_meta upload)" "wu_sha256 w = hex_digest (sha256 body)"
        using assms(2) r rx x Inr by (auto simp: write_upload_def split: sum.splits option.splits)
      from publish_upload [OF assms(1) b(1-3) t(1,2)] obtain name where
        n: "wu_path w = inbox @ [name]" "normal_name name" "fs (wu_path w) = None"
        "fs' = (fs1(incoming_path fresh inbox upload := None))(wu_path w \<mapsto> File body)" by blast
      have "incoming_path fresh inbox upload \<noteq> wu_path w" unfolding n(1) by (rule incoming_path_facts)
      then show ?thesis using Inr n x t b(3) by (auto simp: with_incoming_def split: if_splits)
    qed
  qed
qed

definition demo_upload :: "unit AuthorizedUpload" where
  "demo_upload = \<lparr>au_session_id = ''s'', au_file_id = ''a'', au_token = ''t'',
     au_meta = (demo_file ''a'')\<lparr>fm_sha256 := Some ''01020A''\<rparr>\<rparr>"

definition demo_disk :: fs where
  "demo_disk = (\<lambda>p. if p = [] then Some Dir else None)"

definition demo_reader :: reader where
  "demo_reader = [Inr [1, 2], Inr [10]]"

lemma demo_upload_ok:
  "upload_setting demo_disk [''in''] (''u'', ''v'') demo_upload" "reader_body demo_reader = Some [1, 2, 10]"
  "upload_verified (\<lambda>bs. bs) (au_meta demo_upload) [1, 2, 10]"
  "validate_file_name (fm_file_name (au_meta demo_upload)) = Inr ''a.txt''" "\<not> has_nul ''a.txt''"
  "\<forall>p b. prefix p ([''in''] @ [''.incoming'']) \<longrightarrow> demo_disk p \<noteq> Some (File b)" "demo_disk (incoming_path (''u'', ''v'') [''in''] demo_upload) \<noteq> Some Dir"
  "finite (inbox_names [''in''] demo_disk)" "card (inbox_names [''in''] demo_disk) < 2 ^ 32 - 2"
proof -
  show "upload_setting demo_disk [''in''] (''u'', ''v'') demo_upload"
    by (simp add: upload_setting_def demo_upload_def demo_file_def demo_disk_def fs_wf_def normal_name_def has_nul_def)
  show "reader_body demo_reader = Some [1, 2, 10]" by (simp add: demo_reader_def)
  show "upload_verified (\<lambda>bs. bs) (au_meta demo_upload) [1, 2, 10]" by code_simp
  show "validate_file_name (fm_file_name (au_meta demo_upload)) = Inr ''a.txt''" by code_simp
  show "\<not> has_nul ''a.txt''" by (simp add: has_nul_def)
  show "\<forall>p b. prefix p ([''in''] @ [''.incoming'']) \<longrightarrow> demo_disk p \<noteq> Some (File b)" by (simp add: demo_disk_def)
  show "demo_disk (incoming_path (''u'', ''v'') [''in''] demo_upload) \<noteq> Some Dir" by (simp add: demo_disk_def incoming_path_def)
  show "finite (inbox_names [''in''] demo_disk)" "card (inbox_names [''in''] demo_disk) < 2 ^ 32 - 2"
    by (simp_all add: inbox_names_def demo_disk_def)
qed

theorem write_upload_publishes_verified_body_witness:
  "\<exists>w fs'. upload_setting demo_disk [''in''] (''u'', ''v'') demo_upload
    \<and> write_upload (\<lambda>bs. bs) (''u'', ''v'') [''in''] demo_upload demo_reader demo_disk = Some (Inr w, fs')
    \<and> fs' (wu_path w) = Some (File [1, 2, 10]) \<and> wu_sha256 w = ''01020a''"
proof -
  note rcv = upload_received [OF demo_upload_ok(1-7)]
  obtain w fs' where w: "write_upload (\<lambda>bs. bs) (''u'', ''v'') [''in''] demo_upload demo_reader demo_disk = Some (Inr w, fs')"
    using publish_total [OF demo_upload_ok(1) rcv(2,3) refl rcv(4) demo_upload_ok(8,9), of "[1, 2, 10]"] by (auto simp: write_upload_def rcv(1))
  have "fs' (wu_path w) = Some (File [1, 2, 10]) \<and> wu_sha256 w = hex_digest [1, 2, 10]"
    using write_upload_publishes_verified_body [OF demo_upload_ok(1) w] demo_upload_ok(2) by auto
  moreover have "hex_digest [1, 2, 10] = ''01020a''" by code_simp
  ultimately show ?thesis using w demo_upload_ok(1) by auto
qed

text \<open>An honest upload is delivered. If the stream is as long as declared and has the declared
  digest, the file name is acceptable, no file stands where the directories have to go, no directory where the part
  file has to go, and the inbox has fewer than \<open>2 ^ 32 - 2\<close> entries, the writer returns with the file
  published with the streamed content; in particular the search for a free name ends. A name that is free is kept.\<close>

theorem write_upload_delivers:
  assumes "upload_setting fs inbox fresh upload" "reader_body reader = Some body" "upload_verified sha256 (au_meta upload) body"
    and "validate_file_name (fm_file_name (au_meta upload)) = Inr s" "\<not> has_nul s"
    and "\<forall>p b. prefix p (inbox @ [''.incoming'']) \<longrightarrow> fs p \<noteq> Some (File b)" "fs (incoming_path fresh inbox upload) \<noteq> Some Dir"
    and "finite (inbox_names inbox fs)" "card (inbox_names inbox fs) < 2 ^ 32 - 2"
  shows "\<exists>w fs'. write_upload sha256 fresh inbox upload reader fs = Some (Inr w, fs') \<and> fs' (wu_path w) = Some (File body)
    \<and> (fs (inbox @ [s]) = None \<and> s \<noteq> ''.incoming'' \<longrightarrow> wu_path w = inbox @ [s])"
proof -
  let ?q = "incoming_path fresh inbox upload"
  let ?fs = "(with_incoming inbox fs)(?q \<mapsto> File body)"
  note rcv = upload_received [OF assms(1-7)]
  obtain t fs'' where t: "next_available_target inbox s ?fs = Some (Inr t)" "fs_rename ?q t ?fs = Inr fs''"
    using publish_total [OF assms(1) rcv(2,3) refl rcv(4) assms(8,9)] by blast
  have content: "fs'' t = Some (File body)" using publish_upload [OF assms(1) rcv(2,3) refl t] by auto
  have keep: "t = inbox @ [s]" if free: "fs (inbox @ [s]) = None" "s \<noteq> ''.incoming''"
  proof -
    note tree = received_tree [OF assms(1) rcv(2,3) refl, of body]
    have "?fs (inbox @ [s]) = None"
      using free incoming_path_facts(1) [of fresh inbox upload s] by (auto simp: with_incoming_def dest: prefix_length_le)
    then have "path_exists (inbox @ [s]) ?fs = Inr False"
      using path_exists_dir [OF tree(1) _ tree(2) rcv(4)] assms(1) by (simp add: upload_setting_def del: fun_upd_apply)
    then show ?thesis using t(1) by (simp add: next_available_target_def del: fun_upd_apply)
  qed
  show ?thesis using t content keep by (auto simp: write_upload_def rcv(1))
qed

theorem write_upload_delivers_witness:
  "\<exists>w fs'. write_upload (\<lambda>bs. bs) (''u'', ''v'') [''in''] demo_upload demo_reader demo_disk = Some (Inr w, fs')
    \<and> fs' (wu_path w) = Some (File [1, 2, 10]) \<and> wu_path w = [''in'', ''a.txt'']"
  using write_upload_delivers [OF demo_upload_ok] by (auto simp: demo_disk_def)

end
