(* ===== verification/LocalSend_Server.thy ===== *)
theory LocalSend_Server
  imports LocalSend_Inbox Core_Config Pairing
begin

text \<open>
  The LocalSend v2 upload server, \<open>protocol-localsend-v2/src/server.rs\<close>: receive policy, handlers and
  router over the upload sessions, the inbox writer and the trust store. The extractors of the HTTP
  library turn a raw request into the arguments of a handler, or reject it; they are the parameter
  \<open>X\<close>. A handler runs as one step of the server, at a monotonic time for the sessions and a wall-clock
  time for the trust store; it has no result when the search for a free file name never ends. The
  trust database is what opening it gives, an error or the store.
\<close>

declare inbox_search.simps [code]

section \<open>State\<close>

record LocalSendServerConfig =
  lc_info :: DeviceInfo
  lc_inbox_dir :: path
  lc_session_ttl :: nat
  lc_receive_policy :: LocalSendReceivePolicy
  lc_trusted_fingerprints :: "string list"
  lc_trusted_fingerprints_file :: "path option"
  lc_trust_db_path :: "path option"

record ServerState =
  st_info :: DeviceInfo
  st_inbox_dir :: path
  st_receive_policy :: LocalSendReceivePolicy
  st_trusted_fingerprints :: "string list"
  st_trusted_fingerprints_file :: "path option"
  st_trust_db_path :: "path option"

record 'j ServerWorld =
  sw_fs :: fs
  sw_db :: "TrustStore core_result"
  sw_sessions :: "'j SessionManager"
  sw_uuids :: nat

type_synonym ('j, 'a) server_io = "('j ServerWorld, LocalSendError, 'a) sr"

text \<open>The clock readings of a request: the monotonic clock when it is handled and when its body has been
  written, and the wall clock.\<close>

record Clock =
  ck_instant :: nat
  ck_done :: nat
  ck_unix :: int

section \<open>Fingerprints\<close>

definition ls_normalize_fingerprint :: "(string \<Rightarrow> string) \<Rightarrow> string \<Rightarrow> string option" where
  "ls_normalize_fingerprint lc fingerprint =
     (let normalized = concat (map (char_to_lowercase lc) (filter (\<lambda>ch. ch \<noteq> '':'' \<and> ch \<noteq> ''-'') (utf8_chars fingerprint)))
      in if normalized \<noteq> [] then Some normalized else None)"

definition normalize_trusted_fingerprints :: "(string \<Rightarrow> string) \<Rightarrow> string list \<Rightarrow> string list" where
  "normalize_trusted_fingerprints lc fingerprints = List.map_filter (ls_normalize_fingerprint lc) fingerprints"

text \<open>\<open>str::lines\<close>: a line feed or carriage return and line feed ends a line; an empty last line is none.\<close>

definition rs_lines :: "string \<Rightarrow> string list" where
  "rs_lines s =
     (let parts = split_on (CHR 0x0A) s;
          strip = (\<lambda>l. if l \<noteq> [] \<and> last l = CHR 0x0D then butlast l else l)
      in map strip (butlast parts) @ (if last parts = [] then [] else [last parts]))"

definition read_trusted_fingerprints_file :: "(string \<Rightarrow> string) \<Rightarrow> path \<Rightarrow> fs \<Rightarrow> string list ls_result" where
  "read_trusted_fingerprints_file lc p fs =
     res_bind (map_sum LsIo id (res_bind (fs_read p fs) (\<lambda>bs. ok_or InvalidData (string_from_utf8 bs)))) (\<lambda>contents.
       Inr (List.map_filter (ls_normalize_fingerprint lc)
         (filter (\<lambda>line. line \<noteq> [] \<and> strip_prefix ''#'' line = None) (map rs_trim (rs_lines contents)))))"

section \<open>Trust\<close>

definition open_trust_store :: "('j, TrustStore) server_io" where
  "open_trust_store = sr_gets (\<lambda>w. case sw_db w of
     Inl e \<Rightarrow> Inl (LsSession (''failed to open LocalSend trust store: '' @ core_display e)) | Inr st \<Rightarrow> Inr st)"

definition store_result :: "string \<Rightarrow> 'a core_result \<Rightarrow> 'a ls_result" where
  "store_result what r = map_sum (\<lambda>e. LsSession (what @ '': '' @ core_display e)) id r"

definition on_trust_store :: "string \<Rightarrow> (TrustStore \<Rightarrow> 'a core_result \<times> TrustStore) \<Rightarrow> TrustStore \<Rightarrow> ('j, unit) server_io" where
  "on_trust_store what f st = (\<lambda>w. case f st of (r, st') \<Rightarrow> (map_sum id (\<lambda>_. ()) (store_result what r), w\<lparr>sw_db := Inr st'\<rparr>))"

definition trusted_fingerprints :: "(string \<Rightarrow> string) \<Rightarrow> ServerState \<Rightarrow> ('j, string list) server_io" where
  "trusted_fingerprints lc state =
     sr_bind (case st_trusted_fingerprints_file state of
        Some p \<Rightarrow> sr_gets (\<lambda>w. res_map (\<lambda>fps. st_trusted_fingerprints state @ fps) (read_trusted_fingerprints_file lc p (sw_fs w)))
      | None \<Rightarrow> sr_return (st_trusted_fingerprints state)) (\<lambda>fingerprints.
     case st_trust_db_path state of
        Some _ \<Rightarrow> sr_bind open_trust_store (\<lambda>store.
          sr_gets (\<lambda>_. res_map (\<lambda>fps. fingerprints @ fps)
            (store_result ''failed to read trusted LocalSend peers'' (trusted_localsend_fingerprints store))))
      | None \<Rightarrow> sr_return fingerprints)"

definition server_record_pending :: "(string \<Rightarrow> string) \<Rightarrow> int \<Rightarrow> ServerState \<Rightarrow> DeviceInfo \<Rightarrow> string \<Rightarrow> string option \<Rightarrow> ('j, unit) server_io" where
  "server_record_pending lc now state peer fingerprint source_ip =
     (case st_trust_db_path state of
        None \<Rightarrow> sr_return ()
      | Some _ \<Rightarrow> sr_bind open_trust_store (\<lambda>store.
          sr_bind (sr_gets (\<lambda>_. store_result ''failed to read LocalSend peer status'' (is_localsend_peer_blocked lc store fingerprint))) (\<lambda>blocked.
            if blocked then sr_return ()
            else on_trust_store ''failed to record pending LocalSend peer''
                   (record_pending_localsend_peer lc now fingerprint (di_alias peer) source_ip) store)))"

definition server_record_trusted :: "(string \<Rightarrow> string) \<Rightarrow> int \<Rightarrow> ServerState \<Rightarrow> DeviceInfo \<Rightarrow> string \<Rightarrow> string option \<Rightarrow> ('j, unit) server_io" where
  "server_record_trusted lc now state peer fingerprint source_ip =
     (case st_trust_db_path state of
        None \<Rightarrow> sr_return ()
      | Some _ \<Rightarrow> sr_bind open_trust_store (\<lambda>store.
          on_trust_store ''failed to record trusted LocalSend peer''
            (record_trusted_localsend_peer lc now fingerprint (di_alias peer) source_ip) store))"

definition server_record_lan_peer :: "(string \<Rightarrow> string) \<Rightarrow> int \<Rightarrow> ServerState \<Rightarrow> DeviceInfo \<Rightarrow> string option \<Rightarrow> ('j, unit) server_io" where
  "server_record_lan_peer lc now state peer source_ip =
     (case (st_trust_db_path state, source_ip, ls_normalize_fingerprint lc (di_fingerprint peer)) of
        (Some _, Some ip, Some fingerprint) \<Rightarrow> sr_bind open_trust_store (\<lambda>store.
          on_trust_store ''failed to record LocalSend LAN peer''
            (record_localsend_lan_peer lc now
              \<lparr>ln_fingerprint = fingerprint, ln_alias = di_alias peer, ln_source_ip = ip, ln_port = di_port peer,
               ln_protocol = di_protocol peer, ln_device_model = di_device_model peer, ln_device_type = di_device_type peer,
               ln_download = di_download peer, ln_first_seen = 0, ln_last_seen = 0\<rparr>) store)
      | _ \<Rightarrow> sr_return ())"

definition authorize_prepare_upload :: "(string \<Rightarrow> string) \<Rightarrow> int \<Rightarrow> ServerState \<Rightarrow> DeviceInfo \<Rightarrow> string option \<Rightarrow> ('j, unit) server_io" where
  "authorize_prepare_upload lc now state peer source_ip =
     (case st_receive_policy state of
        PolicyAuto \<Rightarrow> sr_return ()
      | PolicyPrompt \<Rightarrow> sr_fail (LsSession ''incoming LocalSend upload requires operator approval'')
      | PolicyTrusted \<Rightarrow> (case ls_normalize_fingerprint lc (di_fingerprint peer) of
          None \<Rightarrow> sr_fail (LsSession ''incoming LocalSend upload has no peer fingerprint'')
        | Some fingerprint \<Rightarrow> sr_bind (trusted_fingerprints lc state) (\<lambda>trusted.
            if fingerprint \<in> set trusted then server_record_trusted lc now state peer fingerprint source_ip
            else sr_bind (server_record_pending lc now state peer fingerprint source_ip) (\<lambda>_.
              sr_fail (LsSession (''incoming LocalSend peer is not trusted: '' @ di_fingerprint peer))))))"

section \<open>Handlers\<close>

datatype StatusCode = OK | BAD_REQUEST | FORBIDDEN | NOT_FOUND | METHOD_NOT_ALLOWED | CONFLICT | INTERNAL_SERVER_ERROR

record LegacyDeviceInfo =
  ld_alias :: string
  ld_device_model :: "string option"
  ld_device_type :: "string option"
  ld_fingerprint :: string

datatype Response =
    RespStatus StatusCode
  | RespInfo DeviceInfo
  | RespLegacyInfo LegacyDeviceInfo
  | RespPrepared PrepareUploadResponse
  | RespTokens "(string \<times> string) list"

fun api_error :: "LocalSendError \<Rightarrow> StatusCode" where
  "api_error (LsJson _) = BAD_REQUEST"
| "api_error (LsSession _) = FORBIDDEN"
| "api_error (LsCrypto _) = BAD_REQUEST"
| "api_error (LsHttp _) = BAD_REQUEST"
| "api_error (LsIo _) = INTERNAL_SERVER_ERROR"

definition peer_source_ip :: "SocketAddr option \<Rightarrow> SocketAddr option \<Rightarrow> string option" where
  "peer_source_ip connect_info extension_addr =
     (case connect_info of
        Some addr \<Rightarrow> Some (show_ip_addr (sock_ip addr))
      | None \<Rightarrow> map_option (\<lambda>addr. show_ip_addr (sock_ip addr)) extension_addr)"

definition legacy_device_info :: "DeviceInfo \<Rightarrow> LegacyDeviceInfo" where
  "legacy_device_info i = \<lparr>ld_alias = di_alias i, ld_device_model = di_device_model i, ld_device_type = di_device_type i,
     ld_fingerprint = di_fingerprint i\<rparr>"

definition server_register :: "(string \<Rightarrow> string) \<Rightarrow> int \<Rightarrow> ServerState \<Rightarrow> string option \<Rightarrow> DeviceInfo \<Rightarrow> 'j ServerWorld
    \<Rightarrow> Response \<times> 'j ServerWorld" where
  "server_register lc now state source_ip request w =
     (RespInfo (st_info state), snd (server_record_lan_peer lc now state request source_ip w))"

definition legacy_register :: "(string \<Rightarrow> string) \<Rightarrow> int \<Rightarrow> ServerState \<Rightarrow> string option \<Rightarrow> DeviceInfo \<Rightarrow> 'j ServerWorld
    \<Rightarrow> Response \<times> 'j ServerWorld" where
  "legacy_register lc now state source_ip request w =
     (RespLegacyInfo (legacy_device_info (st_info state)), snd (server_record_lan_peer lc now state request source_ip w))"

text \<open>Checks the policy, then opens the session; the response is built from the prepared session.\<close>

definition prepare_session :: "(nat \<Rightarrow> string) \<Rightarrow> (string \<Rightarrow> string) \<Rightarrow> Clock \<Rightarrow> ServerState \<Rightarrow> string option
    \<Rightarrow> 'j PrepareUploadRequest \<Rightarrow> ('j, PreparedSession) server_io" where
  "prepare_session U lc clock state source_ip request =
     sr_bind (authorize_prepare_upload lc (ck_unix clock) state (pu_info request) source_ip) (\<lambda>_ w.
       case session_prepare U (ck_instant clock) request (sw_uuids w) (sw_sessions w) of
         (r, n, m) \<Rightarrow> (r, w\<lparr>sw_sessions := m, sw_uuids := n\<rparr>))"

definition prepare_upload :: "(nat \<Rightarrow> string) \<Rightarrow> (string \<Rightarrow> string) \<Rightarrow> Clock \<Rightarrow> ServerState \<Rightarrow> string option
    \<Rightarrow> 'j PrepareUploadRequest \<Rightarrow> 'j ServerWorld \<Rightarrow> Response \<times> 'j ServerWorld" where
  "prepare_upload U lc clock state source_ip request w =
     (case prepare_session U lc clock state source_ip request w of
        (Inr prepared, w') \<Rightarrow> (RespPrepared \<lparr>pr_session_id = ps_session_id prepared, pr_files = ps_files prepared\<rparr>, w')
      | (Inl e, w') \<Rightarrow> (RespStatus (api_error e), w'))"

definition normalize_legacy_file_type :: "string \<Rightarrow> string" where
  "normalize_legacy_file_type file_type =
     (if file_type = ''image'' then ''image/*''
      else if file_type = ''video'' then ''video/*''
      else if file_type = ''pdf'' then ''application/pdf''
      else if file_type = ''text'' then ''text/plain''
      else if file_type = ''other'' then ''application/octet-stream''
      else file_type)"

definition normalize_legacy_prepare_request :: "'j PrepareUploadRequest \<Rightarrow> 'j PrepareUploadRequest" where
  "normalize_legacy_prepare_request request = request\<lparr>pu_files :=
     map (\<lambda>(file_id, meta). (file_id, meta\<lparr>fm_id := (if fm_id meta \<noteq> file_id then file_id else fm_id meta),
       fm_file_type := map_option normalize_legacy_file_type (fm_file_type meta)\<rparr>)) (pu_files request)\<rparr>"

definition legacy_send_request :: "(nat \<Rightarrow> string) \<Rightarrow> (string \<Rightarrow> string) \<Rightarrow> Clock \<Rightarrow> ServerState \<Rightarrow> string option
    \<Rightarrow> 'j PrepareUploadRequest \<Rightarrow> 'j ServerWorld \<Rightarrow> Response \<times> 'j ServerWorld" where
  "legacy_send_request U lc clock state source_ip request w =
     (case prepare_session U lc clock state source_ip (normalize_legacy_prepare_request request) w of
        (Inr prepared, w') \<Rightarrow> (RespTokens (ps_files prepared), w')
      | (Inl e, w') \<Rightarrow> (RespStatus (api_error e), w'))"

record UploadQuery =
  uq_session_id :: string
  uq_file_id :: string
  uq_token :: string

text \<open>\<open>StreamReader\<close> over the body: empty chunks are skipped, a failing chunk is an I/O error.\<close>

definition body_reader :: "(string + bytes) list \<Rightarrow> reader" where
  "body_reader body = map (map_sum IoOther id) (filter (\<lambda>c. c \<noteq> Inr []) body)"

definition server_write_upload :: "(bytes \<Rightarrow> bytes) \<Rightarrow> (nat \<Rightarrow> string) \<Rightarrow> Clock \<Rightarrow> ServerState \<Rightarrow> UploadQuery
    \<Rightarrow> (string + bytes) list \<Rightarrow> 'j ServerWorld \<Rightarrow> (Response \<times> 'j ServerWorld) option" where
  "server_write_upload sha256 U clock state query body w =
     (case authorize_upload (ck_instant clock) (uq_session_id query) (uq_file_id query) (uq_token query) (sw_sessions w) of
        (Inl e, m) \<Rightarrow> Some (RespStatus (api_error e), w\<lparr>sw_sessions := m\<rparr>)
      | (Inr authorized, m) \<Rightarrow>
         (let drawn = (\<lambda>s. if s = [] then 1 else 0 :: nat);
              n = sw_uuids w;
              n1 = n + drawn (au_session_id authorized);
              fresh = (U n, U n1);
              w = w\<lparr>sw_sessions := m, sw_uuids := n1 + drawn (au_file_id authorized)\<rparr>
          in case write_upload sha256 fresh (st_inbox_dir state) authorized (body_reader body) (sw_fs w) of
               None \<Rightarrow> None
             | Some (Inl e, fs) \<Rightarrow> Some (RespStatus (api_error e), w\<lparr>sw_fs := fs\<rparr>)
             | Some (Inr _, fs) \<Rightarrow>
                 (case mark_uploaded (ck_done clock) (uq_session_id query) (uq_file_id query) (sw_sessions w) of
                    (Inr _, m) \<Rightarrow> Some (RespStatus OK, w\<lparr>sw_fs := fs, sw_sessions := m\<rparr>)
                  | (Inl e, m) \<Rightarrow> Some (RespStatus (api_error e), w\<lparr>sw_fs := fs, sw_sessions := m\<rparr>))))"

definition legacy_send :: "(bytes \<Rightarrow> bytes) \<Rightarrow> (nat \<Rightarrow> string) \<Rightarrow> Clock \<Rightarrow> ServerState \<Rightarrow> string \<times> string
    \<Rightarrow> (string + bytes) list \<Rightarrow> 'j ServerWorld \<Rightarrow> (Response \<times> 'j ServerWorld) option" where
  "legacy_send sha256 U clock state query body w =
     (case session_id_for_file (ck_instant clock) (fst query) (sw_sessions w) of
        (Inr (Some session_id), m) \<Rightarrow> server_write_upload sha256 U clock state
           \<lparr>uq_session_id = session_id, uq_file_id = fst query, uq_token = snd query\<rparr> body (w\<lparr>sw_sessions := m\<rparr>)
      | (Inr None, m) \<Rightarrow> Some (RespStatus FORBIDDEN, w\<lparr>sw_sessions := m\<rparr>)
      | (Inl e, m) \<Rightarrow> Some (RespStatus (api_error e), w\<lparr>sw_sessions := m\<rparr>))"

definition legacy_cancel :: "'j ServerWorld \<Rightarrow> Response \<times> 'j ServerWorld" where
  "legacy_cancel w =
     (case cancel_all (sw_sessions w) of
        (Inr _, m) \<Rightarrow> (RespStatus OK, w\<lparr>sw_sessions := m\<rparr>)
      | (Inl e, m) \<Rightarrow> (RespStatus (api_error e), w\<lparr>sw_sessions := m\<rparr>))"

definition server_cancel :: "Clock \<Rightarrow> string \<Rightarrow> 'j ServerWorld \<Rightarrow> Response \<times> 'j ServerWorld" where
  "server_cancel clock session_id w =
     (case session_cancel (ck_instant clock) session_id (sw_sessions w) of
        (Inr True, m) \<Rightarrow> (RespStatus OK, w\<lparr>sw_sessions := m\<rparr>)
      | (Inr False, m) \<Rightarrow> (RespStatus CONFLICT, w\<lparr>sw_sessions := m\<rparr>)
      | (Inl e, m) \<Rightarrow> (RespStatus (api_error e), w\<lparr>sw_sessions := m\<rparr>))"

section \<open>Router\<close>

definition API_PREFIX :: string where "API_PREFIX = ''/api/localsend/v2''"
definition LEGACY_API_PREFIX :: string where "LEGACY_API_PREFIX = ''/api/localsend/v1''"

datatype Handler = HInfo | HRegister | HPrepareUpload | HUpload | HCancel
  | HLegacyInfo | HLegacyRegister | HLegacySendRequest | HLegacySend | HLegacyCancel

definition routes :: "(string \<times> (string \<times> Handler) list) list" where
  "routes =
     [(API_PREFIX @ ''/info'', [(''GET'', HInfo), (''HEAD'', HInfo)]),
      (API_PREFIX @ ''/register'', [(''POST'', HRegister)]),
      (API_PREFIX @ ''/prepare-upload'', [(''POST'', HPrepareUpload)]),
      (API_PREFIX @ ''/upload'', [(''POST'', HUpload)]),
      (API_PREFIX @ ''/cancel'', [(''POST'', HCancel), (''DELETE'', HCancel)]),
      (LEGACY_API_PREFIX @ ''/info'', [(''GET'', HLegacyInfo), (''HEAD'', HLegacyInfo)]),
      (LEGACY_API_PREFIX @ ''/register'', [(''POST'', HLegacyRegister)]),
      (LEGACY_API_PREFIX @ ''/send-request'', [(''POST'', HLegacySendRequest)]),
      (LEGACY_API_PREFIX @ ''/send'', [(''POST'', HLegacySend)]),
      (LEGACY_API_PREFIX @ ''/cancel'', [(''POST'', HLegacyCancel)])]"

record HttpRequest =
  rq_method :: string
  rq_path :: string
  rq_query :: string
  rq_body :: "(string + bytes) list"
  rq_connect_info :: "SocketAddr option"
  rq_extension :: "SocketAddr option"

record 'j Extract =
  json_device :: "HttpRequest \<Rightarrow> StatusCode + DeviceInfo"
  json_prepare :: "HttpRequest \<Rightarrow> StatusCode + 'j PrepareUploadRequest"
  query_upload :: "HttpRequest \<Rightarrow> StatusCode + UploadQuery"
  query_legacy_send :: "HttpRequest \<Rightarrow> StatusCode + string \<times> string"
  query_cancel :: "HttpRequest \<Rightarrow> StatusCode + string"

definition rejecting :: "StatusCode + 'a \<Rightarrow> ('a \<Rightarrow> 'j ServerWorld \<Rightarrow> (Response \<times> 'j ServerWorld) option)
    \<Rightarrow> 'j ServerWorld \<Rightarrow> (Response \<times> 'j ServerWorld) option" where
  "rejecting x f w = (case x of Inl code \<Rightarrow> Some (RespStatus code, w) | Inr a \<Rightarrow> f a w)"

definition run_handler :: "(bytes \<Rightarrow> bytes) \<Rightarrow> (nat \<Rightarrow> string) \<Rightarrow> (string \<Rightarrow> string) \<Rightarrow> 'j Extract \<Rightarrow> ServerState \<Rightarrow> Clock
    \<Rightarrow> Handler \<Rightarrow> HttpRequest \<Rightarrow> 'j ServerWorld \<Rightarrow> (Response \<times> 'j ServerWorld) option" where
  "run_handler sha256 U lc X state clock h rq =
     (let source_ip = peer_source_ip (rq_connect_info rq) (rq_extension rq) in
      case h of
        HInfo \<Rightarrow> (\<lambda>w. Some (RespInfo (st_info state), w))
      | HLegacyInfo \<Rightarrow> (\<lambda>w. Some (RespLegacyInfo (legacy_device_info (st_info state)), w))
      | HRegister \<Rightarrow> rejecting (json_device X rq) (\<lambda>d w. Some (server_register lc (ck_unix clock) state source_ip d w))
      | HLegacyRegister \<Rightarrow> rejecting (json_device X rq) (\<lambda>d w. Some (legacy_register lc (ck_unix clock) state source_ip d w))
      | HPrepareUpload \<Rightarrow> rejecting (json_prepare X rq) (\<lambda>r w. Some (prepare_upload U lc clock state source_ip r w))
      | HLegacySendRequest \<Rightarrow> rejecting (json_prepare X rq) (\<lambda>r w. Some (legacy_send_request U lc clock state source_ip r w))
      | HUpload \<Rightarrow> rejecting (query_upload X rq) (\<lambda>q. server_write_upload sha256 U clock state q (rq_body rq))
      | HLegacySend \<Rightarrow> rejecting (query_legacy_send X rq) (\<lambda>q. legacy_send sha256 U clock state q (rq_body rq))
      | HCancel \<Rightarrow> rejecting (query_cancel X rq) (\<lambda>sid w. Some (server_cancel clock sid w))
      | HLegacyCancel \<Rightarrow> (\<lambda>w. Some (legacy_cancel w)))"

definition localsend_router :: "(bytes \<Rightarrow> bytes) \<Rightarrow> (nat \<Rightarrow> string) \<Rightarrow> (string \<Rightarrow> string) \<Rightarrow> 'j Extract \<Rightarrow> ServerState \<Rightarrow> Clock
    \<Rightarrow> HttpRequest \<Rightarrow> 'j ServerWorld \<Rightarrow> (Response \<times> 'j ServerWorld) option" where
  "localsend_router sha256 U lc X state clock rq w =
     (case map_of routes (rq_path rq) of
        None \<Rightarrow> Some (RespStatus NOT_FOUND, w)
      | Some methods \<Rightarrow> (case map_of methods (rq_method rq) of
          None \<Rightarrow> Some (RespStatus METHOD_NOT_ALLOWED, w)
        | Some h \<Rightarrow> run_handler sha256 U lc X state clock h rq w))"

definition server_bind :: "(string \<Rightarrow> string) \<Rightarrow> LocalSendServerConfig \<Rightarrow> fs \<Rightarrow> TrustStore core_result \<Rightarrow> ServerState \<times> 'j ServerWorld" where
  "server_bind lc config fs db =
     (\<lparr>st_info = lc_info config, st_inbox_dir = lc_inbox_dir config, st_receive_policy = lc_receive_policy config,
       st_trusted_fingerprints = normalize_trusted_fingerprints lc (lc_trusted_fingerprints config),
       st_trusted_fingerprints_file = lc_trusted_fingerprints_file config, st_trust_db_path = lc_trust_db_path config\<rparr>,
      \<lparr>sw_fs = fs, sw_db = db, sw_sessions = session_manager_new (lc_session_ttl config), sw_uuids = 0\<rparr>)"

section \<open>Runs of the server\<close>

fun serve :: "(bytes \<Rightarrow> bytes) \<Rightarrow> (nat \<Rightarrow> string) \<Rightarrow> (string \<Rightarrow> string) \<Rightarrow> 'j Extract \<Rightarrow> ServerState
    \<Rightarrow> (Clock \<times> HttpRequest) list \<Rightarrow> 'j ServerWorld \<Rightarrow> 'j ServerWorld option" where
  "serve sha256 U lc X state [] w = Some w"
| "serve sha256 U lc X state ((clock, rq) # rqs) w =
     Option.bind (localsend_router sha256 U lc X state clock rq w) (\<lambda>(_, w'). serve sha256 U lc X state rqs w')"

text \<open>The prepare request a request carries, and when the receive policy admits it.\<close>

definition handler_of :: "HttpRequest \<Rightarrow> Handler option" where
  "handler_of rq = Option.bind (map_of routes (rq_path rq)) (\<lambda>methods. map_of methods (rq_method rq))"

definition prepared_request :: "'j Extract \<Rightarrow> HttpRequest \<Rightarrow> 'j PrepareUploadRequest option" where
  "prepared_request X rq =
     (case (handler_of rq, json_prepare X rq) of
        (Some HPrepareUpload, Inr r) \<Rightarrow> Some r
      | (Some HLegacySendRequest, Inr r) \<Rightarrow> Some (normalize_legacy_prepare_request r)
      | _ \<Rightarrow> None)"

definition policy_admits :: "(string \<Rightarrow> string) \<Rightarrow> ServerState \<Rightarrow> DeviceInfo \<Rightarrow> 'j ServerWorld \<Rightarrow> bool" where
  "policy_admits lc state peer w =
     (case st_receive_policy state of
        PolicyAuto \<Rightarrow> True
      | PolicyPrompt \<Rightarrow> False
      | PolicyTrusted \<Rightarrow>
          (case (ls_normalize_fingerprint lc (di_fingerprint peer), fst (trusted_fingerprints lc state w)) of
             (Some fp, Inr fps) \<Rightarrow> fp \<in> set fps
           | _ \<Rightarrow> False))"

definition offered :: "'j SessionManager \<Rightarrow> (string \<times> 'j FileMeta) set" where
  "offered m = (\<Union>(_, s) \<in> set (sm_sessions m). (\<lambda>(fid, f). (fid, sf_meta f)) ` set (ss_files s))"

lemma set_alist_update: "set (AList.update k v xs) \<subseteq> insert (k, v) (set xs)"
  by (induction xs) auto

lemma set_bt_insert_subset: "set (bt_insert k v xs) \<subseteq> insert (k, v) (set xs)"
  by (induction k v xs rule: bt_insert.induct) auto

lemma offered_I: "(sid, s) \<in> set (sm_sessions m) \<Longrightarrow> (fid, f) \<in> set (ss_files s) \<Longrightarrow> (fid, sf_meta f) \<in> offered m"
  by (force simp: offered_def)

lemma offered_E:
  assumes "x \<in> offered m"
  obtains sid s f where "(sid, s) \<in> set (sm_sessions m)" "(fst x, f) \<in> set (ss_files s)" "sf_meta f = snd x"
  using assms by (force simp: offered_def)

lemma offered_mono: "set (sm_sessions m') \<subseteq> set (sm_sessions m) \<Longrightarrow> offered m' \<subseteq> offered m"
  unfolding offered_def by blast

lemma offered_insert:
  assumes "set (sm_sessions m') \<subseteq> insert (sid, s) (set (sm_sessions m))"
  shows "offered m' \<subseteq> (\<lambda>(fid, f). (fid, sf_meta f)) ` set (ss_files s) \<union> offered m"
proof -
  have "offered m' \<subseteq> (\<Union>(_, s) \<in> insert (sid, s) (set (sm_sessions m)). (\<lambda>(fid, f). (fid, sf_meta f)) ` set (ss_files s))"
    unfolding offered_def using assms by (rule UN_mono) simp
  then show ?thesis by (simp add: offered_def)
qed

lemma offered_prune: "offered (snd (prune_expired_locked now m)) \<subseteq> offered m"
  by (rule offered_mono) (auto simp: table_retain_def)

lemma offered_authorize:
  "offered (snd (authorize_upload now sid fid tok m)) \<subseteq> offered m"
  "fst (authorize_upload now sid fid tok m) = Inr au \<Longrightarrow> (fid, au_meta au) \<in> offered m \<and> au_session_id au = sid \<and> au_file_id au = fid"
proof -
  show "offered (snd (authorize_upload now sid fid tok m)) \<subseteq> offered m"
    using offered_prune by (simp add: authorize_upload_def Let_def)
  assume "fst (authorize_upload now sid fid tok m) = Inr au"
  then obtain s f where "map_of (table_retain ss_expires_at now (sm_sessions m)) sid = Some s" "map_of (ss_files s) fid = Some f"
    and au: "au_meta au = sf_meta f" "au_session_id au = sid" "au_file_id au = fid"
    by (auto simp: authorize_upload_def Let_def res_iffs split: if_splits)
  then have "(sid, s) \<in> set (sm_sessions m)" "(fid, f) \<in> set (ss_files s)"
    by (auto simp: table_retain_def dest!: map_of_SomeD)
  then show "(fid, au_meta au) \<in> offered m \<and> au_session_id au = sid \<and> au_file_id au = fid" using au offered_I by metis
qed

lemma offered_find: "offered (snd (session_id_for_file now fid m)) \<subseteq> offered m"
  using offered_prune by (simp add: session_id_for_file_def Let_def)

lemma offered_cancel: "offered (snd (session_cancel now sid m)) \<subseteq> offered m"
  by (rule offered_mono) (auto simp: session_cancel_def Let_def table_retain_def AList.delete_eq)

lemma offered_cancel_all: "offered (snd (cancel_all m)) \<subseteq> offered m"
  by (rule offered_mono) (simp add: cancel_all_def)

lemma offered_mark: "offered (snd (mark_uploaded now sid fid m)) \<subseteq> offered m"
proof (cases "map_of (table_retain ss_expires_at now (sm_sessions m)) sid")
  case None
  then show ?thesis using offered_prune by (simp add: mark_uploaded_def Let_def)
next
  case (Some s)
  show ?thesis
  proof (cases "map_of (ss_files s) fid")
    case None
    then show ?thesis using Some offered_prune by (simp add: mark_uploaded_def Let_def)
  next
    case (Some f)
    let ?fs = "AList.update fid (f\<lparr>sf_uploaded := True\<rparr>) (ss_files s)"
    have s: "(sid, s) \<in> set (sm_sessions m)"
      using map_of_SomeD [OF \<open>map_of _ sid = Some s\<close>] by (auto simp: table_retain_def)
    have metas: "(\<lambda>(fid, f). (fid, sf_meta f)) ` set ?fs \<subseteq> (\<lambda>(fid, f). (fid, sf_meta f)) ` set (ss_files s)"
      using set_alist_update [of fid "f\<lparr>sf_uploaded := True\<rparr>" "ss_files s"] map_of_SomeD [OF Some] by force
    have "set (sm_sessions (snd (mark_uploaded now sid fid m))) \<subseteq> insert (sid, s\<lparr>ss_files := ?fs\<rparr>) (set (sm_sessions m))"
      using set_alist_update [of sid "s\<lparr>ss_files := ?fs\<rparr>" "table_retain ss_expires_at now (sm_sessions m)"] Some \<open>map_of _ sid = Some s\<close>
      by (auto simp: mark_uploaded_def Let_def table_retain_def)
    then have "offered (snd (mark_uploaded now sid fid m)) \<subseteq> (\<lambda>(fid, f). (fid, sf_meta f)) ` set ?fs \<union> offered m"
      by (rule offered_insert [where s = "s\<lparr>ss_files := ?fs\<rparr>", simplified])
    moreover have "(\<lambda>(fid, f). (fid, sf_meta f)) ` set (ss_files s) \<subseteq> offered m" using offered_I [OF s] by auto
    ultimately show ?thesis using metas by blast
  qed
qed

lemma prepare_files_metas:
  "(\<lambda>(fid, f). (fid, sf_meta f)) ` set (snd (prepare_files U n files acc)) \<subseteq> set files \<union> (\<lambda>(fid, f). (fid, sf_meta f)) ` set (snd acc)"
proof (induction U n files acc rule: prepare_files.induct)
  case (2 U n file_id meta files prepared session)
  have "(\<lambda>(fid, f). (fid, sf_meta f)) ` set (bt_insert file_id \<lparr>sf_token = U n, sf_meta = meta, sf_uploaded = False\<rparr> session)
      \<subseteq> insert (file_id, meta) ((\<lambda>(fid, f). (fid, sf_meta f)) ` set session)"
    using image_mono [OF set_bt_insert_subset, of "\<lambda>(fid, f). (fid, sf_meta f)"] by fastforce
  then show ?case using 2 unfolding prepare_files.simps snd_conv list.set by blast
qed simp

lemma offered_prepare:
  assumes "session_prepare U now req n m = (r, n', m')"
  shows "offered m' \<subseteq> offered m \<union> set (pu_files req)"
proof (cases "validate_file_ids req")
  case (Inr u)
  let ?fs = "snd (prepare_files U (Suc n) (pu_files req) ([], []))"
  have "sm_sessions m' = bt_insert (U n) \<lparr>ss_expires_at = now + sm_ttl m, ss_files = ?fs\<rparr> (sm_sessions m)"
    using assms Inr by (auto simp: session_prepare_def Let_def split: prod.splits)
  then have "offered m' \<subseteq> offered m \<union> (\<lambda>(fid, f). (fid, sf_meta f)) ` set ?fs"
    using offered_insert [of m' "U n" "\<lparr>ss_expires_at = now + sm_ttl m, ss_files = ?fs\<rparr>" m]
      set_bt_insert_subset [of "U n" "\<lparr>ss_expires_at = now + sm_ttl m, ss_files = ?fs\<rparr>" "sm_sessions m"]
    by (simp add: Un_commute)
  then show ?thesis using prepare_files_metas [of U "Suc n" "pu_files req" "([], [])"] by auto
qed (use assms in \<open>simp add: session_prepare_def\<close>)

section \<open>What a request may change\<close>

definition keeps_uploads :: "'j ServerWorld \<Rightarrow> 'j ServerWorld \<Rightarrow> bool" where
  "keeps_uploads w w' \<longleftrightarrow> sw_fs w' = sw_fs w \<and> sw_sessions w' = sw_sessions w"

lemma keeps_uploads_trans: "keeps_uploads a b \<Longrightarrow> keeps_uploads b c \<Longrightarrow> keeps_uploads a c"
  by (simp add: keeps_uploads_def)

lemma keeps_uploads_basic:
  "sr_keeps keeps_uploads (sr_return x)" "sr_keeps keeps_uploads (sr_fail e)" "sr_keeps keeps_uploads (sr_gets g)"
  "sr_keeps keeps_uploads open_trust_store" "sr_keeps keeps_uploads (on_trust_store what f st)"
  by (simp_all add: sr_keeps_def keeps_uploads_def open_trust_store_def on_trust_store_def split: prod.splits)

lemmas keeps_uploads_intros = keeps_uploads_basic sr_keeps_bind [where R = keeps_uploads, OF keeps_uploads_trans]

lemma trusted_fingerprints_keeps: "sr_keeps keeps_uploads (trusted_fingerprints lc state)"
  unfolding trusted_fingerprints_def by (auto split: option.splits intro!: keeps_uploads_intros)

lemma record_keeps:
  "sr_keeps keeps_uploads (server_record_pending lc now state peer fp ip)"
  "sr_keeps keeps_uploads (server_record_trusted lc now state peer fp ip)"
  "sr_keeps keeps_uploads (server_record_lan_peer lc now state peer ip)"
  unfolding server_record_pending_def server_record_trusted_def server_record_lan_peer_def
  by (auto split: option.splits intro!: keeps_uploads_intros)

lemma authorize_keeps: "sr_keeps keeps_uploads (authorize_prepare_upload lc now state peer ip)"
  unfolding authorize_prepare_upload_def
  by (auto split: option.splits LocalSendReceivePolicy.splits intro!: keeps_uploads_intros trusted_fingerprints_keeps record_keeps)

lemma authorize_admits:
  "authorize_prepare_upload lc now state peer ip w = (Inr u, w') \<Longrightarrow> policy_admits lc state peer w"
  by (auto simp: authorize_prepare_upload_def policy_admits_def sr_bind_Inr_iff
      split: LocalSendReceivePolicy.splits option.splits if_splits)

definition admitted :: "(string \<Rightarrow> string) \<Rightarrow> 'j Extract \<Rightarrow> ServerState \<Rightarrow> HttpRequest \<Rightarrow> 'j ServerWorld \<Rightarrow> (string \<times> 'j FileMeta) set" where
  "admitted lc X state rq w =
     (case prepared_request X rq of
        Some r \<Rightarrow> if policy_admits lc state (pu_info r) w then set (pu_files r) else {}
      | None \<Rightarrow> {})"

definition upload_step :: "(bytes \<Rightarrow> bytes) \<Rightarrow> ServerState \<Rightarrow> HttpRequest \<Rightarrow> 'j ServerWorld \<Rightarrow> 'j ServerWorld \<Rightarrow> bool" where
  "upload_step sha256 state rq w w' \<longleftrightarrow> (\<exists>au fresh res. (au_file_id au, au_meta au) \<in> offered (sw_sessions w)
     \<and> write_upload sha256 fresh (st_inbox_dir state) au (body_reader (rq_body rq)) (sw_fs w) = Some (res, sw_fs w'))"

lemma prepare_session_effect:
  assumes "prepare_session U lc clock state ip r w = (res, w')"
  shows "sw_fs w' = sw_fs w" "offered (sw_sessions w') \<subseteq> offered (sw_sessions w) \<union> (if policy_admits lc state (pu_info r) w then set (pu_files r) else {})"
proof -
  obtain a w1 where a: "authorize_prepare_upload lc (ck_unix clock) state (pu_info r) ip w = (a, w1)" by fastforce
  have k: "sw_fs w1 = sw_fs w" "sw_sessions w1 = sw_sessions w"
    using authorize_keeps [of lc "ck_unix clock" state "pu_info r" ip] a by (auto simp: sr_keeps_def keeps_uploads_def dest!: spec [of _ w])
  show "sw_fs w' = sw_fs w"
    using assms a k by (cases a) (auto simp: prepare_session_def split: prod.splits)
  show "offered (sw_sessions w') \<subseteq> offered (sw_sessions w) \<union> (if policy_admits lc state (pu_info r) w then set (pu_files r) else {})"
  proof (cases a)
    case (Inl e)
    then show ?thesis using assms a k by (auto simp: prepare_session_def)
  next
    case (Inr u)
    obtain x n m where p: "session_prepare U (ck_instant clock) r (sw_uuids w1) (sw_sessions w1) = (x, n, m)" by (metis prod_cases3)
    have "w' = w1\<lparr>sw_sessions := m, sw_uuids := n\<rparr>" using assms a p Inr by (simp add: prepare_session_def)
    then show ?thesis using offered_prepare [OF p] authorize_admits a Inr k by fastforce
  qed
qed

lemma write_upload_effect:
  assumes "server_write_upload sha256 U clock state q (rq_body rq) w = Some (resp, w')"
  shows "offered (sw_sessions w') \<subseteq> offered (sw_sessions w)" "sw_fs w' \<noteq> sw_fs w \<Longrightarrow> upload_step sha256 state rq w w'"
proof -
  let ?a = "authorize_upload (ck_instant clock) (uq_session_id q) (uq_file_id q) (uq_token q) (sw_sessions w)"
  obtain r m where a: "?a = (r, m)" by fastforce
  note off = offered_authorize [of "ck_instant clock" "uq_session_id q" "uq_file_id q" "uq_token q" "sw_sessions w", unfolded a, simplified]
  have mark: "offered (snd (mark_uploaded (ck_done clock) (uq_session_id q) (uq_file_id q) m)) \<subseteq> offered (sw_sessions w)"
    using offered_mark off(1) by (rule subset_trans)
  show "offered (sw_sessions w') \<subseteq> offered (sw_sessions w)"
    using assms a off(1) mark
    by (auto simp: server_write_upload_def Let_def split: sum.splits option.splits prod.splits)
  assume "sw_fs w' \<noteq> sw_fs w"
  then obtain au where au: "r = Inr au" using assms a by (cases r) (auto simp: server_write_upload_def)
  let ?fresh = "(U (sw_uuids w), U (sw_uuids w + (if au_session_id au = [] then 1 else 0)))"
  have "\<exists>res. write_upload sha256 ?fresh (st_inbox_dir state) au (body_reader (rq_body rq)) (sw_fs w) = Some (res, sw_fs w')"
    using assms a au by (auto simp: server_write_upload_def Let_def split: sum.splits option.splits prod.splits)
  moreover have "(au_file_id au, au_meta au) \<in> offered (sw_sessions w)" using off(2) [OF au] by simp
  ultimately show "upload_step sha256 state rq w w'" unfolding upload_step_def by blast
qed

lemma legacy_send_effect:
  assumes "legacy_send sha256 U clock state q (rq_body rq) w = Some (resp, w')"
  shows "offered (sw_sessions w') \<subseteq> offered (sw_sessions w)" "sw_fs w' \<noteq> sw_fs w \<Longrightarrow> upload_step sha256 state rq w w'"
proof -
  obtain r m where f: "session_id_for_file (ck_instant clock) (fst q) (sw_sessions w) = (r, m)" by fastforce
  have off: "offered m \<subseteq> offered (sw_sessions w)" using offered_find [of "ck_instant clock" "fst q" "sw_sessions w"] f by simp
  consider (send) sid where "r = Inr (Some sid)" | (none) "sw_fs w' = sw_fs w" "sw_sessions w' = m"
    using assms f by (auto simp: legacy_send_def split: sum.splits option.splits)
  then have "offered (sw_sessions w') \<subseteq> offered (sw_sessions w) \<and> (sw_fs w' \<noteq> sw_fs w \<longrightarrow> upload_step sha256 state rq w w')"
  proof cases
    case send
    let ?w = "w\<lparr>sw_sessions := m\<rparr>"
    have "server_write_upload sha256 U clock state \<lparr>uq_session_id = sid, uq_file_id = fst q, uq_token = snd q\<rparr> (rq_body rq) ?w = Some (resp, w')"
      using assms f send by (simp add: legacy_send_def)
    note wu = write_upload_effect [OF this]
    have "upload_step sha256 state rq ?w w' \<Longrightarrow> upload_step sha256 state rq w w'" using off by (auto simp: upload_step_def)
    then show ?thesis using wu off by auto
  next
    case none
    then show ?thesis using off by simp
  qed
  then show "offered (sw_sessions w') \<subseteq> offered (sw_sessions w)" "sw_fs w' \<noteq> sw_fs w \<Longrightarrow> upload_step sha256 state rq w w'"
    by blast+
qed

lemma session_only_effect:
  "offered (sw_sessions (snd (server_cancel clock sid w))) \<subseteq> offered (sw_sessions w)" "sw_fs (snd (server_cancel clock sid w)) = sw_fs w"
  "offered (sw_sessions (snd (legacy_cancel w))) \<subseteq> offered (sw_sessions w)" "sw_fs (snd (legacy_cancel w)) = sw_fs w"
  using offered_cancel [of "ck_instant clock" sid "sw_sessions w"] offered_cancel_all [of "sw_sessions w"]
  by (auto simp: server_cancel_def legacy_cancel_def split: sum.splits bool.splits prod.splits)

lemma register_effect:
  "keeps_uploads w (snd (server_register lc now state ip d w))" "keeps_uploads w (snd (legacy_register lc now state ip d w))"
  using record_keeps(3) [of lc now state d ip] by (auto simp: server_register_def legacy_register_def sr_keeps_def)

lemma prepare_handlers_effect:
  assumes "resp_w = prepare_upload U lc clock state ip r w \<or> resp_w = legacy_send_request U lc clock state ip r0 w \<and> r = normalize_legacy_prepare_request r0"
  shows "sw_fs (snd resp_w) = sw_fs w
    \<and> offered (sw_sessions (snd resp_w)) \<subseteq> offered (sw_sessions w) \<union> (if policy_admits lc state (pu_info r) w then set (pu_files r) else {})"
proof -
  obtain res w' where p: "prepare_session U lc clock state ip r w = (res, w')" by fastforce
  then have "snd resp_w = w'"
    using assms by (cases res) (auto simp: prepare_upload_def legacy_send_request_def)
  then show ?thesis using prepare_session_effect [OF p] by simp
qed

lemma router_effect:
  assumes "localsend_router sha256 U lc X state clock rq w = Some (resp, w')"
  shows "offered (sw_sessions w') \<subseteq> offered (sw_sessions w) \<union> admitted lc X state rq w
    \<and> (sw_fs w' \<noteq> sw_fs w \<longrightarrow> upload_step sha256 state rq w w')"
proof (cases "handler_of rq")
  case None
  then have "w' = w" using assms by (auto simp: localsend_router_def handler_of_def split: option.splits)
  then show ?thesis by simp
next
  case (Some h)
  then have run: "run_handler sha256 U lc X state clock h rq w = Some (resp, w')"
    using assms by (auto simp: localsend_router_def handler_of_def bind_eq_Some_conv)
  let ?ip = "peer_source_ip (rq_connect_info rq) (rq_extension rq)"
  note reject = run_handler_def Let_def rejecting_def
  show ?thesis
  proof (cases h)
    case HRegister
    then consider "w' = w" | d where "server_register lc (ck_unix clock) state ?ip d w = (resp, w')"
      using run by (auto simp: reject split: sum.splits)
    then have "keeps_uploads w w'"
    proof cases
      case (2 d)
      then show ?thesis using register_effect(1) [of w lc "ck_unix clock" state ?ip d] by simp
    qed (simp add: keeps_uploads_def)
    then show ?thesis by (simp add: keeps_uploads_def)
  next
    case HLegacyRegister
    then consider "w' = w" | d where "legacy_register lc (ck_unix clock) state ?ip d w = (resp, w')"
      using run by (auto simp: reject split: sum.splits)
    then have "keeps_uploads w w'"
    proof cases
      case (2 d)
      then show ?thesis using register_effect(2) [of w lc "ck_unix clock" state ?ip d] by simp
    qed (simp add: keeps_uploads_def)
    then show ?thesis by (simp add: keeps_uploads_def)
  next
    case HPrepareUpload
    then consider "w' = w" | r where "json_prepare X rq = Inr r" "(resp, w') = prepare_upload U lc clock state ?ip r w"
      using run by (auto simp: reject split: sum.splits)
    then show ?thesis
    proof cases
      case (2 r)
      from prepare_handlers_effect [OF disjI1, OF 2(2)] show ?thesis
        using Some HPrepareUpload 2(1) by (simp add: admitted_def prepared_request_def)
    qed simp
  next
    case HLegacySendRequest
    then consider "w' = w" | r where "json_prepare X rq = Inr r" "(resp, w') = legacy_send_request U lc clock state ?ip r w"
      using run by (auto simp: reject split: sum.splits)
    then show ?thesis
    proof cases
      case (2 r)
      from prepare_handlers_effect [OF disjI2, OF conjI [OF 2(2) refl]] show ?thesis
        using Some HLegacySendRequest 2(1) by (simp add: admitted_def prepared_request_def)
    qed simp
  next
    case HUpload
    then consider "w' = w" | q where "server_write_upload sha256 U clock state q (rq_body rq) w = Some (resp, w')"
      using run by (auto simp: reject split: sum.splits)
    then show ?thesis by cases (use write_upload_effect in blast)+
  next
    case HLegacySend
    then consider "w' = w" | q where "legacy_send sha256 U clock state q (rq_body rq) w = Some (resp, w')"
      using run by (auto simp: reject split: sum.splits)
    then show ?thesis by cases (use legacy_send_effect in blast)+
  next
    case HCancel
    then consider "w' = w" | sid where "server_cancel clock sid w = (resp, w')"
      using run by (auto simp: reject split: sum.splits)
    then show ?thesis
    proof cases
      case (2 sid)
      then show ?thesis using session_only_effect(1,2) [of clock sid w] by auto
    qed simp
  next
    case HLegacyCancel
    then show ?thesis using run session_only_effect(3,4) [of w] by (simp add: run_handler_def le_supI1)
  qed (use run in \<open>simp_all add: run_handler_def\<close>)
qed

lemma serve_append:
  "serve sha256 U lc X state (xs @ ys) w = Option.bind (serve sha256 U lc X state xs w) (serve sha256 U lc X state ys)"
  by (induction sha256 U lc X state xs w rule: serve.induct) (auto split: Option.bind_splits)

text \<open>Every file on offer comes from a prepare request that the policy admitted when it arrived.\<close>

lemma offered_origin:
  assumes "serve sha256 U lc X state rqs w0 = Some w" "offered (sw_sessions w0) = {}" "x \<in> offered (sw_sessions w)"
  shows "\<exists>pre c rq post w1. rqs = pre @ (c, rq) # post \<and> serve sha256 U lc X state pre w0 = Some w1 \<and> x \<in> admitted lc X state rq w1"
  using assms
proof (induction rqs arbitrary: w rule: rev_induct)
  case (snoc cr rqs)
  obtain c rq where cr: "cr = (c, rq)" by fastforce
  obtain w1 resp where w1: "serve sha256 U lc X state rqs w0 = Some w1" "localsend_router sha256 U lc X state c rq w1 = Some (resp, w)"
    using snoc.prems(1) by (auto simp: serve_append cr bind_eq_Some_conv)
  consider "x \<in> offered (sw_sessions w1)" | "x \<in> admitted lc X state rq w1" using router_effect [OF w1(2)] snoc.prems(3) by blast
  then show ?case
  proof cases
    case 1
    from snoc.IH [OF w1(1) snoc.prems(2) this] obtain pre c' rq' post w2 where
      "rqs = pre @ (c', rq') # post" "serve sha256 U lc X state pre w0 = Some w2" "x \<in> admitted lc X state rq' w2" by blast
    then show ?thesis by (intro exI [of _ pre] exI [of _ c'] exI [of _ rq'] exI [of _ "post @ [cr]"] exI [of _ w2]) simp
  next
    case 2
    then show ?thesis using w1(1) cr by (intro exI [of _ rqs] exI [of _ c] exI [of _ rq] exI [of _ "[]"] exI [of _ w1]) simp
  qed
qed simp

text \<open>C4. Nothing reaches the disk without the operator's policy. If a request makes the LocalSend server
  change its file system, it is an upload into the inbox of a file that an earlier prepare request of
  the same run offered, and the receive policy admitted that request when it arrived: under \<open>Trusted\<close>
  the sender's normalised fingerprint was in the configured list, the allowlist file or the trust
  store at that moment, and under \<open>Prompt\<close> this never happens. What the upload then does to
  the disk is what the inbox writer does with that file's metadata.\<close>

theorem published_only_after_admitted_prepare:
  fixes w :: "'j ServerWorld"
  assumes "(state, w0) = server_bind lc config fs db" "serve sha256 U lc X state rqs w0 = Some w"
    and "localsend_router sha256 U lc X state clock rq w = Some (resp, w')" "sw_fs w' \<noteq> sw_fs w"
  shows "\<exists>pre c rq0 post w1 request au fresh res. rqs = pre @ (c, rq0) # post \<and> serve sha256 U lc X state pre w0 = Some w1
    \<and> prepared_request X rq0 = Some request \<and> policy_admits lc state (pu_info request) w1
    \<and> (au_file_id au, au_meta au) \<in> set (pu_files request)
    \<and> write_upload sha256 fresh (lc_inbox_dir config) au (body_reader (rq_body rq)) (sw_fs w) = Some (res, sw_fs w')"
proof -
  have "offered (sw_sessions w0) = {}" "st_inbox_dir state = lc_inbox_dir config"
    using assms(1) by (simp_all add: server_bind_def session_manager_new_def offered_def)
  moreover obtain au fresh res where au: "(au_file_id au, au_meta au) \<in> offered (sw_sessions w)"
    "write_upload sha256 fresh (st_inbox_dir state) au (body_reader (rq_body rq)) (sw_fs w) = Some (res, sw_fs w')"
    using router_effect [OF assms(3)] assms(4) unfolding upload_step_def by blast
  ultimately obtain pre c rq0 post w1 where o: "rqs = pre @ (c, rq0) # post" "serve sha256 U lc X state pre w0 = Some w1"
    "(au_file_id au, au_meta au) \<in> admitted lc X state rq0 w1" "st_inbox_dir state = lc_inbox_dir config"
    using offered_origin [OF assms(2)] by blast
  then obtain request where "prepared_request X rq0 = Some request" "policy_admits lc state (pu_info request) w1"
    "(au_file_id au, au_meta au) \<in> set (pu_files request)"
    by (auto simp: admitted_def split: option.splits if_splits)
  then show ?thesis using o(1,2,4) au(2) by metis
qed

definition demo_server_config :: LocalSendServerConfig where
  "demo_server_config = \<lparr>lc_info = demo_device, lc_inbox_dir = [''in''], lc_session_ttl = 60, lc_receive_policy = PolicyTrusted,
     lc_trusted_fingerprints = [''AB:C''], lc_trusted_fingerprints_file = None, lc_trust_db_path = None\<rparr>"

definition demo_extract :: "unit Extract" where
  "demo_extract = \<lparr>json_device = (\<lambda>_. Inr demo_device), json_prepare = (\<lambda>_. Inr demo_prepare),
     query_upload = (\<lambda>_. Inr \<lparr>uq_session_id = demo_uuid 0, uq_file_id = ''a'', uq_token = demo_uuid 1\<rparr>),
     query_legacy_send = (\<lambda>_. Inl BAD_REQUEST), query_cancel = (\<lambda>_. Inl BAD_REQUEST)\<rparr>"

definition demo_post :: "string \<Rightarrow> HttpRequest" where
  "demo_post p = \<lparr>rq_method = ''POST'', rq_path = p, rq_query = [], rq_body = [Inr [1, 2, 3]], rq_connect_info = None,
     rq_extension = None\<rparr>"

definition demo_clock :: Clock where
  "demo_clock = \<lparr>ck_instant = 5, ck_done = 6, ck_unix = 0\<rparr>"

definition demo_server :: "ServerState \<times> unit ServerWorld" where
  "demo_server = server_bind no_unicode demo_server_config demo_disk (Inr trust_open_in_memory)"

definition demo_served :: "unit ServerWorld" where
  "demo_served = the (serve (\<lambda>bs. bs) demo_uuid no_unicode demo_extract (fst demo_server)
     [(demo_clock, demo_post (API_PREFIX @ ''/prepare-upload''))] (snd demo_server))"

definition demo_uploaded :: "(Response \<times> unit ServerWorld) option" where
  "demo_uploaded = localsend_router (\<lambda>bs. bs) demo_uuid no_unicode demo_extract (fst demo_server) demo_clock
     (demo_post (API_PREFIX @ ''/upload'')) demo_served"

lemma demo_served_some:
  "serve (\<lambda>bs. bs) demo_uuid no_unicode demo_extract (fst demo_server)
     [(demo_clock, demo_post (API_PREFIX @ ''/prepare-upload''))] (snd demo_server) \<noteq> None"
  by code_simp

lemma demo_uploaded_file:
  "map_option (\<lambda>(r, w). (r, sw_fs w [''in'', ''a.txt''], sw_fs demo_served [''in'', ''a.txt''])) demo_uploaded =
     Some (RespStatus OK, Some (File [1, 2, 3]), None)"
  by code_simp

theorem published_only_after_admitted_prepare_witness:
  "\<exists>w'. demo_uploaded = Some (RespStatus OK, w') \<and> sw_fs w' [''in'', ''a.txt''] = Some (File [1, 2, 3])
    \<and> (\<exists>request. prepared_request demo_extract (demo_post (API_PREFIX @ ''/prepare-upload'')) = Some request
        \<and> policy_admits no_unicode (fst demo_server) (pu_info request) (snd demo_server))"
proof -
  obtain w' where w': "demo_uploaded = Some (RespStatus OK, w')" "sw_fs w' [''in'', ''a.txt''] = Some (File [1, 2, 3])"
    "sw_fs demo_served [''in'', ''a.txt''] = None"
    using demo_uploaded_file by auto
  have run: "serve (\<lambda>bs. bs) demo_uuid no_unicode demo_extract (fst demo_server)
      [(demo_clock, demo_post (API_PREFIX @ ''/prepare-upload''))] (snd demo_server) = Some demo_served"
    using demo_served_some by (auto simp: demo_served_def)
  have bind: "(fst demo_server, snd demo_server) = server_bind no_unicode demo_server_config demo_disk (Inr trust_open_in_memory)"
    by (simp add: demo_server_def)
  have "sw_fs w' \<noteq> sw_fs demo_served" using w'(2,3) by auto
  from published_only_after_admitted_prepare [OF bind run w'(1) [unfolded demo_uploaded_def] this]
  show ?thesis using w'(1,2) by (auto simp: Cons_eq_append_conv)
qed

end
