(* ===== verification/LocalSend_Discovery.thy ===== *)
theory LocalSend_Discovery
  imports LocalSend_Session NB_Net
begin

text \<open>
  UDP discovery of LocalSend v2, \<open>protocol-localsend-v2/src/discovery.rs\<close>, and the HTTP client the
  LocalSend code uses. The announcer's loop is a step per tick and per datagram; what it does to the
  outside is a log of actions. Sockets, JSON and \<open>reqwest\<close> are parameters.
\<close>

section \<open>The HTTP client\<close>

datatype 'j PostBody = JsonDevice DeviceInfo | JsonPrepare "'j PrepareUploadRequest" | RawBytes bytes

text \<open>A POST as the code sets it up: the parsed base (\<open>'o\<close>) with path and query, the content type and the body.\<close>

record ('o, 'j) Post =
  po_base :: 'o
  po_path :: "string option"
  po_query :: "(string \<times> string) list"
  po_content_type :: string
  po_body :: "'j PostBody"

record HttpReply =
  hr_status :: nat
  hr_json :: "string + PrepareUploadResponse"

text \<open>\<open>reqwest\<close>, \<open>url\<close> and the TLS set-up: building clients (\<open>'c\<close>), parsing a URL, sending; \<open>'s\<close> is the state of
  the network. The texts of errors and status codes are its own.\<close>

record ('c, 'o, 'j, 's) Reqwest =
  rw_protocol_versions :: "string + unit"
  rw_build :: "string + 'c"
  rw_build_pinned :: "string \<Rightarrow> string + 'c"
  rw_parse :: "string \<Rightarrow> string + 'o"
  rw_send :: "'c \<Rightarrow> ('o, 'j) Post \<Rightarrow> ('s, string, HttpReply) sr"
  rw_status_text :: "nat \<Rightarrow> string"
  rw_status_error :: "nat \<Rightarrow> string"

definition is_success :: "nat \<Rightarrow> bool" where
  "is_success status \<longleftrightarrow> 200 \<le> status \<and> status < 300"

definition error_for_status :: "('c, 'o, 'j, 's) Reqwest \<Rightarrow> HttpReply \<Rightarrow> string + HttpReply" where
  "error_for_status W reply = (if 400 \<le> hr_status reply \<and> hr_status reply < 600 then Inl (rw_status_error W (hr_status reply)) else Inr reply)"

definition http_error :: "(string + 'a) \<Rightarrow> 'a ls_result" where
  "http_error r = map_sum LsHttp id r"

definition sr_http :: "('s, string, 'a) sr \<Rightarrow> ('s, LocalSendError, 'a) sr" where
  "sr_http m = (\<lambda>s. case m s of (r, s') \<Rightarrow> (http_error r, s'))"

definition pinned_client :: "(string \<Rightarrow> string) \<Rightarrow> ('c, 'o, 'j, 's) Reqwest \<Rightarrow> string \<Rightarrow> 'c ls_result" where
  "pinned_client lc W expected_fingerprint =
     (case rw_protocol_versions W of
        Inl error \<Rightarrow> Inl (LsCrypto error)
      | Inr _ \<Rightarrow> http_error (rw_build_pinned W (pin_normalize_fingerprint lc expected_fingerprint)))"

section \<open>Announcements\<close>

definition DEFAULT_DISCOVERY_PORT :: u16 where "DEFAULT_DISCOVERY_PORT = 53317"
definition DEFAULT_DISCOVERY_ADDR :: SocketAddr where "DEFAULT_DISCOVERY_ADDR = SockV4 224 0 0 167 DEFAULT_DISCOVERY_PORT"

record Announcement =
  an_info :: DeviceInfo
  an_announcement :: bool
  an_announce :: bool

definition announce_announcement :: "DeviceInfo \<Rightarrow> Announcement" where
  "announce_announcement info = \<lparr>an_info = info, an_announcement = True, an_announce = True\<rparr>"

definition response_announcement :: "DeviceInfo \<Rightarrow> Announcement" where
  "response_announcement info = \<lparr>an_info = info, an_announcement = False, an_announce = False\<rparr>"

record LanPeer =
  lp_info :: DeviceInfo
  lp_address :: SocketAddr
  lp_source :: SocketAddr
  lp_discovered_at :: nat

record AnnouncementJson =
  announcement_to_vec :: "Announcement \<Rightarrow> string + bytes"
  announcement_from_slice :: "bytes \<Rightarrow> string + Announcement"

text \<open>What a receive leaves in the 16 KiB buffer of both loops.\<close>

definition recv_buf :: "bytes \<Rightarrow> bytes" where
  "recv_buf datagram = take (16 * 1024) datagram"

definition json_error :: "(string + 'a) \<Rightarrow> 'a ls_result" where
  "json_error r = map_sum LsJson id r"

fun peer_api_address :: "SocketAddr \<Rightarrow> u16 \<Rightarrow> SocketAddr" where
  "peer_api_address (SockV4 a b c d _) advertised_port = SockV4 a b c d advertised_port"
| "peer_api_address (SockV6 ip flowinfo scope_id _) advertised_port = SockV6 ip flowinfo scope_id advertised_port"

definition register_url :: "SocketAddr \<Rightarrow> string \<Rightarrow> string" where
  "register_url target protocol = protocol @ ''://'' @ show_socket_addr target @ ''/api/localsend/v2/register''"

text \<open>The address predicates of \<open>std::net\<close>.\<close>

fun ipv4_is_loopback :: "u8 \<Rightarrow> bool" where "ipv4_is_loopback a = (a = 127)"
fun ipv4_is_multicast :: "u8 \<Rightarrow> bool" where "ipv4_is_multicast a = (224 \<le> a \<and> a \<le> 239)"

definition ipv6_is_multicast :: "u16 list \<Rightarrow> bool" where
  "ipv6_is_multicast s \<longleftrightarrow> s \<noteq> [] \<and> unat (hd s) div 256 = 255"

fun is_safe_localsend_target :: "IpAddr \<Rightarrow> u16 \<Rightarrow> string \<Rightarrow> bool" where
  "is_safe_localsend_target ip port protocol =
     (if port = 0 then False
      else if protocol \<noteq> ''http'' \<and> protocol \<noteq> ''https'' then False
      else case ip of
        V4 a b c d \<Rightarrow> \<not> (ipv4_is_loopback a \<or> (a, b, c, d) = (0, 0, 0, 0) \<or> ipv4_is_multicast a
            \<or> (a, b, c, d) = (255, 255, 255, 255) \<or> (a, b) = (169, 254))
      | V6 s \<Rightarrow> \<not> (s = [0, 0, 0, 0, 0, 0, 0, 1] \<or> s = [0, 0, 0, 0, 0, 0, 0, 0] \<or> ipv6_is_multicast s))"

section \<open>The announcer\<close>

record DiscoveryAnnouncer =
  da_info :: DeviceInfo
  da_multicast_addr :: SocketAddr
  da_interval :: nat
  da_peer_tx :: bool            \<comment> \<open>whether a channel for observed peers is set\<close>

definition discovery_announcer_new :: "DeviceInfo \<Rightarrow> DiscoveryAnnouncer" where
  "discovery_announcer_new info = \<lparr>da_info = info, da_multicast_addr = DEFAULT_DISCOVERY_ADDR, da_interval = 5, da_peer_tx = False\<rparr>"

definition with_multicast_addr :: "SocketAddr \<Rightarrow> DiscoveryAnnouncer \<Rightarrow> DiscoveryAnnouncer" where
  "with_multicast_addr addr a = a\<lparr>da_multicast_addr := addr\<rparr>"

definition with_interval :: "nat \<Rightarrow> DiscoveryAnnouncer \<Rightarrow> DiscoveryAnnouncer" where
  "with_interval interval a = a\<lparr>da_interval := interval\<rparr>"

definition with_peer_tx :: "DiscoveryAnnouncer \<Rightarrow> DiscoveryAnnouncer" where
  "with_peer_tx a = a\<lparr>da_peer_tx := True\<rparr>"

definition should_answer :: "AnnouncementJson \<Rightarrow> DiscoveryAnnouncer \<Rightarrow> bytes \<Rightarrow> bool ls_result" where
  "should_answer J a payload =
     res_bind (json_error (announcement_from_slice J payload)) (\<lambda>announcement.
     Inr ((an_announcement announcement \<or> an_announce announcement) \<and> di_fingerprint (an_info announcement) \<noteq> di_fingerprint (da_info a)))"

text \<open>\<open>parse_peer\<close> of the announcer and of the browser: the same with the own fingerprint.\<close>

definition parse_peer :: "AnnouncementJson \<Rightarrow> string \<Rightarrow> nat \<Rightarrow> bytes \<Rightarrow> SocketAddr \<Rightarrow> LanPeer option ls_result" where
  "parse_peer J self_fingerprint now payload source =
     res_bind (json_error (announcement_from_slice J payload)) (\<lambda>announcement.
     if di_fingerprint (an_info announcement) = self_fingerprint then Inr None
     else Inr (Some \<lparr>lp_info = an_info announcement, lp_address = peer_api_address source (di_port (an_info announcement)),
            lp_source = source, lp_discovered_at = now\<rparr>))"

definition post_register_url :: "(string \<Rightarrow> string) \<Rightarrow> ('c, 'o, 'j, 's) Reqwest \<Rightarrow> DeviceInfo \<Rightarrow> string \<Rightarrow> string \<Rightarrow> ('s, LocalSendError, unit) sr" where
  "post_register_url lc W info url expected_fingerprint =
     sr_bind (sr_gets (\<lambda>_. pinned_client lc W expected_fingerprint)) (\<lambda>client.
     sr_bind (sr_gets (\<lambda>_. http_error (rw_parse W url))) (\<lambda>base.
     sr_bind (sr_http (rw_send W client \<lparr>po_base = base, po_path = None, po_query = [], po_content_type = ''application/json'',
         po_body = JsonDevice info\<rparr>)) (\<lambda>response.
     if is_success (hr_status response) then sr_return ()
     else sr_fail (LsHttp (''register response status '' @ rw_status_text W (hr_status response))))))"

datatype UdpEvent = Tick | Datagram "IoError + bytes \<times> SocketAddr"

datatype UdpAction =
    SendTo bytes SocketAddr
  | SeenPeer LanPeer
  | PostRegister string string      \<comment> \<open>URL and expected fingerprint\<close>

text \<open>The state of the loop: the network, the log of actions in order, and the clock. \<open>udp\<close> is \<open>UdpSocket::send_to\<close>.\<close>

record 's AnnouncerState =
  as_net :: 's
  as_log :: "UdpAction list"
  as_now :: nat

type_synonym ('s, 'a) announcer = "('s AnnouncerState, LocalSendError, 'a) sr"

definition act :: "UdpAction \<Rightarrow> ('s, unit) announcer" where
  "act x = (\<lambda>s. (Inr (), s\<lparr>as_log := as_log s @ [x]\<rparr>))"

definition socket_send_to :: "(bytes \<Rightarrow> SocketAddr \<Rightarrow> IoError + nat) \<Rightarrow> bytes \<Rightarrow> SocketAddr \<Rightarrow> ('s, nat) announcer" where
  "socket_send_to udp payload target =
     sr_bind (sr_gets (\<lambda>_. map_sum LsIo id (udp payload target))) (\<lambda>n. sr_bind (act (SendTo payload target)) (\<lambda>_. sr_return n))"

definition announce_once :: "AnnouncementJson \<Rightarrow> (bytes \<Rightarrow> SocketAddr \<Rightarrow> IoError + nat) \<Rightarrow> (IoError + unit) \<Rightarrow> DiscoveryAnnouncer \<Rightarrow> ('s, nat) announcer" where
  "announce_once J udp socket a =
     sr_bind (sr_gets (\<lambda>_. map_sum LsIo id socket)) (\<lambda>_.
     sr_bind (sr_gets (\<lambda>_. json_error (announcement_to_vec J (announce_announcement (da_info a))))) (\<lambda>payload.
     socket_send_to udp payload (da_multicast_addr a)))"

definition try_register :: "(string \<Rightarrow> string) \<Rightarrow> ('c, 'o, 'j, 's) Reqwest \<Rightarrow> DiscoveryAnnouncer \<Rightarrow> string \<Rightarrow> string \<Rightarrow> ('s, bool) announcer" where
  "try_register lc W a url fingerprint =
     sr_bind (act (PostRegister url fingerprint)) (\<lambda>_ s.
       case post_register_url lc W (da_info a) url fingerprint (as_net s) of (r, net) \<Rightarrow> (Inr (is_ok r), s\<lparr>as_net := net\<rparr>))"

definition answer :: "(string \<Rightarrow> string) \<Rightarrow> ('c, 'o, 'j, 's) Reqwest \<Rightarrow> AnnouncementJson \<Rightarrow> (bytes \<Rightarrow> SocketAddr \<Rightarrow> IoError + nat)
    \<Rightarrow> DiscoveryAnnouncer \<Rightarrow> bytes \<Rightarrow> SocketAddr \<Rightarrow> ('s, unit) announcer" where
  "answer lc W J udp a payload source =
     sr_bind (sr_gets (\<lambda>_. json_error (announcement_from_slice J payload))) (\<lambda>announcement.
     let info = an_info announcement; target = peer_api_address source (di_port info) in
     if \<not> is_safe_localsend_target (sock_ip target) (sock_port target) (di_protocol info) then sr_return ()
     else
       sr_bind (try_register lc W a (register_url target (di_protocol info)) (di_fingerprint info)) (\<lambda>registered.
       if registered then sr_return ()
       else sr_bind (sr_gets (\<lambda>_. json_error (announcement_to_vec J (response_announcement (da_info a))))) (\<lambda>fallback.
         sr_bind (socket_send_to udp fallback (da_multicast_addr a)) (\<lambda>_. sr_return ()))))"

definition announcer_step :: "(string \<Rightarrow> string) \<Rightarrow> ('c, 'o, 'j, 's) Reqwest \<Rightarrow> AnnouncementJson \<Rightarrow> (bytes \<Rightarrow> SocketAddr \<Rightarrow> IoError + nat)
    \<Rightarrow> DiscoveryAnnouncer \<Rightarrow> UdpEvent \<Rightarrow> ('s, unit) announcer" where
  "announcer_step lc W J udp a event =
     (case event of
        Tick \<Rightarrow>
          sr_bind (sr_gets (\<lambda>_. json_error (announcement_to_vec J (announce_announcement (da_info a))))) (\<lambda>payload.
          sr_bind (socket_send_to udp payload (da_multicast_addr a)) (\<lambda>_. sr_return ()))
      | Datagram received \<Rightarrow>
          sr_bind (sr_gets (\<lambda>_. map_sum LsIo id received)) (\<lambda>(datagram, source).
          let payload = recv_buf datagram in
          sr_bind (sr_gets (\<lambda>s. Inr (parse_peer J (di_fingerprint (da_info a)) (as_now s) payload source))) (\<lambda>parsed.
          sr_bind (case parsed of Inr (Some peer) \<Rightarrow> if da_peer_tx a then act (SeenPeer peer) else sr_return () | _ \<Rightarrow> sr_return ()) (\<lambda>_.
          case should_answer J a payload of
            Inr True \<Rightarrow> answer lc W J udp a payload source
          | _ \<Rightarrow> sr_return ()))))"

text \<open>The loop on the events of a finite stretch of time; an error ends it.\<close>

definition announcer_run :: "(string \<Rightarrow> string) \<Rightarrow> ('c, 'o, 'j, 's) Reqwest \<Rightarrow> AnnouncementJson \<Rightarrow> (bytes \<Rightarrow> SocketAddr \<Rightarrow> IoError + nat)
    \<Rightarrow> (IoError + unit) \<Rightarrow> DiscoveryAnnouncer \<Rightarrow> UdpEvent list \<Rightarrow> ('s, unit) announcer" where
  "announcer_run lc W J udp socket a events =
     sr_bind (sr_gets (\<lambda>_. map_sum LsIo id socket)) (\<lambda>_. sr_iter (announcer_step lc W J udp a) events)"

section \<open>The browser\<close>

record DiscoveryBrowser =
  db_self_fingerprint :: string
  db_multicast_addr :: SocketAddr
  db_timeout :: nat

definition discovery_browser_new :: "string \<Rightarrow> DiscoveryBrowser" where
  "discovery_browser_new self_fingerprint = \<lparr>db_self_fingerprint = self_fingerprint, db_multicast_addr = DEFAULT_DISCOVERY_ADDR, db_timeout = 5\<rparr>"

text \<open>One attempt per received result, \<open>None\<close> being a timeout; the outer \<open>None\<close> means that the attempts given do not
  end the loop.\<close>

fun listen_loop :: "AnnouncementJson \<Rightarrow> DiscoveryBrowser \<Rightarrow> nat \<Rightarrow> (IoError + bytes \<times> SocketAddr) option list \<Rightarrow> LanPeer option ls_result option" where
  "listen_loop J b now [] = None"
| "listen_loop J b now (None # rest) = Some (Inr None)"
| "listen_loop J b now (Some (Inl e) # rest) = Some (Inl (LsIo e))"
| "listen_loop J b now (Some (Inr (datagram, source)) # rest) =
     (case parse_peer J (db_self_fingerprint b) now (recv_buf datagram) source of
        Inl e \<Rightarrow> Some (Inl e)
      | Inr (Some peer) \<Rightarrow> Some (Inr (Some peer))
      | Inr None \<Rightarrow> listen_loop J b now rest)"

definition listen_once :: "AnnouncementJson \<Rightarrow> (IoError + unit) \<Rightarrow> DiscoveryBrowser \<Rightarrow> nat \<Rightarrow> (IoError + bytes \<times> SocketAddr) option list
    \<Rightarrow> LanPeer option ls_result option" where
  "listen_once J socket b now received =
     (case socket of Inl e \<Rightarrow> Some (Inl (LsIo e)) | Inr _ \<Rightarrow> listen_loop J b now received)"

section \<open>What the announcer sends\<close>

lemma act_apply [simp]: "act x s = (Inr (), s\<lparr>as_log := as_log s @ [x]\<rparr>)"
  by (simp add: act_def)

text \<open>The actions of a step are those it appends to the log.\<close>

definition logs :: "(UdpAction \<Rightarrow> bool) \<Rightarrow> 's AnnouncerState \<Rightarrow> 's AnnouncerState \<Rightarrow> bool" where
  "logs P s s' \<longleftrightarrow> (\<exists>new. as_log s' = as_log s @ new \<and> (\<forall>x \<in> set new. P x)) \<and> as_now s' = as_now s"

lemma logs_trans: "logs P a b \<Longrightarrow> logs P b c \<Longrightarrow> logs P a c"
  by (fastforce simp: logs_def)

lemma logs_refl [simp]: "logs P s s"
  by (simp add: logs_def)

lemma keeps_logs:
  "sr_keeps (logs P) (sr_return x)" "sr_keeps (logs P) (sr_fail e)" "sr_keeps (logs P) (sr_gets g)"
  "P y \<Longrightarrow> sr_keeps (logs P) (act y)"
  by (simp_all add: sr_keeps_def) (simp add: logs_def)

lemma logs_bind: "sr_keeps (logs P) m \<Longrightarrow> (\<And>x. sr_keeps (logs P) (f x)) \<Longrightarrow> sr_keeps (logs P) (sr_bind m f)"
  by (rule sr_keeps_bind) (blast intro: logs_trans)+

lemma logs_send_to: "P (SendTo payload target) \<Longrightarrow> sr_keeps (logs P) (socket_send_to udp payload target)"
  unfolding socket_send_to_def by (intro logs_bind keeps_logs)

lemma logs_try_register:
  assumes "P (PostRegister url fp)"
  shows "sr_keeps (logs P) (try_register lc W a url fp)"
proof -
  have "sr_keeps (logs P) (\<lambda>s. case post_register_url lc W (da_info a) url fp (as_net s) of (r, net) \<Rightarrow> (Inr (is_ok r), s\<lparr>as_net := net\<rparr>))"
    by (simp add: sr_keeps_def logs_def split: prod.splits)
  then show ?thesis unfolding try_register_def by (intro logs_bind keeps_logs assms)
qed

text \<open>What a datagram may cause: to this payload from this source.\<close>

definition datagram_action :: "AnnouncementJson \<Rightarrow> DiscoveryAnnouncer \<Rightarrow> bytes \<Rightarrow> SocketAddr \<Rightarrow> UdpAction \<Rightarrow> bool" where
  "datagram_action J a payload source x \<longleftrightarrow> (\<exists>an. announcement_from_slice J payload = Inr an \<and>
     di_fingerprint (an_info an) \<noteq> di_fingerprint (da_info a) \<and>
     (case x of
        SeenPeer peer \<Rightarrow> da_peer_tx a \<and> lp_info peer = an_info an \<and> sock_ip (lp_address peer) = sock_ip source \<and> lp_source peer = source
      | PostRegister url fp \<Rightarrow> (an_announcement an \<or> an_announce an) \<and> fp = di_fingerprint (an_info an) \<and>
          (\<exists>target. sock_ip target = sock_ip source \<and> url = register_url target (di_protocol (an_info an)) \<and>
             is_safe_localsend_target (sock_ip target) (sock_port target) (di_protocol (an_info an)))
      | SendTo bs target \<Rightarrow> (an_announcement an \<or> an_announce an) \<and> target = da_multicast_addr a \<and>
          announcement_to_vec J (response_announcement (da_info a)) = Inr bs))"

lemma peer_api_address_ip [simp]: "sock_ip (peer_api_address source port) = sock_ip source" "sock_port (peer_api_address source port) = port"
  by (cases source; simp)+

lemma should_answer_True:
  "should_answer J a payload = Inr True \<longleftrightarrow> (\<exists>an. announcement_from_slice J payload = Inr an \<and>
     (an_announcement an \<or> an_announce an) \<and> di_fingerprint (an_info an) \<noteq> di_fingerprint (da_info a))"
  by (cases "announcement_from_slice J payload") (auto simp: should_answer_def json_error_def)

lemma parse_peer_Some:
  "parse_peer J fp now payload source = Inr (Some peer) \<longleftrightarrow> (\<exists>an. announcement_from_slice J payload = Inr an \<and>
     di_fingerprint (an_info an) \<noteq> fp \<and>
     peer = \<lparr>lp_info = an_info an, lp_address = peer_api_address source (di_port (an_info an)), lp_source = source, lp_discovered_at = now\<rparr>)"
  by (cases "announcement_from_slice J payload") (auto simp: parse_peer_def json_error_def)

lemma answer_logs:
  assumes "should_answer J a payload = Inr True"
  shows "sr_keeps (logs (datagram_action J a payload source)) (answer lc W J udp a payload source)"
proof -
  obtain an where an: "announcement_from_slice J payload = Inr an" "an_announcement an \<or> an_announce an"
      "di_fingerprint (an_info an) \<noteq> di_fingerprint (da_info a)"
    using assms unfolding should_answer_True by blast
  let ?target = "peer_api_address source (di_port (an_info an))"
  have fb: "sr_keeps (logs (datagram_action J a payload source))
      (sr_bind (sr_gets (\<lambda>_. json_error (announcement_to_vec J (response_announcement (da_info a))))) (\<lambda>fallback.
         sr_bind (socket_send_to udp fallback (da_multicast_addr a)) (\<lambda>_. sr_return ())))"
  proof (cases "announcement_to_vec J (response_announcement (da_info a))")
    case (Inl e)
    then show ?thesis by (simp add: sr_keeps_def sr_bind_def sr_gets_def json_error_def)
  next
    case (Inr bs)
    have "sr_keeps (logs (datagram_action J a payload source)) (sr_bind (socket_send_to udp bs (da_multicast_addr a)) (\<lambda>_. sr_return ()))"
      by (intro logs_bind keeps_logs logs_send_to) (use an Inr in \<open>auto simp: datagram_action_def\<close>)
    then show ?thesis by (simp add: Inr sr_keeps_def sr_bind_def sr_gets_def json_error_def)
  qed
  have reg: "sr_keeps (logs (datagram_action J a payload source))
      (try_register lc W a (register_url ?target (di_protocol (an_info an))) (di_fingerprint (an_info an)))"
    if "is_safe_localsend_target (sock_ip ?target) (sock_port ?target) (di_protocol (an_info an))"
    by (rule logs_try_register)
      (use an that in \<open>auto simp: datagram_action_def simp del: is_safe_localsend_target.simps intro!: exI [of _ ?target]\<close>)
  have "answer lc W J udp a payload source =
      (if \<not> is_safe_localsend_target (sock_ip ?target) (sock_port ?target) (di_protocol (an_info an)) then sr_return ()
       else sr_bind (try_register lc W a (register_url ?target (di_protocol (an_info an))) (di_fingerprint (an_info an))) (\<lambda>registered.
         if registered then sr_return ()
         else sr_bind (sr_gets (\<lambda>_. json_error (announcement_to_vec J (response_announcement (da_info a))))) (\<lambda>fallback.
           sr_bind (socket_send_to udp fallback (da_multicast_addr a)) (\<lambda>_. sr_return ()))))"
    by (rule ext) (simp add: answer_def an json_error_def Let_def sr_bind_def sr_gets_def del: is_safe_localsend_target.simps)
  then show ?thesis
    by (auto simp del: is_safe_localsend_target.simps intro!: logs_bind keeps_logs reg fb)
qed

text \<open>What an event may cause.\<close>

definition event_action :: "AnnouncementJson \<Rightarrow> DiscoveryAnnouncer \<Rightarrow> UdpEvent \<Rightarrow> UdpAction \<Rightarrow> bool" where
  "event_action J a event x =
     (case event of
        Tick \<Rightarrow> (\<exists>bs. announcement_to_vec J (announce_announcement (da_info a)) = Inr bs \<and> x = SendTo bs (da_multicast_addr a))
      | Datagram (Inr (datagram, source)) \<Rightarrow> datagram_action J a (recv_buf datagram) source x
      | Datagram (Inl _) \<Rightarrow> False)"

lemma tick_logs: "sr_keeps (logs (event_action J a Tick)) (announcer_step lc W J udp a Tick)"
proof (cases "announcement_to_vec J (announce_announcement (da_info a))")
  case (Inl e)
  then show ?thesis by (simp add: announcer_step_def sr_keeps_def sr_bind_def sr_gets_def json_error_def)
next
  case (Inr bs)
  have "sr_keeps (logs (event_action J a Tick)) (sr_bind (socket_send_to udp bs (da_multicast_addr a)) (\<lambda>_. sr_return ()))"
    by (intro logs_bind keeps_logs logs_send_to) (simp_all add: event_action_def Inr)
  then show ?thesis by (simp add: announcer_step_def Inr sr_keeps_def sr_bind_def sr_gets_def json_error_def)
qed

lemma datagram_logs:
  "sr_keeps (logs (datagram_action J a (recv_buf datagram) source)) (announcer_step lc W J udp a (Datagram (Inr (datagram, source))))"
proof -
  let ?payload = "recv_buf datagram"
  let ?P = "datagram_action J a ?payload source"
  have seen: "sr_keeps (logs ?P) (case parse_peer J (di_fingerprint (da_info a)) now ?payload source of
      Inr (Some peer) \<Rightarrow> if da_peer_tx a then act (SeenPeer peer) else sr_return () | _ \<Rightarrow> sr_return ())" for now
    by (auto split: sum.splits option.splits intro!: keeps_logs)
      (auto simp: parse_peer_Some datagram_action_def)
  have ans: "sr_keeps (logs ?P) (case should_answer J a ?payload of Inr True \<Rightarrow> answer lc W J udp a ?payload source | _ \<Rightarrow> sr_return ())"
    by (auto split: sum.splits bool.splits intro!: keeps_logs answer_logs)
  have "sr_keeps (logs ?P) (sr_bind (case parse_peer J (di_fingerprint (da_info a)) now ?payload source of
      Inr (Some peer) \<Rightarrow> if da_peer_tx a then act (SeenPeer peer) else sr_return () | _ \<Rightarrow> sr_return ())
      (\<lambda>_. case should_answer J a ?payload of Inr True \<Rightarrow> answer lc W J udp a ?payload source | _ \<Rightarrow> sr_return ()))" for now
    by (rule logs_bind [OF seen ans])
  then show ?thesis
    by (simp add: announcer_step_def Let_def sr_keeps_def sr_bind_def [where m = "sr_gets g" for g] sr_gets_def)
qed

lemma step_logs: "sr_keeps (logs (event_action J a event)) (announcer_step lc W J udp a event)"
proof (cases event)
  case Tick
  then show ?thesis by (simp add: tick_logs)
next
  case (Datagram received)
  show ?thesis
  proof (cases received)
    case (Inl e)
    then show ?thesis by (simp add: Datagram announcer_step_def sr_keeps_def sr_bind_def sr_gets_def)
  next
    case (Inr p)
    obtain datagram source where p: "p = (datagram, source)" by (cases p)
    have "event_action J a event = datagram_action J a (recv_buf datagram) source"
      by (simp add: fun_eq_iff event_action_def Datagram Inr p)
    then show ?thesis using datagram_logs [of J a datagram source lc W udp] by (simp add: Datagram Inr p)
  qed
qed

lemma logs_mono: "logs P s s' \<Longrightarrow> (\<And>x. P x \<Longrightarrow> Q x) \<Longrightarrow> logs Q s s'"
  by (fastforce simp: logs_def)

lemma iter_logs:
  "(\<And>event. event \<in> set events \<Longrightarrow> sr_keeps (logs P) (f event)) \<Longrightarrow> sr_keeps (logs P) (sr_iter f events)"
  by (induction events) (auto intro!: keeps_logs logs_bind)

text \<open>
  C12. The announcer is not a relay. Whatever datagrams arrive and whatever the network answers, every action of its
  loop has a cause among the events: a tick sends the own announcement to the multicast group, and a datagram only
  causes something when it parses to an announcement of another device. A register request is only posted for an
  announcement that asks for one, to the address the datagram came from, with the announced fingerprint pinned, and only
  when that address, port and scheme pass \<open>is_safe_localsend_target\<close>; a fallback only goes to the multicast group.
\<close>

theorem announcer_run_causes:
  assumes "announcer_run lc W J udp socket a events s = (r, s')"
  shows "\<exists>new. as_log s' = as_log s @ new \<and> (\<forall>x \<in> set new. \<exists>event \<in> set events. event_action J a event x)"
proof -
  let ?P = "\<lambda>x. \<exists>event \<in> set events. event_action J a event x"
  have "sr_keeps (logs ?P) (announcer_step lc W J udp a event)" if "event \<in> set events" for event
    using step_logs [of J a event lc W udp] logs_mono [of "event_action J a event" _ _ ?P] that
    unfolding sr_keeps_def by blast
  then have "sr_keeps (logs ?P) (announcer_run lc W J udp socket a events)"
    unfolding announcer_run_def by (intro logs_bind keeps_logs iter_logs)
  then have "logs ?P s (snd (announcer_run lc W J udp socket a events s))" unfolding sr_keeps_def by blast
  then show ?thesis using assms by (simp add: logs_def)
qed

text \<open>
  C22. Every safe announcement is answered exactly once: the loop posts the own device to the announcer's register
  endpoint and, when that request fails for whatever reason, sends the response to the multicast group instead; the loop
  goes on.
\<close>

theorem announcement_answered:
  assumes parsed: "announcement_from_slice J (recv_buf datagram) = Inr an"
    and asks: "an_announcement an \<or> an_announce an" "di_fingerprint (an_info an) \<noteq> di_fingerprint (da_info a)"
    and safe: "is_safe_localsend_target (sock_ip source) (di_port (an_info an)) (di_protocol (an_info an))"
    and response: "announcement_to_vec J (response_announcement (da_info a)) = Inr bs" "udp bs (da_multicast_addr a) = Inr n"
  defines "url \<equiv> register_url (peer_api_address source (di_port (an_info an))) (di_protocol (an_info an))"
  shows "\<exists>s' seen. announcer_step lc W J udp a (Datagram (Inr (datagram, source))) s = (Inr (), s') \<and>
    as_log s' = as_log s @ seen @ PostRegister url (di_fingerprint (an_info an)) #
      (if is_ok (fst (post_register_url lc W (da_info a) url (di_fingerprint (an_info an)) (as_net s))) then [] else [SendTo bs (da_multicast_addr a)]) \<and>
    (\<forall>x \<in> set seen. \<exists>peer. x = SeenPeer peer)"
proof -
  have ans: "\<exists>s'. answer lc W J udp a (recv_buf datagram) source s0 = (Inr (), s') \<and>
      as_log s' = as_log s0 @ PostRegister url (di_fingerprint (an_info an)) #
      (if is_ok (fst (post_register_url lc W (da_info a) url (di_fingerprint (an_info an)) (as_net s0))) then [] else [SendTo bs (da_multicast_addr a)])" for s0
    using safe by (auto simp: answer_def parsed json_error_def Let_def try_register_def socket_send_to_def response
        url_def sr_bind_def sr_gets_def sr_return_def simp del: is_safe_localsend_target.simps split: prod.splits)
  have should: "should_answer J a (recv_buf datagram) = Inr True"
    unfolding should_answer_True using parsed asks by blast
  let ?peer = "\<lparr>lp_info = an_info an, lp_address = peer_api_address source (di_port (an_info an)), lp_source = source, lp_discovered_at = as_now s\<rparr>"
  have peer: "parse_peer J (di_fingerprint (da_info a)) (as_now s) (recv_buf datagram) source = Inr (Some ?peer)"
    unfolding parse_peer_Some using parsed asks by blast
  let ?seen = "if da_peer_tx a then [SeenPeer ?peer] else []"
  let ?s0 = "s\<lparr>as_log := as_log s @ ?seen\<rparr>"
  have "announcer_step lc W J udp a (Datagram (Inr (datagram, source))) s = answer lc W J udp a (recv_buf datagram) source ?s0"
    using peer should by (simp add: announcer_step_def Let_def sr_bind_def sr_gets_def sr_return_def)
  moreover obtain s' where "answer lc W J udp a (recv_buf datagram) source ?s0 = (Inr (), s')"
      "as_log s' = as_log ?s0 @ PostRegister url (di_fingerprint (an_info an)) #
      (if is_ok (fst (post_register_url lc W (da_info a) url (di_fingerprint (an_info an)) (as_net ?s0))) then [] else [SendTo bs (da_multicast_addr a)])"
    using ans by blast
  ultimately show ?thesis by (intro exI [of _ s'] exI [of _ ?seen]) simp
qed

section \<open>A concrete announcer\<close>

definition lan_device :: "string \<Rightarrow> DeviceInfo" where
  "lan_device name = \<lparr>di_alias = name, di_version = ''2.0'', di_device_model = None, di_device_type = None,
     di_fingerprint = name, di_port = 80, di_protocol = ''https'', di_download = False\<rparr>"

text \<open>A codec for the three messages of a network of two devices, and a client none of whose requests get through.\<close>

definition lan_json :: AnnouncementJson where
  "lan_json =
     \<lparr>announcement_to_vec = (\<lambda>an. Inr [if an_announce an then 1 else 2]),
      announcement_from_slice = (\<lambda>bs. if bs = [1] then Inr (announce_announcement (lan_device ''other'')) else Inl ''expected value'')\<rparr>"

definition lan_reqwest :: "(unit, string, unit, unit) Reqwest" where
  "lan_reqwest = \<lparr>rw_protocol_versions = Inr (), rw_build = Inr (), rw_build_pinned = (\<lambda>_. Inr ()), rw_parse = Inr,
     rw_send = (\<lambda>_ _. sr_fail ''connection refused''), rw_status_text = (\<lambda>_. []), rw_status_error = (\<lambda>_. [])\<rparr>"

definition lan_source :: SocketAddr where "lan_source = SockV4 10 0 0 7 5"

definition lan_run :: "(unit, unit) announcer" where
  "lan_run = announcer_run (\<lambda>_. []) lan_reqwest lan_json (\<lambda>bs _. Inr (length bs)) (Inr ())
     (discovery_announcer_new (lan_device ''self'')) [Tick, Datagram (Inr ([1], lan_source)), Datagram (Inr ([3], lan_source))]"

lemma lan_run_value: "as_log (snd (lan_run \<lparr>as_net = (), as_log = [], as_now = 0\<rparr>)) =
   [SendTo [1] DEFAULT_DISCOVERY_ADDR, PostRegister (register_url (SockV4 10 0 0 7 80) ''https'') ''other'', SendTo [2] DEFAULT_DISCOVERY_ADDR]"
  by (simp add: lan_run_def announcer_run_def announcer_step_def answer_def try_register_def should_answer_def parse_peer_def
      lan_json_def lan_device_def lan_reqwest_def lan_source_def recv_buf_def json_error_def http_error_def sr_http_def socket_send_to_def
      post_register_url_def pinned_client_def announce_announcement_def response_announcement_def discovery_announcer_new_def
      Let_def sr_bind_def sr_gets_def sr_return_def sr_fail_def)

theorem announcer_run_causes_witness:
  "\<exists>event \<in> set [Tick, Datagram (Inr ([1], lan_source)), Datagram (Inr ([3], lan_source))].
     event_action lan_json (discovery_announcer_new (lan_device ''self'')) event
       (PostRegister (register_url (SockV4 10 0 0 7 80) ''https'') ''other'')"
proof -
  obtain r s' where run: "lan_run \<lparr>as_net = (), as_log = [], as_now = 0\<rparr> = (r, s')" by (cases "lan_run \<lparr>as_net = (), as_log = [], as_now = 0\<rparr>")
  show ?thesis
    using announcer_run_causes [OF run [unfolded lan_run_def]] lan_run_value by (auto simp: run)
qed

theorem announcement_answered_witness:
  "\<exists>s' seen. announcer_step (\<lambda>_. []) lan_reqwest lan_json (\<lambda>bs _. Inr (length bs)) (discovery_announcer_new (lan_device ''self''))
     (Datagram (Inr ([1], lan_source))) \<lparr>as_net = (), as_log = [], as_now = 0\<rparr> = (Inr (), s') \<and>
     as_log s' = seen @ [PostRegister (register_url (SockV4 10 0 0 7 80) ''https'') ''other'', SendTo [2] DEFAULT_DISCOVERY_ADDR] \<and>
     (\<forall>x \<in> set seen. \<exists>peer. x = SeenPeer peer)"
proof -
  let ?an = "announce_announcement (lan_device ''other'')" and ?a = "discovery_announcer_new (lan_device ''self'')"
  have "announcement_from_slice lan_json (recv_buf [1]) = Inr ?an" "an_announcement ?an \<or> an_announce ?an"
    "di_fingerprint (an_info ?an) \<noteq> di_fingerprint (da_info ?a)"
    "is_safe_localsend_target (sock_ip lan_source) (di_port (an_info ?an)) (di_protocol (an_info ?an))"
    "announcement_to_vec lan_json (response_announcement (da_info ?a)) = Inr [2]"
    "(\<lambda>bs _. Inr (length bs)) [2 :: u8] (da_multicast_addr ?a) = Inr 1"
    by (simp_all add: lan_json_def recv_buf_def announce_announcement_def response_announcement_def lan_device_def
        discovery_announcer_new_def lan_source_def)
  from announcement_answered [where udp = "\<lambda>bs _. Inr (length bs)" and n = 1 and bs = "[2]", OF this, of "\<lambda>_. []" lan_reqwest "\<lparr>as_net = (), as_log = [], as_now = 0\<rparr>"]
  show ?thesis
    by (simp add: lan_reqwest_def post_register_url_def pinned_client_def http_error_def sr_http_def sr_bind_def sr_gets_def
        sr_fail_def lan_source_def announce_announcement_def lan_device_def discovery_announcer_new_def)
qed

end
