(* ===== verification/LocalSend_Client.thy ===== *)
theory LocalSend_Client
  imports LocalSend_Server LocalSend_Discovery
begin

text \<open>
  The upload client of LocalSend v2, \<open>protocol-localsend-v2/src/client.rs\<close>, and its composition with
  the upload server: the requests of \<open>send_files_to_url\<close> go through the server's router, and every file
  ends up in the receiver's inbox. The local file system is read from the state by \<open>files\<close>; \<open>mime\<close> is
  \<open>mime_guess\<close>.
\<close>

section \<open>The client\<close>

record 'j PendingFile =
  pf_path :: path
  pf_meta :: "'j FileMeta"

definition client_new :: "('c, 'o, 'j, 's) Reqwest \<Rightarrow> 'c ls_result" where
  "client_new W = http_error (rw_build W)"

definition client_pinned :: "(string \<Rightarrow> string) \<Rightarrow> ('c, 'o, 'j, 's) Reqwest \<Rightarrow> string \<Rightarrow> 'c ls_result" where
  "client_pinned lc W expected_fingerprint = pinned_client lc W expected_fingerprint"

definition client_file_name :: "path \<Rightarrow> string ls_result" where
  "client_file_name p =
     ok_or (LsHttp (''invalid file path '' @ path_display p))
       (case path_file_name p of Some name \<Rightarrow> if utf8_valid name \<and> name \<noteq> [] then Some name else None | None \<Rightarrow> None)"

definition client_sha256_hex :: "(bytes \<Rightarrow> bytes) \<Rightarrow> bytes \<Rightarrow> string" where
  "client_sha256_hex sha256 bs = fold (\<lambda>byte hex. hex @ hex_byte byte) (sha256 bs) []"

definition file_id_of :: "nat \<Rightarrow> string" where
  "file_id_of index = ''file-'' @ show_nat index"

fun pending_loop :: "(path \<Rightarrow> string option) \<Rightarrow> (bytes \<Rightarrow> bytes) \<Rightarrow> fs \<Rightarrow> nat \<Rightarrow> path list \<Rightarrow> (string \<times> 'j PendingFile) list
    \<Rightarrow> (string \<times> 'j PendingFile) list ls_result" where
  "pending_loop mime sha256 fs index [] files = Inr files"
| "pending_loop mime sha256 fs index (p # ps) files =
     res_bind (map_sum LsIo id (fs_metadata p fs)) (\<lambda>metadata.
     case metadata of
       Dir \<Rightarrow> Inl (LsHttp (path_display p @ '' is not a file''))
     | File content \<Rightarrow>
         res_bind (map_sum LsIo id (fs_read p fs)) (\<lambda>bs.
         res_bind (client_file_name p) (\<lambda>name.
           pending_loop mime sha256 fs (Suc index) ps (bt_insert (file_id_of index)
             \<lparr>pf_path = p, pf_meta = \<lparr>fm_id = file_id_of index, fm_file_name = name, fm_size = of_nat (length content),
                fm_file_type = mime p, fm_sha256 = Some (client_sha256_hex sha256 bs), fm_preview = None, fm_metadata = None\<rparr>\<rparr> files))))"

definition pending_files :: "(path \<Rightarrow> string option) \<Rightarrow> (bytes \<Rightarrow> bytes) \<Rightarrow> fs \<Rightarrow> path list \<Rightarrow> (string \<times> 'j PendingFile) list ls_result" where
  "pending_files mime sha256 fs paths = pending_loop mime sha256 fs 0 paths []"

text \<open>The parsed base with its path replaced and its query removed.\<close>

definition api_url :: "('c, 'o, 'j, 's) Reqwest \<Rightarrow> string \<Rightarrow> string \<Rightarrow> ('o \<times> string) ls_result" where
  "api_url W base_url p = res_map (\<lambda>base. (base, p)) (http_error (rw_parse W base_url))"

definition post_to :: "('c, 'o, 'j, 's) Reqwest \<Rightarrow> 'c \<Rightarrow> 'o \<times> string \<Rightarrow> (string \<times> string) list \<Rightarrow> string \<Rightarrow> 'j PostBody
    \<Rightarrow> ('s, LocalSendError, HttpReply) sr" where
  "post_to W client url query content_type body =
     sr_bind (sr_http (rw_send W client \<lparr>po_base = fst url, po_path = Some (snd url), po_query = query,
         po_content_type = content_type, po_body = body\<rparr>)) (\<lambda>reply.
     sr_gets (\<lambda>_. http_error (error_for_status W reply)))"

definition upload_pending :: "('c, 'o, 'j, 's) Reqwest \<Rightarrow> ('s \<Rightarrow> fs) \<Rightarrow> 'c \<Rightarrow> string \<Rightarrow> (string \<times> 'j PendingFile) list \<Rightarrow> string
    \<Rightarrow> string \<times> string \<Rightarrow> ('s, LocalSendError, unit) sr" where
  "upload_pending W files client base_url pending session_id = (\<lambda>(file_id, token).
     sr_bind (sr_gets (\<lambda>_. ok_or (LsHttp (''server returned unknown file id '' @ file_id)) (map_of pending file_id))) (\<lambda>pf.
     sr_bind (sr_gets (\<lambda>s. map_sum LsIo id (fs_read (pf_path pf) (files s)))) (\<lambda>bs.
     sr_bind (sr_gets (\<lambda>_. api_url W base_url ''/api/localsend/v2/upload'')) (\<lambda>url.
     sr_bind (post_to W client url [(''sessionId'', session_id), (''fileId'', file_id), (''token'', token)]
         (case fm_file_type (pf_meta pf) of Some t \<Rightarrow> t | None \<Rightarrow> ''application/octet-stream'') (RawBytes bs)) (\<lambda>_.
     sr_return ())))))"

definition client_send_files_to_url :: "('c, 'o, 'j, 's) Reqwest \<Rightarrow> (path \<Rightarrow> string option) \<Rightarrow> (bytes \<Rightarrow> bytes) \<Rightarrow> ('s \<Rightarrow> fs) \<Rightarrow> 'c
    \<Rightarrow> string \<Rightarrow> path list \<Rightarrow> DeviceInfo \<Rightarrow> ('s, LocalSendError, unit) sr" where
  "client_send_files_to_url W mime sha256 files client base_url paths sender =
     (if paths = [] then sr_fail (LsHttp ''at least one file is required'')
      else
        sr_bind (sr_gets (\<lambda>s. pending_files mime sha256 (files s) paths)) (\<lambda>pending.
        sr_bind (sr_gets (\<lambda>_. api_url W base_url ''/api/localsend/v2/prepare-upload'')) (\<lambda>url.
        sr_bind (post_to W client url [] ''application/json''
            (JsonPrepare \<lparr>pu_info = sender, pu_files = map (\<lambda>(file_id, pf). (file_id, pf_meta pf)) pending\<rparr>)) (\<lambda>reply.
        sr_bind (sr_gets (\<lambda>_. http_error (hr_json reply))) (\<lambda>prepared.
          sr_iter (upload_pending W files client base_url pending (pr_session_id prepared)) (pr_files prepared))))))"

definition client_send_files :: "(string \<Rightarrow> string) \<Rightarrow> ('c, 'o, 'j, 's) Reqwest \<Rightarrow> (path \<Rightarrow> string option) \<Rightarrow> (bytes \<Rightarrow> bytes) \<Rightarrow> ('s \<Rightarrow> fs)
    \<Rightarrow> LanPeer \<Rightarrow> path list \<Rightarrow> DeviceInfo \<Rightarrow> ('s, LocalSendError, unit) sr" where
  "client_send_files lc W mime sha256 files peer paths sender =
     (let base_url = di_protocol (lp_info peer) @ ''://'' @ show_socket_addr (lp_address peer) in
      sr_bind (sr_gets (\<lambda>_. client_pinned lc W (di_fingerprint (lp_info peer)))) (\<lambda>client.
        client_send_files_to_url W mime sha256 files client base_url paths sender))"

section \<open>The connection to a server\<close>

text \<open>The sender's disk, the server and the number of requests made so far, which indexes the clock.\<close>

record 'j Link =
  lk_client :: fs
  lk_world :: "'j ServerWorld"
  lk_requests :: nat

text \<open>What travels: a POST as the server receives it, and the JSON body of a response as the client decodes it.\<close>

record ('o, 'j) Wire =
  wire_request :: "('o, 'j) Post \<Rightarrow> HttpRequest"
  wire_json :: "Response \<Rightarrow> string + PrepareUploadResponse"

fun status_number :: "StatusCode \<Rightarrow> nat" where
  "status_number OK = 200"
| "status_number BAD_REQUEST = 400"
| "status_number FORBIDDEN = 403"
| "status_number NOT_FOUND = 404"
| "status_number METHOD_NOT_ALLOWED = 405"
| "status_number CONFLICT = 409"
| "status_number INTERNAL_SERVER_ERROR = 500"

definition wire_reply :: "('o, 'j) Wire \<Rightarrow> Response \<Rightarrow> HttpReply" where
  "wire_reply wire resp = \<lparr>hr_status = (case resp of RespStatus c \<Rightarrow> status_number c | _ \<Rightarrow> 200), hr_json = wire_json wire resp\<rparr>"

definition wire_send :: "(bytes \<Rightarrow> bytes) \<Rightarrow> (nat \<Rightarrow> string) \<Rightarrow> (string \<Rightarrow> string) \<Rightarrow> 'j Extract \<Rightarrow> ServerState \<Rightarrow> (nat \<Rightarrow> Clock)
    \<Rightarrow> ('o, 'j) Wire \<Rightarrow> 'c \<Rightarrow> ('o, 'j) Post \<Rightarrow> ('j Link, string, HttpReply) sr" where
  "wire_send sha256 U lc X state clock wire client post = (\<lambda>s.
     case localsend_router sha256 U lc X state (clock (lk_requests s)) (wire_request wire post) (lk_world s) of
       None \<Rightarrow> (Inl ''connection closed before message completed'', s)
     | Some (resp, w) \<Rightarrow> (Inr (wire_reply wire resp), s\<lparr>lk_world := w, lk_requests := Suc (lk_requests s)\<rparr>))"

text \<open>What HTTP and JSON do for the requests of a transfer with this prepare request: method and path arrive, the
  server's extractors get back what the client put in, and the body arrives in some chunks.\<close>

definition wire_ok :: "(nat \<Rightarrow> string) \<Rightarrow> 'j Extract \<Rightarrow> ('o, 'j) Wire \<Rightarrow> 'j PrepareUploadRequest \<Rightarrow> bool" where
  "wire_ok U X wire request \<longleftrightarrow>
     (\<forall>post p. po_path post = Some p \<longrightarrow> rq_method (wire_request wire post) = ''POST'' \<and> rq_path (wire_request wire post) = p) \<and>
     (\<forall>post. po_content_type post = ''application/json'' \<and> po_body post = JsonPrepare request \<longrightarrow>
        json_prepare X (wire_request wire post) = Inr request) \<and>
     (\<forall>post i fid j. po_query post = [(''sessionId'', U i), (''fileId'', fid), (''token'', U j)] \<and> fid \<in> fst ` set (pu_files request) \<longrightarrow>
        query_upload X (wire_request wire post) = Inr \<lparr>uq_session_id = U i, uq_file_id = fid, uq_token = U j\<rparr>) \<and>
     (\<forall>post bs. po_body post = RawBytes bs \<longrightarrow> reader_body (body_reader (rq_body (wire_request wire post))) = Some bs) \<and>
     (\<forall>prepared. wire_json wire (RespPrepared prepared) = Inr prepared)"

section \<open>Pending files\<close>

text \<open>A file that can be sent: readable, with a name the receiver accepts and a size its counter can reach.\<close>

definition upload_source :: "fs \<Rightarrow> path \<Rightarrow> bytes \<Rightarrow> bool" where
  "upload_source fs p content \<longleftrightarrow> fs_read p fs = Inr content \<and> length content + 8192 < 2 ^ 64
     \<and> (\<exists>name. client_file_name p = Inr name \<and> validate_file_name name = Inr name \<and> \<not> has_nul name)"

definition client_meta :: "(path \<Rightarrow> string option) \<Rightarrow> (bytes \<Rightarrow> bytes) \<Rightarrow> nat \<Rightarrow> path \<Rightarrow> bytes \<Rightarrow> 'j FileMeta" where
  "client_meta mime sha256 index p content = \<lparr>fm_id = file_id_of index, fm_file_name = projr (client_file_name p),
     fm_size = of_nat (length content), fm_file_type = mime p, fm_sha256 = Some (client_sha256_hex sha256 content),
     fm_preview = None, fm_metadata = None\<rparr>"

lemma file_id_inject [simp]: "file_id_of i = file_id_of j \<longleftrightarrow> i = j"
  by (simp add: file_id_of_def)

lemma fs_read_metadata: "fs_read p fs = Inr content \<Longrightarrow> fs_metadata p fs = Inr (File content)"
  by (cases "walk fs [] p") (auto simp: fs_read_def fs_metadata_def split: option.splits node.splits)

lemma pending_loop_all:
  assumes "\<forall>p \<in> set ps. upload_source fs p (content p)" "bt_ok files"
  shows "\<exists>pending. pending_loop mime sha256 fs index ps files = Inr pending \<and> bt_ok pending \<and>
    (\<forall>i < length ps. map_of pending (file_id_of (index + i)) =
       Some \<lparr>pf_path = ps ! i, pf_meta = client_meta mime sha256 (index + i) (ps ! i) (content (ps ! i))\<rparr>) \<and>
    (\<forall>fid. (\<forall>i < length ps. fid \<noteq> file_id_of (index + i)) \<longrightarrow> map_of pending fid = map_of files fid)"
  using assms
proof (induction ps arbitrary: index files)
  case (Cons p ps)
  have p: "fs_read p fs = Inr (content p)" and "\<exists>name. client_file_name p = Inr name"
    using Cons.prems(1) by (auto simp: upload_source_def)
  then obtain name where name: "client_file_name p = Inr name" by blast
  let ?pf = "\<lparr>pf_path = p, pf_meta = client_meta mime sha256 index p (content p)\<rparr>"
  let ?files = "bt_insert (file_id_of index) ?pf files"
  have step: "pending_loop mime sha256 fs index (p # ps) files = pending_loop mime sha256 fs (Suc index) ps ?files"
    using p name by (simp add: fs_read_metadata client_meta_def)
  obtain pending where pending: "pending_loop mime sha256 fs (Suc index) ps ?files = Inr pending" "bt_ok pending"
      "\<forall>i < length ps. map_of pending (file_id_of (Suc index + i)) =
         Some \<lparr>pf_path = ps ! i, pf_meta = client_meta mime sha256 (Suc index + i) (ps ! i) (content (ps ! i))\<rparr>"
      "\<forall>fid. (\<forall>i < length ps. fid \<noteq> file_id_of (Suc index + i)) \<longrightarrow> map_of pending fid = map_of ?files fid"
    using Cons.IH [of ?files "Suc index"] Cons.prems by auto
  have "map_of pending (file_id_of (index + i)) =
      Some \<lparr>pf_path = (p # ps) ! i, pf_meta = client_meta mime sha256 (index + i) ((p # ps) ! i) (content ((p # ps) ! i))\<rparr>"
    if "i < length (p # ps)" for i
  proof (cases i)
    case 0
    then show ?thesis using pending(4) [rule_format, of "file_id_of index"] by simp
  next
    case (Suc j)
    then show ?thesis using pending(3) [rule_format, of j] that by simp
  qed
  moreover have "map_of pending fid = map_of files fid" if "\<forall>i < length (p # ps). fid \<noteq> file_id_of (index + i)" for fid
  proof -
    have "fid \<noteq> file_id_of (Suc index + i)" if "i < length ps" for i
      using \<open>\<forall>i < length (p # ps). _ i\<close> [rule_format, of "Suc i"] that by simp
    moreover have "fid \<noteq> file_id_of index" using that [rule_format, of 0] by simp
    ultimately show ?thesis using pending(4) by simp
  qed
  ultimately show ?case using pending(1,2) step by auto
qed simp

lemma pending_files_all:
  assumes "\<forall>p \<in> set ps. upload_source fs p (content p)"
  shows "\<exists>pending :: (string \<times> 'j PendingFile) list. pending_files mime sha256 fs ps = Inr pending \<and> bt_ok pending \<and>
    (\<forall>i < length ps. map_of pending (file_id_of i) = Some \<lparr>pf_path = ps ! i, pf_meta = client_meta mime sha256 i (ps ! i) (content (ps ! i))\<rparr>) \<and>
    (\<forall>fid pf. map_of pending fid = Some pf \<longrightarrow> (\<exists>i < length ps. fid = file_id_of i))"
proof -
  obtain pending :: "(string \<times> 'j PendingFile) list" where p: "pending_loop mime sha256 fs 0 ps [] = Inr pending" "bt_ok pending"
      "\<forall>i < length ps. map_of pending (file_id_of i) = Some \<lparr>pf_path = ps ! i, pf_meta = client_meta mime sha256 i (ps ! i) (content (ps ! i))\<rparr>"
      "\<forall>fid. (\<forall>i < length ps. fid \<noteq> file_id_of i) \<longrightarrow> map_of pending fid = None"
    using pending_loop_all [OF assms, of "[]" mime sha256 0] by auto
  have "\<exists>i < length ps. fid = file_id_of i" if "map_of pending fid = Some pf" for fid pf
    using p(4) [rule_format, of fid] that by auto
  then show ?thesis using p(1-3) by (auto simp: pending_files_def)
qed

section \<open>One upload\<close>

text \<open>An inbox with room for \<open>k\<close> more files, where nothing stands in the way of the part files.\<close>

definition inbox_ready :: "path \<Rightarrow> nat \<Rightarrow> fs \<Rightarrow> bool" where
  "inbox_ready inbox k fs \<longleftrightarrow> fs_wf fs \<and> list_all normal_name inbox \<and>
     (\<forall>p b. prefix p (inbox @ [''.incoming'']) \<longrightarrow> fs p \<noteq> Some (File b)) \<and> (\<forall>c. fs (inbox @ [''.incoming'', c]) \<noteq> Some Dir) \<and>
     finite (inbox_names inbox fs) \<and> card (insert ''.incoming'' (inbox_names inbox fs)) + k \<le> 2 ^ 32 - 2"

text \<open>What a server's disk keeps while uploads arrive: all it had, but for the part files.\<close>

definition disk_keeps :: "path \<Rightarrow> fs \<Rightarrow> fs \<Rightarrow> bool" where
  "disk_keeps inbox fs fs' \<longleftrightarrow> (\<forall>q. fs q \<noteq> None \<and> \<not> prefix (inbox @ [''.incoming'']) q \<longrightarrow> fs' q = fs q)"

lemma disk_keeps_trans: "disk_keeps inbox a b \<Longrightarrow> disk_keeps inbox b c \<Longrightarrow> disk_keeps inbox a c"
  unfolding disk_keeps_def by metis

lemma inbox_ready_published:
  assumes "inbox_ready inbox (Suc k) fs" "create_dir_all (inbox @ [''.incoming'']) fs = Inr (with_incoming inbox fs)"
    and name: "normal_name name" "name \<noteq> ''.incoming''" "fs (inbox @ [name]) = None"
    and fs': "fs' = (with_incoming inbox fs)(inbox @ [''.incoming'', c] := None, inbox @ [name] \<mapsto> File body)"
  shows "inbox_ready inbox k fs'" "disk_keeps inbox fs fs'"
proof -
  note ready = assms(1) [unfolded inbox_ready_def]
  have wf: "fs_wf fs" and norm: "list_all normal_name inbox" using ready by auto
  note d = with_incoming_dirs [OF wf norm assms(2)]
  let ?p = "inbox @ [''.incoming'', c]" and ?fs = "with_incoming inbox fs"
  have wi: "?fs q = (if prefix q (inbox @ [''.incoming'']) then Some Dir else fs q)" for q by (simp add: with_incoming_def)
  have np: "\<not> prefix ?p (inbox @ [''.incoming''])" "\<not> prefix (inbox @ [name]) (inbox @ [''.incoming''])"
    using name(2) by (auto dest: prefix_length_le)
  have "?fs ?p \<noteq> Some Dir" using np(1) ready by (simp add: wi)
  then consider b where "?fs ?p = Some (File b)" | "?fs ?p = None" by (metis node.exhaust option.exhaust)
  then have wf1: "fs_wf (?fs(?p := None))"
  proof cases
    case 2
    then have "?fs(?p := None) = ?fs" by (simp add: fun_eq_iff)
    then show ?thesis using d(2) by simp
  qed (rule fs_wf_remove_file [OF d(2)])
  have wf': "fs_wf fs'" unfolding fs' using d(3) np(2) name(3)
    by (intro fs_wf_put_file [OF wf1]) (auto simp: wi)
  have files: "fs' p \<noteq> Some (File b)" if "prefix p (inbox @ [''.incoming''])" for p b
    using that np by (auto simp: fs' wi)
  have dirs: "fs' (inbox @ [''.incoming'', x]) \<noteq> Some Dir" for x
    using ready by (auto simp: fs' wi dest: prefix_length_le)
  have names: "insert ''.incoming'' (inbox_names inbox fs') \<subseteq> insert name (insert ''.incoming'' (inbox_names inbox fs))"
    by (auto simp: inbox_names_def fs' wi split: if_splits)
  have fin: "finite (insert ''.incoming'' (inbox_names inbox fs))" using ready by simp
  have "card (insert ''.incoming'' (inbox_names inbox fs')) \<le> card (insert name (insert ''.incoming'' (inbox_names inbox fs)))"
    using fin names by (intro card_mono) simp_all
  also have "\<dots> \<le> Suc (card (insert ''.incoming'' (inbox_names inbox fs)))" by (rule card_insert_le_m1) (use fin in auto)
  finally have "card (insert ''.incoming'' (inbox_names inbox fs')) + k \<le> 2 ^ 32 - 2" using ready by linarith
  moreover have "finite (inbox_names inbox fs')" using finite_subset [OF names] fin by simp
  ultimately show "inbox_ready inbox k fs'" using wf' norm files dirs unfolding inbox_ready_def by blast
  have "fs' q = fs q" if "fs q \<noteq> None" "\<not> prefix (inbox @ [''.incoming'']) q" for q
  proof -
    have "fs q = Some Dir" if "prefix q (inbox @ [''.incoming''])"
      using ready \<open>fs q \<noteq> None\<close> that by (metis node.exhaust option.exhaust)
    moreover have "q \<noteq> ?p" "q \<noteq> inbox @ [name]" using that name(3) by (auto simp: prefix_def)
    ultimately show ?thesis by (simp add: fs' wi)
  qed
  then show "disk_keeps inbox fs fs'" by (auto simp: disk_keeps_def)
qed

text \<open>An open slot, a live session and a body as announced: the server stores the upload and answers \<open>200\<close>.\<close>

lemma upload_served:
  fixes w :: "'j ServerWorld"
  assumes ok: "sessions_ok ttl (sw_sessions w)"
    and slot: "slot (sw_sessions w) (sid, fid) = Some (d, tok, meta)" "ck_instant clock < d" "ck_done clock < d"
    and ready: "inbox_ready (st_inbox_dir state) (Suc k) (sw_fs w)"
    and body: "reader_body (body_reader body) = Some bs" "upload_verified sha256 meta bs" "unat (fm_size meta) + 8192 < 2 ^ 64"
    and name: "validate_file_name (fm_file_name meta) = Inr n" "\<not> has_nul n"
    and U: "\<forall>i. \<not> has_nul (U i)"
  defines "inbox \<equiv> st_inbox_dir state"
  shows "\<exists>w' t. server_write_upload sha256 U clock state \<lparr>uq_session_id = sid, uq_file_id = fid, uq_token = tok\<rparr> body w = Some (RespStatus OK, w') \<and>
    sessions_ok ttl (sw_sessions w') \<and>
    (\<forall>f x. f \<noteq> fid \<and> slot (sw_sessions w) (sid, f) = Some (d, x) \<longrightarrow> slot (sw_sessions w') (sid, f) = Some (d, x)) \<and>
    inbox_ready inbox k (sw_fs w') \<and> disk_keeps inbox (sw_fs w) (sw_fs w') \<and>
    t \<noteq> ''.incoming'' \<and> sw_fs w (inbox @ [t]) = None \<and> sw_fs w' (inbox @ [t]) = Some (File bs)"
proof -
  let ?au = "\<lparr>au_session_id = sid, au_file_id = fid, au_token = tok, au_meta = meta\<rparr>"
  let ?m1 = "snd (prune_expired_locked (ck_instant clock) (sw_sessions w))"
  have auth: "authorize_upload (ck_instant clock) sid fid tok (sw_sessions w) = (Inr ?au, ?m1)"
  proof -
    have "fst (authorize_upload (ck_instant clock) sid fid tok (sw_sessions w)) = Inr ?au"
      using slot(1,2) by (simp add: authorize_slot [OF ok])
    then show ?thesis by (simp add: authorize_upload_def Let_def)
  qed
  let ?n1 = "sw_uuids w + (if sid = [] then 1 else 0)"
  let ?fresh = "(U (sw_uuids w), U ?n1)"
  note rd = ready [unfolded inbox_ready_def inbox_def [symmetric]]
  have set: "upload_setting (sw_fs w) inbox ?fresh ?au" using rd U body(3) by (simp add: upload_setting_def)
  have free: "sw_fs w (incoming_path ?fresh inbox ?au) \<noteq> Some Dir" using rd by (simp add: incoming_path_def)
  have pre: "\<forall>p b. prefix p (inbox @ [''.incoming'']) \<longrightarrow> sw_fs w p \<noteq> Some (File b)" using rd by blast
  note rcv = upload_received [OF set body(1) _ _ name(2) pre free, of sha256, simplified, OF body(2) name(1)]
  have "card (inbox_names inbox (sw_fs w)) \<le> card (insert ''.incoming'' (inbox_names inbox (sw_fs w)))"
    using rd by (intro card_mono) auto
  then have card: "card (inbox_names inbox (sw_fs w)) < 2 ^ 32 - 2" using rd by linarith
  have fin: "finite (inbox_names inbox (sw_fs w))" using rd by blast
  let ?fs1 = "(with_incoming inbox (sw_fs w))(incoming_path ?fresh inbox ?au \<mapsto> File bs)"
  obtain t fs2 where t: "next_available_target inbox n ?fs1 = Some (Inr t)" "fs_rename (incoming_path ?fresh inbox ?au) t ?fs1 = Inr fs2"
    using publish_total [OF set rcv(2,3) refl rcv(4) fin card] by blast
  obtain nm where nm: "t = inbox @ [nm]" "normal_name nm" "sw_fs w t = None" "nm \<noteq> ''.incoming''"
      "fs2 = (?fs1(incoming_path ?fresh inbox ?au := None))(t \<mapsto> File bs)"
    using publish_upload [OF set rcv(2,3) refl t] by blast
  have fs2: "fs2 = (with_incoming inbox (sw_fs w))(inbox @ [''.incoming'', incoming_file_name ?fresh ?au] := None, inbox @ [nm] \<mapsto> File bs)"
    by (simp add: nm(1,5) incoming_path_def)
  note after = inbox_ready_published [OF ready [folded inbox_def] rcv(2) nm(2,4) nm(3) [unfolded nm(1)] fs2]
  have ok1: "sessions_ok ttl ?m1" using ok by (rule prune_sessions_ok)
  let ?m2 = "mark_uploaded (ck_done clock) sid fid ?m1"
  have live: "slot ?m1 (sid, f) = Some (d, x)" if "slot (sw_sessions w) (sid, f) = Some (d, x)" for f x
    using that slot(2) by (simp add: slot_prune [OF ok])
  have live2: "slot (snd (prune_expired_locked (ck_done clock) ?m1)) (sid, f) = Some (d, x)"
    if "slot (sw_sessions w) (sid, f) = Some (d, x)" for f x
    using live [OF that] slot(3) by (simp add: slot_prune [OF ok1])
  have mark: "fst ?m2 = Inr ()"
    using live2 [OF slot(1)] by (auto simp: mark_uploaded_def Let_def slot_eq bind_eq_Some_conv split: option.splits if_splits)
  have wr: "write_upload sha256 ?fresh inbox ?au (body_reader body) (sw_fs w) =
      Some (Inr \<lparr>wu_path = t, wu_bytes_written = fm_size meta, wu_sha256 = hex_digest (sha256 bs)\<rparr>, fs2)"
    using t by (simp add: write_upload_def rcv(1))
  let ?w' = "w\<lparr>sw_sessions := snd ?m2, sw_uuids := ?n1 + (if fid = [] then 1 else 0), sw_fs := fs2\<rparr>"
  have "server_write_upload sha256 U clock state \<lparr>uq_session_id = sid, uq_file_id = fid, uq_token = tok\<rparr> body w = Some (RespStatus OK, ?w')"
    using mark wr by (cases ?m2) (simp add: server_write_upload_def auth Let_def inbox_def)
  moreover have "sessions_ok ttl (snd ?m2)" using ok1 by (rule mark_sessions_ok)
  moreover have "slot (snd ?m2) (sid, f) = Some (d, x)" if "f \<noteq> fid" "slot (sw_sessions w) (sid, f) = Some (d, x)" for f x
    using live2 [OF that(2)] that(1) by (simp add: mark_slots)
  moreover have "fs2 (inbox @ [nm]) = Some (File bs)" by (simp add: fs2)
  ultimately show ?thesis using after nm(1,3,4) by (intro exI [of _ ?w'] exI [of _ nm]) simp
qed

section \<open>The requests of a transfer\<close>

text \<open>What a pending file needs to be stored under its announced metadata.\<close>

definition uploadable :: "(bytes \<Rightarrow> bytes) \<Rightarrow> fs \<Rightarrow> 'j PendingFile \<Rightarrow> bytes \<Rightarrow> bool" where
  "uploadable sha256 fs pf bs \<longleftrightarrow> fs_read (pf_path pf) fs = Inr bs \<and> upload_verified sha256 (pf_meta pf) bs \<and>
     unat (fm_size (pf_meta pf)) + 8192 < 2 ^ 64 \<and> (\<exists>n. validate_file_name (fm_file_name (pf_meta pf)) = Inr n \<and> \<not> has_nul n)"

lemma routes_upload:
  "map_of routes ''/api/localsend/v2/prepare-upload'' = Some [(''POST'', HPrepareUpload)]"
  "map_of routes ''/api/localsend/v2/upload'' = Some [(''POST'', HUpload)]"
  by (simp_all add: routes_def API_PREFIX_def)

lemma wire_okD:
  assumes "wire_ok U X wire request"
  shows "po_path post = Some p \<Longrightarrow> rq_method (wire_request wire post) = ''POST'' \<and> rq_path (wire_request wire post) = p"
    "po_content_type post = ''application/json'' \<Longrightarrow> po_body post = JsonPrepare request \<Longrightarrow> json_prepare X (wire_request wire post) = Inr request"
    "po_query post = [(''sessionId'', U i), (''fileId'', fid), (''token'', U j)] \<Longrightarrow> fid \<in> fst ` set (pu_files request) \<Longrightarrow>
       query_upload X (wire_request wire post) = Inr \<lparr>uq_session_id = U i, uq_file_id = fid, uq_token = U j\<rparr>"
    "po_body post = RawBytes bs \<Longrightarrow> reader_body (body_reader (rq_body (wire_request wire post))) = Some bs"
    "wire_json wire (RespPrepared prepared) = Inr prepared"
  using assms unfolding wire_ok_def by blast+

lemma upload_pending_served:
  fixes s :: "'j Link"
  assumes W: "rw_send W = wire_send sha256 U lc X state clock wire" "rw_parse W base_url = Inr base"
    and wire: "wire_ok U X wire request" and fid: "fid \<in> fst ` set (pu_files request)" and U: "\<forall>i. \<not> has_nul (U i)"
    and pf: "map_of pending fid = Some pf" "uploadable sha256 (lk_client s) pf bs"
    and slot: "slot (sw_sessions (lk_world s)) (U i, fid) = Some (d, U j, pf_meta pf)"
    and time: "ck_instant (clock (lk_requests s)) < d" "ck_done (clock (lk_requests s)) < d"
    and ok: "sessions_ok ttl (sw_sessions (lk_world s))"
    and ready: "inbox_ready (st_inbox_dir state) (Suc k) (sw_fs (lk_world s))"
  shows "\<exists>w' t. upload_pending W lk_client client base_url pending (U i) (fid, U j) s =
      (Inr (), s\<lparr>lk_world := w', lk_requests := Suc (lk_requests s)\<rparr>) \<and>
    sessions_ok ttl (sw_sessions w') \<and>
    (\<forall>f x. f \<noteq> fid \<and> slot (sw_sessions (lk_world s)) (U i, f) = Some (d, x) \<longrightarrow> slot (sw_sessions w') (U i, f) = Some (d, x)) \<and>
    inbox_ready (st_inbox_dir state) k (sw_fs w') \<and> disk_keeps (st_inbox_dir state) (sw_fs (lk_world s)) (sw_fs w') \<and>
    t \<noteq> ''.incoming'' \<and> sw_fs (lk_world s) (st_inbox_dir state @ [t]) = None \<and> sw_fs w' (st_inbox_dir state @ [t]) = Some (File bs)"
proof -
  let ?post = "\<lparr>po_base = base, po_path = Some ''/api/localsend/v2/upload'',
      po_query = [(''sessionId'', U i), (''fileId'', fid), (''token'', U j)],
      po_content_type = (case fm_file_type (pf_meta pf) of Some t \<Rightarrow> t | None \<Rightarrow> ''application/octet-stream''), po_body = RawBytes bs :: 'j PostBody\<rparr>"
  let ?rq = "wire_request wire ?post"
  note w = wire_okD [OF wire]
  obtain n where up: "fs_read (pf_path pf) (lk_client s) = Inr bs" "upload_verified sha256 (pf_meta pf) bs"
      "unat (fm_size (pf_meta pf)) + 8192 < 2 ^ 64" "validate_file_name (fm_file_name (pf_meta pf)) = Inr n" "\<not> has_nul n"
    using pf(2) by (auto simp: uploadable_def)
  have body: "reader_body (body_reader (rq_body ?rq)) = Some bs" by (rule w(4)) simp
  obtain w' t where served: "server_write_upload sha256 U (clock (lk_requests s)) state \<lparr>uq_session_id = U i, uq_file_id = fid, uq_token = U j\<rparr>
        (rq_body ?rq) (lk_world s) = Some (RespStatus OK, w')" "sessions_ok ttl (sw_sessions w')"
      "\<forall>f x. f \<noteq> fid \<and> slot (sw_sessions (lk_world s)) (U i, f) = Some (d, x) \<longrightarrow> slot (sw_sessions w') (U i, f) = Some (d, x)"
      "inbox_ready (st_inbox_dir state) k (sw_fs w')" "disk_keeps (st_inbox_dir state) (sw_fs (lk_world s)) (sw_fs w')"
      "t \<noteq> ''.incoming''" "sw_fs (lk_world s) (st_inbox_dir state @ [t]) = None" "sw_fs w' (st_inbox_dir state @ [t]) = Some (File bs)"
    using upload_served [OF ok slot time ready body up(2-5) U] by blast
  have route: "rq_method ?rq = ''POST'' \<and> rq_path ?rq = ''/api/localsend/v2/upload''" by (rule w(1)) simp
  have query: "query_upload X ?rq = Inr \<lparr>uq_session_id = U i, uq_file_id = fid, uq_token = U j\<rparr>" by (rule w(3) [OF _ fid]) simp
  have "localsend_router sha256 U lc X state (clock (lk_requests s)) ?rq (lk_world s) = Some (RespStatus OK, w')"
    using served(1) route query by (simp add: localsend_router_def routes_upload run_handler_def rejecting_def Let_def)
  then have "wire_send sha256 U lc X state clock wire client ?post s =
      (Inr (wire_reply wire (RespStatus OK)), s\<lparr>lk_world := w', lk_requests := Suc (lk_requests s)\<rparr>)"
    by (simp add: wire_send_def)
  then have "upload_pending W lk_client client base_url pending (U i) (fid, U j) s =
      (Inr (), s\<lparr>lk_world := w', lk_requests := Suc (lk_requests s)\<rparr>)"
    using pf(1) up(1) W by (simp add: upload_pending_def api_url_def post_to_def sr_http_def http_error_def error_for_status_def wire_reply_def)
  then show ?thesis using served(2-8) by blast
qed

lemma uploads_served:
  fixes s :: "'j Link"
  assumes W: "rw_send W = wire_send sha256 U lc X state clock wire" "rw_parse W base_url = Inr base"
    and wire: "wire_ok U X wire request" and U: "\<forall>i. \<not> has_nul (U i)"
    and xs: "distinct (map fst xs)" "\<forall>(fid, tok) \<in> set xs. \<exists>pf j. tok = U j \<and> fid \<in> fst ` set (pu_files request) \<and> map_of pending fid = Some pf
      \<and> slot (sw_sessions (lk_world s)) (U i, fid) = Some (d, tok, pf_meta pf) \<and> uploadable sha256 (lk_client s) pf (content fid)"
    and time: "\<forall>r. lk_requests s \<le> r \<and> r < lk_requests s + length xs \<longrightarrow> ck_instant (clock r) < d \<and> ck_done (clock r) < d"
    and ok: "sessions_ok ttl (sw_sessions (lk_world s))"
    and ready: "inbox_ready (st_inbox_dir state) (length xs) (sw_fs (lk_world s))"
  shows "\<exists>s' dest. sr_iter (upload_pending W lk_client client base_url pending (U i)) xs s = (Inr (), s') \<and> lk_client s' = lk_client s \<and>
    disk_keeps (st_inbox_dir state) (sw_fs (lk_world s)) (sw_fs (lk_world s')) \<and> inj_on dest (fst ` set xs) \<and>
    (\<forall>fid \<in> fst ` set xs. dest fid \<noteq> ''.incoming'' \<and> sw_fs (lk_world s) (st_inbox_dir state @ [dest fid]) = None
      \<and> sw_fs (lk_world s') (st_inbox_dir state @ [dest fid]) = Some (File (content fid)))"
  using xs time ok ready
proof (induction xs arbitrary: s)
  case Nil
  then show ?case by (auto simp: disk_keeps_def)
next
  case (Cons x xs)
  obtain fid tok where x: "x = (fid, tok)" by (cases x)
  obtain pf j where pf: "tok = U j" "fid \<in> fst ` set (pu_files request)" "map_of pending fid = Some pf"
      "slot (sw_sessions (lk_world s)) (U i, fid) = Some (d, tok, pf_meta pf)" "uploadable sha256 (lk_client s) pf (content fid)"
    using Cons.prems(2) by (auto simp: x)
  have now: "ck_instant (clock (lk_requests s)) < d" "ck_done (clock (lk_requests s)) < d" using Cons.prems(3) by auto
  have ready: "inbox_ready (st_inbox_dir state) (Suc (length xs)) (sw_fs (lk_world s))" using Cons.prems(5) by simp
  obtain w1 t where step: "upload_pending W lk_client client base_url pending (U i) x s =
        (Inr (), s\<lparr>lk_world := w1, lk_requests := Suc (lk_requests s)\<rparr>)" "sessions_ok ttl (sw_sessions w1)"
      "\<forall>f x. f \<noteq> fid \<and> slot (sw_sessions (lk_world s)) (U i, f) = Some (d, x) \<longrightarrow> slot (sw_sessions w1) (U i, f) = Some (d, x)"
      "inbox_ready (st_inbox_dir state) (length xs) (sw_fs w1)" "disk_keeps (st_inbox_dir state) (sw_fs (lk_world s)) (sw_fs w1)"
      "t \<noteq> ''.incoming''" "sw_fs (lk_world s) (st_inbox_dir state @ [t]) = None" "sw_fs w1 (st_inbox_dir state @ [t]) = Some (File (content fid))"
    using upload_pending_served [OF W wire pf(2) U pf(3,5) pf(4) [unfolded pf(1)] now Cons.prems(4) ready, of client] by (auto simp: x pf(1))
  let ?s1 = "s\<lparr>lk_world := w1, lk_requests := Suc (lk_requests s)\<rparr>"
  have rest: "\<forall>(f, tok) \<in> set xs. \<exists>pf j. tok = U j \<and> f \<in> fst ` set (pu_files request) \<and> map_of pending f = Some pf
      \<and> slot (sw_sessions (lk_world ?s1)) (U i, f) = Some (d, tok, pf_meta pf) \<and> uploadable sha256 (lk_client ?s1) pf (content f)"
  proof (intro ballI, clarify)
    fix f tk assume f: "(f, tk) \<in> set xs"
    then have "f \<noteq> fid" using Cons.prems(1) by (force simp: x)
    then show "\<exists>pf j. tk = U j \<and> f \<in> fst ` set (pu_files request) \<and> map_of pending f = Some pf
      \<and> slot (sw_sessions (lk_world ?s1)) (U i, f) = Some (d, tk, pf_meta pf) \<and> uploadable sha256 (lk_client ?s1) pf (content f)"
      using Cons.prems(2) f step(3) by fastforce
  qed
  have time: "\<forall>r. lk_requests ?s1 \<le> r \<and> r < lk_requests ?s1 + length xs \<longrightarrow> ck_instant (clock r) < d \<and> ck_done (clock r) < d"
    using Cons.prems(3) by simp
  obtain s' dest where IH: "sr_iter (upload_pending W lk_client client base_url pending (U i)) xs ?s1 = (Inr (), s')" "lk_client s' = lk_client s"
      "disk_keeps (st_inbox_dir state) (sw_fs w1) (sw_fs (lk_world s'))" "inj_on dest (fst ` set xs)"
      "\<forall>f \<in> fst ` set xs. dest f \<noteq> ''.incoming'' \<and> sw_fs w1 (st_inbox_dir state @ [dest f]) = None \<and> sw_fs (lk_world s') (st_inbox_dir state @ [dest f]) = Some (File (content f))"
    using Cons.IH [OF _ rest time] Cons.prems(1) step(2,4) by auto
  have t: "sw_fs (lk_world s') (st_inbox_dir state @ [t]) = Some (File (content fid))"
    using IH(3) step(6,8) by (simp add: disk_keeps_def)
  have old: "sw_fs (lk_world s) (st_inbox_dir state @ [dest f]) = None" "dest f \<noteq> t" if "f \<in> fst ` set xs" for f
  proof -
    have none: "sw_fs w1 (st_inbox_dir state @ [dest f]) = None" "dest f \<noteq> ''.incoming''" using bspec [OF IH(5) that] by simp_all
    then show "dest f \<noteq> t" using step(8) by auto
    show "sw_fs (lk_world s) (st_inbox_dir state @ [dest f]) = None" using none step(5) by (auto simp: disk_keeps_def)
  qed
  have new: "fid \<notin> fst ` set xs" using Cons.prems(1) by (simp add: x)
  moreover have "t \<notin> dest ` fst ` set xs" using old(2) by blast
  ultimately have "inj_on (dest(fid := t)) (fst ` set (x # xs))"
    using IH(4) by (simp add: x inj_on_fun_updI fun_upd_image) blast
  moreover have "disk_keeps (st_inbox_dir state) (sw_fs (lk_world s)) (sw_fs (lk_world s'))"
    using step(5) IH(3) by (rule disk_keeps_trans)
  moreover have "\<forall>f \<in> fst ` set (x # xs). (dest(fid := t)) f \<noteq> ''.incoming'' \<and> sw_fs (lk_world s) (st_inbox_dir state @ [(dest(fid := t)) f]) = None
      \<and> sw_fs (lk_world s') (st_inbox_dir state @ [(dest(fid := t)) f]) = Some (File (content f))"
    using step(6,7) t old IH(5) new by (auto simp: x)
  moreover have "sr_iter (upload_pending W lk_client client base_url pending (U i)) (x # xs) s = (Inr (), s')"
    using step(1) IH(1) by simp
  ultimately show ?case using IH(2) by blast
qed

section \<open>A whole transfer\<close>

lemma prepare_files_tokens:
  "distinct (map fst files) \<Longrightarrow> map_of (fst (prepare_files U n files acc)) fid =
     (case map_of (fresh_tokens U n files) fid of Some (tok, meta) \<Rightarrow> Some tok | None \<Rightarrow> map_of (fst acc) fid)"
proof (induction U n files acc rule: prepare_files.induct)
  case (2 U n file_id meta files prepared session)
  have "map_of (fresh_tokens U (Suc n) files) file_id = None"
    using 2(2) by (simp add: map_of_eq_None_iff flip: fresh_map [of U "Suc n" files] set_map)
  then show ?case using 2 by (auto split: option.splits)
qed simp

lemma prepare_files_ordered: "bt_ok (fst acc) \<Longrightarrow> bt_ok (fst (prepare_files U n files acc))"
  by (induction U n files acc rule: prepare_files.induct) auto

lemma fresh_token_uuid: "map_of (fresh_tokens U n files) fid = Some (tok, meta) \<Longrightarrow> (\<exists>j. tok = U j) \<and> map_of files fid = Some meta"
  by (induction U n files rule: fresh_tokens.induct) (auto split: if_splits)

lemma fresh_token_dom: "map_of (fresh_tokens U n files) fid = None \<longleftrightarrow> map_of files fid = None"
  by (induction U n files rule: fresh_tokens.induct) auto

lemma validate_file_ids_ok:
  assumes "distinct (map fst files)" "\<forall>(fid, meta) \<in> set files. fm_id meta = fid" "fst ` set files \<inter> seen = {}"
  shows "validate_file_ids_loop seen files = Inr ()"
  using assms by (induction seen files rule: validate_file_ids_loop.induct) auto

text \<open>A prepared session: one token per file of the request, and an open slot for each of them.\<close>

lemma session_prepare_opens:
  assumes req: "distinct (map fst (pu_files request))" "\<forall>(fid, meta) \<in> set (pu_files request). fm_id meta = fid"
    and ok: "sessions_ok ttl m"
  shows "\<exists>files n' m'. session_prepare U now request n m = (Inr \<lparr>ps_session_id = U n, ps_files = files\<rparr>, n', m') \<and> sessions_ok ttl m' \<and>
    distinct (map fst files) \<and> fst ` set files = fst ` set (pu_files request) \<and> length files = length (pu_files request) \<and>
    (\<forall>(fid, tok) \<in> set files. \<exists>meta j. map_of (pu_files request) fid = Some meta \<and> tok = U j \<and> slot m' (U n, fid) = Some (now + ttl, tok, meta))"
proof -
  have valid: "validate_file_ids request = Inr ()" unfolding validate_file_ids_def using validate_file_ids_ok [OF req] by simp
  let ?p = "prepare_files U (Suc n) (pu_files request) ([], [])"
  obtain n' m' where prep: "session_prepare U now request n m = (Inr \<lparr>ps_session_id = U n, ps_files = fst ?p\<rparr>, n', m')"
    using valid by (cases ?p) (simp add: session_prepare_def Let_def)
  have ttl: "sm_ttl m = ttl" using ok by (simp add: sessions_ok_def)
  have dist: "distinct (map fst (fst ?p))" using prepare_files_ordered [of "([], [])" U "Suc n" "pu_files request"] by (simp add: bt_ok_def)
  have tokens: "map_of (fst ?p) fid = map_option fst (map_of (fresh_tokens U (Suc n) (pu_files request)) fid)" for fid
    using prepare_files_tokens [OF req(1), of U "Suc n" "([], [])" fid] by (auto split: option.splits)
  have "fid \<in> fst ` set (fst ?p) \<longleftrightarrow> fid \<in> fst ` set (pu_files request)" for fid
    using tokens [of fid] fresh_token_dom [of U "Suc n" "pu_files request" fid] by (metis map_of_eq_None_iff map_option_is_None)
  then have dom: "fst ` set (fst ?p) = fst ` set (pu_files request)" by blast
  have "length (fst ?p) = length (pu_files request)"
    using distinct_card [OF dist] distinct_card [OF req(1)] dom by simp
  moreover have "\<exists>meta j. map_of (pu_files request) fid = Some meta \<and> tok = U j \<and> slot m' (U n, fid) = Some (now + ttl, tok, meta)"
    if "(fid, tok) \<in> set (fst ?p)" for fid tok
  proof -
    have "map_of (fst ?p) fid = Some tok" using dist that by (rule map_of_is_SomeI)
    then obtain meta where meta: "map_of (fresh_tokens U (Suc n) (pu_files request)) fid = Some (tok, meta)"
      using tokens by auto
    then show ?thesis using slot_prepare(1) [OF valid prep ttl, of "U n" fid] fresh_token_uuid [OF meta] by auto
  qed
  ultimately show ?thesis using prep prepare_sessions_ok [OF prep ok] dist dom by fastforce
qed

lemma client_meta_uploadable:
  assumes "upload_source fs p bs"
  shows "uploadable sha256 fs \<lparr>pf_path = p, pf_meta = client_meta mime sha256 i p bs\<rparr> bs"
proof -
  obtain name where name: "client_file_name p = Inr name" "validate_file_name name = Inr name" "\<not> has_nul name"
    and read: "fs_read p fs = Inr bs" and len: "length bs + 8192 < 2 ^ 64"
    using assms by (auto simp: upload_source_def)
  have "length bs < 2 ^ 64" using len by linarith
  then have "unat (of_nat (length bs) :: u64) = length bs" by (rule unat_of_nat_u64)
  then show ?thesis
    using name read len by (simp add: uploadable_def client_meta_def upload_verified_def client_sha256_hex_def hex_digest_def eq_ignore_ascii_case_def)
qed

text \<open>The first request opens the session: what remains is one upload per file, each with an open slot.\<close>

lemma prepare_posted:
  fixes s :: "'j Link"
  assumes W: "rw_send W = wire_send sha256 U lc X state clock wire" "rw_parse W base_url = Inr base"
    and pending: "pending_files mime sha256 (lk_client s) paths = Inr pending" "paths \<noteq> []" "distinct (map fst pending)"
      "\<forall>(fid, pf) \<in> set pending. fm_id (pf_meta pf) = fid"
    and wire: "wire_ok U X wire \<lparr>pu_info = sender, pu_files = map (\<lambda>(fid, pf). (fid, pf_meta pf)) pending\<rparr>"
    and admitted: "\<forall>ip. fst (authorize_prepare_upload lc (ck_unix (clock (lk_requests s))) state sender ip (lk_world s)) = Inr ()"
    and ok: "sessions_ok ttl (sw_sessions (lk_world s))"
  shows "\<exists>toks w i. client_send_files_to_url W mime sha256 lk_client client base_url paths sender s =
      sr_iter (upload_pending W lk_client client base_url pending (U i)) toks (s\<lparr>lk_world := w, lk_requests := Suc (lk_requests s)\<rparr>) \<and>
    sw_fs w = sw_fs (lk_world s) \<and> sessions_ok ttl (sw_sessions w) \<and> distinct (map fst toks) \<and> fst ` set toks = fst ` set pending \<and>
    length toks = length pending \<and> (\<forall>(fid, tok) \<in> set toks. \<exists>pf j. map_of pending fid = Some pf \<and> tok = U j \<and>
      slot (sw_sessions w) (U i, fid) = Some (ck_instant (clock (lk_requests s)) + ttl, tok, pf_meta pf))"
proof -
  let ?files = "map (\<lambda>(fid, pf). (fid, pf_meta pf)) pending"
  let ?request = "\<lparr>pu_info = sender, pu_files = ?files\<rparr>"
  let ?post = "\<lparr>po_base = base, po_path = Some ''/api/localsend/v2/prepare-upload'', po_query = [], po_content_type = ''application/json'',
     po_body = JsonPrepare ?request\<rparr>"
  let ?rq = "wire_request wire ?post" and ?c = "clock (lk_requests s)"
  let ?ip = "peer_source_ip (rq_connect_info ?rq) (rq_extension ?rq)"
  have keys: "map fst ?files = map fst pending" by (simp add: comp_def case_prod_unfold)
  have dist: "distinct (map fst (pu_files ?request))" using pending(3) by (simp only: PrepareUploadRequest.select_convs keys)
  have ids: "\<forall>(fid, meta) \<in> set (pu_files ?request). fm_id meta = fid" using pending(4) by auto
  obtain w1 where auth: "authorize_prepare_upload lc (ck_unix ?c) state sender ?ip (lk_world s) = (Inr (), w1)"
    using admitted by (metis prod.collapse)
  have w1: "sw_fs w1 = sw_fs (lk_world s)" "sw_sessions w1 = sw_sessions (lk_world s)"
    using authorize_keeps [of lc "ck_unix ?c" state sender ?ip] auth by (auto simp: sr_keeps_def keeps_uploads_def dest!: spec [of _ "lk_world s"])
  have ok1: "sessions_ok ttl (sw_sessions w1)" using ok by (simp add: w1)
  obtain toks n' m' where prep: "session_prepare U (ck_instant ?c) ?request (sw_uuids w1) (sw_sessions w1) =
        (Inr \<lparr>ps_session_id = U (sw_uuids w1), ps_files = toks\<rparr>, n', m')" "sessions_ok ttl m'" "distinct (map fst toks)"
      "fst ` set toks = fst ` set ?files" "length toks = length ?files"
      "\<forall>(fid, tok) \<in> set toks. \<exists>meta j. map_of ?files fid = Some meta \<and> tok = U j \<and>
         slot m' (U (sw_uuids w1), fid) = Some (ck_instant ?c + ttl, tok, meta)"
    using session_prepare_opens [OF dist ids ok1, of U "ck_instant ?c" "sw_uuids w1"] unfolding PrepareUploadRequest.select_convs by blast
  let ?w2 = "w1\<lparr>sw_sessions := m', sw_uuids := n'\<rparr>"
  let ?s1 = "s\<lparr>lk_world := ?w2, lk_requests := Suc (lk_requests s)\<rparr>"
  let ?prepared = "\<lparr>pr_session_id = U (sw_uuids w1), pr_files = toks\<rparr>"
  note wd = wire_okD [OF wire]
  have route: "rq_method ?rq = ''POST'' \<and> rq_path ?rq = ''/api/localsend/v2/prepare-upload''" by (rule wd(1)) simp
  have json: "json_prepare X ?rq = Inr ?request" by (rule wd(2)) simp_all
  have "prepare_session U lc ?c state ?ip ?request (lk_world s) = (Inr \<lparr>ps_session_id = U (sw_uuids w1), ps_files = toks\<rparr>, ?w2)"
    using auth prep(1) by (simp add: prepare_session_def)
  then have "localsend_router sha256 U lc X state ?c ?rq (lk_world s) = Some (RespPrepared ?prepared, ?w2)"
    using route json by (simp add: localsend_router_def routes_upload run_handler_def rejecting_def Let_def prepare_upload_def)
  then have "wire_send sha256 U lc X state clock wire client ?post s = (Inr (wire_reply wire (RespPrepared ?prepared)), ?s1)"
    by (simp add: wire_send_def)
  then have send: "client_send_files_to_url W mime sha256 lk_client client base_url paths sender s =
      sr_iter (upload_pending W lk_client client base_url pending (U (sw_uuids w1))) toks ?s1"
    using pending(1,2) W wd(5) [of ?prepared]
    by (simp add: client_send_files_to_url_def api_url_def post_to_def sr_http_def http_error_def error_for_status_def wire_reply_def)
  have "\<forall>(fid, tok) \<in> set toks. \<exists>pf j. map_of pending fid = Some pf \<and> tok = U j \<and>
      slot (sw_sessions ?w2) (U (sw_uuids w1), fid) = Some (ck_instant ?c + ttl, tok, pf_meta pf)"
    using prep(6) by (fastforce simp: map_of_map comp_def)
  then show ?thesis
    using send w1(1) prep(2,3,4,5) by (intro exI [of _ toks] exI [of _ ?w2] exI [of _ "sw_uuids w1"]) (simp add: image_image case_prod_unfold)
qed

lemma transfer_served:
  fixes s :: "'j Link"
  assumes W: "rw_send W = wire_send sha256 U lc X state clock wire" "rw_parse W base_url = Inr base"
    and pending: "pending_files mime sha256 (lk_client s) paths = Inr pending" "paths \<noteq> []" "distinct (map fst pending)"
      "\<forall>(fid, pf) \<in> set pending. fm_id (pf_meta pf) = fid \<and> uploadable sha256 (lk_client s) pf (content fid)"
    and wire: "wire_ok U X wire \<lparr>pu_info = sender, pu_files = map (\<lambda>(fid, pf). (fid, pf_meta pf)) pending\<rparr>"
    and admitted: "\<forall>ip. fst (authorize_prepare_upload lc (ck_unix (clock (lk_requests s))) state sender ip (lk_world s)) = Inr ()"
    and ok: "sessions_ok ttl (sw_sessions (lk_world s))" and U: "\<forall>i. \<not> has_nul (U i)"
    and time: "\<forall>r. lk_requests s < r \<and> r \<le> lk_requests s + length pending \<longrightarrow>
      ck_instant (clock r) < ck_instant (clock (lk_requests s)) + ttl \<and> ck_done (clock r) < ck_instant (clock (lk_requests s)) + ttl"
    and ready: "inbox_ready (st_inbox_dir state) (length pending) (sw_fs (lk_world s))"
  shows "\<exists>s' dest. client_send_files_to_url W mime sha256 lk_client client base_url paths sender s = (Inr (), s') \<and> lk_client s' = lk_client s \<and>
    disk_keeps (st_inbox_dir state) (sw_fs (lk_world s)) (sw_fs (lk_world s')) \<and> inj_on dest (fst ` set pending) \<and>
    (\<forall>fid \<in> fst ` set pending. dest fid \<noteq> ''.incoming'' \<and> sw_fs (lk_world s) (st_inbox_dir state @ [dest fid]) = None
      \<and> sw_fs (lk_world s') (st_inbox_dir state @ [dest fid]) = Some (File (content fid)))"
proof -
  let ?request = "\<lparr>pu_info = sender, pu_files = map (\<lambda>(fid, pf). (fid, pf_meta pf)) pending\<rparr>"
  have ids: "\<forall>(fid, pf) \<in> set pending. fm_id (pf_meta pf) = fid" using pending(4) by blast
  obtain toks w i where posted: "client_send_files_to_url W mime sha256 lk_client client base_url paths sender s =
      sr_iter (upload_pending W lk_client client base_url pending (U i)) toks (s\<lparr>lk_world := w, lk_requests := Suc (lk_requests s)\<rparr>)"
      "sw_fs w = sw_fs (lk_world s)" "sessions_ok ttl (sw_sessions w)" "distinct (map fst toks)" "fst ` set toks = fst ` set pending"
      "length toks = length pending" "\<forall>(fid, tok) \<in> set toks. \<exists>pf j. map_of pending fid = Some pf \<and> tok = U j \<and>
        slot (sw_sessions w) (U i, fid) = Some (ck_instant (clock (lk_requests s)) + ttl, tok, pf_meta pf)"
    using prepare_posted [OF W pending(1-3) ids wire admitted ok, of client] by blast
  let ?s1 = "s\<lparr>lk_world := w, lk_requests := Suc (lk_requests s)\<rparr>"
  have slots: "\<forall>(fid, tok) \<in> set toks. \<exists>pf j. tok = U j \<and> fid \<in> fst ` set (pu_files ?request) \<and> map_of pending fid = Some pf
      \<and> slot (sw_sessions (lk_world ?s1)) (U i, fid) = Some (ck_instant (clock (lk_requests s)) + ttl, tok, pf_meta pf)
      \<and> uploadable sha256 (lk_client ?s1) pf (content fid)"
  proof (intro ballI, clarify)
    fix fid tok assume f: "(fid, tok) \<in> set toks"
    then obtain pf j where pf: "map_of pending fid = Some pf" "tok = U j"
        "slot (sw_sessions w) (U i, fid) = Some (ck_instant (clock (lk_requests s)) + ttl, tok, pf_meta pf)"
      using bspec [OF posted(7) f] by auto
    have "uploadable sha256 (lk_client s) pf (content fid)" using pending(4) map_of_SomeD [OF pf(1)] by blast
    moreover have "fid \<in> fst ` set (pu_files ?request)" using map_of_SomeD [OF pf(1)] by force
    ultimately show "\<exists>pf j. tok = U j \<and> fid \<in> fst ` set (pu_files ?request) \<and> map_of pending fid = Some pf
      \<and> slot (sw_sessions (lk_world ?s1)) (U i, fid) = Some (ck_instant (clock (lk_requests s)) + ttl, tok, pf_meta pf)
      \<and> uploadable sha256 (lk_client ?s1) pf (content fid)"
      using pf by auto
  qed
  have time1: "\<forall>r. lk_requests ?s1 \<le> r \<and> r < lk_requests ?s1 + length toks \<longrightarrow>
      ck_instant (clock r) < ck_instant (clock (lk_requests s)) + ttl \<and> ck_done (clock r) < ck_instant (clock (lk_requests s)) + ttl"
    using time posted(6) by simp
  have "inbox_ready (st_inbox_dir state) (length toks) (sw_fs (lk_world ?s1))" "sessions_ok ttl (sw_sessions (lk_world ?s1))"
    using ready posted(2,3,6) by simp_all
  note served = uploads_served [OF W wire U posted(4) slots time1 this(2,1), of client]
  have same: "sw_fs (lk_world ?s1) = sw_fs (lk_world s)" "lk_client ?s1 = lk_client s" using posted(2) by simp_all
  show ?thesis using served unfolding posted(1,5) same by blast
qed

lemma pending_by_index:
  assumes "\<forall>p \<in> set paths. upload_source fs p (content p)"
  shows "\<exists>pending :: (string \<times> 'j PendingFile) list. pending_files mime sha256 fs paths = Inr pending \<and> distinct (map fst pending) \<and>
    fst ` set pending = file_id_of ` {..<length paths} \<and> length pending = length paths \<and>
    (\<forall>(fid, pf) \<in> set pending. fm_id (pf_meta pf) = fid \<and> uploadable sha256 fs pf (content (paths ! inv file_id_of fid)))"
proof -
  have inj: "inj file_id_of" by (simp add: inj_on_def)
  obtain pending :: "(string \<times> 'j PendingFile) list" where p: "pending_files mime sha256 fs paths = Inr pending" "bt_ok pending"
      "\<forall>i < length paths. map_of pending (file_id_of i) = Some \<lparr>pf_path = paths ! i, pf_meta = client_meta mime sha256 i (paths ! i) (content (paths ! i))\<rparr>"
      "\<forall>fid pf. map_of pending fid = Some pf \<longrightarrow> (\<exists>i < length paths. fid = file_id_of i)"
    using pending_files_all [OF assms, of mime sha256] by blast
  have dist: "distinct (map fst pending)" using p(2) by (simp add: bt_ok_def)
  have "fid \<in> fst ` set pending \<longleftrightarrow> fid \<in> file_id_of ` {..<length paths}" for fid
    using p(3,4) map_of_eq_None_iff [of pending fid] by (cases "map_of pending fid") auto
  then have dom: "fst ` set pending = file_id_of ` {..<length paths}" by blast
  have "length pending = card (fst ` set pending)" using distinct_card [OF dist] by simp
  also have "\<dots> = length paths" unfolding dom using inj by (simp add: card_image inj_on_subset [OF inj])
  finally have len: "length pending = length paths" .
  have "fm_id (pf_meta pf) = fid \<and> uploadable sha256 fs pf (content (paths ! inv file_id_of fid))" if f: "(fid, pf) \<in> set pending" for fid pf
  proof -
    have m: "map_of pending fid = Some pf" using dist f by (rule map_of_is_SomeI)
    then obtain i where i: "i < length paths" "fid = file_id_of i" using p(4) by blast
    then have "pf = \<lparr>pf_path = paths ! i, pf_meta = client_meta mime sha256 i (paths ! i) (content (paths ! i))\<rparr>" using p(3) m by simp
    then show ?thesis using client_meta_uploadable [of fs "paths ! i" "content (paths ! i)"] assms i
      by (simp add: inv_f_f [OF inj] client_meta_def)
  qed
  then show ?thesis using p(1) dist dom len by blast
qed

text \<open>
  C3. Files sent to a LocalSend peer arrive. The client and the upload server are composed over HTTP: the requests of
  \<open>send_files\<close> go through the server's router one after the other. If the client pinned to the announced fingerprint can be
  built, the files can be read and have names the receiver accepts, the receive policy admits the sender, the uploads
  arrive before the session expires, and the inbox has room, then \<open>send_files\<close> returns successfully and every file is a new
  entry of the receiver's inbox with exactly the sent content; distinct files get distinct names, also when their own names
  are equal, and nothing the receiver had outside \<open>.incoming\<close> has changed.
\<close>

theorem localsend_send_delivers:
  fixes s :: "'j Link"
  assumes pin: "rw_protocol_versions W = Inr ()" "rw_build_pinned W (pin_normalize_fingerprint lc (di_fingerprint (lp_info peer))) = Inr client"
    and W: "rw_send W = wire_send sha256 U lc X state clock wire"
      "rw_parse W (di_protocol (lp_info peer) @ ''://'' @ show_socket_addr (lp_address peer)) = Inr base"
    and paths: "paths \<noteq> []" "\<forall>p \<in> set paths. upload_source (lk_client s) p (content p)"
    and wire: "\<forall>pending. pending_files mime sha256 (lk_client s) paths = Inr pending \<longrightarrow>
      wire_ok U X wire \<lparr>pu_info = sender, pu_files = map (\<lambda>(fid, pf). (fid, pf_meta pf)) pending\<rparr>"
    and admitted: "\<forall>ip. fst (authorize_prepare_upload lc (ck_unix (clock (lk_requests s))) state sender ip (lk_world s)) = Inr ()"
    and ok: "sessions_ok ttl (sw_sessions (lk_world s))" and U: "\<forall>i. \<not> has_nul (U i)"
    and time: "\<forall>r. lk_requests s < r \<and> r \<le> lk_requests s + length paths \<longrightarrow>
      ck_instant (clock r) < ck_instant (clock (lk_requests s)) + ttl \<and> ck_done (clock r) < ck_instant (clock (lk_requests s)) + ttl"
    and ready: "inbox_ready (st_inbox_dir state) (length paths) (sw_fs (lk_world s))"
  shows "\<exists>s' dest. client_send_files lc W mime sha256 lk_client peer paths sender s = (Inr (), s') \<and>
    disk_keeps (st_inbox_dir state) (sw_fs (lk_world s)) (sw_fs (lk_world s')) \<and> inj_on dest {..<length paths} \<and>
    (\<forall>i < length paths. sw_fs (lk_world s) (st_inbox_dir state @ [dest i]) = None
      \<and> sw_fs (lk_world s') (st_inbox_dir state @ [dest i]) = Some (File (content (paths ! i))))"
proof -
  have inj: "inj file_id_of" by (simp add: inj_on_def)
  obtain pending :: "(string \<times> 'j PendingFile) list" where p: "pending_files mime sha256 (lk_client s) paths = Inr pending"
      "distinct (map fst pending)" "fst ` set pending = file_id_of ` {..<length paths}" "length pending = length paths"
      "\<forall>(fid, pf) \<in> set pending. fm_id (pf_meta pf) = fid \<and> uploadable sha256 (lk_client s) pf (content (paths ! inv file_id_of fid))"
    using pending_by_index [OF paths(2)] by blast
  note wok = wire [rule_format, OF p(1)]
  from transfer_served [OF W p(1) paths(1) p(2,5) wok admitted ok U, of client] time ready p(4) obtain s' dest where
      d: "client_send_files_to_url W mime sha256 lk_client client (di_protocol (lp_info peer) @ ''://'' @ show_socket_addr (lp_address peer)) paths sender s = (Inr (), s')"
      "disk_keeps (st_inbox_dir state) (sw_fs (lk_world s)) (sw_fs (lk_world s'))" "inj_on dest (fst ` set pending)"
      "\<forall>fid \<in> fst ` set pending. sw_fs (lk_world s) (st_inbox_dir state @ [dest fid]) = None
        \<and> sw_fs (lk_world s') (st_inbox_dir state @ [dest fid]) = Some (File (content (paths ! inv file_id_of fid)))"
    by auto
  have "inj_on (dest \<circ> file_id_of) {..<length paths}"
    using d(3) unfolding p(3) by (intro comp_inj_on inj_on_subset [OF inj]) simp_all
  moreover have "sw_fs (lk_world s) (st_inbox_dir state @ [dest (file_id_of i)]) = None
      \<and> sw_fs (lk_world s') (st_inbox_dir state @ [dest (file_id_of i)]) = Some (File (content (paths ! i)))" if "i < length paths" for i
    using d(4) that unfolding p(3) by (simp add: inv_f_f [OF inj])
  moreover have "client_send_files lc W mime sha256 lk_client peer paths sender s = (Inr (), s')"
    using d(1) pin by (simp add: client_send_files_def client_pinned_def pinned_client_def http_error_def Let_def)
  ultimately show ?thesis using d(2) by (intro exI [of _ s'] exI [of _ "dest \<circ> file_id_of"]) simp
qed

section \<open>A concrete transfer\<close>

definition note_disk :: fs where
  "note_disk = (\<lambda>p. if p = [] then Some Dir else if p = [''note''] then Some (File [1, 2, 3]) else None)"

definition note_meta :: "unit FileMeta" where
  "note_meta = \<lparr>fm_id = ''file-0'', fm_file_name = ''note'', fm_size = 3, fm_file_type = None, fm_sha256 = Some ''010203'',
     fm_preview = None, fm_metadata = None\<rparr>"

definition note_request :: "unit PrepareUploadRequest" where
  "note_request = \<lparr>pu_info = demo_device, pu_files = [(''file-0'', note_meta)]\<rparr>"

definition note_wire :: "(string, unit) Wire" where
  "note_wire = \<lparr>wire_request = (\<lambda>post. \<lparr>rq_method = ''POST'', rq_path = (case po_path post of Some p \<Rightarrow> p | None \<Rightarrow> ''/''),
       rq_query = join_with ''&'' (map snd (po_query post)), rq_body = (case po_body post of RawBytes bs \<Rightarrow> [Inr bs] | _ \<Rightarrow> []),
       rq_connect_info = None, rq_extension = None\<rparr>),
     wire_json = (\<lambda>resp. case resp of RespPrepared p \<Rightarrow> Inr p | _ \<Rightarrow> Inl ''error decoding response body'')\<rparr>"

definition note_extract :: "unit Extract" where
  "note_extract = demo_extract\<lparr>json_prepare := (\<lambda>_. Inr note_request),
     query_upload := (\<lambda>rq. case split_on CHR ''&'' (rq_query rq) of
       [sid, fid, tok] \<Rightarrow> Inr \<lparr>uq_session_id = sid, uq_file_id = fid, uq_token = tok\<rparr> | _ \<Rightarrow> Inl BAD_REQUEST)\<rparr>"

definition note_clock :: "nat \<Rightarrow> Clock" where
  "note_clock r = \<lparr>ck_instant = r, ck_done = r, ck_unix = 0\<rparr>"

definition note_reqwest :: "(unit, string, unit, unit Link) Reqwest" where
  "note_reqwest = \<lparr>rw_protocol_versions = Inr (), rw_build = Inr (), rw_build_pinned = (\<lambda>_. Inr ()), rw_parse = Inr,
     rw_send = wire_send (\<lambda>bs. bs) demo_uuid no_unicode note_extract (fst demo_server) note_clock note_wire,
     rw_status_text = show_nat, rw_status_error = show_nat\<rparr>"

definition note_peer :: LanPeer where
  "note_peer = \<lparr>lp_info = demo_device, lp_address = SockV4 10 0 0 7 80, lp_source = SockV4 10 0 0 7 5, lp_discovered_at = 0\<rparr>"

definition note_link :: "unit Link" where
  "note_link = \<lparr>lk_client = note_disk, lk_world = snd demo_server, lk_requests = 0\<rparr>"

lemma note_pending:
  "pending_files (\<lambda>_. None) (\<lambda>bs. bs) note_disk [[''note'']] = Inr [(''file-0'', \<lparr>pf_path = [''note''], pf_meta = note_meta\<rparr>)]"
  by code_simp

lemma demo_uuid_chars: "CHR ''&'' \<notin> set (demo_uuid i)" "\<not> has_nul (demo_uuid i)"
  by (auto simp: demo_uuid_def has_nul_def)

lemma note_wire_ok: "wire_ok demo_uuid note_extract note_wire note_request"
proof -
  have "split_on CHR ''&'' (join_with [CHR ''&''] [demo_uuid i, ''file-0'', demo_uuid j]) = [demo_uuid i, ''file-0'', demo_uuid j]" for i j
    by (rule split_join) (auto simp: demo_uuid_chars)
  then show ?thesis
    unfolding wire_ok_def by (auto simp: note_wire_def note_extract_def note_request_def body_reader_def)
qed

theorem localsend_send_delivers_witness:
  "\<exists>s' t. client_send_files no_unicode note_reqwest (\<lambda>_. None) (\<lambda>bs. bs) lk_client note_peer [[''note'']] demo_device note_link = (Inr (), s')
    \<and> sw_fs (lk_world s') [''in'', t] = Some (File [1, 2, 3])"
proof -
  have src: "\<forall>p \<in> set [[''note'']]. upload_source (lk_client note_link) p [1, 2, 3]"
  proof -
    have "fs_read [''note''] note_disk = Inr [1, 2, 3]" "client_file_name [''note''] = Inr ''note''" "validate_file_name ''note'' = Inr ''note''"
      by code_simp+
    then show ?thesis by (simp add: upload_source_def note_link_def has_nul_def)
  qed
  have wire: "\<forall>pending. pending_files (\<lambda>_. None) (\<lambda>bs. bs) (lk_client note_link) [[''note'']] = Inr pending \<longrightarrow>
      wire_ok demo_uuid note_extract note_wire \<lparr>pu_info = demo_device, pu_files = map (\<lambda>(fid, pf). (fid, pf_meta pf)) pending\<rparr>"
    using note_wire_ok by (simp add: note_link_def note_pending note_request_def)
  have norm: "ls_normalize_fingerprint no_unicode ''abc'' = Some ''abc''" "normalize_trusted_fingerprints no_unicode [''AB:C''] = [''abc'']"
    by code_simp+
  have adm: "\<forall>ip. fst (authorize_prepare_upload no_unicode (ck_unix (note_clock (lk_requests note_link))) (fst demo_server) demo_device ip (lk_world note_link)) = Inr ()"
    by (simp add: authorize_prepare_upload_def demo_server_def server_bind_def demo_server_config_def demo_device_def norm trusted_fingerprints_def
        server_record_trusted_def)
  have ok: "sessions_ok 60 (sw_sessions (lk_world note_link))"
    by (simp add: note_link_def demo_server_def server_bind_def demo_server_config_def session_manager_new_def sessions_ok_def)
  have time: "\<forall>r. lk_requests note_link < r \<and> r \<le> lk_requests note_link + length [[''note'']] \<longrightarrow>
      ck_instant (note_clock r) < ck_instant (note_clock (lk_requests note_link)) + 60 \<and> ck_done (note_clock r) < ck_instant (note_clock (lk_requests note_link)) + 60"
    by (simp add: note_clock_def note_link_def)
  have inbox: "st_inbox_dir (fst demo_server) = [''in'']" "sw_fs (lk_world note_link) = demo_disk"
    by (simp_all add: note_link_def demo_server_def server_bind_def demo_server_config_def)
  have ready: "inbox_ready (st_inbox_dir (fst demo_server)) (length [[''note'']]) (sw_fs (lk_world note_link))"
    by (simp add: inbox inbox_ready_def inbox_names_def demo_disk_def fs_wf_def normal_name_def has_nul_def)
  have W: "rw_protocol_versions note_reqwest = Inr ()" "rw_build_pinned note_reqwest fp = Inr ()" "rw_parse note_reqwest u = Inr u"
    "rw_send note_reqwest = wire_send (\<lambda>bs. bs) demo_uuid no_unicode note_extract (fst demo_server) note_clock note_wire" for fp u
    by (simp_all add: note_reqwest_def)
  have U: "\<forall>i. \<not> has_nul (demo_uuid i)" by (simp add: demo_uuid_chars)
  from localsend_send_delivers [OF W(1,2) W(4,3) _ src wire adm ok U time ready, of note_peer]
  show ?thesis by (auto simp: inbox)
qed

end
