(* ===== verification/Daemon_Events.thy ===== *)
theory Daemon_Events
  imports Native_Discovery Core_Config "HOL-Library.Sublist"
begin

text \<open>
  Daemon events and their three outlets: the event bus (\<open>daemon/src/events.rs\<close>), the hook dispatcher
  with its webhook and exec sinks (\<open>daemon/src/hooks\<close>), and the event streams of the gRPC and HTTP
  interfaces (\<open>watch\<close> of \<open>api/grpc.rs\<close>, \<open>events\<close> of \<open>api/http.rs\<close>). The broadcast channel, the
  HTTP client, HMAC and process execution are parameters; what a receiver of the channel can see is
  the predicate \<open>broadcast_view\<close>.
\<close>

section \<open>Events and their messages\<close>

datatype DaemonEvent =
    DeTransferStarted string
  | DeTransferProgress string u64 u64
  | DeTransferCompleted string
  | DeTransferFailed string string string     \<comment> \<open>transfer id, code, message\<close>
  | DeInboxChanged
  | DePeerSeen string string u32              \<comment> \<open>alias, address, port\<close>

record DaemonEventEnvelope =
  ev_event_id :: string
  ev_occurred_at_unix_seconds :: int
  ev_event :: DaemonEvent

text \<open>The messages of the \<open>proto\<close> crate that events are sent as; enumerations are their numbers.\<close>

record TransferFile =
  tf_file_id :: string
  tf_file_name :: string
  tf_path :: "string option"
  tf_size :: u64
  tf_bytes_done :: u64
  tf_blake3 :: "string option"

record InboxEntry =
  ie_file_name :: string
  ie_path :: string
  ie_size :: u64
  ie_modified_unix_seconds :: int

record ActiveTransfer =
  at_transfer_id :: string
  at_peer_fingerprint :: string
  at_direction :: int
  at_state :: int
  at_bytes_total :: u64
  at_bytes_done :: u64
  at_files :: "TransferFile list"
  at_created_at_unix_seconds :: int
  at_updated_at_unix_seconds :: int
  at_last_error :: "(string \<times> string) option"

record ProtoLanPeer =
  pl_alias :: string
  pl_address :: string
  pl_port :: u32
  pl_protocol :: int
  pl_fingerprint :: "string option"
  pl_device_model :: "string option"
  pl_device_type :: "string option"
  pl_download :: bool
  pl_extensions :: "string list"
  pl_native_pubkey :: bytes
  pl_native_certificate_fingerprint :: "string option"

datatype ProtoPayload =
    PayTransferStarted "ActiveTransfer option"
  | PayTransferProgress string u64 u64 "TransferFile list"
  | PayTransferCompleted string "InboxEntry list"
  | PayTransferFailed string "(string \<times> string) option"
  | PayInboxChanged "InboxEntry list"
  | PayPeerSeen "ProtoLanPeer option"

record ProtoDaemonEvent =
  pd_event_id :: string
  pd_occurred_at_unix_seconds :: int
  pd_type :: int
  pd_payload :: "ProtoPayload option"

datatype DaemonEventType = EtUnspecified | EtTransferStarted | EtTransferProgress | EtTransferCompleted | EtTransferFailed
  | EtInboxChanged | EtPeerSeen

fun event_type_number :: "DaemonEventType \<Rightarrow> int" where
  "event_type_number EtUnspecified = 0"
| "event_type_number EtTransferStarted = 1"
| "event_type_number EtTransferProgress = 2"
| "event_type_number EtTransferCompleted = 3"
| "event_type_number EtTransferFailed = 4"
| "event_type_number EtInboxChanged = 5"
| "event_type_number EtPeerSeen = 6"

definition event_type_try_from :: "int \<Rightarrow> DaemonEventType option" where
  "event_type_try_from n = find (\<lambda>t. event_type_number t = n)
     [EtUnspecified, EtTransferStarted, EtTransferProgress, EtTransferCompleted, EtTransferFailed, EtInboxChanged, EtPeerSeen]"

definition proto_event :: "DaemonEventEnvelope \<Rightarrow> DaemonEventType \<Rightarrow> ProtoPayload \<Rightarrow> ProtoDaemonEvent" where
  "proto_event e event_type payload = \<lparr>pd_event_id = ev_event_id e, pd_occurred_at_unix_seconds = ev_occurred_at_unix_seconds e,
     pd_type = event_type_number event_type, pd_payload = Some payload\<rparr>"

definition to_proto :: "DaemonEventEnvelope \<Rightarrow> ProtoDaemonEvent" where
  "to_proto e =
     (case ev_event e of
        DeTransferStarted transfer_id \<Rightarrow> proto_event e EtTransferStarted (PayTransferStarted (Some
          \<lparr>at_transfer_id = transfer_id, at_peer_fingerprint = [], at_direction = 0, at_state = 2, at_bytes_total = 0, at_bytes_done = 0,
           at_files = [], at_created_at_unix_seconds = ev_occurred_at_unix_seconds e,
           at_updated_at_unix_seconds = ev_occurred_at_unix_seconds e, at_last_error = None\<rparr>))
      | DeTransferProgress transfer_id bytes_done bytes_total \<Rightarrow>
          proto_event e EtTransferProgress (PayTransferProgress transfer_id bytes_done bytes_total [])
      | DeTransferCompleted transfer_id \<Rightarrow> proto_event e EtTransferCompleted (PayTransferCompleted transfer_id [])
      | DeTransferFailed transfer_id code message \<Rightarrow>
          proto_event e EtTransferFailed (PayTransferFailed transfer_id (Some (code, message)))
      | DeInboxChanged \<Rightarrow> proto_event e EtInboxChanged (PayInboxChanged [])
      | DePeerSeen alias address port \<Rightarrow> proto_event e EtPeerSeen (PayPeerSeen (Some
          \<lparr>pl_alias = alias, pl_address = address, pl_port = port, pl_protocol = 0, pl_fingerprint = None, pl_device_model = None,
           pl_device_type = None, pl_download = False, pl_extensions = [], pl_native_pubkey = [],
           pl_native_certificate_fingerprint = None\<rparr>)))"

section \<open>The event bus\<close>

text \<open>The counter and what has been handed to the channel, oldest first.\<close>

record EventBus =
  eb_next_id :: u64
  eb_sent :: "DaemonEventEnvelope list"

definition event_bus_new :: EventBus where
  "event_bus_new = \<lparr>eb_next_id = 1, eb_sent = []\<rparr>"

text \<open>\<open>since_epoch\<close> is what \<open>duration_since(UNIX_EPOCH)\<close> gives, in seconds; it is cast to a signed number.\<close>

definition emit :: "u64 option \<Rightarrow> DaemonEvent \<Rightarrow> EventBus \<Rightarrow> EventBus" where
  "emit since_epoch event bus =
     (let envelope = \<lparr>ev_event_id = show_nat (unat (eb_next_id bus)),
            ev_occurred_at_unix_seconds = (case since_epoch of Some s \<Rightarrow> sint s | None \<Rightarrow> 0), ev_event = event\<rparr>
      in bus\<lparr>eb_next_id := eb_next_id bus + 1, eb_sent := eb_sent bus @ [envelope]\<rparr>)"

datatype RecvOutcome = Received DaemonEventEnvelope | Lagged u64 | Closed

text \<open>What a receiver subscribed before \<open>sent\<close> may see of it: the messages in order; a receiver that has fallen
  behind is told how many it missed; the end comes after the last message.\<close>

inductive broadcast_view :: "DaemonEventEnvelope list \<Rightarrow> RecvOutcome list \<Rightarrow> bool" where
  view_pending: "broadcast_view sent []"
| view_received: "broadcast_view sent rs \<Longrightarrow> broadcast_view (e # sent) (Received e # rs)"
| view_lagged: "skipped \<noteq> [] \<Longrightarrow> broadcast_view sent rs \<Longrightarrow> broadcast_view (skipped @ sent) (Lagged (of_nat (length skipped)) # rs)"
| view_closed: "broadcast_view [] [Closed]"

inductive_cases broadcast_viewE: "broadcast_view sent (r # rs)"

section \<open>Event streams\<close>

fun watch_stream :: "RecvOutcome list \<Rightarrow> ProtoDaemonEvent list" where
  "watch_stream [] = []"
| "watch_stream (Received e # rs) = to_proto e # watch_stream rs"
| "watch_stream (Lagged _ # rs) = watch_stream rs"
| "watch_stream (Closed # rs) = []"

datatype JsonValue = JNull | JBool bool | JInt int | JStr string | JArr "JsonValue list" | JObj "(string \<times> JsonValue) list"

definition jopt :: "('a \<Rightarrow> JsonValue) \<Rightarrow> 'a option \<Rightarrow> JsonValue" where
  "jopt f x = (case x of Some v \<Rightarrow> f v | None \<Rightarrow> JNull)"

definition transfer_files_json :: "TransferFile list \<Rightarrow> JsonValue list" where
  "transfer_files_json = map (\<lambda>f. JObj [(''file_id'', JStr (tf_file_id f)), (''file_name'', JStr (tf_file_name f)),
     (''path'', jopt JStr (tf_path f)), (''size'', JInt (uint (tf_size f))), (''bytes_done'', JInt (uint (tf_bytes_done f))),
     (''blake3'', jopt JStr (tf_blake3 f))])"

definition inbox_entries_json :: "InboxEntry list \<Rightarrow> JsonValue list" where
  "inbox_entries_json = map (\<lambda>e. JObj [(''file_name'', JStr (ie_file_name e)), (''path'', JStr (ie_path e)),
     (''size'', JInt (uint (ie_size e))), (''modified_unix_seconds'', JInt (ie_modified_unix_seconds e))])"

fun payload_json :: "ProtoPayload \<Rightarrow> string \<times> JsonValue" where
  "payload_json (PayTransferStarted transfer) = (''transfer_started'', JObj [(''transfer'', jopt (\<lambda>t. JObj
     [(''transfer_id'', JStr (at_transfer_id t)), (''peer_fingerprint'', JStr (at_peer_fingerprint t)), (''direction'', JInt (at_direction t)),
      (''state'', JInt (at_state t)), (''bytes_total'', JInt (uint (at_bytes_total t))), (''bytes_done'', JInt (uint (at_bytes_done t))),
      (''created_at_unix_seconds'', JInt (at_created_at_unix_seconds t)),
      (''updated_at_unix_seconds'', JInt (at_updated_at_unix_seconds t))]) transfer)])"
| "payload_json (PayTransferProgress transfer_id bytes_done bytes_total files) = (''transfer_progress'', JObj
     [(''transfer_id'', JStr transfer_id), (''bytes_done'', JInt (uint bytes_done)), (''bytes_total'', JInt (uint bytes_total)),
      (''files'', JArr (transfer_files_json files))])"
| "payload_json (PayTransferCompleted transfer_id entries) = (''transfer_completed'', JObj
     [(''transfer_id'', JStr transfer_id), (''inbox_entries'', JArr (inbox_entries_json entries))])"
| "payload_json (PayTransferFailed transfer_id error) = (''transfer_failed'', JObj
     [(''transfer_id'', JStr transfer_id),
      (''error'', jopt (\<lambda>(code, message). JObj [(''code'', JStr code), (''message'', JStr message)]) error)])"
| "payload_json (PayInboxChanged entries) = (''inbox_changed'', JObj [(''entries'', JArr (inbox_entries_json entries))])"
| "payload_json (PayPeerSeen peer) = (''peer_seen'', JObj [(''peer'', jopt (\<lambda>p. JObj
     [(''alias'', JStr (pl_alias p)), (''address'', JStr (pl_address p)), (''port'', JInt (uint (pl_port p))),
      (''protocol'', JInt (pl_protocol p)), (''fingerprint'', jopt JStr (pl_fingerprint p)),
      (''device_model'', jopt JStr (pl_device_model p)), (''device_type'', jopt JStr (pl_device_type p)),
      (''download'', JBool (pl_download p)), (''extensions'', JArr (map JStr (pl_extensions p)))]) peer)])"

fun event_type_name :: "DaemonEventType \<Rightarrow> string" where
  "event_type_name EtTransferStarted = ''transfer_started''"
| "event_type_name EtTransferProgress = ''transfer_progress''"
| "event_type_name EtTransferCompleted = ''transfer_completed''"
| "event_type_name EtTransferFailed = ''transfer_failed''"
| "event_type_name EtInboxChanged = ''inbox_changed''"
| "event_type_name EtPeerSeen = ''peer_seen''"
| "event_type_name EtUnspecified = ''unspecified''"

definition event_json :: "ProtoDaemonEvent \<Rightarrow> JsonValue" where
  "event_json event =
     (let event_type = (case event_type_try_from (pd_type event) of Some t \<Rightarrow> t | None \<Rightarrow> EtUnspecified);
          base = [(''event_id'', JStr (pd_event_id event)), (''occurred_at_unix_seconds'', JInt (pd_occurred_at_unix_seconds event)),
            (''type'', JStr (event_type_name event_type))]
      in case pd_payload event of
           None \<Rightarrow> JObj base
         | Some payload \<Rightarrow> (let (key, value) = payload_json payload in JObj (AList.update key value base)))"

text \<open>The server-sent events: name and data; \<open>to_string\<close> prints JSON.\<close>

fun sse_stream :: "(JsonValue \<Rightarrow> string) \<Rightarrow> RecvOutcome list \<Rightarrow> (string \<times> string) list" where
  "sse_stream to_string [] = []"
| "sse_stream to_string (Received e # rs) = (''daemon'', to_string (event_json (to_proto e))) # sse_stream to_string rs"
| "sse_stream to_string (Lagged _ # rs) = sse_stream to_string rs"
| "sse_stream to_string (Closed # rs) = []"

section \<open>Hook events\<close>

fun hook_event_type :: "DaemonEvent \<Rightarrow> HookEventType" where
  "hook_event_type (DeTransferStarted _) = TransferStarted"
| "hook_event_type (DeTransferProgress _ _ _) = TransferProgress"
| "hook_event_type (DeTransferCompleted _) = TransferCompleted"
| "hook_event_type (DeTransferFailed _ _ _) = TransferFailed"
| "hook_event_type DeInboxChanged = InboxChanged"
| "hook_event_type (DePeerSeen _ _ _) = PeerSeen"

fun hook_payload :: "DaemonEvent \<Rightarrow> JsonValue" where
  "hook_payload (DeTransferStarted transfer_id) = JObj [(''transfer_id'', JStr transfer_id)]"
| "hook_payload (DeTransferProgress transfer_id bytes_done bytes_total) = JObj
     [(''transfer_id'', JStr transfer_id), (''bytes_done'', JInt (uint bytes_done)), (''bytes_total'', JInt (uint bytes_total))]"
| "hook_payload (DeTransferCompleted transfer_id) = JObj [(''transfer_id'', JStr transfer_id)]"
| "hook_payload (DeTransferFailed transfer_id code message) = JObj
     [(''transfer_id'', JStr transfer_id), (''code'', JStr code), (''message'', JStr message)]"
| "hook_payload DeInboxChanged = JObj []"
| "hook_payload (DePeerSeen alias address port) = JObj
     [(''alias'', JStr alias), (''address'', JStr address), (''port'', JInt (uint port))]"

definition hook_event_from_envelope :: "DaemonEventEnvelope \<Rightarrow> JsonValue HookEvent" where
  "hook_event_from_envelope e = \<lparr>he_event_id = ev_event_id e, he_event_type = hook_event_type (ev_event e),
     he_occurred_at_unix_seconds = ev_occurred_at_unix_seconds e, he_payload = hook_payload (ev_event e)\<rparr>"

section \<open>Sinks\<close>

record WebhookSink =
  ws_url :: string
  ws_secret :: string
  ws_max_attempts :: u8

record ExecSink =
  es_command :: string
  es_timeout :: u64

datatype HookSink = SinkWebhook WebhookSink | SinkExec ExecSink

definition webhook_new :: "string \<Rightarrow> string \<Rightarrow> u8 \<Rightarrow> WebhookSink" where
  "webhook_new url secret max_attempts = \<lparr>ws_url = url, ws_secret = secret, ws_max_attempts = max max_attempts 1\<rparr>"

definition hook_sinks_from_config :: "AppConfig \<Rightarrow> HookSink list" where
  "hook_sinks_from_config config = map (\<lambda>hook. case hook of
     Webhook url secret max_attempts \<Rightarrow> SinkWebhook (webhook_new url secret max_attempts)
   | Exec command timeout_seconds \<Rightarrow> SinkExec \<lparr>es_command = command, es_timeout = timeout_seconds\<rparr>) (ac_hooks config)"

text \<open>One delivery task per sink. A task gives up after 30 seconds and logs a failure; that limit is not modelled.\<close>

definition dispatch :: "HookSink list \<Rightarrow> JsonValue HookEvent \<Rightarrow> (HookSink \<times> JsonValue HookEvent) list" where
  "dispatch sinks event = map (\<lambda>sink. (sink, event)) sinks"

text \<open>What the loop waits for: a change of the shutdown flag (or the loss of its sender), or the channel.\<close>

datatype DispatchInput = ShutdownChanged "unit + bool" | FromBus RecvOutcome

fun run_dispatcher :: "HookSink list \<Rightarrow> DispatchInput list \<Rightarrow> (HookSink \<times> JsonValue HookEvent) list" where
  "run_dispatcher sinks [] = []"
| "run_dispatcher sinks (ShutdownChanged changed # inputs) =
     (if changed = Inl () \<or> changed = Inr True then [] else run_dispatcher sinks inputs)"
| "run_dispatcher sinks (FromBus (Received e) # inputs) = dispatch sinks (hook_event_from_envelope e) @ run_dispatcher sinks inputs"
| "run_dispatcher sinks (FromBus (Lagged _) # inputs) = run_dispatcher sinks inputs"
| "run_dispatcher sinks (FromBus Closed # inputs) = []"

subsection \<open>Webhooks\<close>

datatype WebhookDeliveryError = WdHeader string | WdNetwork string | WdRetryableStatus nat | WdStatus nat

fun is_retryable :: "WebhookDeliveryError \<Rightarrow> bool" where
  "is_retryable (WdNetwork _) = True"
| "is_retryable (WdRetryableStatus _) = True"
| "is_retryable (WdHeader _) = False"
| "is_retryable (WdStatus _) = False"

text \<open>The libraries: JSON, HMAC-SHA-256, the check of a header value, and a POST with headers and body on the network.\<close>

record 's WebhookEnv =
  we_to_vec :: "JsonValue HookEvent \<Rightarrow> string + bytes"
  we_hmac :: "bytes \<Rightarrow> bytes \<Rightarrow> bytes"
  we_header_value :: "string \<Rightarrow> string + string"
  we_post :: "string \<Rightarrow> (string \<times> string) list \<Rightarrow> bytes \<Rightarrow> ('s, string, nat) sr"

definition webhook_encode_hex :: "bytes \<Rightarrow> string" where
  "webhook_encode_hex bs = fold (\<lambda>b output. output @ [HEX ! unat (drop_bit 4 b)] @ [HEX ! unat (b AND 0x0f)]) bs []"

definition sign_payload :: "'s WebhookEnv \<Rightarrow> string \<Rightarrow> bytes \<Rightarrow> string" where
  "sign_payload V secret payload = webhook_encode_hex (we_hmac V (str_bytes secret) payload)"

definition webhook_headers :: "'s WebhookEnv \<Rightarrow> JsonValue HookEvent \<Rightarrow> string \<Rightarrow> string + (string \<times> string) list" where
  "webhook_headers V event signature =
     res_map (\<lambda>value. [(''content-type'', ''application/json''), (''X-NBRG-Event'', event_type_as_str (he_event_type event)),
       (''X-NBRG-Signature'', value)]) (we_header_value V signature)"

definition send_once :: "'s WebhookEnv \<Rightarrow> WebhookSink \<Rightarrow> JsonValue HookEvent \<Rightarrow> bytes \<Rightarrow> string \<Rightarrow> ('s, WebhookDeliveryError, unit) sr" where
  "send_once V sink event body signature = (\<lambda>s.
     case webhook_headers V event signature of
       Inl e \<Rightarrow> (Inl (WdHeader e), s)
     | Inr headers \<Rightarrow>
        (case we_post V (ws_url sink) headers body s of
           (Inl e, s') \<Rightarrow> (Inl (WdNetwork e), s')
         | (Inr status, s') \<Rightarrow>
            (if 200 \<le> status \<and> status < 300 then Inr ()
             else if 500 \<le> status \<and> status < 600 then Inl (WdRetryableStatus status)
             else Inl (WdStatus status), s')))"

fun webhook_attempts :: "('s, WebhookDeliveryError, unit) sr \<Rightarrow> nat \<Rightarrow> nat list \<Rightarrow> WebhookDeliveryError option
    \<Rightarrow> ('s, WebhookDeliveryError, unit) sr" where
  "webhook_attempts send max_attempts [] last_retryable_error =
     sr_fail (case last_retryable_error of Some e \<Rightarrow> e | None \<Rightarrow> WdRetryableStatus 500)"
| "webhook_attempts send max_attempts (attempt # rest) last_retryable_error = (\<lambda>s.
     case send s of
       (Inr u, s') \<Rightarrow> (Inr u, s')
     | (Inl error, s') \<Rightarrow>
         if is_retryable error \<and> attempt < max_attempts then webhook_attempts send max_attempts rest (Some error) s'
         else (Inl error, s'))"

text \<open>The errors of \<open>anyhow\<close>: a message, a library's error, or an error under a context.\<close>

datatype HookError = HkText string | HkLibrary string | HkWebhook WebhookDeliveryError | HkContext string HookError

definition webhook_deliver :: "'s WebhookEnv \<Rightarrow> WebhookSink \<Rightarrow> JsonValue HookEvent \<Rightarrow> ('s, HookError, unit) sr" where
  "webhook_deliver V sink event = (\<lambda>s.
     case we_to_vec V event of
       Inl e \<Rightarrow> (Inl (HkLibrary e), s)
     | Inr body \<Rightarrow>
         (let signature = ''sha256='' @ sign_payload V (ws_secret sink) body;
              n = unat (ws_max_attempts sink)
          in case webhook_attempts (send_once V sink event body signature) n [Suc 0 ..< Suc n] None s of
               (r, s') \<Rightarrow> (map_sum HkWebhook id r, s')))"

subsection \<open>Commands\<close>

text \<open>\<open>str::split_whitespace\<close> and \<open>String::from_utf8_lossy\<close>.\<close>

fun split_ws :: "string list \<Rightarrow> string \<Rightarrow> string list" where
  "split_ws [] word = (if word = [] then [] else [word])"
| "split_ws (ch # chs) word =
     (if is_whitespace ch then (if word = [] then [] else [word]) @ split_ws chs [] else split_ws chs (word @ ch))"

definition split_whitespace :: "string \<Rightarrow> string list" where
  "split_whitespace s = split_ws (utf8_chars s) []"

text \<open>How many bytes the next well-formed sequence has, or how many to replace when there is none.\<close>

fun utf8_step :: "nat list \<Rightarrow> bool \<times> nat" where
  "utf8_step [] = (True, 0)"
| "utf8_step (a # r) =
     (if a \<le> 127 then (True, 1)
      else
        let second = (\<lambda>lo hi. case r of b # _ \<Rightarrow> lo \<le> b \<and> b \<le> hi | [] \<Rightarrow> False);
            third = (case r of _ # c # _ \<Rightarrow> cont_byte c | _ \<Rightarrow> False);
            fourth = (case r of _ # _ # d # _ \<Rightarrow> cont_byte d | _ \<Rightarrow> False)
        in if 194 \<le> a \<and> a \<le> 223 then (if second 128 191 then (True, 2) else (False, 1))
           else if 224 \<le> a \<and> a \<le> 239 then
             (if \<not> second (if a = 224 then 160 else 128) (if a = 237 then 159 else 191) then (False, 1)
              else if third then (True, 3) else (False, 2))
           else if 240 \<le> a \<and> a \<le> 244 then
             (if \<not> second (if a = 240 then 144 else 128) (if a = 244 then 143 else 191) then (False, 1)
              else if \<not> third then (False, 2) else if fourth then (True, 4) else (False, 3))
           else (False, 1))"

function from_utf8_lossy :: "bytes \<Rightarrow> string" where
  "from_utf8_lossy bs =
     (if bs = [] then []
      else let (ok, n) = utf8_step (map unat bs) in
        (if ok then bytes_str (take n bs) else [CHR 0xEF, CHR 0xBF, CHR 0xBD]) @ from_utf8_lossy (drop (max 1 n) bs))"
  by pat_completeness auto
termination
  by (relation "measure length") auto

declare from_utf8_lossy.simps [simp del]

definition OUTPUT_ERROR_CAP_BYTES :: nat where "OUTPUT_ERROR_CAP_BYTES = 4096"

definition capped_output :: "bytes \<Rightarrow> string" where
  "capped_output output =
     (let truncated = length output > OUTPUT_ERROR_CAP_BYTES;
          cap = min (length output) OUTPUT_ERROR_CAP_BYTES;
          txt = from_utf8_lossy (take cap output)
      in if truncated then txt @ ''...[truncated]'' else txt)"

text \<open>Running a command with arguments and environment for at most so many seconds.\<close>

datatype ExecOutcome = ExecTimedOut | ExecSpawnError string | ExecExited bool string bytes bytes

text \<open>\<open>{:?}\<close> of a duration of whole seconds.\<close>

definition duration_debug :: "u64 \<Rightarrow> string" where
  "duration_debug secs = (if secs = 0 then ''0ns'' else show_nat (unat secs) @ ''s'')"

definition exec_deliver :: "(JsonValue HookEvent \<Rightarrow> string + string)
    \<Rightarrow> (string \<Rightarrow> string list \<Rightarrow> (string \<times> string) list \<Rightarrow> u64 \<Rightarrow> 's \<Rightarrow> ExecOutcome \<times> 's) \<Rightarrow> ExecSink \<Rightarrow> JsonValue HookEvent
    \<Rightarrow> ('s, HookError, unit) sr" where
  "exec_deliver to_json run sink event = (\<lambda>s.
     case split_whitespace (es_command sink) of
       [] \<Rightarrow> (Inl (HkText ''exec hook command must not be blank''), s)
     | program # args \<Rightarrow>
        (case to_json event of
           Inl e \<Rightarrow> (Inl (HkContext ''serialize hook event'' (HkLibrary e)), s)
         | Inr json \<Rightarrow>
            (case run program args [(''NBRG_EVENT_ID'', he_event_id event),
                (''NBRG_EVENT_TYPE'', event_type_as_str (he_event_type event)), (''NBRG_EVENT_JSON'', json)] (es_timeout sink) s of
               (ExecTimedOut, s') \<Rightarrow> (Inl (HkText (''exec hook command timed out after '' @ duration_debug (es_timeout sink))), s')
             | (ExecSpawnError e, s') \<Rightarrow> (Inl (HkContext (''spawn exec hook command `'' @ program @ ''`'') (HkLibrary e)), s')
             | (ExecExited success status out err, s') \<Rightarrow>
                 (if success then Inr ()
                  else Inl (HkText (''exec hook command exited with '' @ status @ ''; stdout: '' @ capped_output out
                         @ ''; stderr: '' @ capped_output err)), s'))))"

subsection \<open>Delivery tasks\<close>

definition hook_sink_deliver :: "'s WebhookEnv \<Rightarrow> (JsonValue HookEvent \<Rightarrow> string + string)
    \<Rightarrow> (string \<Rightarrow> string list \<Rightarrow> (string \<times> string) list \<Rightarrow> u64 \<Rightarrow> 's \<Rightarrow> ExecOutcome \<times> 's) \<Rightarrow> HookSink \<Rightarrow> JsonValue HookEvent
    \<Rightarrow> ('s, HookError, unit) sr" where
  "hook_sink_deliver V to_json run sink event =
     (case sink of SinkWebhook w \<Rightarrow> webhook_deliver V w event | SinkExec x \<Rightarrow> exec_deliver to_json run x event)"

section \<open>What a receiver hears\<close>

fun heard :: "RecvOutcome list \<Rightarrow> DaemonEventEnvelope list" where
  "heard (Received e # rs) = e # heard rs"
| "heard (Lagged _ # rs) = heard rs"
| "heard _ = []"

fun missed :: "RecvOutcome list \<Rightarrow> u64" where
  "missed (Lagged n # rs) = n + missed rs"
| "missed (_ # rs) = missed rs"
| "missed [] = 0"

text \<open>The channel's outcomes up to the point where the dispatcher stops.\<close>

fun before_stop :: "DispatchInput list \<Rightarrow> RecvOutcome list" where
  "before_stop (FromBus r # inputs) = r # before_stop inputs"
| "before_stop (ShutdownChanged (Inr False) # inputs) = before_stop inputs"
| "before_stop _ = []"

lemma heard_subseq: "broadcast_view sent rs \<Longrightarrow> subseq (heard rs) sent"
  by (induction rule: broadcast_view.induct) (auto intro: list_emb_append2)

lemma heard_accounted: "broadcast_view sent rs \<Longrightarrow> Closed \<in> set rs \<Longrightarrow> of_nat (length (heard rs)) + missed rs = of_nat (length sent)"
  by (induction rule: broadcast_view.induct) (auto simp: algebra_simps)

lemma heard_prefix: "broadcast_view sent rs \<Longrightarrow> \<forall>n. Lagged n \<notin> set rs \<Longrightarrow> prefix (heard rs) sent"
  by (induction rule: broadcast_view.induct) auto

lemma watch_stream_heard: "watch_stream rs = map to_proto (heard rs)"
  by (induction rs rule: watch_stream.induct) auto

lemma sse_stream_heard: "sse_stream to_string rs = map (\<lambda>e. (''daemon'', to_string (event_json (to_proto e)))) (heard rs)"
  by (induction to_string rs rule: sse_stream.induct) auto

lemma run_dispatcher_heard:
  "run_dispatcher sinks inputs = concat (map (\<lambda>e. dispatch sinks (hook_event_from_envelope e)) (heard (before_stop inputs)))"
proof (induction sinks inputs rule: run_dispatcher.induct)
  case (2 sinks changed inputs)
  then show ?case by (cases changed) auto
qed auto

section \<open>The bus numbers its events\<close>

definition emit_all :: "(u64 option \<times> DaemonEvent) list \<Rightarrow> EventBus \<Rightarrow> EventBus" where
  "emit_all evs bus = fold (\<lambda>(t, e). emit t e) evs bus"

lemma emit_all_from:
  "map ev_event_id (eb_sent (emit_all evs bus))
     = map ev_event_id (eb_sent bus) @ map (\<lambda>k. show_nat (unat (eb_next_id bus + of_nat k))) [0..<length evs]
   \<and> map ev_event (eb_sent (emit_all evs bus)) = map ev_event (eb_sent bus) @ map snd evs"
proof (induction evs arbitrary: bus)
  case Nil
  then show ?case by (simp add: emit_all_def)
next
  case (Cons x evs)
  have upt: "[0..<Suc (length evs)] = 0 # map Suc [0..<length evs]" by (simp add: map_Suc_upt upt_conv_Cons del: upt_Suc)
  have "emit_all (x # evs) bus = emit_all evs (emit (fst x) (snd x) bus)" by (simp add: emit_all_def case_prod_unfold)
  then show ?case
    using Cons.IH [of "emit (fst x) (snd x) bus"]
    by (simp add: upt emit_def Let_def comp_def algebra_simps del: upt_Suc)
qed

lemma emit_all_ids:
  assumes "length evs < 2 ^ 64 - 1"
  shows "map ev_event_id (eb_sent (emit_all evs event_bus_new)) = map show_nat [1..<Suc (length evs)]"
proof -
  have "unat (1 + of_nat k :: u64) = Suc k" if "k < length evs" for k
  proof -
    have "unat (of_nat (Suc k) :: u64) = Suc k" using that assms by (simp add: unat_of_nat take_bit_nat_eq_self del: of_nat_Suc)
    then show ?thesis by simp
  qed
  then show ?thesis
    using emit_all_from [of evs event_bus_new] map_Suc_upt [of 0 "length evs", symmetric]
    by (simp add: event_bus_new_def comp_def del: upt_Suc cong: map_cong)
qed

lemma show_nat_distinct: "distinct xs \<Longrightarrow> distinct (map show_nat xs)"
  by (simp add: distinct_map inj_on_def show_nat_inject)

section \<open>Every outlet tells the same story\<close>

text \<open>All members of an object, those of nested objects included.\<close>

fun json_members :: "JsonValue \<Rightarrow> (string \<times> JsonValue) list" where
  "json_members (JObj ms) = ms @ concat (map (\<lambda>(k, v). json_members v) ms)"
| "json_members _ = []"

text \<open>
  C16. The three outlets see the same events, in the order of the bus. Of the events emitted on a fresh bus, a receiver
  hears a subsequence: a prefix while it is never told that it lagged, and once the channel has closed, the heard events
  and the reported losses add up to all of them (in 64-bit arithmetic). The hook dispatcher starts exactly one delivery
  per configured sink and heard event, in order; the gRPC stream and the HTTP stream carry exactly the heard events. The
  identifiers heard are pairwise different as long as fewer than \<open>2^64 - 1\<close> events were emitted.
\<close>

theorem daemon_outlets_agree:
  assumes view: "broadcast_view (eb_sent (emit_all evs event_bus_new)) rs"
    and inputs: "before_stop inputs = rs"
    and few: "length evs < 2 ^ 64 - 1"
  shows "run_dispatcher (hook_sinks_from_config config) inputs
           = concat (map (\<lambda>e. map (\<lambda>sink. (sink, hook_event_from_envelope e)) (hook_sinks_from_config config)) (heard rs))
    \<and> watch_stream rs = map to_proto (heard rs)
    \<and> sse_stream to_string rs = map (\<lambda>e. (''daemon'', to_string (event_json (to_proto e)))) (heard rs)
    \<and> subseq (map ev_event (heard rs)) (map snd evs)
    \<and> distinct (map ev_event_id (heard rs))
    \<and> ((\<forall>n. Lagged n \<notin> set rs) \<longrightarrow> prefix (map ev_event (heard rs)) (map snd evs))
    \<and> (Closed \<in> set rs \<longrightarrow> of_nat (length (heard rs)) + missed rs = of_nat (length evs))"
proof -
  let ?sent = "eb_sent (emit_all evs event_bus_new)"
  have events: "map ev_event ?sent = map snd evs"
    using emit_all_from [of evs event_bus_new] by (simp add: event_bus_new_def)
  have c1: "run_dispatcher (hook_sinks_from_config config) inputs
          = concat (map (\<lambda>e. map (\<lambda>sink. (sink, hook_event_from_envelope e)) (hook_sinks_from_config config)) (heard rs))"
    by (simp add: run_dispatcher_heard inputs dispatch_def)
  have c2: "watch_stream rs = map to_proto (heard rs)"
    by (rule watch_stream_heard)
  have c3: "sse_stream to_string rs = map (\<lambda>e. (''daemon'', to_string (event_json (to_proto e)))) (heard rs)"
    by (rule sse_stream_heard)
  have c4: "subseq (map ev_event (heard rs)) (map snd evs)"
    using subseq_map [OF heard_subseq [OF view], of ev_event] by (simp add: events)
  have "distinct (map ev_event_id ?sent)"
    unfolding emit_all_ids [OF few] by (rule show_nat_distinct) simp
  then have c5: "distinct (map ev_event_id (heard rs))"
    using subseq_map [OF heard_subseq [OF view], of ev_event_id] by (auto simp: subseq_conv_nths distinct_nthsI)
  have c6: "(\<forall>n. Lagged n \<notin> set rs) \<longrightarrow> prefix (map ev_event (heard rs)) (map snd evs)"
    using map_mono_prefix [OF heard_prefix [OF view], of ev_event] by (simp add: events)
  have c7: "Closed \<in> set rs \<longrightarrow> of_nat (length (heard rs)) + missed rs = of_nat (length evs)"
    using heard_accounted [OF view] arg_cong [OF events, of length] by simp
  show ?thesis
    by (intro conjI c1 c2 c3 c4 c5 c6 c7)
qed

theorem daemon_outlets_agree_witness:
  "subseq (map ev_event (heard [Received \<lparr>ev_event_id = ''1'', ev_occurred_at_unix_seconds = 7, ev_event = DeInboxChanged\<rparr>, Lagged 1, Closed]))
     [DeInboxChanged, DeTransferStarted ''t'']"
proof -
  let ?evs = "[(Some 7, DeInboxChanged), (None, DeTransferStarted ''t'')]"
  let ?rs = "[Received \<lparr>ev_event_id = ''1'', ev_occurred_at_unix_seconds = 7, ev_event = DeInboxChanged\<rparr>, Lagged 1, Closed]"
  let ?last = "\<lparr>ev_event_id = ''2'', ev_occurred_at_unix_seconds = 0, ev_event = DeTransferStarted ''t''\<rparr>"
  have sent: "eb_sent (emit_all ?evs event_bus_new)
      = [\<lparr>ev_event_id = ''1'', ev_occurred_at_unix_seconds = 7, ev_event = DeInboxChanged\<rparr>, ?last]"
    by code_simp
  have "broadcast_view (eb_sent (emit_all ?evs event_bus_new)) ?rs"
    unfolding sent using view_received [OF view_lagged [of "[?last]", OF _ view_closed]] by simp
  moreover have "before_stop (ShutdownChanged (Inr False) # map FromBus ?rs) = ?rs" by simp
  moreover have "length ?evs < 2 ^ 64 - 1" by simp
  ultimately show ?thesis
    using daemon_outlets_agree [of ?evs ?rs "ShutdownChanged (Inr False) # map FromBus ?rs"] by simp
qed

text \<open>
  A hook and the HTTP event stream describe an event alike: the JSON object streamed for an event has the
  identifier, the time and the type name of the hook event, and, under the type name, an object in which every member
  of the hook's payload occurs.
\<close>

theorem hook_and_stream_agree:
  "\<exists>v. event_json (to_proto e) = JObj [(''event_id'', JStr (he_event_id (hook_event_from_envelope e))),
         (''occurred_at_unix_seconds'', JInt (he_occurred_at_unix_seconds (hook_event_from_envelope e))),
         (''type'', JStr (event_type_as_str (he_event_type (hook_event_from_envelope e)))),
         (event_type_as_str (he_event_type (hook_event_from_envelope e)), v)]
     \<and> set (json_members (he_payload (hook_event_from_envelope e))) \<subseteq> set (json_members v)"
  by (cases "ev_event e")
    (auto simp: event_json_def to_proto_def proto_event_def hook_event_from_envelope_def jopt_def event_type_try_from_def)

section \<open>Webhook attempts\<close>

text \<open>One attempt as \<open>deliver\<close> makes it, and the state after so many of them.\<close>

definition attempt_of :: "'s WebhookEnv \<Rightarrow> WebhookSink \<Rightarrow> JsonValue HookEvent \<Rightarrow> bytes \<Rightarrow> ('s, WebhookDeliveryError, unit) sr" where
  "attempt_of V sink event body = send_once V sink event body (''sha256='' @ sign_payload V (ws_secret sink) body)"

definition after_attempts :: "('s, 'e, 'a) sr \<Rightarrow> nat \<Rightarrow> 's \<Rightarrow> 's" where
  "after_attempts send k s = ((\<lambda>s. snd (send s)) ^^ k) s"

definition retry_worthy :: "WebhookDeliveryError + unit \<Rightarrow> bool" where
  "retry_worthy r = (case r of Inl e \<Rightarrow> is_retryable e | Inr _ \<Rightarrow> False)"

lemma webhook_attempts_run:
  assumes "j < n"
  shows "\<exists>k < n - j. webhook_attempts send n [Suc j ..< Suc n] err s
             = (fst (send (after_attempts send k s)), after_attempts send (Suc k) s)
           \<and> (\<forall>i < k. retry_worthy (fst (send (after_attempts send i s))))
           \<and> (Suc (j + k) < n \<longrightarrow> \<not> retry_worthy (fst (send (after_attempts send k s))))"
  using assms
proof (induction "n - j" arbitrary: j err s)
  case 0
  then show ?case by simp
next
  case (Suc m)
  have upt: "[Suc j ..< Suc n] = Suc j # [Suc (Suc j) ..< Suc n]" using Suc.prems by (simp add: upt_conv_Cons del: upt_Suc)
  obtain r s' where one: "send s = (r, s')" by force
  show ?case
  proof (cases "retry_worthy r \<and> Suc j < n")
    case False
    then have "webhook_attempts send n [Suc j ..< Suc n] err s = (r, s')"
      unfolding upt by (auto simp: one retry_worthy_def simp del: upt_Suc split: sum.splits)
    then show ?thesis using False Suc.prems one by (intro exI [of _ 0]) (auto simp: after_attempts_def simp del: upt_Suc)
  next
    case True
    then obtain e where r: "r = Inl e" "is_retryable e" by (auto simp: retry_worthy_def split: sum.splits)
    have m: "m = n - Suc j" using Suc.hyps(2) by simp
    have shift: "after_attempts send i s' = after_attempts send (Suc i) s" for i
      by (simp add: after_attempts_def funpow_Suc_right one del: funpow.simps)
    obtain k where k: "k < n - Suc j" "webhook_attempts send n [Suc (Suc j) ..< Suc n] (Some e) s'
          = (fst (send (after_attempts send k s')), after_attempts send (Suc k) s')"
        "\<forall>i < k. retry_worthy (fst (send (after_attempts send i s')))"
        "Suc (Suc j + k) < n \<longrightarrow> \<not> retry_worthy (fst (send (after_attempts send k s')))"
      using Suc.hyps(1) [of "Suc j" "Some e" s', OF m] True by (auto simp del: upt_Suc)
    have first: "retry_worthy (fst (send (after_attempts send 0 s)))" using True by (simp add: after_attempts_def one)
    have all: "\<forall>i < Suc k. retry_worthy (fst (send (after_attempts send i s)))"
      using k(3) first by (auto simp: shift less_Suc_eq_0_disj)
    have "webhook_attempts send n [Suc j ..< Suc n] err s = webhook_attempts send n [Suc (Suc j) ..< Suc n] (Some e) s'"
      unfolding upt using True r one by (simp del: upt_Suc)
    then show ?thesis using k True all by (intro exI [of _ "Suc k"]) (simp add: shift del: upt_Suc)
  qed
qed

text \<open>
  C38. Delivery of a webhook makes at least one attempt and at most \<open>max_attempts\<close> (at least one, whatever is configured).
  It repeats the same signed request while an attempt fails with a network error or a 5xx status; it stops early only
  on success or on an error that another attempt cannot cure; and it returns what its last attempt returned.
\<close>

theorem webhook_deliver_attempts:
  assumes body: "we_to_vec V event = Inr body"
  shows "\<exists>k. 1 \<le> k \<and> k \<le> max 1 (unat m)
     \<and> snd (webhook_deliver V (webhook_new url secret m) event s) = after_attempts (attempt_of V (webhook_new url secret m) event body) k s
     \<and> fst (webhook_deliver V (webhook_new url secret m) event s)
         = map_sum HkWebhook id (fst (attempt_of V (webhook_new url secret m) event body
             (after_attempts (attempt_of V (webhook_new url secret m) event body) (k - 1) s)))
     \<and> (\<forall>i < k - 1. retry_worthy (fst (attempt_of V (webhook_new url secret m) event body
             (after_attempts (attempt_of V (webhook_new url secret m) event body) i s))))
     \<and> (k < max 1 (unat m) \<longrightarrow> \<not> retry_worthy (fst (attempt_of V (webhook_new url secret m) event body
             (after_attempts (attempt_of V (webhook_new url secret m) event body) (k - 1) s))))"
proof -
  let ?sink = "webhook_new url secret m"
  let ?send = "attempt_of V ?sink event body"
  let ?n = "max 1 (unat m)"
  have n: "unat (ws_max_attempts ?sink) = ?n"
    by (simp add: webhook_new_def max_def word_le_nat_alt)
  obtain k where k: "k < ?n" "webhook_attempts ?send ?n [Suc 0 ..< Suc ?n] None s = (fst (?send (after_attempts ?send k s)), after_attempts ?send (Suc k) s)"
      "\<forall>i < k. retry_worthy (fst (?send (after_attempts ?send i s)))"
      "k + 1 < ?n \<longrightarrow> \<not> retry_worthy (fst (?send (after_attempts ?send k s)))"
    using webhook_attempts_run [of 0 ?n ?send None s] by (auto simp: less_max_iff_disj simp del: upt_Suc)
  have "webhook_deliver V ?sink event s = (map_sum HkWebhook id (fst (?send (after_attempts ?send k s))), after_attempts ?send (Suc k) s)"
    unfolding webhook_deliver_def body sum.case Let_def n attempt_of_def [symmetric] k(2) prod.case ..
  then show ?thesis using k by (intro exI [of _ "Suc k"]) auto
qed

theorem webhook_deliver_attempts_witness:
  "\<exists>k. 1 \<le> k \<and> k \<le> max 1 (unat (2 :: u8))
     \<and> snd (webhook_deliver \<lparr>we_to_vec = \<lambda>_. Inr [], we_hmac = \<lambda>_ _. [171], we_header_value = Inr, we_post = \<lambda>_ _ _ s. (Inr (if s = 0 then 503 else 200), Suc s)\<rparr>
          (webhook_new ''u'' ''s'' 2) \<lparr>he_event_id = ''1'', he_event_type = InboxChanged, he_occurred_at_unix_seconds = 7, he_payload = JObj []\<rparr> 0)
        = after_attempts (attempt_of \<lparr>we_to_vec = \<lambda>_. Inr [], we_hmac = \<lambda>_ _. [171], we_header_value = Inr, we_post = \<lambda>_ _ _ s. (Inr (if s = 0 then 503 else 200), Suc s)\<rparr>
          (webhook_new ''u'' ''s'' 2) \<lparr>he_event_id = ''1'', he_event_type = InboxChanged, he_occurred_at_unix_seconds = 7, he_payload = JObj []\<rparr> []) k 0"
proof -
  let ?V = "\<lparr>we_to_vec = \<lambda>_. Inr [], we_hmac = \<lambda>_ _. [171], we_header_value = Inr,
      we_post = \<lambda>_ _ _ s. (Inr (if s = 0 then 503 else 200), Suc s)\<rparr> :: nat WebhookEnv"
  let ?e = "\<lparr>he_event_id = ''1'', he_event_type = InboxChanged, he_occurred_at_unix_seconds = 7, he_payload = JObj []\<rparr>"
  have body: "we_to_vec ?V ?e = Inr []" by simp
  from webhook_deliver_attempts [OF body, of 2 "''u''" "''s''" 0] show ?thesis
    by (elim exE conjE, intro exI conjI)
qed

end
