(* ===== verification/Daemon_Peers.thy ===== *)
theory Daemon_Peers
  imports Daemon_Events Pairing Trust_Store Native_Transfer
begin

text \<open>
  Peers as the daemon's interfaces see them: discovery of native peers on the LAN (\<open>daemon/src/native_lan.rs\<close>),
  the scan for LocalSend peers (\<open>localsend_lan.rs\<close>) and the peer handlers of the gRPC interface
  (\<open>api/peers.rs\<close>). The mDNS events of a browse, the HTTP replies of a scan, the order in which a hash map
  and a set of tasks yield their members, and the clock are parameters.
\<close>

section \<open>The daemon's world\<close>

text \<open>What the handlers change: the event bus, the trust database, the native store with the file system and the
  supply of identifiers, the network of the HTTP client, and how often clock and network have been consulted.\<close>

record 's DaemonWorld =
  dw_events :: EventBus
  dw_store :: TrustStore
  dw_world :: World
  dw_net :: 's
  dw_tick :: nat

datatype GrpcCode = CodeInvalidArgument | CodeNotFound | CodePermissionDenied | CodeFailedPrecondition | CodeUnimplemented
  | CodeInternal | CodeUnauthenticated

record GrpcStatus =
  gs_code :: GrpcCode
  gs_message :: string

definition internal_status :: "string \<Rightarrow> GrpcStatus" where
  "internal_status error = \<lparr>gs_code = CodeInternal, gs_message = error\<rparr>"

definition not_found_status :: "string \<Rightarrow> GrpcStatus" where
  "not_found_status error = \<lparr>gs_code = CodeNotFound, gs_message = error\<rparr>"

record NativeLanPeer =
  nl_alias :: string
  nl_address :: IpAddr
  nl_port :: u16
  nl_fingerprint :: string
  nl_pubkey :: bytes
  nl_native_certificate_fingerprint :: "string option"
  nl_extensions :: "string list"

record InfoResponse =
  ir_alias :: string
  ir_device_model :: "string option"
  ir_device_type :: "string option"
  ir_fingerprint :: string
  ir_port :: "u16 option"
  ir_protocol :: "string option"
  ir_download :: "bool option"

text \<open>The surroundings: hashing, Unicode, opening the trust database, the clock,
  mDNS (starting to browse, the events of a browse with their times since its start), the orders of a hash map and of
  finished tasks, the local address, building the HTTP client, and a GET of an info document. The last ones may differ
  from call to call, which the tick counts.\<close>

record LanEnv =
  le_sha256 :: "bytes \<Rightarrow> bytes"
  le_lc :: "string \<Rightarrow> string"
  le_open :: "unit core_result"
  le_clock :: "nat \<Rightarrow> int"
  le_browse :: "unit native_result"
  le_turns :: "nat \<Rightarrow> (int \<times> ServiceEvent option) list"
  le_hash_order :: "(string \<times> NativeLanPeer) list \<Rightarrow> (string \<times> NativeLanPeer) list"
  le_local_ip :: "string + u8 \<times> u8 \<times> u8 \<times> u8"
  le_build_client :: "string + unit"
  le_get_info :: "nat \<Rightarrow> string \<Rightarrow> string + InfoResponse"
  le_join_order :: "u8 list \<Rightarrow> u8 list"

definition next_tick :: "('s DaemonWorld, 'e, nat) sr" where
  "next_tick = (\<lambda>w. (Inr (dw_tick w), w\<lparr>dw_tick := Suc (dw_tick w)\<rparr>))"

definition store_call :: "(TrustStore \<Rightarrow> 'a core_result \<times> TrustStore) \<Rightarrow> ('s DaemonWorld, CoreError, 'a) sr" where
  "store_call f = (\<lambda>w. case f (dw_store w) of (r, st) \<Rightarrow> (r, w\<lparr>dw_store := st\<rparr>))"

definition sr_map_err :: "('e \<Rightarrow> 'f) \<Rightarrow> ('s, 'e, 'a) sr \<Rightarrow> ('s, 'f, 'a) sr" where
  "sr_map_err g m = (\<lambda>s. case m s of (r, s') \<Rightarrow> (map_sum g id r, s'))"

section \<open>Native peers on the LAN\<close>

definition normalize_peer_ref :: "(string \<Rightarrow> string) \<Rightarrow> string \<Rightarrow> string" where
  "normalize_peer_ref lc value = concat (map (char_to_lowercase lc) (filter (\<lambda>ch. ch \<noteq> '':'' \<and> ch \<noteq> ''-'') (utf8_chars value)))"

definition map_resolved_peer :: "(bytes \<Rightarrow> bytes) \<Rightarrow> ResolvedNativePeer \<Rightarrow> NativeLanPeer option" where
  "map_resolved_peer sha256 peer =
     (let info = rn_info peer in
      if np_quic_port info = 0 \<or> \<not> is_ok (validate_peer_info_fingerprint sha256 info) then None
      else Some \<lparr>nl_alias = np_alias info, nl_address = rn_address peer, nl_port = np_quic_port info, nl_fingerprint = np_fingerprint info,
        nl_pubkey = np_pubkey info, nl_native_certificate_fingerprint = np_native_certificate_fingerprint info,
        nl_extensions = np_extensions info\<rparr>)"

text \<open>The loop over the resolved peers; the hash map keeps the last peer of a fingerprint.\<close>

fun collect_peers :: "(string \<Rightarrow> string) \<Rightarrow> string \<Rightarrow> NativeLanPeer list \<Rightarrow> (string \<times> NativeLanPeer) list \<Rightarrow> (string \<times> NativeLanPeer) list" where
  "collect_peers lc local_fingerprint [] peers = peers"
| "collect_peers lc local_fingerprint (peer # rest) peers =
     (if normalize_peer_ref lc (nl_fingerprint peer) = local_fingerprint then collect_peers lc local_fingerprint rest peers
      else collect_peers lc local_fingerprint rest (AList.update (nl_fingerprint peer) peer peers))"

definition discover_native :: "LanEnv \<Rightarrow> nat \<Rightarrow> string \<Rightarrow> ('s DaemonWorld, string, NativeLanPeer list) sr" where
  "discover_native V timeout_ms local_fingerprint =
     sr_bind next_tick (\<lambda>tick.
     sr_gets (\<lambda>_.
       let local_fingerprint = normalize_peer_ref (le_lc V) local_fingerprint in
       case le_browse V of
         Inl _ \<Rightarrow> Inl ''starting native LAN discovery''
       | Inr _ \<Rightarrow>
          (case recv_resolved_all (int timeout_ms) (le_turns V tick) of
             Inl _ \<Rightarrow> Inl ''discovering native LAN peers''
           | Inr resolved \<Rightarrow> Inr (map snd (le_hash_order V
               (collect_peers (le_lc V) local_fingerprint (List.map_filter (map_resolved_peer (le_sha256 V)) resolved) []))))))"

definition resolve_peer_ref :: "LanEnv \<Rightarrow> NativeLanPeer list \<Rightarrow> string \<Rightarrow> string + NativeLanPeer" where
  "resolve_peer_ref V peers peer_ref =
     (let needle = normalize_peer_ref (le_lc V) peer_ref in
      if needle = [] then Inl ''native peer is required''
      else case filter (\<lambda>peer. normalize_peer_ref (le_lc V) (nl_fingerprint peer) = needle
                 \<or> eq_ignore_ascii_case (nl_alias peer) peer_ref) peers of
             [] \<Rightarrow> Inl (''native LAN peer '' @ str_debug peer_ref
                    @ '' was not discovered; keep the daemon running and run `night-bridge peers list-native`'')
           | [peer] \<Rightarrow> Inr peer
           | _ \<Rightarrow> Inl (''native LAN peer '' @ str_debug peer_ref @ '' is ambiguous; use its fingerprint''))"

definition trust_discovered_peer :: "LanEnv \<Rightarrow> path \<Rightarrow> NativeLanPeer \<Rightarrow> string option \<Rightarrow> PeerPolicy \<Rightarrow> ('s DaemonWorld, string, Peer) sr" where
  "trust_discovered_peer V trust_db_path peer label policy =
     sr_bind (sr_gets (\<lambda>_. ok_or (''native peer '' @ nl_alias peer
         @ '' did not advertise certificate metadata; restart it with alpha native discovery'') (nl_native_certificate_fingerprint peer))) (\<lambda>cert.
     let label = (case label of Some l \<Rightarrow> l | None \<Rightarrow> nl_alias peer) in
     sr_bind (sr_gets (\<lambda>_. map_sum (\<lambda>_. ''failed to open trust store '' @ path_display trust_db_path) id (le_open V))) (\<lambda>_.
     sr_bind next_tick (\<lambda>tick.
     sr_map_err (\<lambda>_. ''trusting native LAN peer'')
       (store_call (trust_with_native_certificate (le_sha256 V) (le_clock V tick) (nl_pubkey peer) label policy cert)))))"

section \<open>LocalSend peers on the LAN\<close>

definition LAN_LOCALSEND_PORT :: u16 where "LAN_LOCALSEND_PORT = 53317"

definition probe_info :: "LanEnv \<Rightarrow> nat \<Rightarrow> string \<Rightarrow> string \<Rightarrow> string + InfoResponse" where
  "probe_info V tick protocol ip =
     le_get_info V tick (protocol @ ''://'' @ ip @ '':'' @ show_nat (unat LAN_LOCALSEND_PORT) @ ''/api/localsend/v2/info'')"

definition probe_candidate :: "LanEnv \<Rightarrow> nat \<Rightarrow> string \<Rightarrow> string + LocalSendLanPeer" where
  "probe_candidate V tick ip =
     res_map (\<lambda>(info, protocol). \<lparr>ln_fingerprint = ir_fingerprint info, ln_alias = ir_alias info, ln_source_ip = ip,
         ln_port = (case ir_port info of Some p \<Rightarrow> p | None \<Rightarrow> LAN_LOCALSEND_PORT),
         ln_protocol = (case ir_protocol info of Some p \<Rightarrow> p | None \<Rightarrow> protocol),
         ln_device_model = ir_device_model info, ln_device_type = ir_device_type info,
         ln_download = (case ir_download info of Some d \<Rightarrow> d | None \<Rightarrow> True), ln_first_seen = 0, ln_last_seen = 0\<rparr>)
       (case probe_info V tick ''https'' ip of
          Inr info \<Rightarrow> Inr (info, ''https'')
        | Inl _ \<Rightarrow> res_map (\<lambda>info. (info, ''http'')) (probe_info V tick ''http'' ip))"

fun scan_hosts :: "u8 \<times> u8 \<times> u8 \<times> u8 \<Rightarrow> u8 list" where
  "scan_hosts (a, b, c, d) = filter (\<lambda>host. host \<noteq> d) (map of_nat [1..<255])"

text \<open>The finished probes are recorded one after the other; a peer the store refuses is listed as probed.\<close>

fun record_probes :: "LanEnv \<Rightarrow> (string + LocalSendLanPeer) list \<Rightarrow> ('s DaemonWorld, CoreError, LocalSendLanPeer list) sr" where
  "record_probes V [] = sr_return []"
| "record_probes V (Inl _ # results) = record_probes V results"
| "record_probes V (Inr peer # results) =
     sr_bind next_tick (\<lambda>tick. \<lambda>w.
       case store_call (record_localsend_lan_peer (le_lc V) (le_clock V tick) peer) w of
         (r, w') \<Rightarrow> sr_bind (record_probes V results) (\<lambda>rest. sr_return ((case r of Inr recorded \<Rightarrow> recorded | Inl _ \<Rightarrow> peer) # rest)) w')"

fun merge_peer :: "LocalSendLanPeer \<Rightarrow> LocalSendLanPeer list \<Rightarrow> LocalSendLanPeer list" where
  "merge_peer peer [] = [peer]"
| "merge_peer peer (existing # peers) =
     (if ln_fingerprint existing = ln_fingerprint peer then peer # peers else existing # merge_peer peer peers)"

definition scan_and_cache :: "LanEnv \<Rightarrow> ('s DaemonWorld, string, LocalSendLanPeer list) sr" where
  "scan_and_cache V =
     sr_bind (sr_gets (\<lambda>_. map_sum (\<lambda>_. ''failed to determine local IPv4 address'') id (le_local_ip V))) (\<lambda>(a, b, c, d).
     sr_bind (sr_gets (\<lambda>_. map_sum (\<lambda>_. ''creating LocalSend discovery client'') id (le_build_client V))) (\<lambda>_.
     sr_bind (sr_gets (\<lambda>_. map_sum core_display id (le_open V))) (\<lambda>_.
     sr_bind next_tick (\<lambda>tick.
     sr_bind (sr_map_err core_display (record_probes V
         (map (\<lambda>host. probe_candidate V tick (show_ipv4 a b c host)) (le_join_order V (scan_hosts (a, b, c, d)))))) (\<lambda>discovered.
     sr_bind (sr_gets (\<lambda>w. map_sum core_display id (list_localsend_lan_peers (dw_store w)))) (\<lambda>peers.
     sr_return (fold merge_peer discovered peers)))))))"

section \<open>The handlers of the gRPC interface\<close>

record TrustedPeer =
  tp_fingerprint :: "string option"
  tp_pubkey :: bytes
  tp_label :: string
  tp_trusted_at_unix_seconds :: int
  tp_last_seen_unix_seconds :: "int option"
  tp_policy :: int
  tp_native_certificate_fingerprint :: "string option"

record ProtoLocalSendPeer =
  pp_fingerprint :: string
  pp_alias :: string
  pp_label :: "string option"
  pp_status :: int
  pp_first_seen_unix_seconds :: int
  pp_last_seen_unix_seconds :: int
  pp_attempt_count :: u64
  pp_source_ip :: "string option"

definition localsend_lan_peer :: "LocalSendLanPeer \<Rightarrow> ProtoLanPeer" where
  "localsend_lan_peer peer = \<lparr>pl_alias = ln_alias peer, pl_address = ln_source_ip peer, pl_port = ucast (ln_port peer), pl_protocol = 1,
     pl_fingerprint = Some (ln_fingerprint peer), pl_device_model = ln_device_model peer, pl_device_type = ln_device_type peer,
     pl_download = ln_download peer, pl_extensions = [], pl_native_pubkey = [], pl_native_certificate_fingerprint = None\<rparr>"

definition native_lan_peer :: "NativeLanPeer \<Rightarrow> ProtoLanPeer" where
  "native_lan_peer peer = \<lparr>pl_alias = nl_alias peer, pl_address = show_ip_addr (nl_address peer), pl_port = ucast (nl_port peer),
     pl_protocol = 2, pl_fingerprint = Some (nl_fingerprint peer), pl_device_model = None, pl_device_type = Some ''server'',
     pl_download = True, pl_extensions = nl_extensions peer, pl_native_pubkey = nl_pubkey peer,
     pl_native_certificate_fingerprint = nl_native_certificate_fingerprint peer\<rparr>"

fun peer_policy :: "PeerPolicy \<Rightarrow> int" where
  "peer_policy AutoAccept = 1"
| "peer_policy Prompt = 2"
| "peer_policy Block = 3"

definition trusted_peer :: "Peer \<Rightarrow> TrustedPeer" where
  "trusted_peer peer = \<lparr>tp_fingerprint = Some (fingerprint_to_string (pe_fingerprint peer)), tp_pubkey = pe_pubkey peer,
     tp_label = pe_label peer, tp_trusted_at_unix_seconds = pe_trusted_at peer, tp_last_seen_unix_seconds = pe_last_seen peer,
     tp_policy = peer_policy (pe_policy peer), tp_native_certificate_fingerprint = pe_native_certificate_fingerprint peer\<rparr>"

fun localsend_peer_status :: "LocalSendPeerStatus \<Rightarrow> int" where
  "localsend_peer_status PeerPending = 1"
| "localsend_peer_status PeerTrusted = 2"
| "localsend_peer_status PeerBlocked = 3"

definition localsend_peer :: "LocalSendPeer \<Rightarrow> ProtoLocalSendPeer" where
  "localsend_peer peer = \<lparr>pp_fingerprint = lp_fingerprint peer, pp_alias = lp_alias peer, pp_label = lp_label peer,
     pp_status = localsend_peer_status (lp_status peer), pp_first_seen_unix_seconds = lp_first_seen peer,
     pp_last_seen_unix_seconds = lp_last_seen peer, pp_attempt_count = lp_attempt_count peer, pp_source_ip = lp_source_ip peer\<rparr>"

definition discovery_timeout :: "u32 \<Rightarrow> nat" where
  "discovery_timeout timeout_ms = (if timeout_ms = 0 then 1500 else unat timeout_ms)"

definition api_open :: "LanEnv \<Rightarrow> ('s DaemonWorld, GrpcStatus, unit) sr" where
  "api_open V = sr_gets (\<lambda>_. map_sum (\<lambda>e. internal_status (core_display e)) id (le_open V))"

definition api_list_trusted :: "LanEnv \<Rightarrow> ('s DaemonWorld, GrpcStatus, TrustedPeer list) sr" where
  "api_list_trusted V =
     sr_bind (api_open V) (\<lambda>_.
     sr_gets (\<lambda>w. map_sum (\<lambda>e. internal_status (core_display e)) (map trusted_peer) (trust_list (dw_store w))))"

definition api_list_lan :: "LanEnv \<Rightarrow> ('s DaemonWorld, GrpcStatus, ProtoLanPeer list) sr" where
  "api_list_lan V = sr_bind (sr_map_err internal_status (scan_and_cache V)) (\<lambda>peers. sr_return (map localsend_lan_peer peers))"

definition api_list_native_lan :: "LanEnv \<Rightarrow> string \<Rightarrow> u32 \<Rightarrow> ('s DaemonWorld, GrpcStatus, ProtoLanPeer list) sr" where
  "api_list_native_lan V own_fingerprint timeout_ms =
     sr_bind (sr_map_err internal_status (discover_native V (discovery_timeout timeout_ms) own_fingerprint)) (\<lambda>peers.
     sr_return (map native_lan_peer peers))"

definition requested_policy :: "int \<Rightarrow> PeerPolicy" where
  "requested_policy n = (if n = 2 then Prompt else if n = 3 then Block else AutoAccept)"

definition api_trust_native_lan :: "LanEnv \<Rightarrow> path \<Rightarrow> string \<Rightarrow> string \<Rightarrow> string option \<Rightarrow> int \<Rightarrow> u32
    \<Rightarrow> ('s DaemonWorld, GrpcStatus, TrustedPeer) sr" where
  "api_trust_native_lan V trust_db_path own_fingerprint peer_ref label policy timeout_ms =
     sr_bind (sr_map_err internal_status (discover_native V (discovery_timeout timeout_ms) own_fingerprint)) (\<lambda>peers.
     sr_bind (sr_gets (\<lambda>_. map_sum not_found_status id (resolve_peer_ref V peers peer_ref))) (\<lambda>peer.
     sr_bind (sr_map_err internal_status (trust_discovered_peer V trust_db_path peer label (requested_policy policy))) (\<lambda>trusted.
     sr_return (trusted_peer trusted))))"

definition api_list_pending :: "LanEnv \<Rightarrow> ('s DaemonWorld, GrpcStatus, ProtoLocalSendPeer list) sr" where
  "api_list_pending V =
     sr_bind (api_open V) (\<lambda>_.
     sr_gets (\<lambda>w. map_sum (\<lambda>e. internal_status (core_display e)) (map localsend_peer) (list_pending_localsend_peers (dw_store w))))"

definition api_approve :: "LanEnv \<Rightarrow> string \<Rightarrow> string option \<Rightarrow> ('s DaemonWorld, GrpcStatus, ProtoLocalSendPeer) sr" where
  "api_approve V fingerprint label =
     sr_bind (api_open V) (\<lambda>_.
     sr_bind next_tick (\<lambda>tick.
     sr_bind (sr_map_err (\<lambda>e. internal_status (core_display e))
         (store_call (approve_localsend_peer (le_lc V) (le_clock V tick) fingerprint label))) (\<lambda>peer.
     sr_return (localsend_peer peer))))"

definition api_deny :: "LanEnv \<Rightarrow> string \<Rightarrow> ('s DaemonWorld, GrpcStatus, ProtoLocalSendPeer) sr" where
  "api_deny V fingerprint =
     sr_bind (api_open V) (\<lambda>_.
     sr_bind next_tick (\<lambda>tick.
     sr_bind (sr_map_err (\<lambda>e. internal_status (core_display e))
         (store_call (deny_localsend_peer (le_lc V) (le_clock V tick) fingerprint))) (\<lambda>peer.
     sr_return (localsend_peer peer))))"

section \<open>What discovery returns\<close>

lemma collect_peers_set:
  "p \<in> snd ` set (collect_peers lc me ps acc) \<Longrightarrow>
     p \<in> snd ` set acc \<or> (p \<in> set ps \<and> normalize_peer_ref lc (nl_fingerprint p) \<noteq> me)"
proof (induction lc me ps acc rule: collect_peers.induct)
  case (2 lc me q ps acc)
  have "p \<in> snd ` set (AList.update (nl_fingerprint q) q acc) \<Longrightarrow> p = q \<or> p \<in> snd ` set acc"
    by (induction acc) (auto split: if_splits)
  then show ?case using 2 by (auto split: if_splits)
qed simp

lemma map_resolved_peerD:
  assumes "map_resolved_peer sha256 r = Some p"
  shows "fingerprint_from_str (nl_fingerprint p) = Inr (fingerprint_from_pubkey sha256 (nl_pubkey p)) \<and> nl_port p \<noteq> 0"
  using assms
  by (auto simp: map_resolved_peer_def Let_def is_ok_iff validate_peer_info_fingerprint_def core_error_def res_iffs split: if_splits sum.splits)

text \<open>A hash map yields its entries in some order.\<close>

definition hash_order_ok :: "LanEnv \<Rightarrow> bool" where
  "hash_order_ok V \<longleftrightarrow> (\<forall>kvs. set (le_hash_order V kvs) = set kvs)"

lemma discover_nativeD:
  assumes "discover_native V timeout me w = (Inr peers, w')" and "hash_order_ok V" and "p \<in> set peers"
  shows "fingerprint_from_str (nl_fingerprint p) = Inr (fingerprint_from_pubkey (le_sha256 V) (nl_pubkey p))"
    and "nl_port p \<noteq> 0" and "normalize_peer_ref (le_lc V) (nl_fingerprint p) \<noteq> normalize_peer_ref (le_lc V) me"
    and "w' = w\<lparr>dw_tick := Suc (dw_tick w)\<rparr>"
proof -
  obtain resolved where peers: "peers = map snd (le_hash_order V (collect_peers (le_lc V) (normalize_peer_ref (le_lc V) me)
      (List.map_filter (map_resolved_peer (le_sha256 V)) resolved) []))" and w': "w' = w\<lparr>dw_tick := Suc (dw_tick w)\<rparr>"
    using assms(1) by (auto simp: discover_native_def next_tick_def sr_bind_def sr_gets_def Let_def split: sum.splits)
  have "p \<in> snd ` set (collect_peers (le_lc V) (normalize_peer_ref (le_lc V) me)
      (List.map_filter (map_resolved_peer (le_sha256 V)) resolved) [])"
    using assms(2,3) by (simp add: peers hash_order_ok_def)
  from collect_peers_set [OF this]
  have mapped: "p \<in> set (List.map_filter (map_resolved_peer (le_sha256 V)) resolved)"
    and other: "normalize_peer_ref (le_lc V) (nl_fingerprint p) \<noteq> normalize_peer_ref (le_lc V) me" by auto
  obtain r where "map_resolved_peer (le_sha256 V) r = Some p"
    using mapped by (auto simp: List.map_filter_def)
  from map_resolved_peerD [OF this] show "fingerprint_from_str (nl_fingerprint p) = Inr (fingerprint_from_pubkey (le_sha256 V) (nl_pubkey p))"
    "nl_port p \<noteq> 0" by auto
  show "normalize_peer_ref (le_lc V) (nl_fingerprint p) \<noteq> normalize_peer_ref (le_lc V) me" by (rule other)
  show "w' = w\<lparr>dw_tick := Suc (dw_tick w)\<rparr>" by (rule w')
qed

lemma resolve_peer_refD:
  assumes "resolve_peer_ref V peers peer_ref = Inr p"
  shows "p \<in> set peers \<and> (normalize_peer_ref (le_lc V) (nl_fingerprint p) = normalize_peer_ref (le_lc V) peer_ref
     \<or> eq_ignore_ascii_case (nl_alias p) peer_ref)"
proof -
  have "filter (\<lambda>peer. normalize_peer_ref (le_lc V) (nl_fingerprint peer) = normalize_peer_ref (le_lc V) peer_ref
     \<or> eq_ignore_ascii_case (nl_alias peer) peer_ref) peers = [p]"
    using assms by (auto simp: resolve_peer_ref_def Let_def split: if_splits list.splits)
  then have "p \<in> set (filter (\<lambda>peer. normalize_peer_ref (le_lc V) (nl_fingerprint peer) = normalize_peer_ref (le_lc V) peer_ref
     \<or> eq_ignore_ascii_case (nl_alias peer) peer_ref) peers)" by simp
  then show ?thesis by simp
qed

lemma decode_pairs_length: "decode_pairs s = Inr bs \<Longrightarrow> 2 * length bs \<le> length s \<and> length s \<le> Suc (2 * length bs)"
  by (induction s arbitrary: bs rule: decode_pairs.induct) (auto simp: res_iffs)

lemma from_txt_pubkey: "peer_info_from_txt_properties ps = Inr info \<Longrightarrow> length (np_pubkey info) = 32"
  by (auto simp: peer_info_from_txt_properties_def Let_def res_iffs decode_pubkey_def split: if_splits dest!: decode_pairs_length)

lemma resolved_pubkey: "resolved_peer_from_resolved_service sv = Inr (Some r) \<Longrightarrow> length (np_pubkey (rn_info r)) = 32"
  by (cases "sv_addresses sv")
    (auto simp: resolved_peer_from_resolved_service_def peer_info_from_resolved_service_def peer_info_from_mdns_txt_def res_iffs
      split: if_splits option.split_asm simp: from_txt_pubkey)

lemma recv_resolved_pubkeys:
  "recv_resolved_loop deadline acc turns = Inr rs \<Longrightarrow> \<forall>r \<in> set acc. length (np_pubkey (rn_info r)) = 32
   \<Longrightarrow> \<forall>r \<in> set rs. length (np_pubkey (rn_info r)) = 32"
proof (induction deadline acc turns rule: recv_resolved_loop.induct)
  case (2 deadline acc now event turns)
  show ?case
  proof (cases "now \<ge> deadline \<or> event = None")
    case False
    then show ?thesis using 2 resolved_pubkey
      by (auto simp: res_iffs split: option.splits ServiceEvent.splits)
  qed (use 2 in \<open>auto split: if_splits\<close>)
qed simp

lemma discover_native_pubkey:
  assumes "discover_native V timeout me w = (Inr peers, w')" and "hash_order_ok V" and "p \<in> set peers"
  shows "length (nl_pubkey p) = 32"
proof -
  obtain resolved where rs: "recv_resolved_all (int timeout) (le_turns V (dw_tick w)) = Inr resolved"
      and peers: "peers = map snd (le_hash_order V (collect_peers (le_lc V) (normalize_peer_ref (le_lc V) me)
        (List.map_filter (map_resolved_peer (le_sha256 V)) resolved) []))"
    using assms(1) by (auto simp: discover_native_def next_tick_def sr_bind_def sr_gets_def Let_def split: sum.splits)
  have "p \<in> snd ` set (collect_peers (le_lc V) (normalize_peer_ref (le_lc V) me)
      (List.map_filter (map_resolved_peer (le_sha256 V)) resolved) [])"
    using assms(2,3) by (simp add: peers hash_order_ok_def)
  from collect_peers_set [OF this] obtain r where r: "r \<in> set resolved" "map_resolved_peer (le_sha256 V) r = Some p"
    by (auto simp: List.map_filter_def)
  have "length (np_pubkey (rn_info r)) = 32"
    using recv_resolved_pubkeys [of "int timeout" "[]" "le_turns V (dw_tick w)" resolved] rs r(1) by (simp add: recv_resolved_all_def)
  then show ?thesis using r(2) by (auto simp: map_resolved_peer_def Let_def split: if_splits)
qed

text \<open>A peer is announced at a tick when one of the services resolved in that browse carries exactly its data.\<close>

definition lan_announced :: "LanEnv \<Rightarrow> nat \<Rightarrow> NativeLanPeer \<Rightarrow> bool" where
  "lan_announced V tick peer \<longleftrightarrow> (\<exists>at service r. (at, Some (ServiceResolved service)) \<in> set (le_turns V tick)
     \<and> resolved_peer_from_resolved_service service = Inr (Some r)
     \<and> nl_alias peer = np_alias (rn_info r) \<and> nl_address peer = rn_address r \<and> nl_port peer = np_quic_port (rn_info r)
     \<and> nl_fingerprint peer = np_fingerprint (rn_info r) \<and> nl_pubkey peer = np_pubkey (rn_info r)
     \<and> nl_native_certificate_fingerprint peer = np_native_certificate_fingerprint (rn_info r))"

definition peer_matches :: "LanEnv \<Rightarrow> string \<Rightarrow> NativeLanPeer \<Rightarrow> bool" where
  "peer_matches V peer_ref peer \<longleftrightarrow> normalize_peer_ref (le_lc V) (nl_fingerprint peer) = normalize_peer_ref (le_lc V) peer_ref
     \<or> eq_ignore_ascii_case (nl_alias peer) peer_ref"

text \<open>The peer a reference names in a browse: it was announced there, by someone other than this daemon, its
  fingerprint is that of its key, and it is the only peer of the browse that matches.\<close>

definition lan_found :: "LanEnv \<Rightarrow> nat \<Rightarrow> string \<Rightarrow> string \<Rightarrow> 's DaemonWorld \<Rightarrow> NativeLanPeer \<Rightarrow> bool" where
  "lan_found V timeout_ms me peer_ref w peer \<longleftrightarrow> lan_announced V (dw_tick w) peer
     \<and> (\<exists>peers. discover_native V timeout_ms me w = (Inr peers, w\<lparr>dw_tick := Suc (dw_tick w)\<rparr>) \<and> filter (peer_matches V peer_ref) peers = [peer])
     \<and> normalize_peer_ref (le_lc V) (nl_fingerprint peer) \<noteq> normalize_peer_ref (le_lc V) me
     \<and> fingerprint_from_str (nl_fingerprint peer) = Inr (fingerprint_from_pubkey (le_sha256 V) (nl_pubkey peer))"

lemma recv_resolved_announced:
  "recv_resolved_loop deadline acc turns = Inr rs \<Longrightarrow> r \<in> set rs \<Longrightarrow> r \<in> set acc
    \<or> (\<exists>at service. (at, Some (ServiceResolved service)) \<in> set turns \<and> resolved_peer_from_resolved_service service = Inr (Some r))"
proof (induction deadline acc turns arbitrary: rs rule: recv_resolved_loop.induct)
  case (2 deadline acc now event turns)
  show ?case
  proof (cases "now \<ge> deadline \<or> event = None")
    case False
    then show ?thesis using 2 by (fastforce simp: res_iffs split: option.splits ServiceEvent.splits)
  qed (use 2 in \<open>auto split: if_splits\<close>)
qed simp

lemma discovered_is_announced:
  assumes "discover_native V timeout me w = (Inr peers, w')" and "hash_order_ok V" and "p \<in> set peers"
  shows "lan_announced V (dw_tick w) p"
proof -
  obtain resolved where rs: "recv_resolved_all (int timeout) (le_turns V (dw_tick w)) = Inr resolved"
      and peers: "peers = map snd (le_hash_order V (collect_peers (le_lc V) (normalize_peer_ref (le_lc V) me)
        (List.map_filter (map_resolved_peer (le_sha256 V)) resolved) []))"
    using assms(1) by (auto simp: discover_native_def next_tick_def sr_bind_def sr_gets_def Let_def split: sum.splits)
  have "p \<in> snd ` set (collect_peers (le_lc V) (normalize_peer_ref (le_lc V) me)
      (List.map_filter (map_resolved_peer (le_sha256 V)) resolved) [])"
    using assms(2,3) by (simp add: peers hash_order_ok_def)
  from collect_peers_set [OF this] obtain r where r: "r \<in> set resolved" "map_resolved_peer (le_sha256 V) r = Some p"
    by (auto simp: List.map_filter_def)
  from rs have "recv_resolved_loop (int timeout) [] (le_turns V (dw_tick w)) = Inr resolved" by (simp add: recv_resolved_all_def)
  from recv_resolved_announced [OF this r(1)] obtain at service
    where "(at, Some (ServiceResolved service)) \<in> set (le_turns V (dw_tick w))" "resolved_peer_from_resolved_service service = Inr (Some r)" by auto
  then show ?thesis using r(2) unfolding lan_announced_def
    by (intro exI [of _ at] exI [of _ service] exI [of _ r]) (auto simp: map_resolved_peer_def Let_def split: if_splits)
qed

lemma resolve_peer_ref_only: "resolve_peer_ref V peers peer_ref = Inr p \<Longrightarrow> filter (peer_matches V peer_ref) peers = [p]"
  by (auto simp: resolve_peer_ref_def peer_matches_def [abs_def] Let_def split: if_splits list.splits)

lemma resolved_is_found:
  assumes d: "discover_native V timeout me w = (Inr peers, w')" and order: "hash_order_ok V" and ref: "resolve_peer_ref V peers peer_ref = Inr p"
  shows "lan_found V timeout me peer_ref w p"
proof -
  have "p \<in> set peers" using resolve_peer_refD [OF ref] by blast
  from discover_nativeD [OF d order this] discovered_is_announced [OF d order this] show ?thesis
    using d resolve_peer_ref_only [OF ref] by (auto simp: lan_found_def)
qed

section \<open>Trusting with a certificate\<close>

lemma trust_certificate_get:
  assumes inv: "trust_inv lc n st" and sha: "sha256_ok sha256" and pk: "length pk = 32"
    and tr: "trust_with_native_certificate sha256 now pk label policy cert st = (r, st')"
  shows "r = Inl e \<Longrightarrow> st' = st"
    and "r = Inr p \<Longrightarrow> trust_get st' (fingerprint_from_pubkey sha256 pk) = Inr (Some p)
       \<and> pe_fingerprint p = fingerprint_from_pubkey sha256 pk \<and> pe_policy p = policy \<and> pe_label p = label
       \<and> pe_native_certificate_fingerprint p = Some cert
       \<and> (\<forall>q. length q = 8 \<and> q \<noteq> fingerprint_from_pubkey sha256 pk \<longrightarrow> trust_get st' q = trust_get st q)"
    and "validate_certificate_fingerprint cert = Inr () \<Longrightarrow> is_ok r"
proof -
  let ?fp = "fingerprint_from_pubkey sha256 pk"
  let ?k = "fingerprint_to_string ?fp"
  let ?new = "\<lparr>pw_pubkey = pk, pw_label = label, pw_trusted_at = now, pw_last_seen = None,
    pw_native_certificate_fingerprint = Some cert, pw_policy = policy_as_str policy\<rparr>"
  let ?upd = "\<lambda>row :: PeerRow. row\<lparr>pw_label := label, pw_policy := policy_as_str policy, pw_native_certificate_fingerprint := Some cert\<rparr>"
  let ?st = "st\<lparr>ts_peers := upsert ?k ?new ?upd (ts_peers st)\<rparr>"
  have len: "length ?fp = 8" using fingerprint_length [OF sha] .
  have others: "trust_get ?st q = trust_get st q" if "length q = 8" "q \<noteq> ?fp" for q
    using that len fingerprint_to_string_inject by (auto simp: trust_get_def query_row_def map_of_upsert)
  obtain row where row: "map_of (ts_peers ?st) ?k = Some row" "pw_label row = label" "pw_policy row = policy_as_str policy"
      "pw_native_certificate_fingerprint row = Some cert" "length (pw_pubkey row) = 32"
  proof (cases "map_of (ts_peers st) ?k")
    case (Some old)
    have "peer_row_ok ?k old" using inv map_of_SomeD [OF Some] by (simp add: trust_inv_def)
    then show ?thesis using Some that [of "?upd old"] by (simp add: map_of_upsert peer_row_ok_def)
  qed (use that [of ?new] pk in \<open>simp add: map_of_upsert\<close>)
  then have "\<exists>q. trust_get ?st ?fp = Inr (Some q) \<and> pe_fingerprint q = ?fp \<and> pe_policy q = policy \<and> pe_label q = label
      \<and> pe_native_certificate_fingerprint q = Some cert"
    using len by (simp add: trust_get_eq row_to_peer_def fingerprint_round_trip)
  then obtain q where q: "trust_get ?st ?fp = Inr (Some q)" "pe_fingerprint q = ?fp" "pe_policy q = policy" "pe_label q = label"
      "pe_native_certificate_fingerprint q = Some cert" by blast
  have cases: "(\<exists>e. validate_certificate_fingerprint cert = Inl e \<and> r = Inl e \<and> st' = st) \<or> (r = Inr q \<and> st' = ?st)"
    using tr q(1) by (auto simp: trust_with_native_certificate_def Let_def split: sum.splits)
  show "r = Inl e \<Longrightarrow> st' = st" using cases by auto
  show "validate_certificate_fingerprint cert = Inr () \<Longrightarrow> is_ok r" using cases by (auto simp: is_ok_iff)
  show "r = Inr p \<Longrightarrow> trust_get st' ?fp = Inr (Some p) \<and> pe_fingerprint p = ?fp \<and> pe_policy p = policy \<and> pe_label p = label
       \<and> pe_native_certificate_fingerprint p = Some cert \<and> (\<forall>q. length q = 8 \<and> q \<noteq> ?fp \<longrightarrow> trust_get st' q = trust_get st q)"
    using cases q others by auto
qed

lemma trust_discovered_peer_refused:
  assumes "nl_native_certificate_fingerprint peer = None \<or> \<not> is_ok (le_open V)"
  shows "\<exists>e. trust_discovered_peer V db peer label policy w = (Inl e, w)"
  using assms
  by (cases "nl_native_certificate_fingerprint peer"; cases "le_open V")
    (simp_all add: trust_discovered_peer_def sr_bind_def sr_gets_def ok_or_def is_ok_iff)

lemma trust_native_lan_cases:
  assumes order: "hash_order_ok V" and sha: "sha256_ok (le_sha256 V)" and inv: "trust_inv lc n (dw_store w)"
    and run: "api_trust_native_lan V db me peer_ref label policy timeout w = (r, w')"
  shows "(\<exists>e. r = Inl e \<and> dw_store w' = dw_store w)
    \<or> (\<exists>peers peer cert p. r = Inr (trusted_peer p)
        \<and> discover_native V (discovery_timeout timeout) me w = (Inr peers, w\<lparr>dw_tick := Suc (dw_tick w)\<rparr>)
        \<and> resolve_peer_ref V peers peer_ref = Inr peer
        \<and> lan_found V (discovery_timeout timeout) me peer_ref w peer
        \<and> pe_fingerprint p = fingerprint_from_pubkey (le_sha256 V) (nl_pubkey peer)
        \<and> pe_label p = (case label of Some l \<Rightarrow> l | None \<Rightarrow> nl_alias peer)
        \<and> nl_native_certificate_fingerprint peer = Some cert \<and> pe_native_certificate_fingerprint p = Some cert
        \<and> pe_policy p = requested_policy policy
        \<and> trust_get (dw_store w') (pe_fingerprint p) = Inr (Some p)
        \<and> (\<forall>q. length q = 8 \<and> q \<noteq> pe_fingerprint p \<longrightarrow> trust_get (dw_store w') q = trust_get (dw_store w) q))"
proof -
  obtain found w1 where d: "discover_native V (discovery_timeout timeout) me w = (found, w1)" by force
  have w1: "w1 = w\<lparr>dw_tick := Suc (dw_tick w)\<rparr>"
    using d by (auto simp: discover_native_def next_tick_def sr_bind_def sr_gets_def Let_def)
  show ?thesis
  proof (cases "\<exists>peers peer. found = Inr peers \<and> resolve_peer_ref V peers peer_ref = Inr peer")
    case False
    have "\<exists>e. r = Inl e \<and> w' = w1"
    proof (cases found)
      case (Inl e)
      then show ?thesis using run d by (auto simp: api_trust_native_lan_def sr_bind_def sr_map_err_def)
    next
      case (Inr peers)
      then obtain e where "resolve_peer_ref V peers peer_ref = Inl e" using False by (cases "resolve_peer_ref V peers peer_ref") auto
      then show ?thesis using run d Inr by (auto simp: api_trust_native_lan_def sr_bind_def sr_map_err_def sr_gets_def)
    qed
    then show ?thesis using w1 by auto
  next
    case True
    then obtain peers peer where f: "found = Inr peers" "resolve_peer_ref V peers peer_ref = Inr peer" by blast
    from resolve_peer_refD [OF f(2)] have in_peers: "peer \<in> set peers" by auto
    note d' = d [unfolded f(1)]
    note found = resolved_is_found [OF d' order f(2)]
    note facts = discover_nativeD [OF d' order in_peers] discover_native_pubkey [OF d' order in_peers]
    have rest: "(r, w') = (case trust_discovered_peer V db peer label (requested_policy policy) w1 of
        (Inl e, w2) \<Rightarrow> (Inl (internal_status e), w2) | (Inr p, w2) \<Rightarrow> (Inr (trusted_peer p), w2))"
      using run d' f(2) by (cases "fst (trust_discovered_peer V db peer label (requested_policy policy) w1)")
        (auto simp: api_trust_native_lan_def sr_bind_def sr_map_err_def sr_gets_def split: prod.splits)
    show ?thesis
    proof (cases "nl_native_certificate_fingerprint peer = None \<or> \<not> is_ok (le_open V)")
      case True
      from trust_discovered_peer_refused [OF this, of db label "requested_policy policy" w1] show ?thesis
        using rest w1 by auto
    next
      case False
      then obtain cert where cert: "nl_native_certificate_fingerprint peer = Some cert" "le_open V = Inr ()" by (auto simp: is_ok_iff)
      define lab where "lab = (case label of Some l \<Rightarrow> l | None \<Rightarrow> nl_alias peer)"
      obtain r2 st2 where t: "trust_with_native_certificate (le_sha256 V) (le_clock V (dw_tick w1)) (nl_pubkey peer) lab
          (requested_policy policy) cert (dw_store w) = (r2, st2)" by force
      have res: "r = map_sum (\<lambda>_. internal_status ''trusting native LAN peer'') trusted_peer r2 \<and> dw_store w' = st2"
        using rest t cert w1 by (cases r2) (auto simp: trust_discovered_peer_def sr_bind_def sr_gets_def ok_or_def next_tick_def sr_map_err_def
            store_call_def Let_def lab_def)
      note got = trust_certificate_get [OF inv sha facts(5) t]
      show ?thesis
      proof (cases r2)
        case (Inl e)
        then show ?thesis using res got(1) by auto
      next
        case (Inr p)
        show ?thesis
          by (intro disjI2 exI [of _ peers] exI [of _ peer] exI [of _ cert] exI [of _ p]) (use d' w1 f(2) Inr res got(2) [OF Inr] cert(1) found in \<open>auto simp: lab_def\<close>)
      qed
    qed
  qed
qed


section \<open>A LAN with one other peer\<close>

definition demo_box :: NativePeerInfo where
  "demo_box = \<lparr>np_alias = ''box'', np_fingerprint = ''0707-0707-0707-0707'', np_pubkey = replicate 32 7, np_quic_port = 9,
     np_native_certificate_fingerprint = Some (replicate 64 (CHR ''a'')), np_extensions = [''resume@1'']\<rparr>"

definition demo_service :: ResolvedService where
  "demo_service = \<lparr>sv_ty_domain = NATIVE_MDNS_SERVICE_TYPE, sv_properties = txt_list demo_box, sv_addresses = [V4 10 0 0 7]\<rparr>"

definition demo_lan :: LanEnv where
  "demo_lan = \<lparr>le_sha256 = zero_digest, le_lc = no_unicode, le_open = Inr (), le_clock = int, le_browse = Inr (),
     le_turns = \<lambda>_. [(0, Some (ServiceResolved demo_service))], le_hash_order = id, le_local_ip = Inr (10, 0, 0, 1),
     le_build_client = Inr (), le_get_info = \<lambda>_ _. Inl ''refused'', le_join_order = id\<rparr>"

definition demo_daemon_world :: "unit DaemonWorld" where
  "demo_daemon_world = \<lparr>dw_events = event_bus_new, dw_store = trust_open_in_memory,
     dw_world = \<lparr>w_manifest = open_in_memory, w_fs = (\<lambda>p. if p = [] then Some Dir else None), w_uuid = 0\<rparr>, dw_net = (), dw_tick = 0\<rparr>"

lemma demo_resolved: "resolved_peer_from_resolved_service demo_service = Inr (Some \<lparr>rn_info = demo_box, rn_address = V4 10 0 0 7\<rparr>)"
proof -
  have "peer_info_to_txt_properties demo_box = Inr (txt_list demo_box)"
  proof -
    have "validate_peer_info demo_box = Inr ()" by code_simp
    moreover have "validate_txt_certificate_fingerprint (replicate 64 (CHR ''a'')) = Inr ()" by code_simp
    ultimately show ?thesis by (simp add: to_txt_Inr demo_box_def)
  qed
  moreover have "mset (txt_properties_to_map (txt_list demo_box)) = mset (txt_list demo_box)"
    using txt_list_distinct [of demo_box] by (simp add: txt_properties_to_map_def distinct_clearjunk_id rev_map [symmetric])
  moreover have "rs_trim ''resume@1'' = ''resume@1''" "rs_trim ''box'' = ''box''" "rs_trim ''0707-0707-0707-0707'' = ''0707-0707-0707-0707''"
    by code_simp+
  ultimately have "peer_info_from_txt_properties (txt_properties_to_map (txt_list demo_box)) = Inr demo_box"
    using from_txt_any_order [of demo_box "txt_list demo_box" "txt_properties_to_map (txt_list demo_box)"] by (simp add: demo_box_def)
  then show ?thesis
    by (simp add: resolved_peer_from_resolved_service_def peer_info_from_resolved_service_def peer_info_from_mdns_txt_def demo_service_def)
qed

definition demo_lan_peer :: NativeLanPeer where
  "demo_lan_peer = \<lparr>nl_alias = ''box'', nl_address = V4 10 0 0 7, nl_port = 9, nl_fingerprint = ''0707-0707-0707-0707'',
     nl_pubkey = replicate 32 7, nl_native_certificate_fingerprint = Some (replicate 64 (CHR ''a'')), nl_extensions = [''resume@1'']\<rparr>"

lemma demo_mapped: "map_resolved_peer zero_digest \<lparr>rn_info = demo_box, rn_address = V4 10 0 0 7\<rparr> = Some demo_lan_peer"
proof -
  have "fingerprint_from_str ''0707-0707-0707-0707'' = Inr (replicate 8 7)" by code_simp
  then show ?thesis
    by (simp add: map_resolved_peer_def demo_box_def demo_lan_peer_def validate_peer_info_fingerprint_def core_error_def
        fingerprint_from_pubkey_def zero_digest_def is_ok_iff)
qed

lemma demo_discovered:
  "discover_native demo_lan 1500 ''1111'' w = (Inr [demo_lan_peer], w\<lparr>dw_tick := Suc (dw_tick w)\<rparr>)"
proof -
  have "normalize_peer_ref no_unicode ''0707-0707-0707-0707'' \<noteq> normalize_peer_ref no_unicode ''1111''" by code_simp
  then show ?thesis
    by (simp add: discover_native_def sr_bind_def next_tick_def sr_gets_def demo_lan_def recv_resolved_all_def demo_resolved
        List.map_filter_def demo_mapped) (simp add: demo_lan_peer_def)
qed

lemma demo_referenced: "resolve_peer_ref demo_lan [demo_lan_peer] ''BOX'' = Inr demo_lan_peer"
proof -
  have "normalize_peer_ref no_unicode ''BOX'' \<noteq> []" "eq_ignore_ascii_case ''box'' ''BOX''" by code_simp+
  then show ?thesis by (simp add: resolve_peer_ref_def demo_lan_def demo_lan_peer_def)
qed

lemma demo_lan_ok: "hash_order_ok demo_lan" "sha256_ok (le_sha256 demo_lan)" "le_open demo_lan = Inr ()" "le_turns demo_lan t = le_turns demo_lan u"
  using zero_digest_ok by (simp_all add: hash_order_ok_def demo_lan_def)

lemma demo_trusts: "\<exists>p. fst (api_trust_native_lan demo_lan [''trust.db''] ''1111'' ''BOX'' None 0 0 demo_daemon_world) = Inr (trusted_peer p)"
proof -
  have "validate_certificate_fingerprint (replicate 64 (CHR ''a'')) = Inr ()" by code_simp
  then have "is_ok (fst (trust_with_native_certificate zero_digest 1 (replicate 32 7) ''box'' AutoAccept (replicate 64 (CHR ''a'')) trust_open_in_memory))"
    by (intro trust_certificate_get(3) [OF trust_inv_open zero_digest_ok _ surjective_pairing]) simp_all
  then obtain p st where t: "trust_with_native_certificate zero_digest 1 (replicate 32 7) ''box'' AutoAccept (replicate 64 (CHR ''a''))
      trust_open_in_memory = (Inr p, st)"
    by (metis is_ok_iff prod.collapse)
  have "trust_discovered_peer demo_lan [''trust.db''] demo_lan_peer None AutoAccept (demo_daemon_world\<lparr>dw_tick := 1\<rparr>)
      = (Inr p, demo_daemon_world\<lparr>dw_tick := 2, dw_store := st\<rparr>)"
    unfolding demo_lan_def demo_lan_peer_def demo_daemon_world_def
    by (simp add: trust_discovered_peer_def ok_or_def sr_bind_def sr_gets_def next_tick_def sr_map_err_def store_call_def t)
  moreover have "dw_tick demo_daemon_world = 0" by (simp add: demo_daemon_world_def)
  ultimately show ?thesis
    by (auto simp: api_trust_native_lan_def sr_bind_def sr_map_err_def discovery_timeout_def demo_discovered demo_referenced requested_policy_def)
qed


end
