(* ===== verification/Daemon_Transfers.thy ===== *)
theory Daemon_Transfers
  imports Daemon_Peers Daemon_Wan Native_Session LocalSend_Client
begin

text \<open>
  Sending files through the daemon: \<open>daemon/src/api/transfers.rs\<close> and the state of \<open>state.rs\<close>. A send
  validates its paths, announces itself on the event bus, finds its target, runs the client of the
  native protocol or of LocalSend, and announces how that ended.
\<close>

section \<open>The daemon's state\<close>

record DaemonState =
  ds_alias :: string
  ds_identity :: Keypair
  ds_fingerprint :: string
  ds_trust_db_path :: path
  ds_inbox_dir :: path
  ds_localsend_port :: u16
  ds_localsend_receive_policy :: LocalSendReceivePolicy
  ds_trusted_localsend_fingerprints :: "string list"
  ds_trusted_localsend_fingerprints_file :: "path option"
  ds_native_port :: u16
  ds_api_token :: string
  ds_config :: AppConfig
  ds_metrics :: "string option"               \<comment> \<open>what rendering the metrics gives\<close>

text \<open>The command-line arguments.\<close>

record Args =
  ar_identity :: "path option"
  ar_trust_db :: "path option"
  ar_localsend_port :: u16
  ar_alias :: string
  ar_inbox :: "path option"
  ar_disable_localsend_v2 :: bool
  ar_localsend_receive_policy :: "LocalSendReceivePolicy option"
  ar_trusted_localsend_fingerprint :: "string list"
  ar_native_port :: u16
  ar_disable_native :: bool
  ar_disable_native_discovery :: bool
  ar_native_manifest_db :: "path option"
  ar_config :: "path option"
  ar_rendezvous :: "string option"
  ar_api_grpc_port :: u16
  ar_api_http_port :: u16
  ar_disable_api :: bool

text \<open>\<open>PathBuf::from\<close>: the parts of a path; a relative one starts in the working directory.\<close>

definition path_from :: "path \<Rightarrow> string \<Rightarrow> path" where
  "path_from cwd s = (if s \<noteq> [] \<and> hd s = CHR ''/'' then split_on (CHR ''/'') s else cwd @ split_on (CHR ''/'') s)"

text \<open>The policy is known to be valid; the source panics otherwise.\<close>

definition from_args_with_metrics :: "PlatformDirs \<Rightarrow> path \<Rightarrow> Args \<Rightarrow> Keypair \<Rightarrow> string \<Rightarrow> string \<Rightarrow> AppConfig \<Rightarrow> string option
    \<Rightarrow> string + DaemonState" where
  "from_args_with_metrics P cwd args identity fingerprint api_token config metrics =
     res_map (\<lambda>policy.
       \<lparr>ds_alias = ar_alias args, ds_identity = identity, ds_fingerprint = fingerprint,
        ds_trust_db_path = (case ar_trust_db args of Some p \<Rightarrow> p | None \<Rightarrow> trust_db_file P),
        ds_inbox_dir = (case ar_inbox args of Some p \<Rightarrow> p
          | None \<Rightarrow> (case lsc_inbox_dir (ac_localsend config) of Some p \<Rightarrow> path_from cwd p | None \<Rightarrow> default_inbox P)),
        ds_localsend_port = ar_localsend_port args, ds_localsend_receive_policy = policy,
        ds_trusted_localsend_fingerprints = map fst (fold (\<lambda>k. bt_insert k ())
          (lsc_trusted_fingerprints (ac_localsend config) @ ar_trusted_localsend_fingerprint args) []),
        ds_trusted_localsend_fingerprints_file = map_option (path_from cwd) (lsc_trusted_fingerprints_file (ac_localsend config)),
        ds_native_port = ar_native_port args, ds_api_token = api_token, ds_config = config, ds_metrics = metrics\<rparr>)
     (localsend_receive_policy (ar_localsend_receive_policy args) (ac_localsend config))"

section \<open>Requests and surroundings\<close>

datatype SendTarget = TgLocalsendUrl string | TgNativeUrl string | TgPeerFingerprint string | TgWanPeer string

record SendRequest =
  sq_paths :: "string list"
  sq_target :: "SendTarget option"
  sq_native :: bool

text \<open>The parameters of the components a send runs through: the LAN, the working directory, the clock, identifiers;
  hash, codecs, signatures, QUIC and what the native peer sends; the rendezvous connection; HTTP and MIME types; and the
  texts of control messages and HTTP errors under \<open>{:?}\<close>.\<close>

record ('p, 'i, 'c, 'o, 'j, 's) SendEnv =
  dn_lan :: LanEnv
  dn_cwd :: path
  dn_epoch :: "nat \<Rightarrow> u64 option"
  dn_uuid :: "nat \<Rightarrow> string"
  dn_hash :: "bytes \<Rightarrow> string"
  dn_json :: ControlJson
  dn_ed :: Ed25519
  dn_dialer :: "('p, QuicConnection, 'i) Dialer"
  dn_conn :: "'p \<Rightarrow> SocketAddr \<Rightarrow> string \<Rightarrow> string + QuicConnection"
  dn_dialers :: "nat \<Rightarrow> ('p, QuicConnection, 'i) Dialer"
  dn_arrival :: "nat list"
  dn_inbound :: bytes
  dn_rv_json :: RvJson
  dn_rv_dial :: "SocketAddr \<Rightarrow> string + unit"
  dn_rv_exchange :: "bytes \<Rightarrow> 's \<Rightarrow> (string + bytes) \<times> 's"
  dn_rv_debug :: "ServerMessage \<Rightarrow> string"
  dn_http :: "('c, 'o, 'j, 's) Reqwest"
  dn_mime :: "path \<Rightarrow> string option"
  dn_message_debug :: "ControlMessage \<Rightarrow> string"

definition with_net :: "('s, 'e, 'a) sr \<Rightarrow> ('s DaemonWorld, 'e, 'a) sr" where
  "with_net m = (\<lambda>w. case m (dw_net w) of (r, s) \<Rightarrow> (r, w\<lparr>dw_net := s\<rparr>))"

text \<open>A native session on a new connection.\<close>

definition with_session :: "bytes \<Rightarrow> 'a session \<Rightarrow> ('s DaemonWorld, SessionError, 'a) sr" where
  "with_session inbound m = (\<lambda>w. case m \<lparr>cn_in = inbound, cn_out = [], cn_world = dw_world w\<rparr> of
     (r, c) \<Rightarrow> (r, w\<lparr>dw_world := cn_world c\<rparr>))"

text \<open>The messages of errors: the outermost context of an \<open>anyhow\<close> error, and the texts of \<open>LocalSendError\<close>.\<close>

fun session_display :: "(ControlMessage \<Rightarrow> string) \<Rightarrow> SessionError \<Rightarrow> string" where
  "session_display dbg (SeNative e) = native_display e"
| "session_display dbg (SeCore e) = core_display e"
| "session_display dbg (SeQuic e) = e"
| "session_display dbg (SeContext text _) = text"
| "session_display dbg (SeUnexpected text message) = text @ '': '' @ dbg message"
| "session_display dbg (SeBail text) = text"
| "session_display dbg (SePanic text) = text"

fun ls_display :: "LocalSendError \<Rightarrow> string" where
  "ls_display (LsIo e) = ''io: '' @ io_display e"
| "ls_display (LsJson e) = ''json: '' @ e"
| "ls_display (LsHttp e) = ''http: '' @ e"
| "ls_display (LsSession e) = ''session: '' @ e"
| "ls_display (LsCrypto e) = ''crypto: '' @ e"

definition grpc_status :: "GrpcCode \<Rightarrow> string \<Rightarrow> GrpcStatus" where
  "grpc_status code message = \<lparr>gs_code = code, gs_message = message\<rparr>"

fun code_debug :: "GrpcCode \<Rightarrow> string" where
  "code_debug CodeInvalidArgument = ''InvalidArgument''"
| "code_debug CodeNotFound = ''NotFound''"
| "code_debug CodePermissionDenied = ''PermissionDenied''"
| "code_debug CodeFailedPrecondition = ''FailedPrecondition''"
| "code_debug CodeUnimplemented = ''Unimplemented''"
| "code_debug CodeInternal = ''Internal''"
| "code_debug CodeUnauthenticated = ''Unauthenticated''"

section \<open>Validation\<close>

fun validate_each :: "path \<Rightarrow> fs \<Rightarrow> string list \<Rightarrow> GrpcStatus + path list" where
  "validate_each cwd fs [] = Inr []"
| "validate_each cwd fs (p # ps) =
     (case (if p = [] then Inl NotFound else fs_metadata (path_from cwd p) fs) of
        Inl error \<Rightarrow> Inl (grpc_status CodeInvalidArgument (''file does not exist: '' @ p @ '' ('' @ io_display error @ '')''))
      | Inr Dir \<Rightarrow> Inl (grpc_status CodeInvalidArgument (''not a file: '' @ p))
      | Inr (File _) \<Rightarrow> res_map (\<lambda>rest. path_from cwd p # rest) (validate_each cwd fs ps))"

definition validated_paths :: "path \<Rightarrow> fs \<Rightarrow> string list \<Rightarrow> GrpcStatus + path list" where
  "validated_paths cwd fs paths =
     (if paths = [] then Inl (grpc_status CodeInvalidArgument ''at least one file path is required'') else validate_each cwd fs paths)"

definition sender_info :: "DaemonState \<Rightarrow> DeviceInfo" where
  "sender_info state = \<lparr>di_alias = ds_alias state, di_version = ''2.0'', di_device_model = None, di_device_type = Some ''desktop'',
     di_fingerprint = ds_fingerprint state, di_port = 0, di_protocol = ''https'', di_download = False\<rparr>"

definition native_wan_certificate_fingerprint :: "Peer \<Rightarrow> GrpcStatus + string" where
  "native_wan_certificate_fingerprint peer =
     (case pe_policy peer of
        Block \<Rightarrow> Inl (grpc_status CodePermissionDenied (''trusted peer is blocked: '' @ fingerprint_to_string (pe_fingerprint peer)))
      | Prompt \<Rightarrow> Inl (grpc_status CodePermissionDenied
          (''trusted peer requires prompt before native WAN send: '' @ fingerprint_to_string (pe_fingerprint peer)))
      | AutoAccept \<Rightarrow> ok_or (grpc_status CodeFailedPrecondition (''trusted peer is missing native certificate metadata: ''
          @ fingerprint_to_string (pe_fingerprint peer) @ ''; re-pair or refresh trust'')) (pe_native_certificate_fingerprint peer))"

section \<open>The four kinds of target\<close>

definition stored_peer :: "LanEnv \<Rightarrow> GrpcStatus \<Rightarrow> Fingerprint \<Rightarrow> ('s DaemonWorld, GrpcStatus, Peer) sr" where
  "stored_peer L missing fingerprint =
     sr_bind (sr_gets (\<lambda>_. map_sum (\<lambda>e. grpc_status CodeInternal (''failed to open trust store: '' @ core_display e)) id (le_open L))) (\<lambda>_.
     sr_bind (sr_gets (\<lambda>w. map_sum (\<lambda>e. grpc_status CodeInternal (''failed to read trusted peer: '' @ core_display e)) id
         (trust_get (dw_store w) fingerprint))) (\<lambda>found.
     sr_gets (\<lambda>_. ok_or missing found)))"

definition native_send_to_url :: "('p, 'i, 'c, 'o, 'j, 's) SendEnv \<Rightarrow> string \<Rightarrow> path list \<Rightarrow> Keypair \<Rightarrow> string \<Rightarrow> ('s DaemonWorld, GrpcStatus, unit) sr" where
  "native_send_to_url V url paths keypair expected =
     sr_map_err (\<lambda>e. internal_status (session_display (dn_message_debug V) e)) (with_session (dn_inbound V)
       (send_files_to_url (dn_hash V) (dn_uuid V) (dn_json V) (dn_ed V) (dn_dialer V) (dn_conn V) url paths keypair expected))"

definition send_files_to_native_lan_peer :: "('p, 'i, 'c, 'o, 'j, 's) SendEnv \<Rightarrow> DaemonState \<Rightarrow> string \<Rightarrow> path list
    \<Rightarrow> ('s DaemonWorld, GrpcStatus, unit) sr" where
  "send_files_to_native_lan_peer V state peer_ref paths =
     sr_bind (sr_map_err internal_status (discover_native (dn_lan V) 1500 (ds_fingerprint state))) (\<lambda>peers.
     sr_bind (sr_gets (\<lambda>_. map_sum not_found_status id (resolve_peer_ref (dn_lan V) peers peer_ref))) (\<lambda>peer.
     sr_bind (sr_gets (\<lambda>_. map_sum (\<lambda>e. grpc_status CodeInvalidArgument (''invalid native peer fingerprint: '' @ core_display e)) id
         (fingerprint_from_str (nl_fingerprint peer)))) (\<lambda>fingerprint.
     sr_bind (stored_peer (dn_lan V) (grpc_status CodePermissionDenied (''native peer is not trusted: '' @ peer_ref)) fingerprint) (\<lambda>trusted.
     sr_bind (sr_gets (\<lambda>_. native_wan_certificate_fingerprint trusted)) (\<lambda>expected.
     sr_bind (sr_gets (\<lambda>_. ok_or (grpc_status CodeFailedPrecondition
         (''native peer '' @ str_debug peer_ref @ '' did not advertise certificate metadata'')) (nl_native_certificate_fingerprint peer))) (\<lambda>advertised.
     if advertised \<noteq> expected
     then sr_fail (grpc_status CodePermissionDenied (''native peer certificate fingerprint mismatch for '' @ str_debug peer_ref))
     else native_send_to_url V (''quic://'' @ show_ip_addr (nl_address peer) @ '':'' @ show_nat (unat (nl_port peer))) paths
            (ds_identity state) expected))))))"

definition normalize_localsend_peer_ref :: "(string \<Rightarrow> string) \<Rightarrow> string \<Rightarrow> string" where
  "normalize_localsend_peer_ref lc value =
     concat (map (char_to_lowercase lc) (filter (\<lambda>ch. ch \<noteq> '':'' \<and> ch \<noteq> ''-'') (utf8_chars value)))"

definition resolve_localsend_lan_peer :: "LanEnv \<Rightarrow> string \<Rightarrow> ('s DaemonWorld, GrpcStatus, LocalSendLanPeer) sr" where
  "resolve_localsend_lan_peer L peer_ref =
     (let needle = normalize_localsend_peer_ref (le_lc L) peer_ref in
      if needle = [] then sr_fail (grpc_status CodeInvalidArgument ''LocalSend peer is required'')
      else sr_bind (sr_map_err internal_status (scan_and_cache L)) (\<lambda>peers.
        sr_gets (\<lambda>_. case filter (\<lambda>peer. normalize_localsend_peer_ref (le_lc L) (ln_fingerprint peer) = needle
                          \<or> eq_ignore_ascii_case (ln_alias peer) peer_ref) peers of
            [] \<Rightarrow> Inl (grpc_status CodeNotFound (''LocalSend LAN peer '' @ str_debug peer_ref
                   @ '' was not discovered; keep the app open and run `night-bridge peers list-lan`''))
          | [peer] \<Rightarrow> Inr peer
          | _ \<Rightarrow> Inl (grpc_status CodeFailedPrecondition (''LocalSend LAN peer '' @ str_debug peer_ref
                   @ '' is ambiguous; use its fingerprint'')))))"

definition ls_internal :: "LocalSendError \<Rightarrow> GrpcStatus" where
  "ls_internal e = internal_status (ls_display e)"

definition localsend_send_to_url :: "('p, 'i, 'c, 'o, 'j, 's) SendEnv \<Rightarrow> DaemonState \<Rightarrow> 'c \<Rightarrow> string \<Rightarrow> path list
    \<Rightarrow> ('s DaemonWorld, GrpcStatus, unit) sr" where
  "localsend_send_to_url V state client url paths = (\<lambda>w.
     sr_map_err ls_internal (with_net (client_send_files_to_url (dn_http V) (dn_mime V) (le_sha256 (dn_lan V)) (\<lambda>_. w_fs (dw_world w))
       client url paths (sender_info state))) w)"

definition send_files_to_localsend_lan_peer :: "('p, 'i, 'c, 'o, 'j, 's) SendEnv \<Rightarrow> DaemonState \<Rightarrow> string \<Rightarrow> path list
    \<Rightarrow> ('s DaemonWorld, GrpcStatus, unit) sr" where
  "send_files_to_localsend_lan_peer V state peer_ref paths =
     sr_bind (resolve_localsend_lan_peer (dn_lan V) peer_ref) (\<lambda>peer.
     sr_bind (sr_gets (\<lambda>_. map_sum ls_internal id (client_pinned (le_lc (dn_lan V)) (dn_http V) (ln_fingerprint peer)))) (\<lambda>client.
     localsend_send_to_url V state client
       (ln_protocol peer @ ''://'' @ ln_source_ip peer @ '':'' @ show_nat (unat (ln_port peer))) paths))"

definition native_send_to_candidates :: "('p, 'i, 'c, 'o, 'j, 's) SendEnv \<Rightarrow> NativeCandidate list \<Rightarrow> path list \<Rightarrow> Keypair \<Rightarrow> string
    \<Rightarrow> ('s DaemonWorld, GrpcStatus, unit) sr" where
  "native_send_to_candidates V candidates paths keypair expected =
     sr_map_err (\<lambda>e. internal_status (session_display (dn_message_debug V) e)) (with_session (dn_inbound V)
       (send_files_to_candidates (dn_hash V) (dn_uuid V) (dn_json V) (dn_ed V) (dn_dialers V) (dn_arrival V) candidates paths keypair expected))"

definition send_files_to_wan_peer :: "('p, 'i, 'c, 'o, 'j, 's) SendEnv \<Rightarrow> DaemonState \<Rightarrow> string \<Rightarrow> path list
    \<Rightarrow> ('s DaemonWorld, GrpcStatus, unit) sr" where
  "send_files_to_wan_peer V state fingerprint paths =
     (let wan = ac_wan (ds_config state) in
      if \<not> wc_enabled wan \<or> wc_rendezvous_url wan = None
      then sr_fail (grpc_status CodeFailedPrecondition ''WAN rendezvous is not configured'')
      else
        sr_bind (sr_gets (\<lambda>_. map_sum (\<lambda>e. grpc_status CodeInvalidArgument (''invalid WAN peer fingerprint: '' @ core_display e)) id
            (fingerprint_from_str fingerprint))) (\<lambda>fp.
        sr_bind (stored_peer (dn_lan V) (grpc_status CodeNotFound (''trusted peer not found: '' @ fingerprint_to_string fp)) fp) (\<lambda>peer.
        sr_bind (sr_gets (\<lambda>_. native_wan_certificate_fingerprint peer)) (\<lambda>expected.
        sr_bind (sr_map_err internal_status (with_net (lookup_peer_candidates (dn_rv_json V) (dn_rv_dial V) (dn_rv_exchange V) (dn_rv_debug V)
            wan (public_bytes (dn_ed V) (ds_identity state)) (pe_pubkey peer)))) (\<lambda>candidates.
        native_send_to_candidates V candidates paths (ds_identity state) expected)))))"

section \<open>Sending\<close>

definition emit_event :: "('p, 'i, 'c, 'o, 'j, 's) SendEnv \<Rightarrow> DaemonEvent \<Rightarrow> 's DaemonWorld \<Rightarrow> 's DaemonWorld" where
  "emit_event V event w = w\<lparr>dw_events := emit (dn_epoch V (dw_tick w)) event (dw_events w), dw_tick := Suc (dw_tick w)\<rparr>"

definition report_result :: "('p, 'i, 'c, 'o, 'j, 's) SendEnv \<Rightarrow> string \<Rightarrow> ('s DaemonWorld, GrpcStatus, unit) sr \<Rightarrow> ('s DaemonWorld, GrpcStatus, string) sr" where
  "report_result V transfer_id result = (\<lambda>w. case result w of
     (Inr _, w') \<Rightarrow> (Inr transfer_id, emit_event V (DeTransferCompleted transfer_id) w')
   | (Inl status, w') \<Rightarrow> (Inl status, emit_event V (DeTransferFailed transfer_id (code_debug (gs_code status)) (gs_message status)) w'))"

definition new_transfer_id :: "('p, 'i, 'c, 'o, 'j, 's) SendEnv \<Rightarrow> ('s DaemonWorld, 'e, string) sr" where
  "new_transfer_id V = (\<lambda>w. (Inr (dn_uuid V (w_uuid (dw_world w))), w\<lparr>dw_world := (dw_world w)\<lparr>w_uuid := Suc (w_uuid (dw_world w))\<rparr>\<rparr>))"

text \<open>A failure to build the plain LocalSend client returns at once; every other failure is reported.\<close>

definition daemon_send_files :: "('p, 'i, 'c, 'o, 'j, 's) SendEnv \<Rightarrow> DaemonState \<Rightarrow> SendRequest \<Rightarrow> ('s DaemonWorld, GrpcStatus, string) sr" where
  "daemon_send_files V state request =
     sr_bind (sr_gets (\<lambda>w. validated_paths (dn_cwd V) (w_fs (dw_world w)) (sq_paths request))) (\<lambda>paths.
     sr_bind (sr_gets (\<lambda>_. ok_or (grpc_status CodeInvalidArgument ''send target is required'') (sq_target request))) (\<lambda>target.
     sr_bind (new_transfer_id V) (\<lambda>transfer_id.
     sr_bind (\<lambda>w. (Inr (), emit_event V (DeTransferStarted transfer_id) w)) (\<lambda>_.
     case target of
       TgLocalsendUrl url \<Rightarrow>
         sr_bind (sr_gets (\<lambda>_. map_sum ls_internal id (client_new (dn_http V)))) (\<lambda>client.
         report_result V transfer_id (localsend_send_to_url V state client url paths))
     | TgNativeUrl _ \<Rightarrow> report_result V transfer_id (sr_fail (grpc_status CodeFailedPrecondition
         ''native URL sends require pinned certificate metadata; use CLI --direct --native --native-cert-fingerprint or trusted WAN peer metadata''))
     | TgPeerFingerprint peer \<Rightarrow>
         report_result V transfer_id
           (if sq_native request then send_files_to_native_lan_peer V state peer paths else send_files_to_localsend_lan_peer V state peer paths)
     | TgWanPeer fingerprint \<Rightarrow> report_result V transfer_id (send_files_to_wan_peer V state fingerprint paths)))))"

section \<open>What a send leaves alone\<close>

text \<open>The clients and the searches behind them do not touch the event bus, and only the LocalSend scan writes to the trust
  database.\<close>

abbreviation same_events :: "'s DaemonWorld \<Rightarrow> 's DaemonWorld \<Rightarrow> bool" where
  "same_events w w' \<equiv> dw_events w' = dw_events w"

lemma keeps_events_bind:
  "sr_keeps same_events m \<Longrightarrow> (\<And>x. sr_keeps same_events (f x)) \<Longrightarrow> sr_keeps same_events (sr_bind m f)"
  by (rule sr_keeps_bind) (auto simp: transp_def)

lemma keeps_events_basic [simp, intro]:
  "sr_keeps same_events (sr_gets g)" "sr_keeps same_events (sr_return x)" "sr_keeps same_events (sr_fail e)"
  "sr_keeps same_events next_tick" "sr_keeps same_events (store_call f)" "sr_keeps same_events (with_net n)"
  "sr_keeps same_events (with_session inbound m)"
  by (auto simp: sr_keeps_def next_tick_def store_call_def with_net_def with_session_def split: prod.splits)

lemma keeps_events_map_err [simp, intro]: "sr_keeps same_events m \<Longrightarrow> sr_keeps same_events (sr_map_err g m)"
  by (simp add: sr_keeps_def sr_map_err_def case_prod_unfold)

lemma keeps_events_discover [simp, intro]: "sr_keeps same_events (discover_native L timeout me)"
  unfolding discover_native_def by (intro keeps_events_bind) simp_all

lemma keeps_events_probes [simp, intro]: "sr_keeps (same_events :: 's DaemonWorld \<Rightarrow> _) (record_probes L results)"
proof (induction results)
  case (Cons r results)
  have rest: "sr_keeps (same_events :: 's DaemonWorld \<Rightarrow> _) (sr_bind (record_probes L results) (\<lambda>rest. sr_return (g rest)))"
    for g :: "LocalSendLanPeer list \<Rightarrow> LocalSendLanPeer list"
    by (intro keeps_events_bind Cons.IH) simp
  show ?case
  proof (cases r)
    case (Inr peer)
    have "sr_keeps (same_events :: 's DaemonWorld \<Rightarrow> _) (\<lambda>w. case store_call f w of (r, w') \<Rightarrow>
        sr_bind (record_probes L results) (\<lambda>rest. sr_return (g r rest)) w')"
      for f :: "TrustStore \<Rightarrow> LocalSendLanPeer core_result \<times> TrustStore"
        and g :: "LocalSendLanPeer core_result \<Rightarrow> LocalSendLanPeer list \<Rightarrow> LocalSendLanPeer list"
      by (simp add: sr_keeps_def store_call_def case_prod_unfold rest [unfolded sr_keeps_def, rule_format])
    then show ?thesis using Inr by (simp add: keeps_events_bind)
  qed (simp add: Cons.IH)
qed (simp add: sr_keeps_def)

lemma keeps_events_scan [simp, intro]: "sr_keeps same_events (scan_and_cache L)"
  unfolding scan_and_cache_def by (intro keeps_events_bind) (auto intro!: keeps_events_bind)

lemma keeps_events_targets [simp, intro]:
  "sr_keeps same_events (send_files_to_native_lan_peer V state peer_ref paths)"
  "sr_keeps same_events (send_files_to_localsend_lan_peer V state peer_ref paths)"
  "sr_keeps same_events (send_files_to_wan_peer V state peer_ref paths)"
  "sr_keeps same_events (localsend_send_to_url V state client url paths)"
proof -
  have url: "sr_keeps same_events (localsend_send_to_url V state client url paths)" for client url
    by (simp add: localsend_send_to_url_def sr_keeps_def sr_map_err_def with_net_def case_prod_unfold)
  show "sr_keeps same_events (localsend_send_to_url V state client url paths)" by (rule url)
  show "sr_keeps same_events (send_files_to_native_lan_peer V state peer_ref paths)"
    unfolding send_files_to_native_lan_peer_def stored_peer_def native_send_to_url_def by (intro keeps_events_bind) (auto intro!: keeps_events_bind)
  show "sr_keeps same_events (send_files_to_localsend_lan_peer V state peer_ref paths)"
    unfolding send_files_to_localsend_lan_peer_def resolve_localsend_lan_peer_def Let_def
    by (intro keeps_events_bind) (auto intro!: keeps_events_bind url)
  show "sr_keeps same_events (send_files_to_wan_peer V state peer_ref paths)"
    unfolding send_files_to_wan_peer_def stored_peer_def native_send_to_candidates_def Let_def by (auto intro!: keeps_events_bind)
qed

section \<open>Every announced send is concluded\<close>

lemma validate_each_code: "validate_each cwd fs ps = Inl e \<Longrightarrow> gs_code e = CodeInvalidArgument"
  by (induction ps) (auto simp: grpc_status_def res_map_def split: sum.splits node.splits if_splits)

definition events_of :: "'s DaemonWorld \<Rightarrow> DaemonEvent list" where
  "events_of w = map ev_event (eb_sent (dw_events w))"

lemma events_of_emit [simp]: "events_of (emit_event V event w) = events_of w @ [event]"
  by (simp add: events_of_def emit_event_def emit_def Let_def)

lemma report_result_events:
  assumes "sr_keeps same_events result" and "report_result V transfer_id result w = (r, w')"
  shows "(r = Inr transfer_id \<and> events_of w' = events_of w @ [DeTransferCompleted transfer_id])
    \<or> (\<exists>status. r = Inl status \<and> events_of w' = events_of w
         @ [DeTransferFailed transfer_id (code_debug (gs_code status)) (gs_message status)])"
proof -
  obtain q w1 where q: "result w = (q, w1)" by force
  then have "events_of w1 = events_of w" using assms(1) by (simp add: sr_keeps_def events_of_def) (metis snd_conv)
  then show ?thesis using assms(2) q by (cases q) (auto simp: report_result_def)
qed

text \<open>
  C10. The events of a send tell how it ended. A request with bad paths or without a target changes nothing and is not
  announced. Every other one announces a start under a fresh identifier, followed by exactly one conclusion: completed
  when the identifier is returned, failed with the code and the message of the returned status otherwise. The one
  exception is a LocalSend URL for which no HTTP client can be built: then the start is never concluded.
\<close>

theorem daemon_send_events:
  assumes run: "daemon_send_files V state request w = (r, w')"
  shows "(\<exists>status. r = Inl status \<and> w' = w \<and> gs_code status = CodeInvalidArgument
        \<and> ((\<exists>e. validated_paths (dn_cwd V) (w_fs (dw_world w)) (sq_paths request) = Inl e) \<or> sq_target request = None))
    \<or> (\<exists>transfer_id. transfer_id = dn_uuid V (w_uuid (dw_world w))
        \<and> is_ok (validated_paths (dn_cwd V) (w_fs (dw_world w)) (sq_paths request)) \<and> sq_target request \<noteq> None
        \<and> (events_of w' = events_of w @ [DeTransferStarted transfer_id, DeTransferCompleted transfer_id] \<and> r = Inr transfer_id
          \<or> (\<exists>status. r = Inl status \<and> events_of w' = events_of w
              @ [DeTransferStarted transfer_id, DeTransferFailed transfer_id (code_debug (gs_code status)) (gs_message status)])
          \<or> (\<exists>status url. r = Inl status \<and> events_of w' = events_of w @ [DeTransferStarted transfer_id]
              \<and> sq_target request = Some (TgLocalsendUrl url) \<and> \<not> is_ok (client_new (dn_http V)))))"
proof (cases "is_ok (validated_paths (dn_cwd V) (w_fs (dw_world w)) (sq_paths request)) \<and> sq_target request \<noteq> None")
  case False
  have code: "gs_code e = CodeInvalidArgument" if "validated_paths cwd fs ps = Inl e" for cwd fs ps e
    using that validate_each_code by (auto simp: validated_paths_def grpc_status_def split: if_splits)
  show ?thesis
  proof (cases "validated_paths (dn_cwd V) (w_fs (dw_world w)) (sq_paths request)")
    case (Inl e)
    then show ?thesis using run code by (auto simp: daemon_send_files_def)
  next
    case (Inr paths)
    then show ?thesis using False run by (auto simp: daemon_send_files_def is_ok_iff sr_bind_def sr_gets_def ok_or_def grpc_status_def)
  qed
next
  case True
  then obtain paths target where ok: "validated_paths (dn_cwd V) (w_fs (dw_world w)) (sq_paths request) = Inr paths" "sq_target request = Some target"
    by (auto simp: is_ok_iff)
  define transfer_id where "transfer_id = dn_uuid V (w_uuid (dw_world w))"
  define w1 where "w1 = emit_event V (DeTransferStarted transfer_id) (w\<lparr>dw_world := (dw_world w)\<lparr>w_uuid := Suc (w_uuid (dw_world w))\<rparr>\<rparr>)"
  have w1: "events_of w1 = events_of w @ [DeTransferStarted transfer_id]"
    by (simp add: w1_def) (simp add: events_of_def)
  note unfolded = run [unfolded daemon_send_files_def sr_bind_def sr_gets_def new_transfer_id_def ok ok_or_def,
      simplified, folded transfer_id_def, folded w1_def]
  show ?thesis
  proof (cases "(\<exists>url. target = TgLocalsendUrl url) \<and> \<not> is_ok (client_new (dn_http V))")
    case True
    then obtain url e where "target = TgLocalsendUrl url" "client_new (dn_http V) = Inl e"
      by (cases "client_new (dn_http V)") (auto simp: is_ok_iff)
    then show ?thesis using unfolded w1 ok by (auto simp: is_ok_iff transfer_id_def)
  next
    case False
    then obtain result where "sr_keeps same_events result" "report_result V transfer_id result w1 = (r, w')"
      using unfolded keeps_events_targets [THEN that] that [OF keeps_events_basic(3)]
      by (cases target) (auto simp: is_ok_iff split: if_splits)
    from report_result_events [OF this] show ?thesis using w1 ok by (auto simp: transfer_id_def is_ok_iff)
  qed
qed

section \<open>Native sends are pinned\<close>

lemma stored_peer_cases:
  obtains (refused) e where "\<And>missing. stored_peer L missing fp w = (Inl (e missing), w)"
  | (found) p where "trust_get (dw_store w) fp = Inr (Some p)" "\<And>missing. stored_peer L missing fp w = (Inr p, w)"
proof (cases "le_open L")
  case (Inl e)
  then show ?thesis by (intro refused [of "\<lambda>_. _"]) (simp add: stored_peer_def)
next
  case opened: (Inr u)
  show ?thesis
  proof (cases "trust_get (dw_store w) fp")
    case (Inl e)
    then show ?thesis by (intro refused [of "\<lambda>_. _"]) (simp add: stored_peer_def opened)
  next
    case (Inr entry)
    then show ?thesis
      by (cases entry) (auto intro: refused [of id] found simp: stored_peer_def ok_or_def opened)
  qed
qed

lemma pinned_certificate:
  "native_wan_certificate_fingerprint p = Inr cert \<longleftrightarrow> pe_policy p = AutoAccept \<and> pe_native_certificate_fingerprint p = Some cert"
  by (auto simp: native_wan_certificate_fingerprint_def ok_or_def split: PeerPolicy.splits option.splits)

abbreviation lan_url :: "NativeLanPeer \<Rightarrow> string" where
  "lan_url peer \<equiv> ''quic://'' @ show_ip_addr (nl_address peer) @ '':'' @ show_nat (unat (nl_port peer))"

text \<open>What a peer found on the LAN must satisfy before anything is sent to it.\<close>

definition lan_send_admitted :: "LanEnv \<Rightarrow> DaemonState \<Rightarrow> string \<Rightarrow> 's DaemonWorld \<Rightarrow> NativeLanPeer \<Rightarrow> string \<Rightarrow> bool" where
  "lan_send_admitted L state peer_ref w peer cert \<longleftrightarrow>
     lan_found L 1500 (ds_fingerprint state) peer_ref w peer
     \<and> nl_native_certificate_fingerprint peer = Some cert
     \<and> (\<exists>p. trust_get (dw_store w) (fingerprint_from_pubkey (le_sha256 L) (nl_pubkey peer)) = Inr (Some p)
        \<and> pe_policy p = AutoAccept \<and> pe_native_certificate_fingerprint p = Some cert)"

lemma lan_send_after_discovery:
  assumes d: "discover_native (dn_lan V) 1500 (ds_fingerprint state) w = (Inr peers, w1)"
    and ref: "resolve_peer_ref (dn_lan V) peers peer_ref = Inr peer"
    and fp: "fingerprint_from_str (nl_fingerprint peer) = Inr fp"
  shows "(\<exists>e. send_files_to_native_lan_peer V state peer_ref paths w = (Inl e, w1))
    \<or> (\<exists>p cert. trust_get (dw_store w1) fp = Inr (Some p) \<and> pe_policy p = AutoAccept \<and> pe_native_certificate_fingerprint p = Some cert
         \<and> nl_native_certificate_fingerprint peer = Some cert
         \<and> send_files_to_native_lan_peer V state peer_ref paths w = native_send_to_url V (lan_url peer) paths (ds_identity state) cert w1)"
proof -
  have d': "sr_map_err internal_status (discover_native (dn_lan V) 1500 (ds_fingerprint state)) w = (Inr peers, w1)"
    by (simp add: sr_map_err_def d)
  note start = send_files_to_native_lan_peer_def d' ref fp
  show ?thesis
  proof (cases rule: stored_peer_cases [of "dn_lan V" fp w1])
    case (refused e)
    then show ?thesis by (simp add: start)
  next
    case p: (found p)
    show ?thesis
    proof (cases "native_wan_certificate_fingerprint p")
      case (Inl e)
      then show ?thesis by (simp add: start p)
    next
      case (Inr cert)
      note pin = Inr [unfolded pinned_certificate]
      show ?thesis
      proof (cases "nl_native_certificate_fingerprint peer = Some cert")
        case True
        then show ?thesis using pin p by (simp add: start Inr ok_or_def)
      next
        case False
        then show ?thesis using pin p by (cases "nl_native_certificate_fingerprint peer") (simp_all add: start Inr ok_or_def)
      qed
    qed
  qed
qed

lemma lan_send_cases:
  assumes order: "hash_order_ok (dn_lan V)"
  shows "(\<exists>e. send_files_to_native_lan_peer V state peer_ref paths w = (Inl e, w\<lparr>dw_tick := Suc (dw_tick w)\<rparr>))
      \<or> (\<exists>peer cert. lan_send_admitted (dn_lan V) state peer_ref w peer cert
          \<and> send_files_to_native_lan_peer V state peer_ref paths w
            = native_send_to_url V (lan_url peer) paths (ds_identity state) cert (w\<lparr>dw_tick := Suc (dw_tick w)\<rparr>))"
proof -
  obtain found w1 where d: "discover_native (dn_lan V) 1500 (ds_fingerprint state) w = (found, w1)" by force
  have w1: "w1 = w\<lparr>dw_tick := Suc (dw_tick w)\<rparr>"
    using d by (auto simp: discover_native_def next_tick_def sr_bind_def sr_gets_def Let_def)
  show ?thesis
  proof (cases found)
    case (Inl e)
    then show ?thesis using d w1 by (simp add: send_files_to_native_lan_peer_def sr_map_err_def sr_bind_def)
  next
    case (Inr peers)
    note d' = d [unfolded Inr]
    show ?thesis
    proof (cases "resolve_peer_ref (dn_lan V) peers peer_ref")
      case (Inl e)
      then show ?thesis using d' w1 by (simp add: send_files_to_native_lan_peer_def sr_map_err_def sr_bind_def)
    next
      case (Inr peer)
      note member = resolve_peer_refD [OF Inr]
      note facts = discover_nativeD [OF d' order member [THEN conjunct1]]
      from lan_send_after_discovery [OF d' Inr facts(1), of paths] show ?thesis
      proof (elim disjE exE conjE)
        fix p cert
        assume "trust_get (dw_store w1) (fingerprint_from_pubkey (le_sha256 (dn_lan V)) (nl_pubkey peer)) = Inr (Some p)" "pe_policy p = AutoAccept"
          "pe_native_certificate_fingerprint p = Some cert" "nl_native_certificate_fingerprint peer = Some cert"
          and run: "send_files_to_native_lan_peer V state peer_ref paths w = native_send_to_url V (lan_url peer) paths (ds_identity state) cert w1"
        then have "lan_send_admitted (dn_lan V) state peer_ref w peer cert"
          unfolding lan_send_admitted_def using resolved_is_found [OF d' order Inr] w1 by auto
        then show ?thesis using run w1 by auto
      qed (use w1 in auto)
    qed
  qed
qed

lemma wan_send_cases:
  "(\<exists>e s. send_files_to_wan_peer V state peer_ref paths w = (Inl e, w\<lparr>dw_net := s\<rparr>))
      \<or> (\<exists>fp p cert candidates s. wc_enabled (ac_wan (ds_config state)) \<and> fingerprint_from_str peer_ref = Inr fp
          \<and> trust_get (dw_store w) fp = Inr (Some p) \<and> pe_policy p = AutoAccept \<and> pe_native_certificate_fingerprint p = Some cert
          \<and> lookup_peer_candidates (dn_rv_json V) (dn_rv_dial V) (dn_rv_exchange V) (dn_rv_debug V) (ac_wan (ds_config state))
              (public_bytes (dn_ed V) (ds_identity state)) (pe_pubkey p) (dw_net w) = (Inr candidates, s)
          \<and> send_files_to_wan_peer V state peer_ref paths w
            = native_send_to_candidates V candidates paths (ds_identity state) cert (w\<lparr>dw_net := s\<rparr>))"
  (is "?failed \<or> ?sent")
proof -
  let ?wan = "ac_wan (ds_config state)"
  have failed: ?failed if "send_files_to_wan_peer V state peer_ref paths w = (Inl e, w)" for e
    using that by (intro exI [of _ e] exI [of _ "dw_net w"]) simp
  show ?thesis
  proof (cases "wc_enabled ?wan \<and> wc_rendezvous_url ?wan \<noteq> None \<and> is_ok (fingerprint_from_str peer_ref)")
    case False
    have "\<exists>e. send_files_to_wan_peer V state peer_ref paths w = (Inl e, w)"
      using False by (cases "fingerprint_from_str peer_ref") (auto simp: send_files_to_wan_peer_def Let_def is_ok_iff)
    then show ?thesis using failed by blast
  next
    case True
    then obtain fp where on: "wc_enabled ?wan" "wc_rendezvous_url ?wan \<noteq> None" and fp: "fingerprint_from_str peer_ref = Inr fp" by (auto simp: is_ok_iff)
    note start = send_files_to_wan_peer_def Let_def on fp
    show ?thesis
    proof (cases rule: stored_peer_cases [of "dn_lan V" fp w])
      case (refused e)
      then have "\<exists>e. send_files_to_wan_peer V state peer_ref paths w = (Inl e, w)" by (simp add: start)
      then show ?thesis using failed by blast
    next
      case p: (found p)
      obtain q s where l: "lookup_peer_candidates (dn_rv_json V) (dn_rv_dial V) (dn_rv_exchange V) (dn_rv_debug V) ?wan
          (public_bytes (dn_ed V) (ds_identity state)) (pe_pubkey p) (dw_net w) = (q, s)" by force
      show ?thesis
      proof (cases "native_wan_certificate_fingerprint p")
        case (Inl e)
        then have "send_files_to_wan_peer V state peer_ref paths w = (Inl e, w)" by (simp add: start p)
        then show ?thesis using failed by blast
      next
        case (Inr cert)
        note pin = Inr [unfolded pinned_certificate]
        show ?thesis
        proof (cases q)
          case (Inl e)
          then have "send_files_to_wan_peer V state peer_ref paths w = (Inl (internal_status e), w\<lparr>dw_net := s\<rparr>)"
            using l Inr by (simp add: start p sr_bind_def sr_map_err_def with_net_def)
          then show ?thesis by blast
        next
          case cands: (Inr candidates)
          then have "send_files_to_wan_peer V state peer_ref paths w
              = native_send_to_candidates V candidates paths (ds_identity state) cert (w\<lparr>dw_net := s\<rparr>)"
            using l Inr by (simp add: start p sr_bind_def sr_map_err_def with_net_def)
          then show ?thesis using on fp p(1) pin l cands by blast
        qed
      qed
    qed
  qed
qed


section \<open>A peer trusted on the LAN can be sent to\<close>

lemma discover_native_again:
  assumes "discover_native L timeout me w = (Inr peers, v)" and "le_turns L (dw_tick w') = le_turns L (dw_tick w)"
  shows "discover_native L timeout me w' = (Inr peers, w'\<lparr>dw_tick := Suc (dw_tick w')\<rparr>)"
  using assms by (auto simp: discover_native_def next_tick_def sr_bind_def sr_gets_def Let_def split: sum.splits)

text \<open>
  C21. Trusting a discovered native peer is enough to send to it. When trusting a reference with the policy to accept
  automatically has succeeded, and the LAN still announces the same, the peer that was found and trusted then (the only
  announced one that matches, with the fingerprint returned) is the one a send to the same reference finds and admits,
  and the send runs the native client against the address and port that peer announced, with the certificate just stored.
\<close>

theorem trusted_lan_peer_is_dialed:
  assumes order: "hash_order_ok (dn_lan V)" and sha: "sha256_ok (le_sha256 (dn_lan V))" and inv: "trust_inv lc n (dw_store w)"
    and trust: "api_trust_native_lan (dn_lan V) (ds_trust_db_path state) (ds_fingerprint state) peer_ref label policy timeout w = (Inr trusted, w1)"
    and auto: "requested_policy policy = AutoAccept" "discovery_timeout timeout = 1500" "le_open (dn_lan V) = Inr ()"
    and again: "le_turns (dn_lan V) (dw_tick w1) = le_turns (dn_lan V) (dw_tick w)"
  shows "\<exists>peer cert. lan_found (dn_lan V) 1500 (ds_fingerprint state) peer_ref w peer
    \<and> tp_fingerprint trusted = Some (fingerprint_to_string (fingerprint_from_pubkey (le_sha256 (dn_lan V)) (nl_pubkey peer)))
    \<and> tp_native_certificate_fingerprint trusted = Some cert
    \<and> lan_send_admitted (dn_lan V) state peer_ref w1 peer cert
    \<and> send_files_to_native_lan_peer V state peer_ref paths w1
        = native_send_to_url V (lan_url peer) paths (ds_identity state) cert (w1\<lparr>dw_tick := Suc (dw_tick w1)\<rparr>)"
proof -
  let ?L = "dn_lan V"
  from trust_native_lan_cases [OF order sha inv trust] obtain peers peer cert p
    where t: "trusted = trusted_peer p" "discover_native ?L 1500 (ds_fingerprint state) w = (Inr peers, w\<lparr>dw_tick := Suc (dw_tick w)\<rparr>)"
      "resolve_peer_ref ?L peers peer_ref = Inr peer" "lan_found ?L 1500 (ds_fingerprint state) peer_ref w peer"
      "pe_fingerprint p = fingerprint_from_pubkey (le_sha256 ?L) (nl_pubkey peer)" "nl_native_certificate_fingerprint peer = Some cert"
      "pe_native_certificate_fingerprint p = Some cert" "pe_policy p = AutoAccept" "trust_get (dw_store w1) (pe_fingerprint p) = Inr (Some p)"
    using auto by auto
  let ?w2 = "w1\<lparr>dw_tick := Suc (dw_tick w1)\<rparr>"
  have d: "discover_native ?L 1500 (ds_fingerprint state) w1 = (Inr peers, ?w2)"
    by (rule discover_native_again [OF t(2) again])
  have fp: "fingerprint_from_str (nl_fingerprint peer) = Inr (pe_fingerprint p)" using t(4,5) by (simp add: lan_found_def)
  have admitted: "lan_send_admitted ?L state peer_ref w1 peer cert"
    unfolding lan_send_admitted_def using resolved_is_found [OF d order t(3)] t by auto
  have stored: "stored_peer ?L missing (pe_fingerprint p) ?w2 = (Inr p, ?w2)" for missing
    using t(9) auto(3) by (simp add: stored_peer_def ok_or_def)
  have "send_files_to_native_lan_peer V state peer_ref paths w1 = native_send_to_url V (lan_url peer) paths (ds_identity state) cert ?w2"
  proof -
    have "sr_map_err internal_status (discover_native ?L 1500 (ds_fingerprint state)) w1 = (Inr peers, ?w2)" by (simp add: sr_map_err_def d)
    moreover have "native_wan_certificate_fingerprint p = Inr cert" using t by (simp add: pinned_certificate)
    ultimately show ?thesis using t(3,6) fp by (simp add: send_files_to_native_lan_peer_def stored ok_or_def)
  qed
  then show ?thesis using admitted t(1,4,5,7) by (intro exI [of _ peer] exI [of _ cert]) (auto simp: trusted_peer_def)
qed

section \<open>Addresses of LAN peers\<close>

lemma read_number_split:
  assumes "read_number 10 m z b s = Some (n, r)"
  shows "\<exists>ds. s = ds @ r \<and> CHR '':'' \<notin> set ds"
proof -
  have "r = dropWhile (\<lambda>c. digit_val 10 c \<noteq> None) s" using assms by (auto simp: read_number_def Let_def split: if_splits)
  moreover have "CHR '':'' \<notin> set (takeWhile (\<lambda>c. digit_val 10 c \<noteq> None) s)"
    by (auto simp: digit_val_def dest: set_takeWhileD)
  ultimately show ?thesis by (metis takeWhile_dropWhile_id)
qed

lemma read_octet_split:
  assumes "read_octet i s = Some (n, r)"
  shows "\<exists>ds. s = ds @ r \<and> CHR '':'' \<notin> set ds"
proof -
  obtain n' s' where n: "read_number 10 (Some 3) False 256 s' = Some (n', r)" and s: "s = s' \<or> s = CHR ''.'' # s'"
    using assms by (auto simp: read_octet_def read_separator_def read_given_char_def bind_eq_Some_conv split: if_splits list.splits)
  then show ?thesis using read_number_split [OF n] by (elim exE conjE disjE) (auto intro: exI [of _ "CHR ''.'' # _"])
qed

lemma v4_one_colon:
  assumes "read_socket_addr_v4 s = Some (a, [])"
  shows "count_list s (CHR '':'') = 1"
proof -
  obtain ip s4 where ip: "read_ipv4_addr s = Some (ip, s4)" and port: "\<exists>p. read_port s4 = Some (p, [])"
    using assms by (auto simp: read_socket_addr_v4_def bind_eq_Some_conv split: prod.splits)
  have "\<exists>pre. s = pre @ s4 \<and> CHR '':'' \<notin> set pre"
    using ip by (auto simp: read_ipv4_addr_def bind_eq_Some_conv dest!: read_octet_split)
  moreover have "\<exists>ds. s4 = CHR '':'' # ds \<and> CHR '':'' \<notin> set ds"
    using port by (auto simp: read_port_def read_given_char_def bind_eq_Some_conv split: list.splits if_splits dest!: read_number_split)
  ultimately show ?thesis by auto
qed

lemma show_hex_chars: "set (show_hex n) \<subseteq> {c. c \<noteq> CHR ''['' \<and> c \<noteq> CHR '':''}"
proof (induction n rule: show_hex.induct)
  case (1 n)
  have hex: "hex_char d \<noteq> CHR ''['' \<and> hex_char d \<noteq> CHR '':''" if "d < 16" for d
  proof -
    have "of_char (hex_char d) = (if d < 10 then 48 + d else 87 + d :: nat)" using that by (simp add: hex_char_def)
    then have "of_char (hex_char d) \<noteq> (91 :: nat)" "of_char (hex_char d) \<noteq> (58 :: nat)" using that by (auto split: if_splits)
    then show ?thesis by auto
  qed
  show ?case using 1 hex by (subst show_hex.simps) auto
qed

lemma show_segments_chars: "CHR ''['' \<notin> set (show_segments gs)"
  unfolding show_segments_def by (induction gs rule: induct_list012) (use show_hex_chars in \<open>auto simp: join_with.simps\<close>)

lemma show_segments_colons: "length gs \<ge> 2 \<Longrightarrow> CHR '':'' \<in> set (show_segments gs)"
  unfolding show_segments_def by (cases gs rule: remdups_adj.cases) auto

lemma show_ipv6_chars:
  assumes "length gs = 8"
  shows "CHR ''['' \<notin> set (show_ipv6 gs) \<and> CHR '':'' \<in> set (show_ipv6 gs)"
proof -
  have digits: "CHR ''['' \<notin> set (show_nat n)" for n
    using digit_val_show [of "CHR ''[''" n] by (auto simp: digit_val_def)
  obtain start len where run: "zero_run gs 0 (0, 0) (0, 0) = (start, len)" by (rule prod.exhaust)
  show ?thesis
  proof (cases "take 6 gs = [0, 0, 0, 0, 0, 0xffff]")
    case True
    then show ?thesis by (simp add: show_ipv6_def show_ipv4_def digits)
  next
    case False
    then show ?thesis using show_segments_colons [of gs] assms by (simp add: show_ipv6_def run show_segments_chars)
  qed
qed

lemma ipv6_url_rejected:
  assumes "length gs = 8"
  shows "parse_socket_addr (show_ipv6 gs @ '':'' @ port) = None"
proof -
  let ?s = "show_ipv6 gs @ '':'' @ port"
  have colon: "CHR '':'' \<in> set (show_ipv6 gs)" and bracket: "CHR ''['' \<notin> set (show_ipv6 gs)" using show_ipv6_chars [OF assms] by auto
  then have "count_list (show_ipv6 gs) (CHR '':'') \<noteq> 0" by (simp add: count_list_0_iff)
  then have "count_list ?s (CHR '':'') \<noteq> 1" by simp
  then have "read_socket_addr_v4 ?s \<noteq> Some (a, [])" for a using v4_one_colon by blast
  moreover have "read_socket_addr_v6 ?s = None"
    using bracket by (cases "show_ipv6 gs") (auto simp: read_socket_addr_v6_def read_given_char_def)
  ultimately show ?thesis by (auto simp: parse_socket_addr_def split: option.splits list.splits)
qed



section \<open>Witnesses\<close>

text \<open>A daemon on the LAN of one other peer, before and after it has trusted that peer.\<close>

definition demo_state :: DaemonState where
  "demo_state = \<lparr>ds_alias = ''me'', ds_identity = \<lparr>kp_signing = []\<rparr>, ds_fingerprint = ''1111'', ds_trust_db_path = [''trust.db''],
     ds_inbox_dir = [''inbox''], ds_localsend_port = 7, ds_localsend_receive_policy = PolicyPrompt, ds_trusted_localsend_fingerprints = [],
     ds_trusted_localsend_fingerprints_file = None, ds_native_port = 9, ds_api_token = ''token'', ds_config = default_config, ds_metrics = None\<rparr>"

definition demo_trusted_world :: "unit DaemonWorld" where
  "demo_trusted_world = snd (api_trust_native_lan demo_lan [''trust.db''] ''1111'' ''BOX'' None 0 0 demo_daemon_world)"

lemma demo_trusting:
  "\<exists>p. api_trust_native_lan demo_lan [''trust.db''] ''1111'' ''BOX'' None 0 0 demo_daemon_world = (Inr (trusted_peer p), demo_trusted_world)"
  using demo_trusts by (auto simp: demo_trusted_world_def prod_eq_iff)

theorem trusted_lan_peer_is_dialed_witness:
  "\<forall>V :: (unit, unit, unit, unit, unit, unit) SendEnv. \<exists>peer cert.
     lan_send_admitted demo_lan demo_state ''BOX'' demo_trusted_world peer cert
     \<and> send_files_to_native_lan_peer (V\<lparr>dn_lan := demo_lan\<rparr>) demo_state ''BOX'' [[''note'']] demo_trusted_world
       = native_send_to_url (V\<lparr>dn_lan := demo_lan\<rparr>) (lan_url peer) [[''note'']] \<lparr>kp_signing = []\<rparr> cert
           (demo_trusted_world\<lparr>dw_tick := Suc (dw_tick demo_trusted_world)\<rparr>)"
proof
  fix V :: "(unit, unit, unit, unit, unit, unit) SendEnv"
  obtain p where t: "api_trust_native_lan demo_lan [''trust.db''] ''1111'' ''BOX'' None 0 0 demo_daemon_world
      = (Inr (trusted_peer p), demo_trusted_world)" using demo_trusting by blast
  have "trust_inv no_unicode 0 (dw_store demo_daemon_world)" using trust_inv_open by (simp add: demo_daemon_world_def)
  from trusted_lan_peer_is_dialed [of "V\<lparr>dn_lan := demo_lan\<rparr>" no_unicode 0 demo_daemon_world demo_state "''BOX''" None 0 0
      "trusted_peer p" demo_trusted_world "[[''note'']]", OF _ _ this]
  show "\<exists>peer cert. lan_send_admitted demo_lan demo_state ''BOX'' demo_trusted_world peer cert
     \<and> send_files_to_native_lan_peer (V\<lparr>dn_lan := demo_lan\<rparr>) demo_state ''BOX'' [[''note'']] demo_trusted_world
       = native_send_to_url (V\<lparr>dn_lan := demo_lan\<rparr>) (lan_url peer) [[''note'']] \<lparr>kp_signing = []\<rparr> cert
           (demo_trusted_world\<lparr>dw_tick := Suc (dw_tick demo_trusted_world)\<rparr>)"
    using t demo_lan_ok by (auto simp: demo_state_def requested_policy_def discovery_timeout_def)
qed


theorem daemon_send_events_witness:
  "\<forall>V :: (unit, unit, unit, unit, unit, unit) SendEnv.
     w_uuid (dw_world (snd (daemon_send_files V demo_state \<lparr>sq_paths = [''gone''], sq_target = None, sq_native = True\<rparr> demo_daemon_world))) = 0"
proof
  fix V :: "(unit, unit, unit, unit, unit, unit) SendEnv"
  let ?q = "\<lparr>sq_paths = [''gone''], sq_target = None, sq_native = True\<rparr>"
  obtain r w' where run: "daemon_send_files V demo_state ?q demo_daemon_world = (r, w')" by force
  have none: "events_of demo_daemon_world = []" by (simp add: events_of_def demo_daemon_world_def event_bus_new_def)
  have "events_of w' = []"
    using run none by (auto simp: daemon_send_files_def sr_bind_def sr_gets_def ok_or_def split: sum.splits)
  then have "w' = demo_daemon_world"
    using daemon_send_events [OF run] none by auto
  then show "w_uuid (dw_world (snd (daemon_send_files V demo_state ?q demo_daemon_world))) = 0"
    using run by (simp add: demo_daemon_world_def)
qed

end
