(* ===== verification/Daemon_Http.thy ===== *)
theory Daemon_Http
  imports Daemon_Transfers
begin

text \<open>
  The interfaces of the daemon on the loopback address: the bearer check of gRPC (\<open>daemon/src/api/auth.rs\<close>),
  the listing of the inbox (\<open>api/inbox.rs\<close>), the HTTP interface with its routes and handlers
  (\<open>api/http.rs\<close>, with the assets of \<open>webui/src/lib.rs\<close>), and the services of \<open>api/grpc.rs\<close>. The HTTP
  and gRPC servers that parse requests, decode JSON bodies and deliver responses are parameters, as are
  the order of a directory and the times of its files.
\<close>

section \<open>Bearer tokens\<close>

text \<open>The value of the authorization header: absent, not plain text, or a string.\<close>

datatype HeaderValue = NoHeader | OpaqueHeader | HeaderText string

definition authorize_metadata :: "HeaderValue \<Rightarrow> string \<Rightarrow> GrpcStatus + unit" where
  "authorize_metadata header expected_token =
     (case header of
        NoHeader \<Rightarrow> Inl (grpc_status CodeUnauthenticated ''missing bearer token'')
      | OpaqueHeader \<Rightarrow> Inl (grpc_status CodeUnauthenticated ''malformed bearer token'')
      | HeaderText value \<Rightarrow>
         (case strip_prefix ''Bearer '' value of
            None \<Rightarrow> Inl (grpc_status CodeUnauthenticated ''malformed bearer token'')
          | Some token \<Rightarrow>
              if str_bytes token \<noteq> str_bytes expected_token then Inl (grpc_status CodeUnauthenticated ''invalid bearer token'')
              else Inr ()))"

record ApiError =
  ae_status :: nat
  ae_message :: string

definition http_api_error :: "nat \<Rightarrow> string \<Rightarrow> ApiError" where
  "http_api_error status message = \<lparr>ae_status = status, ae_message = message\<rparr>"

definition api_internal :: "string \<Rightarrow> ApiError" where
  "api_internal error = http_api_error 500 error"

definition from_status :: "GrpcStatus \<Rightarrow> ApiError" where
  "from_status status =
     http_api_error (case gs_code status of CodeInvalidArgument \<Rightarrow> 400 | CodeUnimplemented \<Rightarrow> 501 | CodeUnauthenticated \<Rightarrow> 401 | _ \<Rightarrow> 500)
       (gs_message status)"

definition http_authorize :: "HeaderValue \<Rightarrow> string \<Rightarrow> ApiError + unit" where
  "http_authorize header expected_token =
     (case header of
        NoHeader \<Rightarrow> Inl (http_api_error 401 ''missing bearer token'')
      | OpaqueHeader \<Rightarrow> Inl (http_api_error 401 ''malformed bearer token'')
      | HeaderText value \<Rightarrow>
         (case strip_prefix ''Bearer '' value of
            None \<Rightarrow> Inl (http_api_error 401 ''malformed bearer token'')
          | Some token \<Rightarrow>
              if str_bytes token \<noteq> str_bytes expected_token then Inl (http_api_error 401 ''invalid bearer token'') else Inr ()))"

section \<open>The inbox\<close>

text \<open>The names in a directory in the order of the system, and the modification time of a file since the epoch.\<close>

record InboxEnv =
  ib_names :: "fs \<Rightarrow> path \<Rightarrow> string list"
  ib_modified :: "path \<Rightarrow> u64 option"

definition ends_with :: "string \<Rightarrow> string \<Rightarrow> bool" where
  "ends_with pat s \<longleftrightarrow> length pat \<le> length s \<and> drop (length s - length pat) s = pat"

text \<open>\<open>read_dir\<close>: the directory a path leads to.\<close>

definition read_dir :: "path \<Rightarrow> fs \<Rightarrow> IoError + path" where
  "read_dir p fs = res_bind (walk fs [] p) (\<lambda>dir.
     case fs dir of Some Dir \<Rightarrow> Inr dir | Some (File _) \<Rightarrow> Inl NotADirectory | None \<Rightarrow> Inl NotFound)"

fun inbox_loop :: "InboxEnv \<Rightarrow> fs \<Rightarrow> path \<Rightarrow> string list \<Rightarrow> GrpcStatus + InboxEntry list" where
  "inbox_loop I fs dir [] = Inr []"
| "inbox_loop I fs dir (name # names) =
     (let file_name = from_utf8_lossy (str_bytes name) in
      if ends_with ''.incoming'' file_name then inbox_loop I fs dir names
      else case fs (dir @ [name]) of
          None \<Rightarrow> Inl (internal_status (io_display NotFound))
        | Some Dir \<Rightarrow> inbox_loop I fs dir names
        | Some (File content) \<Rightarrow>
            let modified_unix_seconds = (case ib_modified I (dir @ [name]) of Some t \<Rightarrow> sint t | None \<Rightarrow> 0)
            in res_map (\<lambda>rest. \<lparr>ie_file_name = file_name, ie_path = path_display (dir @ [name]), ie_size = of_nat (length content),
                ie_modified_unix_seconds = modified_unix_seconds\<rparr> # rest) (inbox_loop I fs dir names))"

definition list_inbox_entries :: "InboxEnv \<Rightarrow> path \<Rightarrow> fs \<Rightarrow> GrpcStatus + InboxEntry list" where
  "list_inbox_entries I inbox_dir fs =
     (if \<not> is_ok (fs_metadata inbox_dir fs) then Inr []
      else res_bind (map_sum (\<lambda>e. internal_status (io_display e)) id (read_dir inbox_dir fs)) (\<lambda>dir.
           res_map (sort_key ie_file_name) (inbox_loop I fs dir (ib_names I fs dir))))"

fun http_inbox_loop :: "InboxEnv \<Rightarrow> fs \<Rightarrow> path \<Rightarrow> string list \<Rightarrow> ApiError + InboxEntry list" where
  "http_inbox_loop I fs dir [] = Inr []"
| "http_inbox_loop I fs dir (name # names) =
     (let file_name = from_utf8_lossy (str_bytes name) in
      if file_name = ''.incoming'' \<or> ends_with ''.incoming'' file_name then http_inbox_loop I fs dir names
      else case fs (dir @ [name]) of
          None \<Rightarrow> Inl (api_internal (io_display NotFound))
        | Some Dir \<Rightarrow> http_inbox_loop I fs dir names
        | Some (File content) \<Rightarrow>
            let modified_unix_seconds = (case ib_modified I (dir @ [name]) of Some t \<Rightarrow> sint t | None \<Rightarrow> 0)
            in res_map (\<lambda>rest. \<lparr>ie_file_name = file_name, ie_path = path_display (dir @ [name]), ie_size = of_nat (length content),
                ie_modified_unix_seconds = modified_unix_seconds\<rparr> # rest) (http_inbox_loop I fs dir names))"

definition http_inbox_entries :: "InboxEnv \<Rightarrow> path \<Rightarrow> fs \<Rightarrow> ApiError + InboxEntry list" where
  "http_inbox_entries I inbox_dir fs =
     (if \<not> is_ok (fs_metadata inbox_dir fs) then Inr []
      else res_bind (map_sum (\<lambda>e. api_internal (io_display e)) id (read_dir inbox_dir fs)) (\<lambda>dir.
           res_map (sort_key ie_file_name) (http_inbox_loop I fs dir (ib_names I fs dir))))"

section \<open>Requests\<close>

datatype HttpMethod = MethodGet | MethodHead | MethodPost | MethodOther

record SendTransferDto =
  sd_paths :: "string list"
  sd_localsend_url :: "string option"
  sd_native_url :: "string option"
  sd_peer_fingerprint :: "string option"
  sd_wan_peer :: "string option"
  sd_native :: bool

text \<open>A request as the server hands it over: the segments of its path, decoded, and what decoding its body as the JSON
  of a handler gives, where a body that does not fit is answered by the server itself with a status and a text.\<close>

record ApiRequest =
  hq_method :: HttpMethod
  hq_path :: "string list"
  hq_authorization :: HeaderValue
  hq_label :: "nat \<times> string + string option"
  hq_send :: "nat \<times> string + SendTransferDto"

text \<open>The body of an event stream is a receiver, given by the number of events sent before it subscribed, and what it
  makes of the outcomes of that receiver.\<close>

datatype HttpBody = BodyEmpty | BodyText string | BodyBytes string bytes | BodyJson JsonValue
  | BodyEvents nat "RecvOutcome list \<Rightarrow> (string \<times> string) list"

record HttpResponse =
  hs_status :: nat
  hs_body :: HttpBody

definition into_proto :: "SendTransferDto \<Rightarrow> ApiError + SendRequest" where
  "into_proto dto =
     (let target_count = of_bool (sd_localsend_url dto \<noteq> None) + of_bool (sd_native_url dto \<noteq> None)
            + of_bool (sd_peer_fingerprint dto \<noteq> None) + of_bool (sd_wan_peer dto \<noteq> None) :: u8
      in if target_count \<noteq> 1 then Inl (http_api_error 400 ''exactly one transfer target is required'')
         else if sd_native dto \<and> sd_localsend_url dto \<noteq> None then Inl (http_api_error 400 ''native transfer target cannot use localsend_url'')
         else
           let target = (case sd_localsend_url dto of Some url \<Rightarrow> Some (TgLocalsendUrl url)
             | None \<Rightarrow> (case sd_native_url dto of Some url \<Rightarrow> Some (TgNativeUrl url)
             | None \<Rightarrow> (case sd_peer_fingerprint dto of Some peer \<Rightarrow> Some (TgPeerFingerprint peer)
             | None \<Rightarrow> map_option TgWanPeer (sd_wan_peer dto))))
           in Inr \<lparr>sq_paths = sd_paths dto, sq_target = target, sq_native = sd_native dto\<rparr>)"

section \<open>Assets\<close>

text \<open>\<open>embedded\<close> are the files compiled into the program.\<close>

definition webui_normalize_path :: "string \<Rightarrow> string" where
  "webui_normalize_path p = (let p = dropWhile (\<lambda>c. c = CHR ''/'') p in if p = [] then ''index.html'' else p)"

definition webui_content_type :: "string \<Rightarrow> string" where
  "webui_content_type p =
     (let ext = rev (takeWhile (\<lambda>c. c \<noteq> CHR ''.'') (rev p)) in
      if ext = ''css'' then ''text/css; charset=utf-8''
      else if ext = ''html'' then ''text/html; charset=utf-8''
      else if ext = ''js'' then ''text/javascript; charset=utf-8''
      else if ext = ''json'' then ''application/json''
      else if ext = ''svg'' then ''image/svg+xml''
      else if ext = ''wasm'' then ''application/wasm''
      else ''application/octet-stream'')"

definition webui_asset_of :: "(string \<rightharpoonup> bytes) \<Rightarrow> string \<Rightarrow> (string \<times> bytes) option" where
  "webui_asset_of embedded p = (let p = webui_normalize_path p in map_option (\<lambda>data. (webui_content_type p, data)) (embedded p))"

definition webui_response :: "(string \<rightharpoonup> bytes) \<Rightarrow> string \<Rightarrow> HttpResponse" where
  "webui_response embedded p =
     (case webui_asset_of embedded p of
        None \<Rightarrow> \<lparr>hs_status = 404, hs_body = BodyEmpty\<rparr>
      | Some (content_type, data) \<Rightarrow> \<lparr>hs_status = 200, hs_body = BodyBytes content_type data\<rparr>)"

section \<open>The documents of the HTTP interface\<close>

definition hex_encode :: "bytes \<Rightarrow> string" where
  "hex_encode bs = fold (\<lambda>b output. output @ hex_byte b) bs []"

definition status_dto :: "string \<Rightarrow> DaemonState \<Rightarrow> JsonValue" where
  "status_dto version state = JObj [(''alias'', JStr (ds_alias state)), (''fingerprint'', JStr (ds_fingerprint state)),
     (''version'', JStr version), (''inbox_dir'', JStr (path_display (ds_inbox_dir state))),
     (''localsend_port'', JInt (uint (ds_localsend_port state))), (''native_port'', JInt (uint (ds_native_port state)))]"

definition trusted_peer_dto :: "Peer \<Rightarrow> JsonValue" where
  "trusted_peer_dto peer = JObj [(''fingerprint'', JStr (fingerprint_to_string (pe_fingerprint peer))),
     (''pubkey_hex'', JStr (hex_encode (pe_pubkey peer))), (''label'', JStr (pe_label peer)),
     (''trusted_at_unix_seconds'', JInt (pe_trusted_at peer)), (''last_seen_unix_seconds'', jopt JInt (pe_last_seen peer)),
     (''native_certificate_fingerprint'', jopt JStr (pe_native_certificate_fingerprint peer)),
     (''policy'', JStr (case pe_policy peer of AutoAccept \<Rightarrow> ''auto_accept'' | Prompt \<Rightarrow> ''prompt'' | Block \<Rightarrow> ''block''))]"

definition http_localsend_lan_peer :: "LocalSendLanPeer \<Rightarrow> JsonValue" where
  "http_localsend_lan_peer peer = JObj [(''alias'', JStr (ln_alias peer)), (''address'', JStr (ln_source_ip peer)),
     (''port'', JInt (uint (ln_port peer))), (''protocol'', JStr ''localsend_v2''), (''fingerprint'', JStr (ln_fingerprint peer)),
     (''device_model'', jopt JStr (ln_device_model peer)), (''device_type'', jopt JStr (ln_device_type peer)),
     (''download'', JBool (ln_download peer))]"

definition local_send_peer_dto :: "LocalSendPeer \<Rightarrow> JsonValue" where
  "local_send_peer_dto peer = JObj [(''fingerprint'', JStr (lp_fingerprint peer)), (''alias'', JStr (lp_alias peer)),
     (''label'', jopt JStr (lp_label peer)),
     (''status'', JStr (case lp_status peer of PeerPending \<Rightarrow> ''pending'' | PeerTrusted \<Rightarrow> ''trusted'' | PeerBlocked \<Rightarrow> ''blocked'')),
     (''first_seen_unix_seconds'', JInt (lp_first_seen peer)), (''last_seen_unix_seconds'', JInt (lp_last_seen peer)),
     (''attempt_count'', JInt (uint (lp_attempt_count peer))), (''source_ip'', jopt JStr (lp_source_ip peer))]"

section \<open>Handlers\<close>

text \<open>Everything a handler runs against: the surroundings of a send, the inbox, the embedded files, the version and the printing of JSON.\<close>

record ('p, 'i, 'c, 'o, 'j, 's) ApiEnv =
  ap_send :: "('p, 'i, 'c, 'o, 'j, 's) SendEnv"
  ap_inbox :: InboxEnv
  ap_embedded :: "string \<rightharpoonup> bytes"
  ap_version :: string
  ap_json_string :: "JsonValue \<Rightarrow> string"

text \<open>\<open>subscribe\<close>: the new receiver sees what is sent from now on.\<close>

definition subscribe :: "('s DaemonWorld, 'e, nat) sr" where
  "subscribe = sr_gets (\<lambda>w. Inr (length (eb_sent (dw_events w))))"

definition http_auth :: "DaemonState \<Rightarrow> ApiRequest \<Rightarrow> ('s DaemonWorld, ApiError, unit) sr" where
  "http_auth state request = sr_gets (\<lambda>_. http_authorize (hq_authorization request) (ds_api_token state))"

definition http_open :: "LanEnv \<Rightarrow> ('s DaemonWorld, ApiError, unit) sr" where
  "http_open L = sr_gets (\<lambda>_. map_sum (\<lambda>e. api_internal (core_display e)) id (le_open L))"

abbreviation core_internal :: "CoreError \<Rightarrow> ApiError" where
  "core_internal \<equiv> \<lambda>e. api_internal (core_display e)"

definition http_status :: "string \<Rightarrow> DaemonState \<Rightarrow> ApiRequest \<Rightarrow> ('s DaemonWorld, ApiError, HttpBody) sr" where
  "http_status version state request = sr_bind (http_auth state request) (\<lambda>_. sr_return (BodyJson (status_dto version state)))"

definition http_list_trusted :: "LanEnv \<Rightarrow> DaemonState \<Rightarrow> ApiRequest \<Rightarrow> ('s DaemonWorld, ApiError, HttpBody) sr" where
  "http_list_trusted L state request =
     sr_bind (http_auth state request) (\<lambda>_.
     sr_bind (http_open L) (\<lambda>_.
     sr_bind (sr_gets (\<lambda>w. map_sum core_internal id (trust_list (dw_store w)))) (\<lambda>peers.
     sr_return (BodyJson (JObj [(''peers'', JArr (map trusted_peer_dto peers))])))))"

definition http_list_lan :: "LanEnv \<Rightarrow> DaemonState \<Rightarrow> ApiRequest \<Rightarrow> ('s DaemonWorld, ApiError, HttpBody) sr" where
  "http_list_lan L state request =
     sr_bind (http_auth state request) (\<lambda>_.
     sr_bind (sr_map_err api_internal (scan_and_cache L)) (\<lambda>peers.
     sr_return (BodyJson (JObj [(''peers'', JArr (map http_localsend_lan_peer peers))]))))"

definition http_list_pending :: "LanEnv \<Rightarrow> DaemonState \<Rightarrow> ApiRequest \<Rightarrow> ('s DaemonWorld, ApiError, HttpBody) sr" where
  "http_list_pending L state request =
     sr_bind (http_auth state request) (\<lambda>_.
     sr_bind (http_open L) (\<lambda>_.
     sr_bind (sr_gets (\<lambda>w. map_sum core_internal id (list_pending_localsend_peers (dw_store w)))) (\<lambda>peers.
     sr_return (BodyJson (JObj [(''peers'', JArr (map local_send_peer_dto peers))])))))"

definition http_approve :: "LanEnv \<Rightarrow> DaemonState \<Rightarrow> ApiRequest \<Rightarrow> string \<Rightarrow> string option \<Rightarrow> ('s DaemonWorld, ApiError, HttpBody) sr" where
  "http_approve L state request fingerprint label =
     sr_bind (http_auth state request) (\<lambda>_.
     sr_bind (http_open L) (\<lambda>_.
     sr_bind next_tick (\<lambda>tick.
     sr_bind (sr_map_err core_internal (store_call (approve_localsend_peer (le_lc L) (le_clock L tick) fingerprint label))) (\<lambda>peer.
     sr_return (BodyJson (local_send_peer_dto peer))))))"

definition http_deny :: "LanEnv \<Rightarrow> DaemonState \<Rightarrow> ApiRequest \<Rightarrow> string \<Rightarrow> ('s DaemonWorld, ApiError, HttpBody) sr" where
  "http_deny L state request fingerprint =
     sr_bind (http_auth state request) (\<lambda>_.
     sr_bind (http_open L) (\<lambda>_.
     sr_bind next_tick (\<lambda>tick.
     sr_bind (sr_map_err core_internal (store_call (deny_localsend_peer (le_lc L) (le_clock L tick) fingerprint))) (\<lambda>peer.
     sr_return (BodyJson (local_send_peer_dto peer))))))"

definition http_list_inbox :: "InboxEnv \<Rightarrow> DaemonState \<Rightarrow> ApiRequest \<Rightarrow> ('s DaemonWorld, ApiError, HttpBody) sr" where
  "http_list_inbox I state request =
     sr_bind (http_auth state request) (\<lambda>_.
     sr_bind (sr_gets (\<lambda>w. http_inbox_entries I (ds_inbox_dir state) (w_fs (dw_world w)))) (\<lambda>entries.
     sr_return (BodyJson (JObj [(''entries'', JArr (inbox_entries_json entries))]))))"

definition http_list_active :: "DaemonState \<Rightarrow> ApiRequest \<Rightarrow> ('s DaemonWorld, ApiError, HttpBody) sr" where
  "http_list_active state request = sr_bind (http_auth state request) (\<lambda>_. sr_return (BodyJson (JObj [(''transfers'', JArr [])])))"

definition http_send_transfer :: "('p, 'i, 'c, 'o, 'j, 's) SendEnv \<Rightarrow> DaemonState \<Rightarrow> ApiRequest \<Rightarrow> SendTransferDto
    \<Rightarrow> ('s DaemonWorld, ApiError, HttpBody) sr" where
  "http_send_transfer V state request dto =
     sr_bind (http_auth state request) (\<lambda>_.
     sr_bind (sr_gets (\<lambda>_. into_proto dto)) (\<lambda>proto.
     sr_bind (sr_map_err from_status (daemon_send_files V state proto)) (\<lambda>transfer_id.
     sr_return (BodyJson (JObj [(''transfer_id'', JStr transfer_id)])))))"

definition http_resume :: "DaemonState \<Rightarrow> ApiRequest \<Rightarrow> string \<Rightarrow> ('s DaemonWorld, ApiError, HttpBody) sr" where
  "http_resume state request transfer_id =
     sr_bind (http_auth state request) (\<lambda>_.
     sr_fail (http_api_error 501 (''resume is not wired to daemon API yet for transfer '' @ transfer_id)))"

definition http_cancel :: "DaemonState \<Rightarrow> ApiRequest \<Rightarrow> string \<Rightarrow> ('s DaemonWorld, ApiError, HttpBody) sr" where
  "http_cancel state request transfer_id =
     sr_bind (http_auth state request) (\<lambda>_.
     sr_return (BodyJson (JObj [(''transfer_id'', JStr transfer_id), (''state'', JStr ''unspecified'')])))"

definition http_events :: "(JsonValue \<Rightarrow> string) \<Rightarrow> DaemonState \<Rightarrow> ApiRequest \<Rightarrow> ('s DaemonWorld, ApiError, HttpBody) sr" where
  "http_events to_string state request =
     sr_bind (http_auth state request) (\<lambda>_.
     sr_bind subscribe (\<lambda>rx.
     sr_return (BodyEvents rx (sse_stream to_string))))"

definition http_metrics :: "DaemonState \<Rightarrow> HttpResponse" where
  "http_metrics state = (case ds_metrics state of
     None \<Rightarrow> \<lparr>hs_status = 404, hs_body = BodyEmpty\<rparr>
   | Some text \<Rightarrow> \<lparr>hs_status = 200, hs_body = BodyBytes ''text/plain; version=0.0.4; charset=utf-8'' (str_bytes text)\<rparr>)"

section \<open>Routes\<close>

text \<open>\<open>into_response\<close> of a handler's result; then what the router does: a GET route also answers HEAD, a known path with
  another method is refused, a parameter matches a non-empty segment, and everything unknown goes to the fallback.\<close>

definition api_reply :: "('s DaemonWorld, ApiError, HttpBody) sr \<Rightarrow> 's DaemonWorld \<Rightarrow> HttpResponse \<times> 's DaemonWorld" where
  "api_reply handler = (\<lambda>w. case handler w of
     (Inr body, w') \<Rightarrow> (\<lparr>hs_status = 200, hs_body = body\<rparr>, w')
   | (Inl e, w') \<Rightarrow> (\<lparr>hs_status = ae_status e, hs_body = BodyJson (JObj [(''error'', JStr (ae_message e))])\<rparr>, w'))"

definition on_get :: "ApiRequest \<Rightarrow> ('s DaemonWorld \<Rightarrow> HttpResponse \<times> 's DaemonWorld) \<Rightarrow> 's DaemonWorld \<Rightarrow> HttpResponse \<times> 's DaemonWorld" where
  "on_get request handler = (\<lambda>w. if hq_method request \<in> {MethodGet, MethodHead} then handler w else (\<lparr>hs_status = 405, hs_body = BodyEmpty\<rparr>, w))"

definition on_post :: "ApiRequest \<Rightarrow> ('s DaemonWorld \<Rightarrow> HttpResponse \<times> 's DaemonWorld) \<Rightarrow> 's DaemonWorld \<Rightarrow> HttpResponse \<times> 's DaemonWorld" where
  "on_post request handler = (\<lambda>w. if hq_method request = MethodPost then handler w else (\<lparr>hs_status = 405, hs_body = BodyEmpty\<rparr>, w))"

text \<open>Decoding a JSON body comes before the handler.\<close>

definition with_json :: "(nat \<times> string + 'a) \<Rightarrow> ('a \<Rightarrow> 's DaemonWorld \<Rightarrow> HttpResponse \<times> 's DaemonWorld) \<Rightarrow> 's DaemonWorld
    \<Rightarrow> HttpResponse \<times> 's DaemonWorld" where
  "with_json body handler = (\<lambda>w. case body of
     Inl (status, text) \<Rightarrow> (\<lparr>hs_status = status, hs_body = BodyText text\<rparr>, w)
   | Inr x \<Rightarrow> handler x w)"

definition http_serve :: "('p, 'i, 'c, 'o, 'j, 's) ApiEnv \<Rightarrow> DaemonState \<Rightarrow> ApiRequest \<Rightarrow> 's DaemonWorld \<Rightarrow> HttpResponse \<times> 's DaemonWorld" where
  "http_serve A state request =
     (let L = dn_lan (ap_send A);
          static = (\<lambda>response w. (response, w))
      in case hq_path request of
        [] \<Rightarrow> on_get request (static (webui_response (ap_embedded A) ''index.html''))
      | [a] \<Rightarrow>
          if a = ''healthz'' \<or> a = ''readyz'' then on_get request (static \<lparr>hs_status = 200, hs_body = BodyEmpty\<rparr>)
          else if a = ''metrics'' then on_get request (static (http_metrics state))
          else static (webui_response (ap_embedded A) ''index.html'')
      | a # b # rest \<Rightarrow>
          if a = ''assets'' \<and> b # rest \<noteq> [[]] then on_get request (static (webui_response (ap_embedded A) (''assets/'' @ join_with ''/'' (b # rest))))
          else if a \<noteq> ''api'' then static (webui_response (ap_embedded A) ''index.html'')
          else if b # rest = [''v1'', ''status''] then on_get request (api_reply (http_status (ap_version A) state request))
          else if b # rest = [''v1'', ''peers'', ''trusted''] then on_get request (api_reply (http_list_trusted L state request))
          else if b # rest = [''v1'', ''peers'', ''lan''] then on_get request (api_reply (http_list_lan L state request))
          else if b # rest = [''v1'', ''localsend'', ''pending-peers''] then on_get request (api_reply (http_list_pending L state request))
          else if b # rest = [''v1'', ''inbox''] then on_get request (api_reply (http_list_inbox (ap_inbox A) state request))
          else if b # rest = [''v1'', ''transfers'', ''active''] then on_get request (api_reply (http_list_active state request))
          else if b # rest = [''v1'', ''transfers'', ''send''] then on_post request (with_json (hq_send request)
            (\<lambda>dto. api_reply (http_send_transfer (ap_send A) state request dto)))
          else if b # rest = [''v1'', ''events''] then on_get request (api_reply (http_events (ap_json_string A) state request))
          else (case b # rest of
              [v, c, d, e, f] \<Rightarrow>
                if e \<noteq> [] \<and> [v, c, d, f] = [''v1'', ''localsend'', ''pending-peers'', ''approve''] then on_post request (with_json (hq_label request)
                  (\<lambda>label. api_reply (http_approve L state request e label)))
                else if e \<noteq> [] \<and> [v, c, d, f] = [''v1'', ''localsend'', ''pending-peers'', ''deny''] then on_post request (api_reply (http_deny L state request e))
                else static \<lparr>hs_status = 404, hs_body = BodyEmpty\<rparr>
            | [v, c, d, e] \<Rightarrow>
                if d \<noteq> [] \<and> [v, c, e] = [''v1'', ''transfers'', ''resume''] then on_post request (api_reply (http_resume state request d))
                else if d \<noteq> [] \<and> [v, c, e] = [''v1'', ''transfers'', ''cancel''] then on_post request (api_reply (http_cancel state request d))
                else static \<lparr>hs_status = 404, hs_body = BodyEmpty\<rparr>
            | _ \<Rightarrow> static \<lparr>hs_status = 404, hs_body = BodyEmpty\<rparr>))"

section \<open>The gRPC services\<close>

datatype RpcCall = RpcGetStatus | RpcWatch | RpcListTrusted | RpcListLan | RpcListNativeLan u32
  | RpcTrustNativeLan string "string option" int u32 | RpcListPending | RpcApprove string "string option" | RpcDeny string
  | RpcListInbox | RpcListActive | RpcSend SendRequest | RpcResume string | RpcCancel string

record DaemonStatus =
  sa_alias :: string
  sa_fingerprint :: string
  sa_version :: string
  sa_inbox_dir :: string
  sa_localsend_port :: u32
  sa_native_port :: u32

datatype RpcReply = ReplyStatus DaemonStatus | ReplyEvents nat "RecvOutcome list \<Rightarrow> ProtoDaemonEvent list" | ReplyTrusted "TrustedPeer list" | ReplyLan "ProtoLanPeer list"
  | ReplyTrustedPeer TrustedPeer | ReplyPending "ProtoLocalSendPeer list" | ReplyLocalSendPeer ProtoLocalSendPeer
  | ReplyInbox "InboxEntry list" | ReplyActive "ActiveTransfer list" | ReplySend string | ReplyCancel string int

definition get_status :: "string \<Rightarrow> DaemonState \<Rightarrow> DaemonStatus" where
  "get_status version state = \<lparr>sa_alias = ds_alias state, sa_fingerprint = ds_fingerprint state, sa_version = version,
     sa_inbox_dir = path_display (ds_inbox_dir state), sa_localsend_port = ucast (ds_localsend_port state),
     sa_native_port = ucast (ds_native_port state)\<rparr>"

definition sr_map :: "('a \<Rightarrow> 'b) \<Rightarrow> ('s, 'e, 'a) sr \<Rightarrow> ('s, 'e, 'b) sr" where
  "sr_map f m = sr_bind m (\<lambda>x. sr_return (f x))"

fun rpc_handle :: "('p, 'i, 'c, 'o, 'j, 's) ApiEnv \<Rightarrow> DaemonState \<Rightarrow> RpcCall \<Rightarrow> ('s DaemonWorld, GrpcStatus, RpcReply) sr" where
  "rpc_handle A state RpcGetStatus = sr_return (ReplyStatus (get_status (ap_version A) state))"
| "rpc_handle A state RpcWatch = sr_bind subscribe (\<lambda>rx. sr_return (ReplyEvents rx watch_stream))"
| "rpc_handle A state RpcListTrusted = sr_map ReplyTrusted (api_list_trusted (dn_lan (ap_send A)))"
| "rpc_handle A state RpcListLan = sr_map ReplyLan (api_list_lan (dn_lan (ap_send A)))"
| "rpc_handle A state (RpcListNativeLan timeout_ms) =
     sr_map ReplyLan (api_list_native_lan (dn_lan (ap_send A)) (ds_fingerprint state) timeout_ms)"
| "rpc_handle A state (RpcTrustNativeLan peer label policy timeout_ms) =
     sr_map ReplyTrustedPeer (api_trust_native_lan (dn_lan (ap_send A)) (ds_trust_db_path state) (ds_fingerprint state) peer label policy timeout_ms)"
| "rpc_handle A state RpcListPending = sr_map ReplyPending (api_list_pending (dn_lan (ap_send A)))"
| "rpc_handle A state (RpcApprove fingerprint label) = sr_map ReplyLocalSendPeer (api_approve (dn_lan (ap_send A)) fingerprint label)"
| "rpc_handle A state (RpcDeny fingerprint) = sr_map ReplyLocalSendPeer (api_deny (dn_lan (ap_send A)) fingerprint)"
| "rpc_handle A state RpcListInbox =
     sr_map ReplyInbox (sr_gets (\<lambda>w. list_inbox_entries (ap_inbox A) (ds_inbox_dir state) (w_fs (dw_world w))))"
| "rpc_handle A state RpcListActive = sr_return (ReplyActive [])"
| "rpc_handle A state (RpcSend request) = sr_map ReplySend (daemon_send_files (ap_send A) state request)"
| "rpc_handle A state (RpcResume transfer_id) =
     sr_fail (grpc_status CodeUnimplemented (''resume is not wired to daemon API yet for transfer '' @ transfer_id))"
| "rpc_handle A state (RpcCancel transfer_id) = sr_return (ReplyCancel transfer_id 0)"

text \<open>Every service is added behind the interceptor.\<close>

definition rpc_serve :: "('p, 'i, 'c, 'o, 'j, 's) ApiEnv \<Rightarrow> DaemonState \<Rightarrow> HeaderValue \<Rightarrow> RpcCall \<Rightarrow> ('s DaemonWorld, GrpcStatus, RpcReply) sr" where
  "rpc_serve A state header call =
     sr_bind (sr_gets (\<lambda>_. authorize_metadata header (ds_api_token state))) (\<lambda>_. rpc_handle A state call)"

section \<open>The token\<close>

lemma strip_prefix_Some: "strip_prefix p s = Some t \<longleftrightarrow> s = p @ t"
  by (auto simp: strip_prefix_def) (metis append_take_drop_id)

lemma str_bytes_eq: "str_bytes s = str_bytes t \<longleftrightarrow> s = t"
  by (metis bytes_str_str_bytes)

lemma prefixed_token:
  "(case strip_prefix p v of None \<Rightarrow> Inl a | Some t \<Rightarrow> if str_bytes t \<noteq> str_bytes token then Inl b else Inr ()) = Inr () \<longleftrightarrow> v = p @ token"
  by (auto simp: strip_prefix_Some str_bytes_eq split: option.splits)

lemma bearer_exact:
  "authorize_metadata header token = Inr () \<longleftrightarrow> header = HeaderText (''Bearer '' @ token)"
  "http_authorize header token = Inr () \<longleftrightarrow> header = HeaderText (''Bearer '' @ token)"
  by (cases header; simp only: authorize_metadata_def http_authorize_def HeaderValue.case prefixed_token HeaderValue.simps sum.distinct)+

lemma bearer_refused:
  assumes "header \<noteq> HeaderText (''Bearer '' @ token)"
  obtains message where "authorize_metadata header token = Inl (grpc_status CodeUnauthenticated message)"
    "http_authorize header token = Inl (http_api_error 401 message)"
proof -
  have "authorize_metadata header token \<noteq> Inr ()" using assms bearer_exact(1) by blast
  then have "\<exists>message. authorize_metadata header token = Inl (grpc_status CodeUnauthenticated message)
      \<and> http_authorize header token = Inl (http_api_error 401 message)"
    by (auto simp: authorize_metadata_def http_authorize_def split: HeaderValue.splits option.splits)
  then show ?thesis using that by blast
qed

lemmas http_handlers = http_status_def http_list_trusted_def http_list_lan_def http_list_pending_def http_approve_def http_deny_def
  http_list_inbox_def http_list_active_def http_send_transfer_def http_resume_def http_cancel_def http_events_def

lemma api_reply_refused:
  assumes "http_authorize (hq_authorization request) (ds_api_token state) = Inl e"
  shows "api_reply (sr_bind (http_auth state request) f) = Pair \<lparr>hs_status = ae_status e, hs_body = BodyJson (JObj [(''error'', JStr (ae_message e))])\<rparr>"
  by (simp add: api_reply_def http_auth_def sr_bind_def assms fun_eq_iff)

text \<open>Answers that leave the world alone, pulled out of the choices of the router.\<close>

lemma fixed_answers:
  "on_get request (Pair r) = Pair (if hq_method request \<in> {MethodGet, MethodHead} then r else \<lparr>hs_status = 405, hs_body = BodyEmpty\<rparr>)"
  "on_post request (Pair r) = Pair (if hq_method request = MethodPost then r else \<lparr>hs_status = 405, hs_body = BodyEmpty\<rparr>)"
  "with_json body (\<lambda>x. Pair (h x)) = Pair (case body of Inl (status, text) \<Rightarrow> \<lparr>hs_status = status, hs_body = BodyText text\<rparr> | Inr x \<Rightarrow> h x)"
  "(if c then Pair x else Pair y) = Pair (if c then x else y)"
  "(case xs of [] \<Rightarrow> Pair x | z # zs \<Rightarrow> Pair (g z zs)) = Pair (case xs of [] \<Rightarrow> x | z # zs \<Rightarrow> g z zs)"
  by (auto simp: on_get_def on_post_def with_json_def fun_eq_iff split: sum.splits prod.splits list.splits)

lemma http_serve_refused:
  assumes "http_authorize (hq_authorization request) token = Inl e" "ds_api_token state = token" "ds_api_token state' = token"
    "ds_metrics state = ds_metrics state'"
  shows "http_serve A state request w = (fst (http_serve A state' request w'), w)"
proof -
  have refused: "api_reply (sr_bind (http_auth state request) f) = Pair \<lparr>hs_status = ae_status e, hs_body = BodyJson (JObj [(''error'', JStr (ae_message e))])\<rparr>"
      "api_reply (sr_bind (http_auth state' request) f) = Pair \<lparr>hs_status = ae_status e, hs_body = BodyJson (JObj [(''error'', JStr (ae_message e))])\<rparr>" for f
    by (rule api_reply_refused, use assms in simp)+
  show ?thesis
    unfolding http_serve_def http_handlers Let_def http_metrics_def refused fixed_answers assms(4) by simp
qed

text \<open>The requests of the API: everything but the pages and the probes. A POST with a body that does not decode is
  answered before its handler is reached.\<close>

definition api_route :: "ApiRequest \<Rightarrow> bool" where
  "api_route request \<longleftrightarrow>
     hq_method request \<in> {MethodGet, MethodHead} \<and> hq_path request \<in> {[''api'', ''v1'', ''status''], [''api'', ''v1'', ''peers'', ''trusted''],
       [''api'', ''v1'', ''peers'', ''lan''], [''api'', ''v1'', ''localsend'', ''pending-peers''], [''api'', ''v1'', ''inbox''],
       [''api'', ''v1'', ''transfers'', ''active''], [''api'', ''v1'', ''events'']}
   \<or> hq_method request = MethodPost
     \<and> (hq_path request = [''api'', ''v1'', ''transfers'', ''send''] \<and> is_ok (hq_send request)
       \<or> (\<exists>e. e \<noteq> [] \<and> (hq_path request = [''api'', ''v1'', ''localsend'', ''pending-peers'', e, ''approve''] \<and> is_ok (hq_label request)
           \<or> hq_path request = [''api'', ''v1'', ''localsend'', ''pending-peers'', e, ''deny'']
           \<or> hq_path request = [''api'', ''v1'', ''transfers'', e, ''resume'']
           \<or> hq_path request = [''api'', ''v1'', ''transfers'', e, ''cancel''])))"

lemma api_route_refused:
  assumes "http_authorize (hq_authorization request) (ds_api_token state) = Inl e" "api_route request"
  shows "http_serve A state request w = (\<lparr>hs_status = ae_status e, hs_body = BodyJson (JObj [(''error'', JStr (ae_message e))])\<rparr>, w)"
proof -
  note refused = api_reply_refused [OF assms(1)]
  show ?thesis
    using assms(2) unfolding api_route_def
  proof (elim disjE conjE exE insertE emptyE)
  qed (simp_all add: http_serve_def on_get_def on_post_def with_json_def http_handlers refused is_ok_iff, auto)
qed

text \<open>
  C5. Without the token nothing happens and nothing is revealed. Both interfaces accept exactly one authorization
  header, the bearer form of the token. On any other header a gRPC call is answered as unauthenticated, whatever it
  asks for, and leaves the daemon as it was. An HTTP request to any route of the API, the event stream included, is
  answered with status 401 and nothing but the reason, and leaves the daemon as it was. Every HTTP request leaves the
  daemon as it was, and its answer depends on neither the daemon's state nor its databases, events and files, except for
  the metrics page: any two daemons with the same token and the same metrics give the same answer.
\<close>

theorem api_needs_token:
  "(authorize_metadata header token = Inr () \<longleftrightarrow> header = HeaderText (''Bearer '' @ token))
   \<and> (http_authorize header token = Inr () \<longleftrightarrow> header = HeaderText (''Bearer '' @ token))
   \<and> (header \<noteq> HeaderText (''Bearer '' @ token) \<and> ds_api_token state = token \<longrightarrow>
        (\<exists>message.
          (\<forall>call w. rpc_serve A state header call w = (Inl (grpc_status CodeUnauthenticated message), w))
        \<and> (\<forall>request w. hq_authorization request = header \<and> api_route request \<longrightarrow>
            http_serve A state request w = (\<lparr>hs_status = 401, hs_body = BodyJson (JObj [(''error'', JStr message)])\<rparr>, w)))
      \<and> (\<forall>request state' w w'. hq_authorization request = header \<and> ds_api_token state' = token \<and> ds_metrics state' = ds_metrics state \<longrightarrow>
          http_serve A state request w = (fst (http_serve A state' request w'), w)))"
proof (intro conjI impI bearer_exact)
  assume a: "header \<noteq> HeaderText (''Bearer '' @ token) \<and> ds_api_token state = token"
  then obtain message where m: "authorize_metadata header token = Inl (grpc_status CodeUnauthenticated message)"
    "http_authorize header token = Inl (http_api_error 401 message)" using bearer_refused [of header token] by blast
  have "http_serve A state request w = (\<lparr>hs_status = 401, hs_body = BodyJson (JObj [(''error'', JStr message)])\<rparr>, w)"
    if "hq_authorization request = header" "api_route request" for request w
    using api_route_refused [of request state "http_api_error 401 message"] that m(2) a by (simp add: http_api_error_def)
  then show "\<exists>message. (\<forall>call w. rpc_serve A state header call w = (Inl (grpc_status CodeUnauthenticated message), w))
      \<and> (\<forall>request w. hq_authorization request = header \<and> api_route request \<longrightarrow>
          http_serve A state request w = (\<lparr>hs_status = 401, hs_body = BodyJson (JObj [(''error'', JStr message)])\<rparr>, w))"
    using m(1) a by (intro exI [of _ message]) (simp add: rpc_serve_def)
  show "\<forall>request state' w w'. hq_authorization request = header \<and> ds_api_token state' = token \<and> ds_metrics state' = ds_metrics state \<longrightarrow>
      http_serve A state request w = (fst (http_serve A state' request w'), w)"
    using http_serve_refused m(2) a by metis
qed

section \<open>The two interfaces agree\<close>

text \<open>The call that corresponds to a request.\<close>

definition http_as_rpc :: "ApiRequest \<Rightarrow> RpcCall option" where
  "http_as_rpc request =
     (if hq_method request = MethodGet then
        (if hq_path request = [''api'', ''v1'', ''status''] then Some RpcGetStatus
         else if hq_path request = [''api'', ''v1'', ''peers'', ''trusted''] then Some RpcListTrusted
         else if hq_path request = [''api'', ''v1'', ''peers'', ''lan''] then Some RpcListLan
         else if hq_path request = [''api'', ''v1'', ''localsend'', ''pending-peers''] then Some RpcListPending
         else if hq_path request = [''api'', ''v1'', ''inbox''] then Some RpcListInbox
         else if hq_path request = [''api'', ''v1'', ''transfers'', ''active''] then Some RpcListActive
         else if hq_path request = [''api'', ''v1'', ''events''] then Some RpcWatch
         else None)
      else if hq_method request = MethodPost then
        (case hq_path request of
           [a, b, c, d, e, f] \<Rightarrow>
             if e \<noteq> [] \<and> [a, b, c, d, f] = [''api'', ''v1'', ''localsend'', ''pending-peers'', ''approve'']
             then (case hq_label request of Inr label \<Rightarrow> Some (RpcApprove e label) | Inl _ \<Rightarrow> None)
             else if e \<noteq> [] \<and> [a, b, c, d, f] = [''api'', ''v1'', ''localsend'', ''pending-peers'', ''deny''] then Some (RpcDeny e)
             else None
         | [a, b, c, d, e] \<Rightarrow>
             if d \<noteq> [] \<and> [a, b, c, e] = [''api'', ''v1'', ''transfers'', ''resume''] then Some (RpcResume d)
             else if d \<noteq> [] \<and> [a, b, c, e] = [''api'', ''v1'', ''transfers'', ''cancel''] then Some (RpcCancel d)
             else None
         | [a, b, c, d] \<Rightarrow>
             if [a, b, c, d] = [''api'', ''v1'', ''transfers'', ''send'']
             then (case hq_send request of Inl _ \<Rightarrow> None
                   | Inr dto \<Rightarrow> (case into_proto dto of Inr q \<Rightarrow> Some (RpcSend q) | Inl _ \<Rightarrow> None))
             else None
         | _ \<Rightarrow> None)
      else None)"

text \<open>A handler and a call that leave the same world and succeed together; a failing handler never answers 200.\<close>

definition replies_alike :: "('s DaemonWorld, ApiError, 'a) sr \<Rightarrow> ('s DaemonWorld, GrpcStatus, 'b) sr \<Rightarrow> bool" where
  "replies_alike h c \<longleftrightarrow> (\<forall>w. snd (h w) = snd (c w) \<and> (is_ok (fst (h w)) \<longleftrightarrow> is_ok (fst (c w)))
     \<and> (\<forall>e. fst (h w) = Inl e \<longrightarrow> ae_status e \<noteq> 200))"

lemma map_sum_id_Inr: "map_sum f id r = Inr x \<longleftrightarrow> r = Inr x" "map_sum f g r = Inl e \<longleftrightarrow> (\<exists>d. r = Inl d \<and> e = f d)"
  by (cases r; auto)+

lemma res_map_Inl: "res_map f r = Inl e \<longleftrightarrow> r = Inl e"
  by (cases r) (simp_all add: res_map_def)

lemma incoming_twice: "name = ''.incoming'' \<or> ends_with ''.incoming'' name \<longleftrightarrow> ends_with ''.incoming'' name"
  by (auto simp: ends_with_def)

lemma inbox_loops_agree:
  "(http_inbox_loop I fs dir names = Inr es \<longleftrightarrow> inbox_loop I fs dir names = Inr es)
   \<and> (\<forall>e. http_inbox_loop I fs dir names = Inl e \<longrightarrow> ae_status e = 500)"
proof (induction names arbitrary: es)
  case (Cons name names)
  then show ?case
    by (simp add: incoming_twice Let_def api_internal_def http_api_error_def res_iffs res_map_Inl split: option.splits node.splits)
qed simp

lemma inbox_entries_agree:
  "http_inbox_entries I p fs = Inr es \<longleftrightarrow> list_inbox_entries I p fs = Inr es"
  "http_inbox_entries I p fs = Inl e \<Longrightarrow> ae_status e = 500"
  using inbox_loops_agree
  by (auto simp: http_inbox_entries_def list_inbox_entries_def api_internal_def http_api_error_def res_iffs res_map_Inl map_sum_id_Inr split: if_splits)

text \<open>Steps that also give the same value.\<close>

definition steps_alike :: "('s DaemonWorld, ApiError, 'a) sr \<Rightarrow> ('s DaemonWorld, GrpcStatus, 'a) sr \<Rightarrow> bool" where
  "steps_alike m n \<longleftrightarrow> (\<forall>w. snd (m w) = snd (n w) \<and> (\<forall>x. fst (m w) = Inr x \<longleftrightarrow> fst (n w) = Inr x)
     \<and> (\<forall>e. fst (m w) = Inl e \<longrightarrow> ae_status e \<noteq> 200))"

lemma steps_alike_map_err:
  "(\<And>e. ae_status (f e) \<noteq> 200) \<Longrightarrow> steps_alike (sr_map_err f m) (sr_map_err g m)"
  by (auto simp: steps_alike_def sr_map_err_def case_prod_unfold map_sum_id_Inr)

lemma steps_alike_gets:
  "(\<And>e. ae_status (f e) \<noteq> 200) \<Longrightarrow> steps_alike (sr_gets (\<lambda>w. map_sum f id (h w))) (sr_gets (\<lambda>w. map_sum g id (h w)))"
  by (auto simp: steps_alike_def map_sum_id_Inr)

lemma steps_alike_subscribe: "steps_alike subscribe subscribe"
  by (simp add: steps_alike_def subscribe_def)

lemma steps_alike_tick: "steps_alike next_tick next_tick"
  by (simp add: steps_alike_def next_tick_def)

lemma replies_alike_bind:
  assumes "steps_alike m n" and "\<And>x. replies_alike (f x) (g x)"
  shows "replies_alike (sr_bind m f) (sr_bind n g)"
  unfolding replies_alike_def
proof
  fix w
  obtain a v b u where mn: "m w = (a, v)" "n w = (b, u)" by force
  then have same: "v = u" "\<And>x. a = Inr x \<longleftrightarrow> b = Inr x" "\<And>e. a = Inl e \<Longrightarrow> ae_status e \<noteq> 200"
    using assms(1) by (auto simp: steps_alike_def dest!: spec [of _ w])
  show "snd (sr_bind m f w) = snd (sr_bind n g w) \<and> is_ok (fst (sr_bind m f w)) = is_ok (fst (sr_bind n g w))
      \<and> (\<forall>e. fst (sr_bind m f w) = Inl e \<longrightarrow> ae_status e \<noteq> 200)"
  proof (cases a)
    case (Inl e)
    then obtain e' where "b = Inl e'" using same(2) by (cases b) auto
    then show ?thesis using mn same Inl by (simp add: is_ok_def)
  next
    case (Inr x)
    then show ?thesis using mn same assms(2) [of x] by (simp add: replies_alike_def)
  qed
qed

lemma replies_alike_return: "replies_alike (sr_return x) (sr_return y)"
  by (simp add: replies_alike_def is_ok_def)

lemma replies_alike_fail: "ae_status e \<noteq> 200 \<Longrightarrow> replies_alike (sr_fail e) (sr_fail d)"
  by (simp add: replies_alike_def is_ok_def)

lemma replies_alike_map: "replies_alike h c \<Longrightarrow> replies_alike h (sr_map k c)"
  by (auto simp: replies_alike_def sr_map_def sr_bind_def is_ok_def split: prod.splits sum.splits)

lemma replies_alike_map_err:
  "(\<And>e. ae_status (f e) \<noteq> 200) \<Longrightarrow> replies_alike (sr_bind (sr_map_err f m) (\<lambda>x. sr_return (k x))) m"
  by (auto simp: replies_alike_def sr_map_err_def sr_bind_def is_ok_def split: prod.splits sum.splits)

lemma replies_alike_gets:
  assumes "\<And>e. ae_status (f e) \<noteq> 200"
  shows "replies_alike (sr_bind (sr_gets (\<lambda>w. map_sum f id (h w))) (\<lambda>x. sr_return (k x))) (sr_gets (\<lambda>w. map_sum g j (h w)))"
    (is "replies_alike ?m ?n")
  unfolding replies_alike_def
proof
  fix w
  show "snd (?m w) = snd (?n w) \<and> is_ok (fst (?m w)) = is_ok (fst (?n w)) \<and> (\<forall>e. fst (?m w) = Inl e \<longrightarrow> ae_status e \<noteq> 200)"
    using assms by (cases "h w") (auto simp: sr_bind_def is_ok_def)
qed

lemma inbox_ok_agree: "is_ok (http_inbox_entries I p fs) \<longleftrightarrow> is_ok (list_inbox_entries I p fs)"
  by (simp add: is_ok_iff inbox_entries_agree(1))

lemma replies_alike_inbox:
  "replies_alike (sr_bind (sr_gets (\<lambda>w. http_inbox_entries I p (f w))) (\<lambda>x. sr_return (k x))) (sr_gets (\<lambda>w. list_inbox_entries I p (f w)))"
  (is "replies_alike ?m ?n")
  unfolding replies_alike_def
proof
  fix w
  show "snd (?m w) = snd (?n w) \<and> is_ok (fst (?m w)) = is_ok (fst (?n w)) \<and> (\<forall>e. fst (?m w) = Inl e \<longrightarrow> ae_status e \<noteq> 200)"
    using inbox_ok_agree [of I p "f w"] inbox_entries_agree(2) [of I p "f w"]
    by (cases "http_inbox_entries I p (f w)") (simp_all add: sr_bind_def is_ok_def)
qed

lemma error_codes: "ae_status (api_internal e) \<noteq> 200" "ae_status (from_status s) \<noteq> 200" "ae_status (http_api_error 501 m) \<noteq> 200"
  by (simp_all add: api_internal_def http_api_error_def from_status_def split: GrpcCode.splits)

lemmas alike_rules = replies_alike_map replies_alike_return replies_alike_fail replies_alike_inbox replies_alike_gets replies_alike_map_err replies_alike_bind
  steps_alike_gets steps_alike_map_err steps_alike_tick steps_alike_subscribe error_codes

lemma replies_alike_auth:
  assumes "replies_alike h (rpc_handle A state call)"
  shows "replies_alike (sr_bind (http_auth state request) (\<lambda>_. h)) (rpc_serve A state (hq_authorization request) call)"
proof (cases "hq_authorization request = HeaderText (''Bearer '' @ ds_api_token state)")
  case True
  then have "http_authorize (hq_authorization request) (ds_api_token state) = Inr ()"
    "authorize_metadata (hq_authorization request) (ds_api_token state) = Inr ()" using bearer_exact by blast+
  then show ?thesis using assms True by (simp add: replies_alike_def http_auth_def rpc_serve_def sr_bind_def)
next
  case False
  then obtain message where "authorize_metadata (hq_authorization request) (ds_api_token state) = Inl (grpc_status CodeUnauthenticated message)"
    "http_authorize (hq_authorization request) (ds_api_token state) = Inl (http_api_error 401 message)" using bearer_refused by blast
  then show ?thesis by (simp add: replies_alike_def http_auth_def rpc_serve_def sr_bind_def http_api_error_def is_ok_def)
qed

lemma handlers_alike:
  "replies_alike (http_status (ap_version A) state request) (rpc_serve A state (hq_authorization request) RpcGetStatus)"
  "replies_alike (http_events (ap_json_string A) state request) (rpc_serve A state (hq_authorization request) RpcWatch)"
  "replies_alike (http_list_active state request) (rpc_serve A state (hq_authorization request) RpcListActive)"
  "replies_alike (http_resume state request transfer_id) (rpc_serve A state (hq_authorization request) (RpcResume transfer_id))"
  "replies_alike (http_cancel state request transfer_id) (rpc_serve A state (hq_authorization request) (RpcCancel transfer_id))"
  "replies_alike (http_list_trusted (dn_lan (ap_send A)) state request) (rpc_serve A state (hq_authorization request) RpcListTrusted)"
  "replies_alike (http_list_pending (dn_lan (ap_send A)) state request) (rpc_serve A state (hq_authorization request) RpcListPending)"
  "replies_alike (http_approve (dn_lan (ap_send A)) state request fp label) (rpc_serve A state (hq_authorization request) (RpcApprove fp label))"
  "replies_alike (http_deny (dn_lan (ap_send A)) state request fp) (rpc_serve A state (hq_authorization request) (RpcDeny fp))"
  "replies_alike (http_list_lan (dn_lan (ap_send A)) state request) (rpc_serve A state (hq_authorization request) RpcListLan)"
  "replies_alike (http_list_inbox (ap_inbox A) state request) (rpc_serve A state (hq_authorization request) RpcListInbox)"
  unfolding http_handlers
  by (rule replies_alike_auth, unfold rpc_handle.simps api_list_trusted_def api_list_pending_def api_approve_def api_deny_def api_list_lan_def
      http_open_def api_open_def, intro alike_rules)+

lemma send_handler_alike:
  fixes A :: "('p, 'i, 'c, 'o, 'j, 's) ApiEnv"
  assumes "into_proto dto = Inr q"
  shows "replies_alike (http_send_transfer (ap_send A) state request dto) (rpc_serve A state (hq_authorization request) (RpcSend q))"
  unfolding http_send_transfer_def
proof (rule replies_alike_auth)
  have "sr_bind (sr_gets (\<lambda>_. into_proto dto)) f = f q" for f :: "SendRequest \<Rightarrow> ('s DaemonWorld, ApiError, HttpBody) sr"
    using assms by (simp add: sr_bind_def sr_gets_def fun_eq_iff)
  then show "replies_alike (sr_bind (sr_gets (\<lambda>_. into_proto dto)) (\<lambda>proto.
      sr_bind (sr_map_err from_status (daemon_send_files (ap_send A) state proto)) (\<lambda>transfer_id. sr_return (BodyJson (JObj [(''transfer_id'', JStr transfer_id)])))))
      (rpc_handle A state (RpcSend q))"
    unfolding rpc_handle.simps by (simp only:) (intro alike_rules)
qed

lemma api_reply_alike:
  assumes "replies_alike h c"
  shows "snd (api_reply h w) = snd (c w) \<and> (hs_status (fst (api_reply h w)) = 200 \<longleftrightarrow> is_ok (fst (c w)))"
proof -
  obtain r w' where h: "h w = (r, w')" by force
  then have "snd (c w) = w'" "is_ok r \<longleftrightarrow> is_ok (fst (c w))" "\<And>e. r = Inl e \<Longrightarrow> ae_status e \<noteq> 200"
    using assms by (auto simp: replies_alike_def dest!: spec [of _ w])
  then show ?thesis using h by (cases r) (auto simp: api_reply_def is_ok_def)
qed

lemma get_routes:
  assumes "hq_method request = MethodGet"
  shows "hq_path request = [''api'', ''v1'', ''status''] \<Longrightarrow> http_serve A state request = api_reply (http_status (ap_version A) state request)"
    "hq_path request = [''api'', ''v1'', ''peers'', ''trusted''] \<Longrightarrow> http_serve A state request = api_reply (http_list_trusted (dn_lan (ap_send A)) state request)"
    "hq_path request = [''api'', ''v1'', ''peers'', ''lan''] \<Longrightarrow> http_serve A state request = api_reply (http_list_lan (dn_lan (ap_send A)) state request)"
    "hq_path request = [''api'', ''v1'', ''localsend'', ''pending-peers''] \<Longrightarrow>
       http_serve A state request = api_reply (http_list_pending (dn_lan (ap_send A)) state request)"
    "hq_path request = [''api'', ''v1'', ''inbox''] \<Longrightarrow> http_serve A state request = api_reply (http_list_inbox (ap_inbox A) state request)"
    "hq_path request = [''api'', ''v1'', ''transfers'', ''active''] \<Longrightarrow> http_serve A state request = api_reply (http_list_active state request)"
    "hq_path request = [''api'', ''v1'', ''events''] \<Longrightarrow> http_serve A state request = api_reply (http_events (ap_json_string A) state request)"
  by (simp_all add: http_serve_def on_get_def assms)

lemma post_routes:
  assumes "hq_method request = MethodPost"
  shows "hq_path request = [''api'', ''v1'', ''localsend'', ''pending-peers'', e, ''approve''] \<Longrightarrow> e \<noteq> [] \<Longrightarrow> hq_label request = Inr label \<Longrightarrow>
       http_serve A state request = api_reply (http_approve (dn_lan (ap_send A)) state request e label)"
    "hq_path request = [''api'', ''v1'', ''localsend'', ''pending-peers'', e, ''deny''] \<Longrightarrow> e \<noteq> [] \<Longrightarrow>
       http_serve A state request = api_reply (http_deny (dn_lan (ap_send A)) state request e)"
    "hq_path request = [''api'', ''v1'', ''transfers'', e, ''resume''] \<Longrightarrow> e \<noteq> [] \<Longrightarrow> http_serve A state request = api_reply (http_resume state request e)"
    "hq_path request = [''api'', ''v1'', ''transfers'', e, ''cancel''] \<Longrightarrow> e \<noteq> [] \<Longrightarrow> http_serve A state request = api_reply (http_cancel state request e)"
    "hq_path request = [''api'', ''v1'', ''transfers'', ''send''] \<Longrightarrow> hq_send request = Inr dto \<Longrightarrow>
       http_serve A state request = api_reply (http_send_transfer (ap_send A) state request dto)"
  by (simp_all add: http_serve_def on_post_def with_json_def assms)

lemma http_as_rpc_get:
  assumes "http_as_rpc request = Some call" "hq_method request = MethodGet"
  shows "(hq_path request, call) \<in> {([''api'', ''v1'', ''status''], RpcGetStatus), ([''api'', ''v1'', ''peers'', ''trusted''], RpcListTrusted),
     ([''api'', ''v1'', ''peers'', ''lan''], RpcListLan), ([''api'', ''v1'', ''localsend'', ''pending-peers''], RpcListPending),
     ([''api'', ''v1'', ''inbox''], RpcListInbox), ([''api'', ''v1'', ''transfers'', ''active''], RpcListActive), ([''api'', ''v1'', ''events''], RpcWatch)}"
  using assms(1) unfolding http_as_rpc_def assms(2) by (simp only: simp_thms if_True split: if_splits) simp_all

lemma http_as_rpc_post:
  assumes "http_as_rpc request = Some call" "hq_method request = MethodPost"
  obtains (approve) e label where "hq_path request = [''api'', ''v1'', ''localsend'', ''pending-peers'', e, ''approve'']" "e \<noteq> []"
      "hq_label request = Inr label" "call = RpcApprove e label"
  | (deny) e where "hq_path request = [''api'', ''v1'', ''localsend'', ''pending-peers'', e, ''deny'']" "e \<noteq> []" "call = RpcDeny e"
  | (resume) e where "hq_path request = [''api'', ''v1'', ''transfers'', e, ''resume'']" "e \<noteq> []" "call = RpcResume e"
  | (cancel) e where "hq_path request = [''api'', ''v1'', ''transfers'', e, ''cancel'']" "e \<noteq> []" "call = RpcCancel e"
  | (send) dto q where "hq_path request = [''api'', ''v1'', ''transfers'', ''send'']" "hq_send request = Inr dto" "into_proto dto = Inr q" "call = RpcSend q"
  using assms(1) unfolding http_as_rpc_def assms(2)
  by (simp add: approve deny resume cancel send split: list.split_asm if_split_asm sum.split_asm)

text \<open>
  C15. The two interfaces agree. For every HTTP request that corresponds to a gRPC call (the status, the listings, the
  event stream, approving and denying a peer, sending, resuming and cancelling), under any authorization header, both
  leave the daemon in the same state, and HTTP answers 200 exactly when the call succeeds.
\<close>

theorem http_and_grpc_agree:
  assumes "http_as_rpc request = Some call"
  shows "snd (http_serve A state request w) = snd (rpc_serve A state (hq_authorization request) call w)
    \<and> (hs_status (fst (http_serve A state request w)) = 200 \<longleftrightarrow> is_ok (fst (rpc_serve A state (hq_authorization request) call w)))"
proof -
  have "\<exists>h. replies_alike h (rpc_serve A state (hq_authorization request) call) \<and> http_serve A state request = api_reply h"
  proof (cases "hq_method request")
    case MethodGet
    from http_as_rpc_get [OF assms this] show ?thesis
      by (elim insertE emptyE) (auto simp: get_routes [OF MethodGet] intro: handlers_alike)
  next
    case MethodPost
    from http_as_rpc_post [OF assms this] show ?thesis
      by cases (auto simp: post_routes [OF MethodPost] intro: handlers_alike send_handler_alike)
  qed (use assms in \<open>simp_all add: http_as_rpc_def\<close>)
  then show ?thesis using api_reply_alike by metis
qed

section \<open>The listing of the inbox\<close>

definition inbox_entry :: "InboxEnv \<Rightarrow> path \<Rightarrow> string \<Rightarrow> bytes \<Rightarrow> InboxEntry" where
  "inbox_entry I dir name content = \<lparr>ie_file_name = from_utf8_lossy (str_bytes name), ie_path = path_display (dir @ [name]),
     ie_size = of_nat (length content), ie_modified_unix_seconds = (case ib_modified I (dir @ [name]) of Some t \<Rightarrow> sint t | None \<Rightarrow> 0)\<rparr>"

definition listed :: "fs \<Rightarrow> path \<Rightarrow> string \<Rightarrow> bytes \<Rightarrow> bool" where
  "listed fs dir name content \<longleftrightarrow> fs (dir @ [name]) = Some (File content) \<and> \<not> ends_with ''.incoming'' (from_utf8_lossy (str_bytes name))"

lemma inbox_loop_lists:
  assumes "\<forall>n \<in> set names. fs (dir @ [n]) \<noteq> None" and "distinct names"
  shows "\<exists>es. inbox_loop I fs dir names = Inr es
    \<and> set es = {inbox_entry I dir n c |n c. n \<in> set names \<and> listed fs dir n c} \<and> length es = card {n \<in> set names. \<exists>c. listed fs dir n c}"
  using assms
proof (induction names)
  case (Cons n names)
  then obtain es where es: "inbox_loop I fs dir names = Inr es"
      "set es = {inbox_entry I dir n c |n c. n \<in> set names \<and> listed fs dir n c}" "length es = card {n \<in> set names. \<exists>c. listed fs dir n c}"
    by auto
  show ?case
  proof (cases "\<exists>c. listed fs dir n c")
    case True
    then obtain c where c: "listed fs dir n c" by blast
    then have only: "listed fs dir n d \<longleftrightarrow> d = c" for d by (auto simp: listed_def)
    have "{m \<in> set (n # names). \<exists>c. listed fs dir m c} = insert n {m \<in> set names. \<exists>c. listed fs dir m c}" using c by auto
    moreover have "n \<notin> {m \<in> set names. \<exists>c. listed fs dir m c}" using Cons.prems(2) by simp
    ultimately have "card {m \<in> set (n # names). \<exists>c. listed fs dir m c} = Suc (length es)" using es(3) by simp
    moreover have "inbox_loop I fs dir (n # names) = Inr (inbox_entry I dir n c # es)"
      using c es(1) by (simp add: listed_def inbox_entry_def)
    moreover have "set (inbox_entry I dir n c # es) = {inbox_entry I dir m c |m c. m \<in> set (n # names) \<and> listed fs dir m c}"
    proof (intro equalityI subsetI)
      fix x assume "x \<in> set (inbox_entry I dir n c # es)"
      then consider "x = inbox_entry I dir n c" | m d where "x = inbox_entry I dir m d" "m \<in> set names" "listed fs dir m d"
        using es(2) by auto
      then show "x \<in> {inbox_entry I dir m c |m c. m \<in> set (n # names) \<and> listed fs dir m c}" by cases (use c in auto)
    next
      fix x assume "x \<in> {inbox_entry I dir m c |m c. m \<in> set (n # names) \<and> listed fs dir m c}"
      then obtain m d where "x = inbox_entry I dir m d" "m = n \<or> m \<in> set names" "listed fs dir m d" by auto
      then show "x \<in> set (inbox_entry I dir n c # es)" using only es(2) by auto
    qed
    ultimately show ?thesis by auto
  next
    case False
    then have "{m \<in> set (n # names). \<exists>c. listed fs dir m c} = {m \<in> set names. \<exists>c. listed fs dir m c}"
      "{inbox_entry I dir m c |m c. m \<in> set (n # names) \<and> listed fs dir m c} = {inbox_entry I dir m c |m c. m \<in> set names \<and> listed fs dir m c}" by auto
    moreover have "inbox_loop I fs dir (n # names) = Inr es"
      using False Cons.prems(1) es(1) by (auto simp: listed_def Let_def split: option.splits node.splits)
    ultimately show ?thesis using es(2,3) by auto
  qed
qed simp

text \<open>
  C40. The listing of the inbox is exact, and the same over both interfaces: when the inbox is a directory, it succeeds and
  lists, in the order of their names, exactly the files directly in it whose name does not end in \<open>.incoming\<close>, each once,
  with its full path, its size and its time; transfers in progress and directories do not show. When there is no inbox
  yet, the listing is empty.
\<close>

theorem inbox_listing_exact:
  assumes names: "\<forall>dir. distinct (ib_names I fs dir) \<and> set (ib_names I fs dir) = {n. fs (dir @ [n]) \<noteq> None}"
  shows "(walk fs [] inbox_dir = Inr dir \<and> fs dir = Some Dir \<longrightarrow>
      (\<exists>es. list_inbox_entries I inbox_dir fs = Inr es \<and> http_inbox_entries I inbox_dir fs = Inr es \<and> sorted (map ie_file_name es)
        \<and> set es = {inbox_entry I dir n c |n c. listed fs dir n c} \<and> length es = card {n. \<exists>c. listed fs dir n c}))
    \<and> (\<not> is_ok (fs_metadata inbox_dir fs) \<longrightarrow> list_inbox_entries I inbox_dir fs = Inr [] \<and> http_inbox_entries I inbox_dir fs = Inr [])"
proof (intro conjI impI)
  assume d: "walk fs [] inbox_dir = Inr dir \<and> fs dir = Some Dir"
  have all: "n \<in> set (ib_names I fs dir)" if "listed fs dir n c" for n c using that names by (simp add: listed_def)
  obtain es where es: "inbox_loop I fs dir (ib_names I fs dir) = Inr es"
      "set es = {inbox_entry I dir n c |n c. n \<in> set (ib_names I fs dir) \<and> listed fs dir n c}"
      "length es = card {n \<in> set (ib_names I fs dir). \<exists>c. listed fs dir n c}"
    using inbox_loop_lists [of "ib_names I fs dir" fs dir I] names by auto
  have "list_inbox_entries I inbox_dir fs = Inr (sort_key ie_file_name es)"
    using d es(1) by (simp add: list_inbox_entries_def read_dir_def fs_metadata_def is_ok_def ok_or_def)
  moreover have "{n \<in> set (ib_names I fs dir). \<exists>c. listed fs dir n c} = {n. \<exists>c. listed fs dir n c}"
    "{inbox_entry I dir n c |n c. n \<in> set (ib_names I fs dir) \<and> listed fs dir n c} = {inbox_entry I dir n c |n c. listed fs dir n c}"
    using all by auto
  ultimately show "\<exists>es. list_inbox_entries I inbox_dir fs = Inr es \<and> http_inbox_entries I inbox_dir fs = Inr es \<and> sorted (map ie_file_name es)
      \<and> set es = {inbox_entry I dir n c |n c. listed fs dir n c} \<and> length es = card {n. \<exists>c. listed fs dir n c}"
    using es(2,3) by (auto simp: inbox_entries_agree(1))
next
  assume "\<not> is_ok (fs_metadata inbox_dir fs)"
  then show "list_inbox_entries I inbox_dir fs = Inr []" "http_inbox_entries I inbox_dir fs = Inr []"
    by (simp_all add: list_inbox_entries_def http_inbox_entries_def)
qed

section \<open>Witnesses\<close>

definition demo_watch :: ApiRequest where
  "demo_watch = \<lparr>hq_method = MethodGet, hq_path = [''api'', ''v1'', ''events''], hq_authorization = HeaderText ''Basic token'',
     hq_label = Inr None, hq_send = Inl (415, ''unsupported'')\<rparr>"

theorem api_needs_token_witness:
  "\<forall>(A :: (unit, unit, unit, unit, unit, unit) ApiEnv) w. \<exists>message.
     rpc_serve A demo_state (HeaderText ''Basic token'') (RpcApprove ''aa'' None) w = (Inl (grpc_status CodeUnauthenticated message), w)
   \<and> http_serve A demo_state demo_watch w = (\<lparr>hs_status = 401, hs_body = BodyJson (JObj [(''error'', JStr message)])\<rparr>, w)"
proof (intro allI)
  fix A :: "(unit, unit, unit, unit, unit, unit) ApiEnv" and w :: "unit DaemonWorld"
  have "HeaderText ''Basic token'' \<noteq> HeaderText (''Bearer '' @ ''token'')" "ds_api_token demo_state = ''token''" "api_route demo_watch"
    "hq_authorization demo_watch = HeaderText ''Basic token''"
    by (simp_all add: demo_state_def demo_watch_def api_route_def)
  with api_needs_token [of "HeaderText ''Basic token''" "''token''" demo_state A]
  show "\<exists>message. rpc_serve A demo_state (HeaderText ''Basic token'') (RpcApprove ''aa'' None) w = (Inl (grpc_status CodeUnauthenticated message), w)
   \<and> http_serve A demo_state demo_watch w = (\<lparr>hs_status = 401, hs_body = BodyJson (JObj [(''error'', JStr message)])\<rparr>, w)" by blast
qed

definition demo_approve :: ApiRequest where
  "demo_approve = \<lparr>hq_method = MethodPost, hq_path = [''api'', ''v1'', ''localsend'', ''pending-peers'', ''aa'', ''approve''],
     hq_authorization = HeaderText ''Bearer token'', hq_label = Inr None, hq_send = Inl (415, ''unsupported'')\<rparr>"

theorem http_and_grpc_agree_witness:
  "\<forall>(A :: (unit, unit, unit, unit, unit, unit) ApiEnv) w. snd (http_serve A demo_state demo_approve w)
     = snd (rpc_serve A demo_state (HeaderText ''Bearer token'') (RpcApprove ''aa'' None) w)"
proof (intro allI)
  fix A :: "(unit, unit, unit, unit, unit, unit) ApiEnv" and w :: "unit DaemonWorld"
  have "http_as_rpc demo_approve = Some (RpcApprove ''aa'' None)" by (simp add: http_as_rpc_def demo_approve_def)
  from http_and_grpc_agree [OF this, of A demo_state w] show "snd (http_serve A demo_state demo_approve w)
     = snd (rpc_serve A demo_state (HeaderText ''Bearer token'') (RpcApprove ''aa'' None) w)" by (simp add: demo_approve_def)
qed

definition demo_inbox :: fs where
  "demo_inbox p = (if p = [] \<or> p = [''in''] then Some Dir
     else if p = [''in'', ''b''] then Some (File [1, 2]) else if p = [''in'', ''a''] then Some (File []) else None)"

definition demo_names :: InboxEnv where
  "demo_names = \<lparr>ib_names = \<lambda>fs dir. filter (\<lambda>n. fs (dir @ [n]) \<noteq> None) (if dir = [] then [''in''] else [''b'', ''a'']), ib_modified = \<lambda>_. None\<rparr>"

theorem inbox_listing_exact_witness:
  "\<exists>es. list_inbox_entries demo_names [''in''] demo_inbox = Inr es \<and> http_inbox_entries demo_names [''in''] demo_inbox = Inr es
     \<and> inbox_entry demo_names [''in''] ''b'' [1, 2] \<in> set es"
proof -
  have "\<forall>dir. distinct (ib_names demo_names demo_inbox dir) \<and> set (ib_names demo_names demo_inbox dir) = {n. demo_inbox (dir @ [n]) \<noteq> None}"
    by (auto simp: demo_names_def demo_inbox_def append_eq_Cons_conv)
  moreover have "walk demo_inbox [] [''in''] = Inr [''in'']" "demo_inbox [''in''] = Some Dir"
    by (simp_all add: demo_inbox_def has_nul_def)
  moreover have "\<not> ends_with ''.incoming'' (from_utf8_lossy (str_bytes ''b''))" by code_simp
  then have "listed demo_inbox [''in''] ''b'' [1, 2]" by (simp add: listed_def demo_inbox_def)
  ultimately show ?thesis
    using inbox_listing_exact [of demo_names demo_inbox "[''in'']" "[''in'']"] by blast
qed

end
