(* ===== verification/Spec2Isabelle.thy ===== *)
theory Spec2Isabelle
  imports Native_Properties Trust_Store Pairing Stun Native_Transport Candidates Session_Gate Native_Discovery Daemon_Wan LocalSend_Client Daemon_Http
begin

text \<open>
  A verification development of NightBridge, a daemon that sends and receives files between
  machines: over its own protocol on QUIC (the native protocol), over the LocalSend protocol on
  HTTP, on the LAN and, with the help of a rendezvous server, over the WAN.

  \<^bold>\<open>The program.\<close> The paths below are under \<open>src/crates\<close>. \<open>core\<close> holds the identity of a node (key
  pair, fingerprint, short authentication string, vaults), the trust database and the configuration.
  \<open>protocol-native-v1\<close> is the native protocol: messages and frames, chunk plans, the manifest of
  resumable transfers, sender and receiver, identity proofs and pairing, TLS identity, STUN,
  candidates and hole punching, mDNS discovery. \<open>protocol-localsend-v2\<close> is the LocalSend side:
  sessions, inbox, server, discovery and client. \<open>rendezvous\<close> lets peers find the addresses of one
  another. \<open>daemon\<close> puts them together: it listens for native connections and LocalSend uploads, registers with the
  rendezvous server, sends on request, and offers a gRPC and an HTTP interface with an event stream and hooks.

  \<^bold>\<open>Conventions.\<close> A Rust \<open>Result\<close> is a sum with the error on the left, \<open>?\<close> is \<open>res_bind\<close>, or \<open>sr_bind\<close>
  where state is threaded. Machine integers are words of their width. A \<open>String\<close> is the list of
  its UTF-8 bytes as characters, byte strings are lists of 8-bit words. Records and datatypes have the
  fields and constructors of the source. Errors of \<open>anyhow\<close> are kept with their
  outermost context. A hash map is an association list; where its order can be observed, the order is a parameter.

  \<^bold>\<open>Parameters.\<close> What is not in the sources is an argument, and what is relied on is a named
  hypothesis with a concrete instance in a witness: BLAKE3, SHA-256, HKDF, Ed25519 (\<open>ed25519_ok\<close>,
  \<open>unforged\<close>, \<open>message_bound\<close>), the JSON codecs, QUIC and its channel binding, the HTTP client, mDNS,
  sockets, clocks, random identifiers, Unicode lower case outside ASCII, the order of a directory.

  \<^bold>\<open>Foundations.\<close> \<open>NB_Prelude\<close> (results and collections of rules), \<open>NB_Bytes\<close> (big-endian numbers; the
  locale \<open>frame_codec\<close>), \<open>NB_Text\<close>, \<open>NB_Trim\<close> (text), \<open>NB_Ranges\<close> (intervals of bytes; the locale
  \<open>byte_ranges\<close>), \<open>NB_Fs\<close> (a file system of directories and files with path resolution, and the state
  monad \<open>sr\<close>), \<open>NB_Net\<close> (addresses with their order, parser and printer).

  \<^bold>\<open>Native transfers.\<close> \<open>Native_Error\<close>, \<open>Dto\<close>, \<open>Framing\<close> and \<open>Chunk_Frame\<close> model \<open>error.rs\<close>, \<open>dto.rs\<close>,
  \<open>framing.rs\<close> and the frames of \<open>transfer.rs\<close>: streams read back as written, and a reader
  accepts only exact encodings. \<open>Chunk\<close> and \<open>Manifest_Ranges\<close> model \<open>chunk.rs\<close> and the ranges of
  \<open>manifest.rs\<close>: chunk plans end and partition a file, and both ways of merging ranges agree (two
  interpretations of \<open>byte_ranges\<close>). \<open>Manifest\<close> models the SQLite store of \<open>manifest.rs\<close> with its reachable
  states: resume queries are exact, and a transfer is completed only when every byte is verified.
  \<open>Native_Transfer\<close> models \<open>transfer.rs\<close>; \<open>Transfer_Safety\<close> shows that a receiver is confined to its inbox,
  \<open>Transfer_Integrity\<close> that finishing publishes exactly the verified files, \<open>Transfer_Names\<close> that a free name
  is found (\<open>numbered_names\<close>), \<open>Transfer_Delivery\<close> and \<open>Transfer_End\<close> that an in-process transfer delivers
  (\<open>file_delivery\<close>). \<open>Native_Properties\<close> states these.

  \<^bold>\<open>Identity and trust.\<close> \<open>Identity\<close> models \<open>core/src/identity\<close> and \<open>api_token.rs\<close>, \<open>Trust_Store\<close> models
  \<open>trust/store.rs\<close> as three tables with an invariant over all sequences of operations, \<open>Pairing\<close> models
  \<open>auth.rs\<close>, \<open>pairing.rs\<close> and \<open>keypair.rs\<close>: proofs are bound to a key and to a session, and both sides
  derive the same code. \<open>Tls_Vault\<close> (\<open>identity_vault\<close>) and \<open>Native_Transport\<close> model \<open>tls.rs\<close> of both
  protocols and \<open>transport.rs\<close>: the certificate survives restarts, and only the pinned one is accepted.

  \<^bold>\<open>Native sessions.\<close> \<open>Native_Session\<close> models \<open>client.rs\<close> and the native listener of \<open>daemon/src/main.rs\<close>
  as two programs over a byte stream each. \<open>Session_Delivery\<close> composes them: each side is run on what the
  other has written so far, and after six rounds of this exchange nothing changes any more, for no
  side waits more often than that; both have then ended without error and the files have arrived.
  \<open>Session_Gate\<close> shows that, whatever bytes arrive, only an authenticated and trusted peer with
  a bounded request changes anything, and only in the inbox.

  \<^bold>\<open>Finding peers.\<close> \<open>Stun\<close>, \<open>Candidates\<close> (\<open>candidates.rs\<close>, \<open>hole_punch.rs\<close>) and \<open>Native_Discovery\<close> model
  what is sent and accepted, the complete and ordered pairs of candidates, and dialing in every order of arrival.
  \<open>Rendezvous_Registry\<close> (\<open>expiring_store\<close>) and \<open>Rendezvous_Service\<close> model the server and its client; a lookup over the
  wire refines a table of leases. \<open>Core_Config\<close> models \<open>config.rs\<close>, \<open>paths.rs\<close> and \<open>hooks.rs\<close>; \<open>Daemon_Wan\<close>
  models \<open>daemon/src/wan.rs\<close>: a lookup returns what the daemon registered.

  \<^bold>\<open>LocalSend.\<close> \<open>LocalSend_Session\<close>, \<open>LocalSend_Inbox\<close>, \<open>LocalSend_Server\<close>, \<open>LocalSend_Discovery\<close> and
  \<open>LocalSend_Client\<close> model the files of the same names in \<open>protocol-localsend-v2/src\<close>: sessions refine
  upload slots, an upload publishes exactly its verified body, the server changes the disk only for
  files offered in an admitted request, the announcer acts only for a cause and only towards safe targets, and
  client and server composed deliver every file.

  \<^bold>\<open>The daemon.\<close> \<open>Daemon_Events\<close> models \<open>events.rs\<close>, the streams of \<open>api/grpc.rs\<close> and \<open>api/http.rs\<close>, and
  \<open>hooks\<close>: all outlets carry the heard events in order, and a webhook is tried a bounded
  number of times. \<open>Daemon_Peers\<close> models \<open>native_lan.rs\<close>, \<open>localsend_lan.rs\<close> and \<open>api/peers.rs\<close>: a peer is trusted
  only as it announced itself. \<open>Daemon_Transfers\<close> models \<open>state.rs\<close> and \<open>api/transfers.rs\<close>: sends are announced
  with one conclusion, and go only to pinned, trusted peers at their announced address. \<open>Daemon_Http\<close> models \<open>api/auth.rs\<close>,
  \<open>api/inbox.rs\<close>, \<open>api/http.rs\<close>, the services of \<open>api/grpc.rs\<close> and the assets of \<open>webui/src/lib.rs\<close>: without
  the token nothing is done or revealed, both interfaces agree, and the inbox listing is exact. The state of the daemon
  (\<open>DaemonWorld\<close>) is the bus, the trust database, the disk with the manifest, the network and a counter of the calls to
  surroundings that may answer differently each time.

  \<^bold>\<open>Bounds.\<close> Loops of the source are recursions with a proof of termination, and there is no fuel; only the
  search for a free name of the LocalSend inbox, which counts without a limit, is a partial function, and delivery shows that
  it returns. The native search ends after 9999 numbers in the source, so delivery assumes fewer names in the inbox. A
  control frame, a chunk frame and the total size of a transfer have the limits of the source. Events are
  numbered in 64 bits, so distinct identifiers assume fewer than \<open>2^64 - 1\<close> events.

  \<^bold>\<open>Not modelled.\<close> Concurrency inside a handler: requests run one after the other, so uploads that race for the same
  temporary file, or the clock of the rendezvous server read before its lock is taken, are outside. A stream that breaks
  off in the middle of a read, and time limits of tasks: the limit of 30 seconds on the delivery of a hook, the keep-alive
  comments of the event stream. Starting and stopping the listeners, signals and logging in \<open>daemon/src/main.rs\<close>,
  \<open>rendezvous/src/main.rs\<close> and the accept loops, which only connect libraries. The metrics registry, of which the rendered text is a
  parameter. Symbolic links and permissions of the file system. The schema migration of the trust database. The order of rows
  with equal times, which the queries leave open, is that of the table. The command line
  client, the terminal and desktop interfaces and the web front end, which call the modelled interfaces and draw.
  The code generated from the protocol buffers, whose messages are records here, and the software kits made from them.
\<close>

end
